(* ===== verification/JsPrelude.thy ===== *)
theory JsPrelude
  imports Main "HOL-Library.AList" "HOL-Library.Multiset"
begin

text \<open>
  The part of the JavaScript language and standard library that the modelled sources use,
  and the generic lemmas the component theories share.

  \<^item> Numbers. Every number of the modelled data is an integer, so a JavaScript number is
    an \<open>int\<close>. \<open>js_show\<close> is \<open>String(n)\<close> (what a template literal prints) and
    \<open>js_Number\<close> is \<open>Number(s)\<close> followed by \<open>Number.isInteger\<close>: \<open>Some n\<close> when the text
    denotes the integer \<open>n\<close>, \<open>None\<close> when it denotes NaN, an infinity or a fraction.
    Decimal texts are evaluated exactly; doubles agree up to \<open>2 ^ 53\<close>.
  \<^item> Arrays. \<open>js_nth\<close> is \<open>xs[i]\<close> (\<open>None\<close> for \<open>undefined\<close>), \<open>findIndex\<close> and \<open>indexOf\<close>
    return \<open>None\<close> for \<open>-1\<close>, \<open>splice_insert\<close> is \<open>xs.splice(i, 0, ...ys)\<close>.
  \<^item> Objects and Maps that are read by key, tested for emptiness and listed in insertion
    order are association lists: \<open>AList.update\<close> overwrites in place or appends, as property
    assignment and \<open>Map.set\<close> do.
  \<^item> Optional booleans are only ever read for their truth, so they are \<open>bool\<close>.
\<close>

named_theorems model_defs "definitions unfolded by the evaluation of closed instances"

section \<open>Optional values\<close>

text \<open>\<open>x ?? d\<close>\<close>

definition or_else :: "'a option \<Rightarrow> 'a \<Rightarrow> 'a" where
  "or_else x d = (case x of None \<Rightarrow> d | Some v \<Rightarrow> v)"

lemma or_else_simps [simp]: "or_else None d = d" "or_else (Some v) d = v"
  by (simp_all add: or_else_def)

text \<open>\<open>x ?? y\<close> where \<open>y\<close> may be missing as well\<close>

definition or_option :: "'a option \<Rightarrow> 'a option \<Rightarrow> 'a option" where
  "or_option x y = (case x of None \<Rightarrow> y | Some v \<Rightarrow> Some v)"

lemma or_option_simps [simp]: "or_option None y = y" "or_option (Some v) y = Some v"
  by (simp_all add: or_option_def)

section \<open>Arrays\<close>

definition js_nth :: "'a list \<Rightarrow> int \<Rightarrow> 'a option" where
  "js_nth xs i = (if 0 \<le> i \<and> nat i < length xs then Some (xs ! nat i) else None)"

lemma js_nth_Some: "js_nth xs i = Some x \<Longrightarrow> x \<in> set xs"
  by (auto simp: js_nth_def split: if_splits)

lemma js_nth_Nil [simp]: "js_nth [] i = None"
  by (simp add: js_nth_def)

lemma js_nth_of_nat: "n < length xs \<Longrightarrow> js_nth xs (int n) = Some (xs ! n)"
  by (simp add: js_nth_def)

fun findIndex :: "('a \<Rightarrow> bool) \<Rightarrow> 'a list \<Rightarrow> nat option" where
  "findIndex P [] = None"
| "findIndex P (x # xs) = (if P x then Some 0 else map_option Suc (findIndex P xs))"

definition indexOf :: "'a list \<Rightarrow> 'a \<Rightarrow> nat option" where
  "indexOf xs x = findIndex (\<lambda>y. y = x) xs"

lemma findIndex_SomeD:
  "findIndex P xs = Some i \<Longrightarrow> i < length xs \<and> P (xs ! i) \<and> (\<forall>j < i. \<not> P (xs ! j))"
proof (induction xs arbitrary: i)
  case Nil
  then show ?case by simp
next
  case (Cons x xs)
  show ?case
  proof (cases "P x")
    case True
    with Cons.prems show ?thesis by simp
  next
    case False
    with Cons.prems obtain k where k: "findIndex P xs = Some k" and i: "i = Suc k"
      by auto
    from Cons.IH [OF k] i False show ?thesis
      by (auto simp: less_Suc_eq_0_disj)
  qed
qed

lemma findIndex_None_iff: "findIndex P xs = None \<longleftrightarrow> (\<forall>x \<in> set xs. \<not> P x)"
  by (induction xs) auto

lemma indexOf_SomeD: "indexOf xs x = Some i \<Longrightarrow> i < length xs \<and> xs ! i = x"
  by (auto simp: indexOf_def dest: findIndex_SomeD)

lemma indexOf_None_iff: "indexOf xs x = None \<longleftrightarrow> x \<notin> set xs"
  by (auto simp: indexOf_def findIndex_None_iff)

lemma find_SomeD: "List.find P xs = Some x \<Longrightarrow> x \<in> set xs \<and> P x"
  by (auto simp: find_Some_iff)

definition splice_insert :: "int \<Rightarrow> 'a list \<Rightarrow> 'a list \<Rightarrow> 'a list" where
  "splice_insert i ys xs =
     (let n = int (length xs);
          start = (if i < 0 then max 0 (n + i) else min i n)
      in take (nat start) xs @ ys @ drop (nat start) xs)"

lemma mset_splice_insert: "mset (splice_insert i ys xs) = mset xs + mset ys"
proof -
  have "mset (take k xs) + mset (drop k xs) = mset xs" for k
    by (metis append_take_drop_id mset_append)
  then show ?thesis
    by (simp add: splice_insert_def Let_def ac_simps)
qed

lemma length_splice_insert [simp]: "length (splice_insert i ys xs) = length xs + length ys"
  by (metis mset_splice_insert mset_append size_mset length_append)

text \<open>\<open>new Map(xs.map((x) => [f(x), x]))\<close> read with \<open>get\<close>: a later entry replaces an
  earlier one under the same key.\<close>

definition last_by :: "('a \<Rightarrow> 'k) \<Rightarrow> 'a list \<Rightarrow> 'k \<Rightarrow> 'a option" where
  "last_by f xs k = List.find (\<lambda>x. f x = k) (rev xs)"

lemma last_by_SomeD: "last_by f xs k = Some x \<Longrightarrow> x \<in> set xs \<and> f x = k"
  by (auto simp: last_by_def dest: find_SomeD)

lemma last_by_None_iff: "last_by f xs k = None \<longleftrightarrow> k \<notin> f ` set xs"
  by (auto simp: last_by_def find_None_iff)

lemma last_by_distinct:
  assumes "distinct (map f xs)" and "x \<in> set xs"
  shows "last_by f xs (f x) = Some x"
proof -
  from assms(2) obtain y where y: "last_by f xs (f x) = Some y"
    using last_by_None_iff [of f xs "f x"] by (cases "last_by f xs (f x)") auto
  then have "y \<in> set xs" "f y = f x" by (auto dest: last_by_SomeD)
  with assms have "y = x" by (auto simp: distinct_map inj_on_def)
  with y show ?thesis by simp
qed

section \<open>Grouping into an insertion-ordered Map\<close>

text \<open>
  The loop \<open>for (const x of xs) { const g = m.get(f(x)) ?? []; g.push(x); m.set(f(x), g) }\<close>.
\<close>

definition group_push :: "'k \<Rightarrow> 'v \<Rightarrow> ('k \<times> 'v list) list \<Rightarrow> ('k \<times> 'v list) list" where
  "group_push k v m = AList.update k (or_else (map_of m k) [] @ [v]) m"

fun group_into :: "('v \<Rightarrow> 'k) \<Rightarrow> 'v list \<Rightarrow> ('k \<times> 'v list) list \<Rightarrow> ('k \<times> 'v list) list" where
  "group_into f [] m = m"
| "group_into f (x # xs) m = group_into f xs (group_push (f x) x m)"

definition group_by :: "('v \<Rightarrow> 'k) \<Rightarrow> 'v list \<Rightarrow> ('k \<times> 'v list) list" where
  "group_by f xs = group_into f xs []"

lemma mset_concat_update:
  "mset (concat (map snd (AList.update k (or_else (map_of m k) [] @ [v]) m)))
     = add_mset v (mset (concat (map snd m)))"
proof (induction m)
  case Nil
  then show ?case by simp
next
  case (Cons p m)
  then show ?case by (cases p) auto
qed

lemma mset_group_into:
  "mset (concat (map snd (group_into f xs m))) = mset xs + mset (concat (map snd m))"
  by (induction xs arbitrary: m) (auto simp: group_push_def mset_concat_update)

lemma mset_group_by: "mset (concat (map snd (group_by f xs))) = mset xs"
  by (simp add: group_by_def mset_group_into)

lemma distinct_group_into: "distinct (map fst m) \<Longrightarrow> distinct (map fst (group_into f xs m))"
  by (induction xs arbitrary: m) (auto simp: group_push_def distinct_update)

lemma distinct_group_by: "distinct (map fst (group_by f xs))"
  by (simp add: group_by_def distinct_group_into)

lemma lookup_group_into:
  "or_else (map_of (group_into f xs m) k) []
     = or_else (map_of m k) [] @ filter (\<lambda>x. f x = k) xs"
  by (induction xs arbitrary: m) (auto simp: group_push_def update_conv)

lemma lookup_group_by: "or_else (map_of (group_by f xs) k) [] = filter (\<lambda>x. f x = k) xs"
  by (simp add: group_by_def lookup_group_into)

lemma group_by_mem:
  assumes "(k, vs) \<in> set (group_by f xs)"
  shows "vs = filter (\<lambda>x. f x = k) xs"
proof -
  from assms have "map_of (group_by f xs) k = Some vs"
    by (simp add: distinct_group_by map_of_is_SomeI)
  then show ?thesis using lookup_group_by [of f xs k] by simp
qed

lemma update_nonempty: "[] \<notin> snd ` set m \<Longrightarrow> v \<noteq> [] \<Longrightarrow> [] \<notin> snd ` set (AList.update k v m)"
  by (induction m) auto

lemma group_into_nonempty: "[] \<notin> snd ` set m \<Longrightarrow> [] \<notin> snd ` set (group_into f xs m)"
  by (induction xs arbitrary: m) (auto simp: group_push_def update_nonempty)

lemma group_by_nonempty: "(k, vs) \<in> set (group_by f xs) \<Longrightarrow> vs \<noteq> []"
  using group_into_nonempty [of "[]" f xs] by (force simp: group_by_def)

end
