(* ===== verification/JsText.thy ===== *)
theory JsText
  imports JsPrelude
begin

text \<open>
  JavaScript text: \<open>String(n)\<close> for integers, \<open>Number(s)\<close> with \<open>Number.isInteger\<close>,
  \<open>startsWith\<close> and \<open>slice\<close>, with the round trip between printing and parsing and the fact
  that a printed number never contains a dash past its sign.
\<close>

section \<open>Digits\<close>

definition digits :: string where
  "digits = ''0123456789''"

definition digit_val :: "char \<Rightarrow> nat option" where
  "digit_val c = indexOf digits c"

definition digit_char :: "nat \<Rightarrow> char" where
  "digit_char d = digits ! d"

lemma digits_distinct: "distinct digits" "length digits = 10"
  by (simp_all add: digits_def)

lemma digit_val_Some_iff: "digit_val c \<noteq> None \<longleftrightarrow> c \<in> set digits"
  by (simp add: digit_val_def indexOf_None_iff)

lemma indexOf_nth_distinct: "distinct xs \<Longrightarrow> i < length xs \<Longrightarrow> indexOf xs (xs ! i) = Some i"
proof (induction xs arbitrary: i)
  case Nil
  then show ?case by simp
next
  case (Cons x xs)
  then show ?case by (cases i) (auto simp: indexOf_def)
qed

lemma digit_val_char [simp]: "d < 10 \<Longrightarrow> digit_val (digit_char d) = Some d"
  by (simp add: digit_val_def digit_char_def indexOf_nth_distinct digits_distinct)

lemma digit_val_sign [simp]: "digit_val (CHR ''-'') = None" "digit_val (CHR ''+'') = None"
  by (simp_all add: digit_val_def indexOf_None_iff digits_def)

section \<open>String(n)\<close>

fun show_nat :: "nat \<Rightarrow> string" where
  "show_nat n =
     (if n < 10 then [digit_char n] else show_nat (n div 10) @ [digit_char (n mod 10)])"

declare show_nat.simps [simp del]

definition js_show :: "int \<Rightarrow> string" where
  "js_show n = (if n < 0 then ''-'' @ show_nat (nat (- n)) else show_nat (nat n))"

lemma show_nat_digits: "c \<in> set (show_nat n) \<Longrightarrow> digit_val c \<noteq> None"
proof (induction n rule: show_nat.induct)
  case (1 n)
  show ?case
  proof (cases "n < 10")
    case True
    with "1.prems" show ?thesis by (simp add: show_nat.simps [of n])
  next
    case False
    with "1.prems" have "c \<in> set (show_nat (n div 10)) \<or> c = digit_char (n mod 10)"
      by (auto simp: show_nat.simps [of n])
    with "1.IH" False show ?thesis by auto
  qed
qed

lemma show_nat_not_Nil [simp]: "show_nat n \<noteq> []"
  by (subst show_nat.simps) simp

lemma show_nat_no_dash [simp]: "CHR ''-'' \<notin> set (show_nat n)"
  using show_nat_digits by fastforce

section \<open>Number(s), integral\<close>

fun take_digits :: "nat \<Rightarrow> nat \<Rightarrow> string \<Rightarrow> nat \<times> nat \<times> string" where
  "take_digits v k [] = (v, k, [])"
| "take_digits v k (c # cs) =
     (case digit_val c of
        None \<Rightarrow> (v, k, c # cs)
      | Some d \<Rightarrow> take_digits (10 * v + d) (Suc k) cs)"

definition is_js_space :: "char \<Rightarrow> bool" where
  "is_js_space c \<longleftrightarrow>
     c \<in> {CHR '' '', CHR 0x09, CHR 0x0A, CHR 0x0B, CHR 0x0C, CHR 0x0D, CHR 0xA0}"

definition js_trim :: "string \<Rightarrow> string" where
  "js_trim s = rev (dropWhile is_js_space (rev (dropWhile is_js_space s)))"

fun take_sign :: "string \<Rightarrow> bool \<times> string" where
  "take_sign [] = (False, [])"
| "take_sign (c # cs) =
     (if c = CHR ''-'' then (True, cs) else if c = CHR ''+'' then (False, cs)
      else (False, c # cs))"

text \<open>\<open>m * 10 ^ e\<close> when that is an integer\<close>

definition scale_ten :: "nat \<Rightarrow> int \<Rightarrow> nat option" where
  "scale_ten m e =
     (if 0 \<le> e then Some (m * 10 ^ nat e)
      else if m mod 10 ^ nat (- e) = 0 then Some (m div 10 ^ nat (- e)) else None)"

text \<open>What follows the digits of a decimal literal: nothing, or an exponent.\<close>

definition take_exponent :: "string \<Rightarrow> int option" where
  "take_exponent r =
     (case r of
        [] \<Rightarrow> Some 0
      | c # q \<Rightarrow>
          (if c = CHR ''e'' \<or> c = CHR ''E'' then
             (case take_sign q of (neg, w) \<Rightarrow>
                (case take_digits 0 0 w of (v, k, rest) \<Rightarrow>
                   (if k = 0 \<or> rest \<noteq> [] then None
                    else Some (if neg then - int v else int v))))
           else None))"

definition decimal_integer :: "string \<Rightarrow> int option" where
  "decimal_integer t =
     (case take_sign t of (neg, u) \<Rightarrow>
        (case take_digits 0 0 u of (iv, ik, r) \<Rightarrow>
           (case (case r of
                    [] \<Rightarrow> (iv, 0, r)
                  | c # q \<Rightarrow> (if c = CHR ''.'' then take_digits iv 0 q else (iv, 0, r))) of
              (fv, fk, r') \<Rightarrow>
                (if ik + fk = 0 then None
                 else (case take_exponent r' of
                         None \<Rightarrow> None
                       | Some e \<Rightarrow>
                           map_option (\<lambda>m. if neg then - int m else int m)
                             (scale_ten fv (e - int fk)))))))"

definition radix_digit :: "char \<Rightarrow> nat option" where
  "radix_digit c =
     (case digit_val c of
        Some d \<Rightarrow> Some d
      | None \<Rightarrow>
          (if c \<in> {CHR ''a'', CHR ''A''} then Some 10 else if c \<in> {CHR ''b'', CHR ''B''} then Some 11
           else if c \<in> {CHR ''c'', CHR ''C''} then Some 12 else if c \<in> {CHR ''d'', CHR ''D''} then Some 13
           else if c \<in> {CHR ''e'', CHR ''E''} then Some 14 else if c \<in> {CHR ''f'', CHR ''F''} then Some 15
           else None))"

fun radix_value :: "nat \<Rightarrow> nat \<Rightarrow> string \<Rightarrow> int option" where
  "radix_value b v [] = Some (int v)"
| "radix_value b v (c # cs) =
     (case radix_digit c of
        None \<Rightarrow> None
      | Some d \<Rightarrow> (if d < b then radix_value b (b * v + d) cs else None))"

definition js_Number :: "string \<Rightarrow> int option" where
  "js_Number s =
     (let t = js_trim s
      in if t = [] then Some 0
         else if 2 < length t \<and> t ! 0 = CHR ''0'' \<and> t ! 1 \<in> {CHR ''x'', CHR ''X''}
           then radix_value 16 0 (drop 2 t)
         else if 2 < length t \<and> t ! 0 = CHR ''0'' \<and> t ! 1 \<in> {CHR ''o'', CHR ''O''}
           then radix_value 8 0 (drop 2 t)
         else if 2 < length t \<and> t ! 0 = CHR ''0'' \<and> t ! 1 \<in> {CHR ''b'', CHR ''B''}
           then radix_value 2 0 (drop 2 t)
         else decimal_integer t)"

section \<open>Printing then parsing\<close>

lemma take_digits_append:
  "(\<forall>c \<in> set xs. digit_val c \<noteq> None) \<Longrightarrow>
     take_digits v k (xs @ ys) =
       (case take_digits v k xs of (v', k', _) \<Rightarrow> take_digits v' k' ys)"
  by (induction xs arbitrary: v k) auto

lemma take_digits_show_nat: "\<exists>k'. k' > 0 \<and> take_digits 0 0 (show_nat n) = (n, k', [])"
proof (induction n rule: show_nat.induct)
  case (1 n)
  show ?case
  proof (cases "n < 10")
    case True
    then show ?thesis by (simp add: show_nat.simps [of n])
  next
    case False
    with "1.IH" obtain k' where k': "take_digits 0 0 (show_nat (n div 10)) = (n div 10, k', [])"
      by blast
    have "take_digits 0 0 (show_nat (n div 10) @ [digit_char (n mod 10)]) = (n, Suc k', [])"
      by (subst take_digits_append) (auto simp: k' dest: show_nat_digits)
    with False show ?thesis by (simp add: show_nat.simps [of n])
  qed
qed

lemma digit_not_space: "digit_val c \<noteq> None \<Longrightarrow> \<not> is_js_space c"
  unfolding digit_val_Some_iff by (auto simp: digits_def is_js_space_def)

lemma trim_digits: "(\<forall>c \<in> set s. digit_val c \<noteq> None) \<Longrightarrow> js_trim s = s"
proof -
  assume "\<forall>c \<in> set s. digit_val c \<noteq> None"
  then have *: "\<forall>c \<in> set s. \<not> is_js_space c" using digit_not_space by blast
  then have "dropWhile is_js_space s = s" by (cases s) auto
  moreover from * have "dropWhile is_js_space (rev s) = rev s"
    by (cases s rule: rev_cases) auto
  ultimately show ?thesis by (simp add: js_trim_def)
qed

lemma digits_head:
  "digit_val c = Some d \<Longrightarrow> take_sign (c # cs) = (False, c # cs)"
  using digit_val_sign by (cases "c = CHR ''-''"; cases "c = CHR ''+''") simp_all

lemma decimal_integer_show_nat: "decimal_integer (show_nat n) = Some (int n)"
proof -
  obtain c cs where s: "show_nat n = c # cs" by (cases "show_nat n") auto
  then obtain d where "digit_val c = Some d"
    using show_nat_digits [of c n] by auto
  then have sign: "take_sign (show_nat n) = (False, show_nat n)"
    unfolding s by (rule digits_head)
  obtain k where "k > 0" "take_digits 0 0 (show_nat n) = (n, k, [])"
    using take_digits_show_nat [of n] by blast
  then show ?thesis
    by (simp add: decimal_integer_def sign take_exponent_def scale_ten_def)
qed

lemma js_Number_digits:
  assumes "\<forall>c \<in> set s. digit_val c \<noteq> None" and "s \<noteq> []"
  shows "js_Number s = decimal_integer s"
proof -
  have "s ! 1 \<notin> {CHR ''x'', CHR ''X'', CHR ''o'', CHR ''O'', CHR ''b'', CHR ''B''}" if "2 < length s"
  proof -
    from that have "s ! 1 \<in> set s" by simp
    with assms(1) have "digit_val (s ! 1) \<noteq> None" by blast
    then show ?thesis unfolding digit_val_Some_iff by (auto simp: digits_def)
  qed
  with assms show ?thesis
    by (auto simp: js_Number_def trim_digits Let_def)
qed

lemma js_Number_show_nat [simp]: "js_Number (show_nat n) = Some (int n)"
  by (subst js_Number_digits) (auto simp: decimal_integer_show_nat dest: show_nat_digits)

lemma js_Number_show [simp]: "0 \<le> n \<Longrightarrow> js_Number (js_show n) = Some n"
  by (simp add: js_show_def)

lemma js_show_no_dash [simp]: "0 \<le> n \<Longrightarrow> CHR ''-'' \<notin> set (js_show n)"
  by (simp add: js_show_def)

lemma js_show_no_colon: "CHR '':'' \<notin> set (js_show n)"
proof -
  have "digit_val (CHR '':'') = None" by code_simp
  then show ?thesis using show_nat_digits [of "CHR '':''"] by (auto simp: js_show_def)
qed

lemma js_show_not_Nil [simp]: "js_show n \<noteq> []"
  by (simp add: js_show_def)

lemma show_nat_inj: "show_nat a = show_nat b \<Longrightarrow> a = b"
  by (metis decimal_integer_show_nat of_nat_eq_iff option.inject)

lemma dash_Cons_not_show: "CHR ''-'' # s \<noteq> show_nat n"
  using show_nat_no_dash [of n] by (metis list.set_intros(1))

lemma js_show_inj: "js_show a = js_show b \<Longrightarrow> a = b"
  using dash_Cons_not_show dash_Cons_not_show [symmetric]
  by (auto simp: js_show_def dest!: show_nat_inj split: if_splits)

section \<open>Prefixes\<close>

definition startsWith :: "string \<Rightarrow> string \<Rightarrow> bool" where
  "startsWith s p \<longleftrightarrow> take (length p) s = p"

definition slice_from :: "nat \<Rightarrow> string \<Rightarrow> string" where
  "slice_from n s = drop n s"

lemma startsWith_append [simp]: "startsWith (p @ s) p"
  by (simp add: startsWith_def)

lemma slice_from_append [simp]: "slice_from (length p) (p @ s) = s"
  by (simp add: slice_from_def)

lemma indexOf_dash_append:
  "x \<notin> set xs \<Longrightarrow> indexOf (xs @ x # ys) x = Some (length xs)"
  by (induction xs) (auto simp: indexOf_def)

text \<open>Two texts split at their first, and at their last, dash\<close>

lemma append_first_eq:
  "xs @ x # ys = xs' @ x # ys' \<Longrightarrow> x \<notin> set xs \<Longrightarrow> x \<notin> set xs' \<Longrightarrow> xs = xs' \<and> ys = ys'"
proof (induction xs arbitrary: xs')
  case Nil
  then show ?case by (cases xs') auto
next
  case (Cons a xs)
  then show ?case by (cases xs') auto
qed

lemma append_dash_eq:
  assumes "xs @ x # ys = xs' @ x # ys'" and "x \<notin> set ys" and "x \<notin> set ys'"
  shows "xs = xs' \<and> ys = ys'"
proof -
  have "rev ys @ x # rev xs = rev ys' @ x # rev xs'"
    using arg_cong [OF assms(1), of rev] by simp
  then have "rev ys = rev ys' \<and> rev xs = rev xs'"
    using assms(2,3) by (intro append_first_eq [where x = x]) auto
  then show ?thesis by simp
qed

lemma show_first: "\<exists>c s. js_show i = c # s \<and> c \<in> insert (CHR ''-'') (set digits)"
proof (cases "i < 0")
  case True
  then show ?thesis by (simp add: js_show_def)
next
  case False
  obtain c s where "show_nat (nat i) = c # s" by (cases "show_nat (nat i)") auto
  then show ?thesis
    using False show_nat_digits [of c "nat i"] unfolding digit_val_Some_iff by (auto simp: js_show_def)
qed

end
