(* ===== verification/GameTypes.thy ===== *)
theory GameTypes
  imports JsText
begin

text \<open>
  The data of \<open>frontend/src/components/game-websocket-provider.tsx\<close>: the snapshots the server
  sends, the requests the client sends, and the client's lobby state. A field \<open>f?: T\<close> is a
  \<open>T option\<close> (an optional boolean, read for its truth only, a \<open>bool\<close>); a number is an
  \<open>int\<close>; a string union is a \<open>datatype\<close>, or a \<open>string\<close> where the code declares \<open>string\<close>.
  Field names carry a prefix that names their record.
\<close>

section \<open>Cards and compositions\<close>

record CardSnapshot =
  card_rank :: "int option"
  card_suit :: "int option"
  card_isJoker :: bool

record CompositionSnapshot =
  comp_type :: string
  comp_cards :: "CardSnapshot list"
  comp_jokerRepresentations :: "(int \<times> CardSnapshot list) list option"
  comp_points :: int
  comp_complete :: bool

text \<open>
  \<open>jokerRepresentations\<close> is an object with integer keys; the association list is in the order
  \<open>Object.entries\<close> lists it.
\<close>

record CardActivitySnapshot =
  cact_kind :: string
  cact_playerId :: string

record CompositionActivitySnapshot =
  act_tableIndex :: int
  act_kind :: "string option"
  act_playerId :: "string option"
  act_cardActivities :: "(int \<times> CardActivitySnapshot) list option"

record CardPlacement =
  place_insertIndex :: "int option"
  place_reclaimJokerIndex :: "int option"

record DraftCompositionSnapshot =
  draft_id :: string
  draft_tableIndex :: "int option"
  draft_insertIndex :: "int option"
  draft_cardPlacements :: "CardPlacement list option"
  draft_cards :: "CardSnapshot list"

datatype DrawSource = DrawDeck | DrawDiscard

record TurnActivitySnapshot =
  ta_playerId :: string
  ta_round :: int
  ta_turnNumber :: int
  ta_drawSource :: "DrawSource option"
  ta_baselineCompositions :: "CompositionSnapshot list option"
  ta_draftCompositions :: "DraftCompositionSnapshot list option"
  ta_compositionActivities :: "CompositionActivitySnapshot list option"

section \<open>Requests\<close>

record CompositionDraftRequest =
  reqc_cards :: "CardSnapshot list"

record CompositionAdditionRequest =
  reqa_compositionIndex :: int
  reqa_insertIndex :: "int option"
  reqa_cards :: "CardSnapshot list"

record JokerReclaimRequest =
  reqr_compositionIndex :: int
  reqr_jokerIndex :: int
  reqr_replacementCard :: CardSnapshot

record TablePlayRequest =
  play_compositions :: "CompositionDraftRequest list"
  play_additions :: "CompositionAdditionRequest list"
  play_reclaims :: "JokerReclaimRequest list"

record DealingChoiceRequest =
  deal_dealType :: string
  deal_cutSize :: int
  deal_order :: "int list option"

section \<open>Game and room\<close>

datatype GameMode = QuickMode | FullMode

record PlayerStateSnapshot =
  ps_playerId :: string
  ps_handCount :: int
  ps_hand :: "CardSnapshot list option"
  ps_totalPoints :: int
  ps_pointsGained :: int
  ps_unadjustedTotalPoints :: "int option"
  ps_hasOpened :: bool
  ps_forfeited :: bool

record TurnSnapshot =
  turn_number :: int
  turn_playerIndex :: int
  turn_playerId :: "string option"
  turn_hasDrawn :: bool
  turn_mustUseDiscardDraw :: bool

record GameSnapshot =
  game_gameMode :: "GameMode option"
  game_phase :: int
  game_round :: int
  game_dealerIndex :: int
  game_roundWinnerIndex :: int
  game_turn :: TurnSnapshot
  game_players :: "PlayerStateSnapshot list"
  game_hand :: "CardSnapshot list"
  game_drawPileCount :: int
  game_discardPile :: "CardSnapshot list"
  game_activeCompositions :: "CompositionSnapshot list"
  game_turnActivity :: "TurnActivitySnapshot option"

record ActiveEmote =
  emote_id :: string
  emote_emoji :: string
  emote_expiresAt :: string

record PlayerSnapshot =
  pl_playerId :: string
  pl_userId :: "string option"
  pl_sessionId :: "string option"
  pl_name :: string
  pl_imageUrl :: "string option"
  pl_connected :: bool
  pl_seat :: int
  pl_isHost :: bool
  pl_canReconnect :: bool
  pl_forfeited :: bool
  pl_activeEmote :: "ActiveEmote option"

datatype ProposalKind = MutualEndProposal | TechnicalAbortProposal

record EndGameProposalSnapshot =
  prop_id :: string
  prop_kind :: ProposalKind
  prop_proposerPlayerId :: string
  prop_description :: "string option"
  prop_eligiblePlayerIds :: "string list"
  prop_agreedPlayerIds :: "string list"
  prop_expiresAt :: string

datatype ConclusionKind = ForfeitEnd | MutualEnd | TechnicalAbort

record GameConclusionSnapshot =
  concl_kind :: ConclusionKind
  concl_winnerPlayerId :: "string option"
  concl_reportId :: "string option"

record PendingDealChoiceSnapshot =
  pdc_dealerIndex :: int
  pdc_chooserIndex :: int
  pdc_chooserPlayerId :: string

record RoomSnapshot =
  room_code :: string
  room_phase :: string
  room_gameMode :: "GameMode option"
  room_hostPlayerId :: string
  room_dealerIndex :: "int option"
  room_pendingDealChoice :: "PendingDealChoiceSnapshot option"
  room_endProposal :: "EndGameProposalSnapshot option"
  room_conclusion :: "GameConclusionSnapshot option"
  room_spectatorCount :: "int option"
  room_players :: "PlayerSnapshot list"

section \<open>Actions, social state and the lobby\<close>

record ActionResult =
  ar_requestId :: "string option"
  ar_action :: string
  ar_playerId :: string
  ar_ok :: bool

record SocialUser =
  su_id :: string
  su_name :: string
  su_imageUrl :: "string option"
  su_online :: bool
  su_activeGameStartedAt :: "string option"

record FriendRequest =
  fr_id :: string
  fr_user :: SocialUser
  fr_createdAt :: string

record GameInvite =
  gi_id :: string
  gi_user :: SocialUser
  gi_roomCode :: string
  gi_createdAt :: string
  gi_expiresAt :: string

record SocialState =
  social_userId :: string
  social_friends :: "SocialUser list"
  social_incomingFriendRequests :: "FriendRequest list"
  social_outgoingFriendRequestUserIds :: "string list"
  social_gameInvites :: "GameInvite list"

record CompletedGameSnapshot =
  done_room :: RoomSnapshot
  done_game :: GameSnapshot

datatype ConnectionStatus = Idle | Disconnected | Connecting | Connected

record LobbyState =
  ls_connectionStatus :: ConnectionStatus
  ls_sessionId :: string
  ls_playerId :: string
  ls_room :: "RoomSnapshot option"
  ls_game :: "GameSnapshot option"
  ls_lastActionResult :: "ActionResult option"
  ls_lastError :: "string option"
  ls_lastErrorCode :: "string option"
  ls_lastErrorMessage :: "string option"
  ls_lastErrorId :: int
  ls_lastEvent :: "string option"
  ls_completedGame :: "CompletedGameSnapshot option"
  ls_isSpectating :: bool
  ls_social :: SocialState

end
