(* ===== verification/CardUtils.thy ===== *)
theory CardUtils
  imports GameTypes
begin

text \<open>
  \<open>card-equality.ts\<close> and \<open>game-card-utils.ts\<close>: card equality, the point value of sets and runs
  that may hold jokers, and the tests for a valid and for a completed composition. The reference
  definitions \<open>is_set\<close> and \<open>fits_run\<close> say what the two loops of the code decide; \<open>set_total_iff\<close>
  and \<open>run_total_iff\<close> show that the loops decide exactly that.
\<close>

section \<open>Equality and names\<close>

definition cardsEqual :: "CardSnapshot \<Rightarrow> CardSnapshot \<Rightarrow> bool" where
  "cardsEqual l r \<longleftrightarrow>
     card_isJoker l = card_isJoker r \<and> card_rank l = card_rank r \<and> card_suit l = card_suit r"

lemma cardsEqual_iff [simp]: "cardsEqual l r \<longleftrightarrow> l = r"
  by (auto simp: cardsEqual_def)

definition rankLabels :: "int \<Rightarrow> string option" where
  "rankLabels r = map_of
     [(1, ''A''), (2, ''2''), (3, ''3''), (4, ''4''), (5, ''5''), (6, ''6''), (7, ''7''),
      (8, ''8''), (9, ''9''), (10, ''10''), (11, ''J''), (12, ''Q''), (13, ''K'')] r"

text \<open>
  The texts of \<open>paraglide/messages.js\<close> are generated by the build: \<open>m\<close> gives a text by its
  key, \<open>card_name_text\<close> is \<open>m.card_name({ rank, suit })\<close>.
\<close>

definition suitNames :: "(string \<Rightarrow> string) \<Rightarrow> int \<Rightarrow> string option" where
  "suitNames m s = map_option m (map_of
     [(0, ''card_hearts''), (1, ''card_diamonds''), (2, ''card_clubs''), (3, ''card_spades'')] s)"

definition cardName ::
  "(string \<Rightarrow> string) \<Rightarrow> (string \<Rightarrow> string \<Rightarrow> string) \<Rightarrow> CardSnapshot \<Rightarrow> string" where
  "cardName m card_name_text cd =
     (if card_isJoker cd then m ''joker''
      else card_name_text
        (or_else (rankLabels (or_else (card_rank cd) 0)) (m ''unknown''))
        (or_else (suitNames m (or_else (card_suit cd) (-1))) (m ''unknown'')))"

section \<open>Point values\<close>

definition rankPointValue :: "int \<Rightarrow> bool \<Rightarrow> int" where
  "rankPointValue r aceLow =
     (if r = 1 then (if aceLow then 1 else 10)
      else if 11 \<le> r \<and> r \<le> 13 then 10
      else if 2 \<le> r \<and> r \<le> 10 then r
      else 0)"

definition jokerReclaimPointValue ::
  "CompositionSnapshot \<Rightarrow> int \<Rightarrow> CardSnapshot \<Rightarrow> int option" where
  "jokerReclaimPointValue snap jokerIndex replacementCard =
     (if \<not> (case js_nth (comp_cards snap) jokerIndex of Some c \<Rightarrow> card_isJoker c | None \<Rightarrow> False)
      then None
      else (case card_rank replacementCard of
        None \<Rightarrow> None
      | Some r \<Rightarrow>
          (let nextCard = js_nth (comp_cards snap) (jokerIndex + 1);
               nextRepresentation =
                 Option.bind (comp_jokerRepresentations snap) (\<lambda>m. map_of m (jokerIndex + 1));
               nextRank =
                 (case nextCard of
                    Some c \<Rightarrow>
                      (if card_isJoker c
                       then Option.bind nextRepresentation (\<lambda>cs. Option.bind (js_nth cs 0) card_rank)
                       else card_rank c)
                  | None \<Rightarrow> None);
               aceLow = (comp_type snap = ''run'' \<and> jokerIndex = 0 \<and> r = 1 \<and> nextRank = Some 2)
           in Some (rankPointValue r aceLow))))"

definition hasValidNaturalIdentity :: "CardSnapshot \<Rightarrow> bool" where
  "hasValidNaturalIdentity cd \<longleftrightarrow>
     card_isJoker cd \<or>
     (case card_rank cd of None \<Rightarrow> False | Some r \<Rightarrow> 1 \<le> r \<and> r \<le> 13) \<and>
     (case card_suit cd of None \<Rightarrow> False | Some s \<Rightarrow> 0 \<le> s \<and> s \<le> 3)"

definition naturals :: "CardSnapshot list \<Rightarrow> CardSnapshot list" where
  "naturals cards = filter (\<lambda>c. \<not> card_isJoker c) cards"

subsection \<open>Sets\<close>

text \<open>The loop over the natural cards: \<open>False\<close> where the code returns \<open>null\<close>.\<close>

fun setLoop :: "int \<Rightarrow> int set \<Rightarrow> CardSnapshot list \<Rightarrow> bool" where
  "setLoop setRank seenSuits [] = True"
| "setLoop setRank seenSuits (cd # cards) =
     (if card_rank cd \<noteq> Some setRank then False
      else (case card_suit cd of
              None \<Rightarrow> False
            | Some s \<Rightarrow> (if s \<in> seenSuits then False
                         else setLoop setRank (insert s seenSuits) cards)))"

definition draftSetPointTotal :: "CardSnapshot list \<Rightarrow> int option" where
  "draftSetPointTotal cards =
     (if length cards < 3 \<or> 4 < length cards \<or> list_ex (\<lambda>c. \<not> hasValidNaturalIdentity c) cards
      then None
      else (let naturalCards = naturals cards;
                setRank = or_else (Option.bind (js_nth naturalCards 0) card_rank) 1
            in if setLoop setRank {} naturalCards
               then Some (int (length cards) * rankPointValue setRank False)
               else None))"

subsection \<open>Runs\<close>

definition possiblePositions :: "int \<Rightarrow> int list" where
  "possiblePositions r = (if r = 1 then [1, 14] else [r])"

text \<open>The inner loop over the natural cards: \<open>fits\<close> for one window.\<close>

fun fitsWindow :: "int \<Rightarrow> int \<Rightarrow> int set \<Rightarrow> CardSnapshot list \<Rightarrow> bool" where
  "fitsWindow start final usedPositions [] = True"
| "fitsWindow start final usedPositions (cd # cards) =
     (case List.find (\<lambda>c. start \<le> c \<and> c \<le> final \<and> c \<notin> usedPositions)
             (possiblePositions (or_else (card_rank cd) 0)) of
        None \<Rightarrow> False
      | Some position \<Rightarrow> fitsWindow start final (insert position usedPositions) cards)"

definition windowTotal :: "int \<Rightarrow> int \<Rightarrow> int" where
  "windowTotal start final =
     foldl (\<lambda>total r. total + rankPointValue (if r = 14 then 1 else r) (r = 1)) 0 [start..final]"

definition runWindowStep ::
  "int \<Rightarrow> CardSnapshot list \<Rightarrow> int option \<Rightarrow> int \<Rightarrow> int option" where
  "runWindowStep runLength naturalCards best start =
     (let final = start + runLength - 1
      in if \<not> fitsWindow start final {} naturalCards then best
         else Some (max (or_else best 0) (windowTotal start final)))"

definition draftRunPointTotal :: "CardSnapshot list \<Rightarrow> int option" where
  "draftRunPointTotal cards =
     (if length cards < 3 \<or> 14 < length cards \<or> list_ex (\<lambda>c. \<not> hasValidNaturalIdentity c) cards
      then None
      else (let naturalCards = naturals cards;
                runSuit = Option.bind (js_nth naturalCards 0) card_suit
            in if list_ex (\<lambda>c. card_suit c \<noteq> runSuit \<or> card_rank c = None) naturalCards then None
               else (let runLength = int (length cards)
                     in foldl (runWindowStep runLength naturalCards) None [1..15 - runLength])))"

section \<open>Drafts\<close>

definition draftCompositionPointTotal :: "CardSnapshot list \<Rightarrow> string option \<Rightarrow> int option" where
  "draftCompositionPointTotal cards type =
     (if list_all card_isJoker cards then None
      else (let resolvedPoints =
                  (if type = Some ''set'' then draftSetPointTotal cards
                   else if type = Some ''run'' then draftRunPointTotal cards
                   else or_option (draftSetPointTotal cards) (draftRunPointTotal cards))
            in case resolvedPoints of
                 Some p \<Rightarrow> Some p
               | None \<Rightarrow>
                   (if list_ex card_isJoker cards
                       \<or> list_ex (\<lambda>c. \<not> hasValidNaturalIdentity c) cards then None
                    else Some (foldl (\<lambda>total c. total
                           + rankPointValue (or_else (card_rank c) 0) False) 0 cards))))"

definition isValidDraftComposition :: "CardSnapshot list \<Rightarrow> string option \<Rightarrow> bool" where
  "isValidDraftComposition cards type =
     (if type = Some ''set'' then draftSetPointTotal cards \<noteq> None
      else if type = Some ''run'' then draftRunPointTotal cards \<noteq> None
      else draftSetPointTotal cards \<noteq> None \<or> draftRunPointTotal cards \<noteq> None)"

definition isCompleteDraftComposition :: "CardSnapshot list \<Rightarrow> string option \<Rightarrow> bool" where
  "isCompleteDraftComposition cards type =
     (if list_ex card_isJoker cards then False
      else if type = Some ''set'' \<or> (type = None \<and> draftSetPointTotal cards \<noteq> None)
        then length cards = 4 \<and> draftSetPointTotal cards \<noteq> None
      else length cards = 14 \<and> draftRunPointTotal cards \<noteq> None)"

text \<open>A replacement of the joker at an index, and the composition's cards with it applied.\<close>

type_synonym Replacement = "int \<times> CardSnapshot"

definition previewCards :: "CompositionSnapshot \<Rightarrow> Replacement list \<Rightarrow> CardSnapshot list" where
  "previewCards snap replacements =
     map (\<lambda>(i, cd). case last_by fst replacements (int i) of
                        Some (_, replacement) \<Rightarrow> replacement | None \<Rightarrow> cd)
       (List.enumerate 0 (comp_cards snap))"

definition isCompleteCompositionPreview ::
  "CompositionSnapshot \<Rightarrow> CardSnapshot list \<Rightarrow> Replacement list \<Rightarrow> bool" where
  "isCompleteCompositionPreview snap additions replacements =
     (if comp_complete snap \<and> additions = [] \<and> replacements = [] then True
      else isCompleteDraftComposition (previewCards snap replacements @ additions)
             (Some (comp_type snap)))"

definition draftCompositionPreviewPointTotal ::
  "CompositionSnapshot \<Rightarrow> CardSnapshot list \<Rightarrow> Replacement list \<Rightarrow> int option" where
  "draftCompositionPreviewPointTotal snap additions replacements =
     draftCompositionPointTotal (previewCards snap replacements @ additions)
       (Some (comp_type snap))"


section \<open>The set loop decides the set rule\<close>

definition is_set :: "CardSnapshot list \<Rightarrow> bool" where
  "is_set cards \<longleftrightarrow>
     3 \<le> length cards \<and> length cards \<le> 4 \<and> list_all hasValidNaturalIdentity cards \<and>
     (\<exists>r. \<forall>c \<in> set (naturals cards). card_rank c = Some r) \<and>
     distinct (map card_suit (naturals cards))"

lemma naturals_not_joker: "c \<in> set (naturals cards) \<longleftrightarrow> c \<in> set cards \<and> \<not> card_isJoker c"
  by (auto simp: naturals_def)

lemma identity_natural:
  assumes "hasValidNaturalIdentity c" and "\<not> card_isJoker c"
  shows "\<exists>r s. card_rank c = Some r \<and> card_suit c = Some s \<and> 1 \<le> r \<and> r \<le> 13 \<and> 0 \<le> s \<and> s \<le> 3"
  using assms by (auto simp: hasValidNaturalIdentity_def split: option.splits)

lemma setLoop_iff:
  "setLoop r seen cs \<longleftrightarrow>
     (\<forall>c \<in> set cs. card_rank c = Some r \<and> card_suit c \<noteq> None \<and> card_suit c \<notin> Some ` seen) \<and>
     distinct (map card_suit cs)"
  by (induction cs arbitrary: seen) (auto simp: image_iff split: option.splits)

lemma first_natural_rank:
  assumes "\<forall>c \<in> set cs. card_rank c = Some r" and "cs = [] \<Longrightarrow> r = 1"
  shows "or_else (Option.bind (js_nth cs 0) card_rank) 1 = r"
  using assms by (cases cs) (auto simp: js_nth_def)

lemma set_total_iff:
  "draftSetPointTotal cards = Some p \<longleftrightarrow>
     is_set cards \<and>
     (\<exists>r. (\<forall>c \<in> set (naturals cards). card_rank c = Some r) \<and> (naturals cards = [] \<longrightarrow> r = 1) \<and>
          p = int (length cards) * rankPointValue r False)"
proof -
  let ?n = "naturals cards" and ?r = "or_else (Option.bind (js_nth (naturals cards) 0) card_rank) 1"
  have ident: "\<forall>c \<in> set ?n. card_suit c \<noteq> None" if "list_all hasValidNaturalIdentity cards"
    using that identity_natural by (fastforce simp: list_all_iff naturals_not_joker)
  have rank: "?r = r" if "\<forall>c \<in> set ?n. card_rank c = Some r" "?n = [] \<longrightarrow> r = 1" for r
    using first_natural_rank [of ?n r] that by blast
  have loop: "setLoop ?r {} ?n \<longleftrightarrow>
      (\<forall>c \<in> set ?n. card_rank c = Some ?r \<and> card_suit c \<noteq> None) \<and> distinct (map card_suit ?n)"
    by (simp add: setLoop_iff)
  have empty: "?n = [] \<Longrightarrow> ?r = 1" by simp
  have guard: "list_ex (\<lambda>c. \<not> hasValidNaturalIdentity c) cards \<longleftrightarrow> \<not> list_all hasValidNaturalIdentity cards"
    by (auto simp: list_ex_iff list_all_iff)
  show ?thesis
  proof
    assume L: "draftSetPointTotal cards = Some p"
    then have "3 \<le> length cards" "length cards \<le> 4" "list_all hasValidNaturalIdentity cards"
      and lp: "setLoop ?r {} ?n" and p: "p = int (length cards) * rankPointValue ?r False"
      unfolding draftSetPointTotal_def Let_def guard by (simp_all split: if_splits)
    then show "is_set cards \<and>
      (\<exists>r. (\<forall>c \<in> set ?n. card_rank c = Some r) \<and> (?n = [] \<longrightarrow> r = 1) \<and>
          p = int (length cards) * rankPointValue r False)"
      using empty unfolding is_set_def loop by blast
  next
    assume R: "is_set cards \<and>
      (\<exists>r. (\<forall>c \<in> set ?n. card_rank c = Some r) \<and> (?n = [] \<longrightarrow> r = 1) \<and>
          p = int (length cards) * rankPointValue r False)"
    then obtain r where r: "\<forall>c \<in> set ?n. card_rank c = Some r" "?n = [] \<longrightarrow> r = 1"
      and p: "p = int (length cards) * rankPointValue r False" by blast
    have "setLoop r {} ?n"
      unfolding setLoop_iff using R r ident by (auto simp: is_set_def)
    with R p rank [OF r] show "draftSetPointTotal cards = Some p"
      unfolding draftSetPointTotal_def Let_def guard is_set_def by simp
  qed
qed

lemma draft_set_total_None_iff: "draftSetPointTotal cards = None \<longleftrightarrow> \<not> is_set cards"
proof
  assume none: "draftSetPointTotal cards = None"
  show "\<not> is_set cards"
  proof
    assume set: "is_set cards"
    then obtain r where r: "\<forall>c \<in> set (naturals cards). card_rank c = Some r"
      by (auto simp: is_set_def)
    define r' where "r' = (if naturals cards = [] then 1 else r)"
    have "draftSetPointTotal cards = Some (int (length cards) * rankPointValue r' False)"
      using set r by (auto simp: set_total_iff r'_def)
    with none show False by simp
  qed
next
  assume "\<not> is_set cards"
  then show "draftSetPointTotal cards = None"
    by (cases "draftSetPointTotal cards") (simp_all add: set_total_iff)
qed

section \<open>The greedy run search decides the run rule\<close>

text \<open>
  Reference: the natural cards can be given pairwise different positions of the window
  \<open>start..final\<close>, an ace the position 1 or 14 and any other card its rank.
\<close>

definition position_ok :: "int \<Rightarrow> int \<Rightarrow> CardSnapshot \<Rightarrow> int \<Rightarrow> bool" where
  "position_ok start final c p \<longleftrightarrow>
     start \<le> p \<and> p \<le> final \<and> p \<in> set (possiblePositions (or_else (card_rank c) 0))"

definition fits_run :: "int \<Rightarrow> int \<Rightarrow> int set \<Rightarrow> CardSnapshot list \<Rightarrow> bool" where
  "fits_run start final used cs \<longleftrightarrow>
     (\<exists>ps. list_all2 (position_ok start final) cs ps \<and> distinct ps \<and> set ps \<inter> used = {})"

lemma find_position:
  "List.find (\<lambda>c. start \<le> c \<and> c \<le> final \<and> c \<notin> used) (possiblePositions (or_else (card_rank cd) 0)) = Some q
     \<Longrightarrow> position_ok start final cd q \<and> q \<notin> used"
  by (auto simp: position_ok_def dest: find_SomeD)

lemma fitsWindow_sound: "fitsWindow start final used cs \<Longrightarrow> fits_run start final used cs"
proof (induction start final used cs rule: fitsWindow.induct)
  case (1 start final used)
  then show ?case by (auto simp: fits_run_def)
next
  case (2 start final used cd cs)
  from "2.prems" obtain q where
    q: "List.find (\<lambda>c. start \<le> c \<and> c \<le> final \<and> c \<notin> used)
          (possiblePositions (or_else (card_rank cd) 0)) = Some q"
    and rest: "fitsWindow start final (insert q used) cs"
    by (auto split: option.splits)
  from "2.IH" [OF q rest] obtain ps where
    "list_all2 (position_ok start final) cs ps" "distinct ps" "set ps \<inter> insert q used = {}"
    by (auto simp: fits_run_def)
  with find_position [OF q] show ?case
    unfolding fits_run_def by (intro exI [of _ "q # ps"]) auto
qed

text \<open>The greedy choice loses nothing: only two aces can want the same position, and they can swap.\<close>

lemma swap_positions:
  assumes "list_all2 (position_ok start final) cs ps" and "start \<le> 14" and "14 \<le> final"
  shows "list_all2 (position_ok start final) cs (map (\<lambda>x. if x = 1 then 14 else x) ps)"
  using assms
  by (auto simp: list_all2_map2 position_ok_def possiblePositions_def split: if_splits
           elim!: list_all2_mono)

lemma fitsWindow_complete: "fits_run start final used cs \<Longrightarrow> fitsWindow start final used cs"
proof (induction cs arbitrary: used)
  case Nil
  then show ?case by simp
next
  case (Cons cd cs)
  from Cons.prems obtain p ps where
    p: "position_ok start final cd p" "p \<notin> used" and
    ps: "list_all2 (position_ok start final) cs ps" "distinct ps" "p \<notin> set ps" "set ps \<inter> used = {}"
    unfolding fits_run_def by (auto simp: list_all2_Cons1)
  let ?ok = "\<lambda>c. start \<le> c \<and> c \<le> final \<and> c \<notin> used"
    and ?cands = "possiblePositions (or_else (card_rank cd) 0)"
  have "List.find ?ok ?cands \<noteq> None"
    using p by (auto simp: find_None_iff position_ok_def)
  then obtain q where q: "List.find ?ok ?cands = Some q" by auto
  have "fits_run start final (insert q used) cs"
  proof (cases "q = p \<or> q \<notin> set ps")
    case True
    with ps show ?thesis unfolding fits_run_def by (intro exI [of _ ps]) auto
  next
    case False
    with q p have "q = 1" "p = 14"
      by (auto simp: possiblePositions_def position_ok_def split: if_splits)
    let ?ps = "map (\<lambda>x. if x = 1 then 14 else x) ps"
    have "list_all2 (position_ok start final) cs ?ps"
      using ps(1) p(1) \<open>p = 14\<close> by (intro swap_positions) (auto simp: position_ok_def)
    moreover have "distinct ?ps"
      using ps(2,3) \<open>p = 14\<close> by (auto simp: distinct_map inj_on_def)
    moreover have "set ?ps \<inter> insert q used = {}"
      using ps(4) p(2) \<open>p = 14\<close> \<open>q = 1\<close> by auto
    ultimately show ?thesis unfolding fits_run_def by blast
  qed
  with Cons.IH q show ?case by simp
qed

lemma fitsWindow_iff: "fitsWindow start final used cs \<longleftrightarrow> fits_run start final used cs"
  using fitsWindow_sound fitsWindow_complete by blast


text \<open>\<open>run_at start cards\<close>: the cards make a run whose lowest position is \<open>start\<close>.\<close>

definition run_cards :: "CardSnapshot list \<Rightarrow> bool" where
  "run_cards cards \<longleftrightarrow>
     3 \<le> length cards \<and> length cards \<le> 14 \<and> list_all hasValidNaturalIdentity cards \<and>
     (\<exists>s. \<forall>c \<in> set (naturals cards). card_suit c = s)"

definition run_at :: "int \<Rightarrow> CardSnapshot list \<Rightarrow> bool" where
  "run_at start cards \<longleftrightarrow>
     run_cards cards \<and> 1 \<le> start \<and> start + int (length cards) - 1 \<le> 14 \<and>
     fits_run start (start + int (length cards) - 1) {} (naturals cards)"

definition run_points :: "int \<Rightarrow> CardSnapshot list \<Rightarrow> int" where
  "run_points start cards = windowTotal start (start + int (length cards) - 1)"

lemma rankPointValue_nonneg: "0 \<le> rankPointValue r low"
  by (simp add: rankPointValue_def)

lemma foldl_add_nonneg: "0 \<le> a \<Longrightarrow> (\<And>x. 0 \<le> (f x :: int)) \<Longrightarrow> 0 \<le> foldl (\<lambda>t x. t + f x) a xs"
  by (induction xs arbitrary: a) auto

lemma windowTotal_nonneg: "0 \<le> windowTotal start final"
  unfolding windowTotal_def by (rule foldl_add_nonneg) (simp_all add: rankPointValue_nonneg)

text \<open>The outer loop keeps the best total of the windows that fit.\<close>

lemma run_fold_iff:
  assumes "\<forall>b. best = Some b \<longrightarrow> 0 \<le> b"
  shows "foldl (runWindowStep n cs) best starts = Some p \<longleftrightarrow>
    (best = Some p \<or> (\<exists>s \<in> set starts. fitsWindow s (s + n - 1) {} cs \<and> p = windowTotal s (s + n - 1))) \<and>
    (\<forall>b. best = Some b \<longrightarrow> b \<le> p) \<and>
    (\<forall>s \<in> set starts. fitsWindow s (s + n - 1) {} cs \<longrightarrow> windowTotal s (s + n - 1) \<le> p)"
  using assms
proof (induction starts arbitrary: best)
  case Nil
  then show ?case by auto
next
  case (Cons s starts)
  let ?best = "runWindowStep n cs best s" and ?t = "windowTotal s (s + n - 1)"
  have t: "0 \<le> ?t" by (rule windowTotal_nonneg)
  have "\<forall>b. ?best = Some b \<longrightarrow> 0 \<le> b"
    using Cons.prems t by (cases best) (auto simp: runWindowStep_def Let_def)
  then have IH: "foldl (runWindowStep n cs) ?best starts = Some p \<longleftrightarrow>
    (?best = Some p \<or> (\<exists>s \<in> set starts. fitsWindow s (s + n - 1) {} cs \<and> p = windowTotal s (s + n - 1))) \<and>
    (\<forall>b. ?best = Some b \<longrightarrow> b \<le> p) \<and>
    (\<forall>s \<in> set starts. fitsWindow s (s + n - 1) {} cs \<longrightarrow> windowTotal s (s + n - 1) \<le> p)"
    by (rule Cons.IH)
  have step: "foldl (runWindowStep n cs) best (s # starts) = foldl (runWindowStep n cs) ?best starts"
    by simp
  show ?case
  proof (cases "fitsWindow s (s + n - 1) {} cs")
    case False
    then have "?best = best" by (simp add: runWindowStep_def)
    then show ?thesis unfolding step IH using False by simp
  next
    case True
    then have b: "?best = Some (max (or_else best 0) ?t)"
      by (simp add: runWindowStep_def)
    show ?thesis
      unfolding step b IH [unfolded b] using True t by (cases best) (auto simp: max_def)
  qed
qed

lemma first_natural_suit:
  "(\<exists>s. \<forall>c \<in> set cs. card_suit c = s) \<longleftrightarrow>
     (\<forall>c \<in> set cs. card_suit c = Option.bind (js_nth cs 0) card_suit)"
  by (cases cs) (auto simp: js_nth_def)

lemma natural_has_rank:
  "list_all hasValidNaturalIdentity cards \<Longrightarrow> c \<in> set (naturals cards) \<Longrightarrow> card_rank c \<noteq> None"
  using identity_natural [of c] by (fastforce simp: list_all_iff naturals_not_joker)

lemma draftRunPointTotal_unfold:
  "draftRunPointTotal cards =
     (if run_cards cards
      then foldl (runWindowStep (int (length cards)) (naturals cards)) None [1..15 - int (length cards)]
      else None)"
proof -
  let ?suit = "Option.bind (js_nth (naturals cards) 0) card_suit"
  have guard: "list_ex (\<lambda>c. \<not> hasValidNaturalIdentity c) cards \<longleftrightarrow> \<not> list_all hasValidNaturalIdentity cards"
    by (auto simp: list_ex_iff list_all_iff)
  have "list_all hasValidNaturalIdentity cards \<Longrightarrow>
    list_ex (\<lambda>c. card_suit c \<noteq> ?suit \<or> card_rank c = None) (naturals cards) \<longleftrightarrow>
      \<not> (\<forall>c \<in> set (naturals cards). card_suit c = ?suit)"
    using natural_has_rank [of cards] by (fastforce simp: list_ex_iff)
  then show ?thesis
    unfolding draftRunPointTotal_def run_cards_def first_natural_suit [of "naturals cards"] guard Let_def
    by auto
qed

lemma run_total_iff:
  "draftRunPointTotal cards = Some p \<longleftrightarrow>
     (\<exists>start. run_at start cards \<and> p = run_points start cards) \<and>
     (\<forall>start. run_at start cards \<longrightarrow> run_points start cards \<le> p)"
proof (cases "run_cards cards")
  case False
  then show ?thesis by (auto simp: draftRunPointTotal_unfold run_at_def)
next
  case True
  then show ?thesis
    unfolding draftRunPointTotal_unfold
    by (subst if_P, simp, subst run_fold_iff) (auto simp: run_at_def run_points_def fitsWindow_iff)
qed


section \<open>Bounds\<close>

lemma window_bounds:
  "list_all (\<lambda>n. list_all (\<lambda>s. 6 \<le> windowTotal s (s + n - 1) \<and> windowTotal s (s + n - 1) \<le> 95)
     [1..15 - n]) [3..14]"
  by code_simp

lemma run_points_bounds: "run_at start cards \<Longrightarrow> 6 \<le> run_points start cards \<and> run_points start cards \<le> 95"
proof -
  assume at: "run_at start cards"
  define n where "n = int (length cards)"
  from at have "3 \<le> n" "n \<le> 14" "1 \<le> start" "start \<le> 15 - n"
    by (auto simp: run_at_def run_cards_def n_def)
  then have "n \<in> set [3..14]" "start \<in> set [1..15 - n]"
    unfolding set_upto by simp_all
  then show ?thesis
    using window_bounds unfolding list_all_iff run_points_def n_def [symmetric] by blast
qed

lemma set_points_bounds:
  assumes "is_set cards"
    and r: "\<forall>c \<in> set (naturals cards). card_rank c = Some r" and one: "naturals cards = [] \<longrightarrow> r = 1"
  shows "6 \<le> int (length cards) * rankPointValue r False \<and> int (length cards) * rankPointValue r False \<le> 40"
proof -
  have "1 \<le> r \<and> r \<le> 13"
  proof (cases "naturals cards")
    case Nil
    with one show ?thesis by simp
  next
    case (Cons c cs)
    then have c: "c \<in> set (naturals cards)" by simp
    with assms(1) obtain r' where "card_rank c = Some r'" "1 \<le> r'" "r' \<le> 13"
      using identity_natural [of c] by (auto simp: is_set_def list_all_iff naturals_not_joker)
    with r c show ?thesis by auto
  qed
  then have v: "2 \<le> rankPointValue r False" "rankPointValue r False \<le> 10"
    by (auto simp: rankPointValue_def)
  have n: "3 \<le> int (length cards)" "int (length cards) \<le> 4"
    using assms(1) by (simp_all add: is_set_def)
  have "3 * 2 \<le> int (length cards) * rankPointValue r False"
    using n v by (intro mult_mono) auto
  moreover have "int (length cards) * rankPointValue r False \<le> 4 * 10"
    using n v by (intro mult_mono) auto
  ultimately show ?thesis by simp
qed

text \<open>A draft the code accepts as a composition, of either kind, has between 6 and 95 points
  whatever the cards are.\<close>

theorem valid_draft_points_bounds:
  assumes "isValidDraftComposition cards type" and "draftCompositionPointTotal cards type = Some p"
  shows "6 \<le> p \<and> p \<le> 95"
proof -
  have set: "6 \<le> q \<and> q \<le> 95" if "draftSetPointTotal cards = Some q" for q
    using that set_points_bounds [of cards] by (fastforce simp: set_total_iff)
  have run: "6 \<le> q \<and> q \<le> 95" if "draftRunPointTotal cards = Some q" for q
    using that run_points_bounds [of _ cards] by (auto simp: run_total_iff)
  show ?thesis
    using assms set run
    by (cases "draftSetPointTotal cards"; cases "draftRunPointTotal cards")
      (auto simp: isValidDraftComposition_def draftCompositionPointTotal_def Let_def
            split: if_splits)
qed

definition natural :: "int \<Rightarrow> int \<Rightarrow> CardSnapshot" where
  "natural r s = \<lparr>card_rank = Some r, card_suit = Some s, card_isJoker = False\<rparr>"

definition joker :: CardSnapshot where
  "joker = \<lparr>card_rank = None, card_suit = None, card_isJoker = True\<rparr>"

text \<open>C18: \<open>draftSetPointTotal\<close> returns points exactly for a set: three or four cards, every
  natural card a real one, one rank and no suit twice among the natural cards; and the points
  are the number of cards times the value of that rank (an ace counts 10, and so does a set of
  jokers only).\<close>

theorem draft_set_total_iff:
  "draftSetPointTotal cards = Some p \<longleftrightarrow>
     is_set cards \<and>
     (\<exists>r. (\<forall>c \<in> set (naturals cards). card_rank c = Some r) \<and> (naturals cards = [] \<longrightarrow> r = 1) \<and>
          p = int (length cards) * rankPointValue r False)"
  by (rule set_total_iff)

theorem draft_set_total_iff_witness:
  "is_set [natural 9 0, joker, natural 9 2] \<and>
   draftSetPointTotal [natural 9 0, joker, natural 9 2] = Some 27"
proof -
  have "draftSetPointTotal [natural 9 0, joker, natural 9 2] = Some 27" by code_simp
  then show ?thesis using draft_set_total_iff [of "[natural 9 0, joker, natural 9 2]" 27] by simp
qed

text \<open>C17: The run search returns \<open>p\<close> exactly when \<open>p\<close> is the best total over all the windows of
  the ranks ace-low to ace-high that the cards fill as a run: the natural cards at distinct
  positions of the window, the jokers at the rest. The greedy assignment of the code neither
  accepts other cards nor misses a run.\<close>

theorem draft_run_total_iff:
  "draftRunPointTotal cards = Some p \<longleftrightarrow>
     (\<exists>start. run_at start cards \<and> p = run_points start cards) \<and>
     (\<forall>start. run_at start cards \<longrightarrow> run_points start cards \<le> p)"
  by (rule run_total_iff)

theorem draft_run_total_iff_witness:
  "(\<exists>start. run_at start [natural 12 3, natural 13 3, joker, natural 1 3]
      \<and> 40 = run_points start [natural 12 3, natural 13 3, joker, natural 1 3])"
proof -
  have "draftRunPointTotal [natural 12 3, natural 13 3, joker, natural 1 3] = Some 40" by code_simp
  then show ?thesis
    using draft_run_total_iff [of "[natural 12 3, natural 13 3, joker, natural 1 3]" 40] by simp
qed

theorem valid_draft_points_bounds_witness:
  "6 \<le> (24::int) \<and> (24::int) \<le> 95"
proof (rule valid_draft_points_bounds)
  show "isValidDraftComposition [natural 7 0, natural 8 0, joker] (Some ''run'')" by code_simp
  show "draftCompositionPointTotal [natural 7 0, natural 8 0, joker] (Some ''run'') = Some 24"
    by code_simp
qed


section \<open>Completed compositions\<close>

lemma naturals_id: "\<not> list_ex card_isJoker cards \<Longrightarrow> naturals cards = cards"
  by (induction cards) (auto simp: naturals_def)

text \<open>A set is complete exactly when it is four natural cards of one rank, one of each suit.\<close>

theorem complete_set_iff:
  "isCompleteDraftComposition cards (Some ''set'') \<longleftrightarrow>
     length cards = 4 \<and> (\<forall>c \<in> set cards. \<not> card_isJoker c) \<and>
     (\<exists>r. 1 \<le> r \<and> r \<le> 13 \<and> (\<forall>c \<in> set cards. card_rank c = Some r)) \<and>
     card_suit ` set cards = {Some 0, Some 1, Some 2, Some 3}"
  (is "?L \<longleftrightarrow> ?R")
proof
  assume ?L
  then have nj: "\<not> list_ex card_isJoker cards" and n: "length cards = 4" and set: "is_set cards"
    by (auto simp: isCompleteDraftComposition_def draft_set_total_None_iff split: if_splits)
  then obtain r where r: "\<forall>c \<in> set cards. card_rank c = Some r" and d: "distinct (map card_suit cards)"
    and ident: "\<forall>c \<in> set cards. hasValidNaturalIdentity c"
    by (auto simp: is_set_def naturals_id list_all_iff)
  have c: "\<forall>c \<in> set cards. card_suit c \<in> {Some 0, Some 1, Some 2, Some 3} \<and> 1 \<le> r \<and> r \<le> 13"
    using ident nj r identity_natural by (fastforce simp: list_ex_iff)
  have "card_suit ` set cards = {Some 0, Some 1, Some 2, Some 3}"
  proof (rule card_subset_eq)
    show "card (card_suit ` set cards) = card {Some (0::int), Some 1, Some 2, Some 3}"
      using distinct_card [OF d] n by simp
  qed (use c in auto)
  moreover have "cards \<noteq> []" using n by auto
  ultimately show ?R using n nj r c by (cases cards) (auto simp: list_ex_iff)
next
  assume R: ?R
  then have nj: "\<not> list_ex card_isJoker cards" by (auto simp: list_ex_iff)
  have "card (set (map card_suit cards)) = length (map card_suit cards)" using R by simp
  then have d: "distinct (map card_suit cards)" by (rule card_distinct)
  have "hasValidNaturalIdentity c" if "c \<in> set cards" for c
  proof -
    from that have "card_suit c \<in> card_suit ` set cards" by simp
    with R have "card_suit c \<in> {Some 0, Some 1, Some 2, Some 3}" by simp
    with R that show ?thesis by (auto simp: hasValidNaturalIdentity_def)
  qed
  with R d nj have "is_set cards" by (auto simp: is_set_def naturals_id list_all_iff)
  with R nj show ?L
    by (auto simp: isCompleteDraftComposition_def draft_set_total_None_iff)
qed

theorem complete_set_iff_witness:
  "card_suit ` set [natural 1 2, natural 1 0, natural 1 3, natural 1 1] = {Some 0, Some 1, Some 2, Some 3}"
proof -
  have "isCompleteDraftComposition [natural 1 2, natural 1 0, natural 1 3, natural 1 1] (Some ''set'')"
    by code_simp
  then show ?thesis
    using complete_set_iff [of "[natural 1 2, natural 1 0, natural 1 3, natural 1 1]"] by blast
qed

text \<open>The ranks of the fourteen positions of the full run: both aces are rank 1.\<close>

definition rank_at :: "int \<Rightarrow> int" where
  "rank_at p = (if p = 14 then 1 else p)"

definition full_suit :: "int list" where
  "full_suit = [1, 1, 2, 3, 4, 5, 6, 7, 8, 9, 10, 11, 12, 13]"

lemma full_suit_positions: "mset (map (Some \<circ> rank_at) [1..14]) = mset (map Some full_suit)"
  by (simp add: full_suit_def rank_at_def upto.simps)

lemma position_full:
  assumes "card_rank c = Some r" and "1 \<le> r" and "r \<le> 13"
  shows "position_ok 1 14 c p \<longleftrightarrow> 1 \<le> p \<and> p \<le> 14 \<and> card_rank c = Some (rank_at p)"
  using assms by (auto simp: position_ok_def possiblePositions_def rank_at_def)

lemma list_all2_map_eq: "list_all2 (\<lambda>x y. f x = g y) xs ys \<longleftrightarrow> map f xs = map g ys"
  by (auto simp: list_all2_conv_all_nth list_eq_iff_nth_eq)

lemma fits_full_iff:
  assumes "length cs = 14" and "\<forall>c \<in> set cs. \<exists>r. card_rank c = Some r \<and> 1 \<le> r \<and> r \<le> 13"
  shows "fits_run 1 14 {} cs \<longleftrightarrow> mset (map card_rank cs) = mset (map Some full_suit)"
proof
  assume "fits_run 1 14 {} cs"
  then obtain ps where ps: "list_all2 (position_ok 1 14) cs ps" "distinct ps"
    by (auto simp: fits_run_def)
  have "list_all2 (\<lambda>c p. card_rank c = (Some \<circ> rank_at) p) cs ps"
    using ps(1) by (rule list.rel_mono_strong) (use assms(2) position_full in fastforce)
  then have ranks: "map card_rank cs = map (Some \<circ> rank_at) ps" by (simp add: list_all2_map_eq)
  have "length ps = 14" using ps(1) assms(1) by (simp add: list_all2_lengthD)
  moreover have "set ps \<subseteq> {1..14}"
    using ps(1) by (auto simp: in_set_conv_nth list_all2_conv_all_nth position_ok_def)
  ultimately have "set ps = set [1..14]"
    using ps(2) by (intro card_subset_eq) (auto simp: distinct_card)
  then have "mset ps = mset [1..14]" using set_eq_iff_mset_eq_distinct [OF ps(2) distinct_upto] by blast
  then have "mset (map (Some \<circ> rank_at) ps) = mset (map (Some \<circ> rank_at) [1..14])"
    by (metis mset_map)
  then show "mset (map card_rank cs) = mset (map Some full_suit)"
    by (simp only: ranks full_suit_positions)
next
  assume "mset (map card_rank cs) = mset (map Some full_suit)"
  then have m: "mset (map card_rank cs) = mset (map (Some \<circ> rank_at) [1..14])"
    by (simp only: full_suit_positions)
  have "list_all2 (\<lambda>r p. r = (Some \<circ> rank_at) p) (map (Some \<circ> rank_at) [1..14]) [1..14]"
    by (simp add: list_all2_conv_all_nth)
  from list_all2_reorder_left_invariance [OF this m] obtain ps where
    ps: "list_all2 (\<lambda>r p. r = (Some \<circ> rank_at) p) (map card_rank cs) ps" "mset ps = mset [1..14]"
    by blast
  have bounds: "1 \<le> p \<and> p \<le> 14" if "p \<in> set ps" for p
    using that mset_eq_setD [OF ps(2)] by auto
  have "list_all2 (\<lambda>c p. card_rank c = (Some \<circ> rank_at) p) cs ps"
    using ps(1) by (simp add: list_all2_map1)
  then have "list_all2 (position_ok 1 14) cs ps"
    by (rule list.rel_mono_strong) (use assms(2) position_full bounds in fastforce)
  moreover have "distinct ps" using mset_eq_imp_distinct_iff [OF ps(2)] by simp
  ultimately show "fits_run 1 14 {} cs" by (auto simp: fits_run_def)
qed

lemma run_total_None_iff: "draftRunPointTotal cards = None \<longleftrightarrow> (\<nexists>start. run_at start cards)"
proof -
  have "foldl (runWindowStep n cs) b starts = None \<longleftrightarrow>
      b = None \<and> (\<forall>s \<in> set starts. \<not> fitsWindow s (s + n - 1) {} cs)" for n cs b starts
    by (induction starts arbitrary: b) (auto simp: runWindowStep_def Let_def)
  then show ?thesis
    unfolding draftRunPointTotal_unfold by (auto simp: run_at_def fitsWindow_iff)
qed

text \<open>A run is complete exactly when it is fourteen natural cards of one suit, the ranks 2 to
  king once and the ace twice.\<close>

theorem complete_run_iff:
  "isCompleteDraftComposition cards (Some ''run'') \<longleftrightarrow>
     (\<forall>c \<in> set cards. \<not> card_isJoker c) \<and>
     (\<exists>s. 0 \<le> s \<and> s \<le> 3 \<and> (\<forall>c \<in> set cards. card_suit c = Some s)) \<and>
     mset (map card_rank cards) = mset (map Some full_suit)"
  (is "?L \<longleftrightarrow> ?R")
proof
  assume ?L
  then obtain start where nj: "\<not> list_ex card_isJoker cards" and n: "length cards = 14"
    and at: "run_at start cards"
    by (auto simp: isCompleteDraftComposition_def run_total_None_iff split: if_splits)
  have ident: "\<exists>r s. card_rank c = Some r \<and> card_suit c = Some s \<and> 1 \<le> r \<and> r \<le> 13 \<and> 0 \<le> s \<and> s \<le> 3"
    if "c \<in> set cards" for c
    using that at nj identity_natural by (auto simp: run_at_def run_cards_def list_all_iff list_ex_iff)
  have "start = 1" using at n by (simp add: run_at_def)
  with at n nj have "fits_run 1 14 {} cards" by (simp add: run_at_def naturals_id)
  then have m: "mset (map card_rank cards) = mset (map Some full_suit)"
    using fits_full_iff [OF n] ident by blast
  obtain s where s: "\<forall>c \<in> set cards. card_suit c = s"
    using at nj by (auto simp: run_at_def run_cards_def naturals_id)
  obtain c where "c \<in> set cards" using n by (cases cards) auto
  with ident s obtain s' where "0 \<le> s'" "s' \<le> 3" "s = Some s'" by fastforce
  with s m nj show ?R by (auto simp: list_ex_iff)
next
  assume R: ?R
  then obtain s where s: "0 \<le> s" "s \<le> 3" "\<forall>c \<in> set cards. card_suit c = Some s" by blast
  have nj: "\<not> list_ex card_isJoker cards" using R by (auto simp: list_ex_iff)
  have m: "mset (map card_rank cards) = mset (map Some full_suit)" using R by blast
  have n: "length cards = 14" using arg_cong [OF m, of size] by (simp add: full_suit_def)
  have rank: "\<exists>r. card_rank c = Some r \<and> 1 \<le> r \<and> r \<le> 13" if "c \<in> set cards" for c
  proof -
    have "card_rank c \<in> set (map card_rank cards)" using that by simp
    then have "card_rank c \<in> set (map Some full_suit)" using mset_eq_setD [OF m] by simp
    then show ?thesis by (auto simp: full_suit_def)
  qed
  have "fits_run 1 14 {} cards" using fits_full_iff [OF n] rank m by blast
  moreover have "list_all hasValidNaturalIdentity cards"
    using rank s by (fastforce simp: list_all_iff hasValidNaturalIdentity_def)
  ultimately have "run_at 1 cards"
    using n s nj by (auto simp: run_at_def run_cards_def naturals_id)
  with n nj show ?L
    using run_total_None_iff [of cards] by (auto simp: isCompleteDraftComposition_def)
qed

theorem complete_run_iff_witness:
  "mset (map card_rank (map (\<lambda>r. natural r 2) (rev full_suit))) = mset (map Some full_suit)"
proof -
  have "isCompleteDraftComposition (map (\<lambda>r. natural r 2) (rev full_suit)) (Some ''run'')"
    by code_simp
  then show ?thesis
    using complete_run_iff [of "map (\<lambda>r. natural r 2) (rev full_suit)"] by blast
qed

end
