(* ===== verification/HandEntries.thy ===== *)
theory HandEntries
  imports GameTypes
begin

text \<open>
  The hand of the player as the board lists it (\<open>game-board-view-state.ts\<close>): an entry gives
  every card a key, so that two equal cards can be told apart while they are dragged, and an order
  the player has chosen is reapplied to every new hand by key.
\<close>

section \<open>Entries\<close>

record HandEntry =
  he_key :: string
  he_card :: CardSnapshot
  he_sourceIndex :: int
  he_isVirtual :: bool

definition shown_or :: "int option \<Rightarrow> string" where
  "shown_or x = (case x of None \<Rightarrow> ''?'' | Some n \<Rightarrow> js_show n)"

definition handCardKey :: "CardSnapshot \<Rightarrow> string" where
  "handCardKey cd =
     (if card_isJoker cd then ''joker''
      else shown_or (card_rank cd) @ ''-'' @ shown_or (card_suit cd))"

text \<open>The state of the loop is the map \<open>counts\<close> and the running \<open>sourceIndex\<close>.\<close>

fun buildEntriesFrom :: "(string \<Rightarrow> nat option) \<Rightarrow> int \<Rightarrow> CardSnapshot list \<Rightarrow> HandEntry list" where
  "buildEntriesFrom counts sourceIndex [] = []"
| "buildEntriesFrom counts sourceIndex (cd # cards) =
     (let baseKey = handCardKey cd;
          occurrence = or_else (counts baseKey) 0 + 1
      in \<lparr>he_key = baseKey @ ''-'' @ js_show (int occurrence), he_card = cd,
          he_sourceIndex = sourceIndex, he_isVirtual = False\<rparr>
         # buildEntriesFrom (counts(baseKey \<mapsto> occurrence)) (sourceIndex + 1) cards)"

definition buildHandEntries :: "CardSnapshot list \<Rightarrow> HandEntry list" where
  "buildHandEntries hand = buildEntriesFrom (\<lambda>_. None) 0 hand"

definition handEntryOrder :: "HandEntry list \<Rightarrow> string list" where
  "handEntryOrder entries = map he_key entries"

definition mapHandKeysToEntries ::
  "string list \<Rightarrow> (string \<Rightarrow> HandEntry option) \<Rightarrow> HandEntry list" where
  "mapHandKeysToEntries handKeys entryByKey = List.map_filter entryByKey handKeys"

text \<open>\<open>new Map(entries.map((entry) => [entry.key, entry]))\<close>\<close>

definition entryByKeyOf :: "HandEntry list \<Rightarrow> string \<Rightarrow> HandEntry option" where
  "entryByKeyOf entries = last_by he_key entries"

section \<open>Order\<close>

definition applyHandEntryOrder :: "HandEntry list \<Rightarrow> string list \<Rightarrow> HandEntry list" where
  "applyHandEntryOrder entries orderedKeys =
     (if orderedKeys = [] then entries
      else (let ordered = mapHandKeysToEntries orderedKeys (entryByKeyOf entries);
                seenKeys = he_key ` set ordered
            in ordered @ filter (\<lambda>entry. he_key entry \<notin> seenKeys) entries))"

definition findNewHandEntry :: "HandEntry list \<Rightarrow> HandEntry list \<Rightarrow> HandEntry option" where
  "findNewHandEntry current next_entries =
     List.find (\<lambda>entry. he_key entry \<notin> he_key ` set current) next_entries"

text \<open>
  \<open>arrayMove\<close> is the function of the package \<open>@dnd-kit/sortable\<close>, a parameter here.
\<close>

definition moveHandEntry ::
  "(HandEntry list \<Rightarrow> nat \<Rightarrow> nat \<Rightarrow> HandEntry list) \<Rightarrow> HandEntry list \<Rightarrow> string \<Rightarrow> string
     \<Rightarrow> HandEntry list" where
  "moveHandEntry arrayMove current handKey overHandKey =
     (case (findIndex (\<lambda>entry. he_key entry = handKey) current,
            findIndex (\<lambda>entry. he_key entry = overHandKey) current) of
        (Some oldIndex, Some newIndex) \<Rightarrow>
          (if oldIndex = newIndex then current else arrayMove current oldIndex newIndex)
      | _ \<Rightarrow> current)"

section \<open>The index of a card in the hand the server holds after a table play\<close>

fun handIndexLoop :: "int \<Rightarrow> int set \<Rightarrow> nat \<Rightarrow> HandEntry list \<Rightarrow> nat option" where
  "handIndexLoop draggedIndex played nextIndex [] = None"
| "handIndexLoop draggedIndex played nextIndex (entry # entries) =
     (if he_isVirtual entry then handIndexLoop draggedIndex played nextIndex entries
      else if he_sourceIndex entry = draggedIndex then Some nextIndex
      else if he_sourceIndex entry \<notin> played
        then handIndexLoop draggedIndex played (nextIndex + 1) entries
      else handIndexLoop draggedIndex played nextIndex entries)"

definition playedSourceIndices :: "HandEntry list list \<Rightarrow> int set" where
  "playedSourceIndices drafted =
     he_sourceIndex ` set (filter (\<lambda>entry. \<not> he_isVirtual entry) (concat drafted))"

text \<open>The drafted compositions are given by their entries, the only field the function reads.\<close>

definition handIndexAfterSubmittedDrafts ::
  "HandEntry list \<Rightarrow> string \<Rightarrow> HandEntry list list \<Rightarrow> nat option" where
  "handIndexAfterSubmittedDrafts rawHandEntries handKey drafted =
     (case List.find (\<lambda>entry. he_key entry = handKey) rawHandEntries of
        None \<Rightarrow> None
      | Some draggedEntry \<Rightarrow>
          (if he_isVirtual draggedEntry then None
           else if he_sourceIndex draggedEntry \<in> playedSourceIndices drafted then None
           else handIndexLoop (he_sourceIndex draggedEntry) (playedSourceIndices drafted) 0
                  rawHandEntries))"

section \<open>Keys are unique\<close>

definition key_at :: "string \<Rightarrow> nat \<Rightarrow> string" where
  "key_at base n = base @ ''-'' @ js_show (int n)"

lemma key_at_inj: "key_at b m = key_at b' n \<longleftrightarrow> b = b' \<and> m = n"
proof
  assume "key_at b m = key_at b' n"
  then have "b @ CHR ''-'' # js_show (int m) = b' @ CHR ''-'' # js_show (int n)"
    by (simp add: key_at_def)
  from append_dash_eq [OF this] show "b = b' \<and> m = n"
    by (auto dest: js_show_inj)
qed simp

lemma buildEntriesFrom_cards [simp]: "map he_card (buildEntriesFrom counts i hand) = hand"
  by (induction hand arbitrary: counts i) (simp_all add: Let_def)

lemma buildEntriesFrom_length [simp]: "length (buildEntriesFrom counts i hand) = length hand"
  by (induction hand arbitrary: counts i) (simp_all add: Let_def)

lemma buildEntriesFrom_source:
  "map he_sourceIndex (buildEntriesFrom counts i hand) = [i..i + int (length hand) - 1]"
  by (induction hand arbitrary: counts i)
    (simp_all add: Let_def upto_rec1 add.assoc add.commute add.left_commute)

lemma buildEntriesFrom_real: "e \<in> set (buildEntriesFrom counts i hand) \<Longrightarrow> \<not> he_isVirtual e"
  by (induction hand arbitrary: counts i) (auto simp: Let_def)

lemma buildEntriesFrom_keys:
  "e \<in> set (buildEntriesFrom counts i hand) \<Longrightarrow>
     \<exists>b n. he_key e = key_at b n \<and> or_else (counts b) 0 < n"
proof (induction hand arbitrary: counts i)
  case Nil
  then show ?case by simp
next
  case (Cons cd hand)
  let ?b = "handCardKey cd" and ?n = "or_else (counts (handCardKey cd)) 0 + 1"
  show ?case
  proof (cases "he_key e = key_at ?b ?n")
    case True
    then show ?thesis by (intro exI [of _ ?b] exI [of _ ?n]) simp
  next
    case False
    with Cons.prems have "e \<in> set (buildEntriesFrom (counts(?b \<mapsto> ?n)) (i + 1) hand)"
      by (auto simp: Let_def key_at_def)
    from Cons.IH [OF this] obtain b n
      where "he_key e = key_at b n" "or_else ((counts(?b \<mapsto> ?n)) b) 0 < n" by blast
    then show ?thesis by (intro exI [of _ b] exI [of _ n]) (auto split: if_splits)
  qed
qed

lemma buildEntriesFrom_distinct: "distinct (map he_key (buildEntriesFrom counts i hand))"
proof (induction hand arbitrary: counts i)
  case Nil
  then show ?case by simp
next
  case (Cons cd hand)
  let ?b = "handCardKey cd" and ?n = "or_else (counts (handCardKey cd)) 0 + 1"
  have "key_at ?b ?n \<notin> he_key ` set (buildEntriesFrom (counts(?b \<mapsto> ?n)) (i + 1) hand)"
    by (auto dest!: buildEntriesFrom_keys simp: key_at_inj)
  with Cons.IH show ?case by (simp add: Let_def key_at_def)
qed

lemma build_keys_distinct: "distinct (map he_key (buildHandEntries hand))"
  by (simp add: buildHandEntries_def buildEntriesFrom_distinct)

lemma build_real: "e \<in> set (buildHandEntries hand) \<Longrightarrow> \<not> he_isVirtual e"
  by (auto simp: buildHandEntries_def dest: buildEntriesFrom_real)

text \<open>A key of a built entry starts with the key of its card.\<close>

lemma build_key_form:
  "e \<in> set (buildEntriesFrom counts i hand) \<Longrightarrow> \<exists>n. he_key e = key_at (handCardKey (he_card e)) n"
proof (induction hand arbitrary: counts i)
  case Nil
  then show ?case by simp
next
  case (Cons cd hand)
  let ?n = "or_else (counts (handCardKey cd)) 0 + 1"
  from Cons.prems consider "e = \<lparr>he_key = key_at (handCardKey cd) ?n, he_card = cd,
        he_sourceIndex = i, he_isVirtual = False\<rparr>"
    | "e \<in> set (buildEntriesFrom (counts(handCardKey cd \<mapsto> ?n)) (i + 1) hand)"
    by (auto simp: Let_def key_at_def)
  then show ?case
  proof cases
    case 1
    then show ?thesis by (intro exI [of _ ?n]) simp
  next
    case 2
    then show ?thesis by (rule Cons.IH)
  qed
qed

section \<open>Reordering loses nothing\<close>

lemma mapHandKeys_cong:
  "distinct (map he_key entries) \<Longrightarrow> set ys \<subseteq> set entries \<Longrightarrow>
     mapHandKeysToEntries (map he_key ys) (entryByKeyOf entries) = ys"
  by (induction ys)
    (auto simp: mapHandKeysToEntries_def entryByKeyOf_def map_filter_simps last_by_distinct)

lemma mapHandKeys_keys:
  "map he_key (mapHandKeysToEntries keys (entryByKeyOf entries))
     = filter (\<lambda>k. k \<in> he_key ` set entries) keys"
proof (induction keys)
  case Nil
  then show ?case by (simp add: mapHandKeysToEntries_def map_filter_simps)
next
  case (Cons k keys)
  show ?case
  proof (cases "last_by he_key entries k")
    case None
    then have "k \<notin> he_key ` set entries" by (simp add: last_by_None_iff)
    with None Cons.IH show ?thesis
      by (simp add: mapHandKeysToEntries_def entryByKeyOf_def map_filter_simps)
  next
    case (Some e)
    then have "e \<in> set entries" "he_key e = k" by (auto dest: last_by_SomeD)
    with Some Cons.IH show ?thesis
      by (auto simp: mapHandKeysToEntries_def entryByKeyOf_def map_filter_simps)
  qed
qed

lemma mapHandKeys_subset:
  "set (mapHandKeysToEntries keys (entryByKeyOf entries)) \<subseteq> set entries"
  by (auto simp: mapHandKeysToEntries_def entryByKeyOf_def map_filter_def dest: last_by_SomeD)

lemma mset_split_by_key:
  assumes "distinct (map he_key entries)" and "set xs \<subseteq> set entries" and "distinct xs"
  shows "mset (xs @ filter (\<lambda>e. he_key e \<notin> he_key ` set xs) entries) = mset entries"
proof (rule sym, rule set_eq_iff_mset_eq_distinct [THEN iffD1])
  show "distinct entries" using assms(1) by (simp add: distinct_map)
  then show "distinct (xs @ filter (\<lambda>e. he_key e \<notin> he_key ` set xs) entries)"
    using assms(3) by auto
  have "e \<in> set xs" if "e \<in> set entries" "he_key e = he_key x" "x \<in> set xs" for e x
    using that assms(1,2) by (metis distinct_map inj_onD subsetD)
  then show "set entries = set (xs @ filter (\<lambda>e. he_key e \<notin> he_key ` set xs) entries)"
    using assms(2) by auto
qed

lemma ordered_distinct:
  "distinct keys \<Longrightarrow> distinct (mapHandKeysToEntries keys (entryByKeyOf entries))"
  using mapHandKeys_keys [of keys entries] by (metis distinct_filter distinct_map)

lemma mset_applyHandEntryOrder:
  assumes "distinct (map he_key entries)" and "distinct keys"
  shows "mset (applyHandEntryOrder entries keys) = mset entries"
  using mset_split_by_key [OF assms(1) mapHandKeys_subset ordered_distinct [OF assms(2)]]
  by (simp add: applyHandEntryOrder_def Let_def)

lemma keys_applyHandEntryOrder:
  "handEntryOrder (applyHandEntryOrder entries keys)
     = filter (\<lambda>k. k \<in> he_key ` set entries) keys @
       filter (\<lambda>k. k \<notin> set keys) (handEntryOrder entries)"
proof (cases "keys = []")
  case True
  then show ?thesis by (simp add: applyHandEntryOrder_def handEntryOrder_def)
next
  case False
  let ?o = "mapHandKeysToEntries keys (entryByKeyOf entries)"
  have "he_key ` set ?o = set (map he_key ?o)" by simp
  also have "\<dots> = {k \<in> set keys. k \<in> he_key ` set entries}" by (simp add: mapHandKeys_keys)
  finally have "filter (\<lambda>e. he_key e \<notin> he_key ` set ?o) entries
      = filter (\<lambda>e. he_key e \<notin> set keys) entries"
    by (auto intro!: filter_cong)
  with False show ?thesis
    by (simp add: applyHandEntryOrder_def handEntryOrder_def Let_def mapHandKeys_keys
          filter_map comp_def)
qed

lemma applyHandEntryOrder_self:
  assumes "distinct (map he_key ys)" and "mset ys = mset entries"
  shows "applyHandEntryOrder entries (handEntryOrder ys) = ys"
proof (cases "ys = []")
  case True
  with assms show ?thesis by (simp add: applyHandEntryOrder_def handEntryOrder_def)
next
  case False
  have "distinct (map he_key entries)"
    using assms by (metis mset_eq_imp_distinct_iff mset_map)
  moreover have "set entries = set ys" using assms(2) by (metis set_mset_mset)
  ultimately show ?thesis
    using False mapHandKeys_cong [of entries ys]
    by (auto simp: applyHandEntryOrder_def handEntryOrder_def Let_def filter_empty_conv)
qed

section \<open>The contract of \<open>arrayMove\<close>\<close>

text \<open>
  What the package documents: the result holds the same items, the moved one at the new index and
  the others in their old order.
\<close>

definition remove_at :: "nat \<Rightarrow> 'a list \<Rightarrow> 'a list" where
  "remove_at i xs = take i xs @ drop (Suc i) xs"

locale array_move =
  fixes move :: "'a list \<Rightarrow> nat \<Rightarrow> nat \<Rightarrow> 'a list"
  assumes move_items: "i < length xs \<Longrightarrow> j < length xs \<Longrightarrow> mset (move xs i j) = mset xs"
    and move_target: "i < length xs \<Longrightarrow> j < length xs \<Longrightarrow> move xs i j ! j = xs ! i"
    and move_others:
      "i < length xs \<Longrightarrow> j < length xs \<Longrightarrow> remove_at j (move xs i j) = remove_at i xs"
begin

lemma length_move [simp]: "i < length xs \<Longrightarrow> j < length xs \<Longrightarrow> length (move xs i j) = length xs"
  using move_items mset_eq_length by blast

lemma set_move [simp]: "i < length xs \<Longrightarrow> j < length xs \<Longrightarrow> set (move xs i j) = set xs"
  using move_items mset_eq_setD by blast

lemma distinct_map_move:
  "i < length xs \<Longrightarrow> j < length xs \<Longrightarrow> distinct (map f (move xs i j)) \<longleftrightarrow> distinct (map f xs)"
  using move_items by (metis mset_eq_imp_distinct_iff mset_map)

lemma move_same: "i < length xs \<Longrightarrow> move xs i i = xs"
  using move_others [of i xs i] move_target [of i xs i] length_move [of i xs i]
  by (metis remove_at_def append_eq_append_conv id_take_nth_drop length_take)

end

text \<open>The function these laws describe, for the instances.\<close>

definition moveItem :: "'a list \<Rightarrow> nat \<Rightarrow> nat \<Rightarrow> 'a list" where
  "moveItem xs i j = take j (remove_at i xs) @ xs ! i # drop j (remove_at i xs)"

lemma mset_remove_at: "i < length xs \<Longrightarrow> add_mset (xs ! i) (mset (remove_at i xs)) = mset xs"
  unfolding remove_at_def
  by (subst (4) id_take_nth_drop) auto

lemma length_remove_at [simp]: "i < length xs \<Longrightarrow> length (remove_at i xs) = length xs - 1"
  by (simp add: remove_at_def)

interpretation moved: array_move moveItem
proof
  fix i j :: nat and xs :: "'a list"
  assume i: "i < length xs" and j: "j < length xs"
  have "mset (take j ys) + mset (drop j ys) = mset ys" for ys :: "'a list"
    by (metis append_take_drop_id mset_append)
  then show "mset (moveItem xs i j) = mset xs"
    using mset_remove_at [OF i] by (simp add: moveItem_def)
  have k: "length (take j (remove_at i xs)) = j" using i j by simp
  show "moveItem xs i j ! j = xs ! i"
    unfolding moveItem_def by (metis k nth_append_length)
  show "remove_at j (moveItem xs i j) = remove_at i xs"
    unfolding moveItem_def remove_at_def [of j] using k by simp
qed

lemma findIndex_key:
  "findIndex P xs = Some i \<Longrightarrow> i < length xs"
  by (auto dest: findIndex_SomeD)

context array_move begin

lemma mset_move_between:
  "mset (case (findIndex P xs, findIndex Q xs) of
     (Some i, Some j) \<Rightarrow> (if i = j then xs else move xs i j) | _ \<Rightarrow> xs) = mset xs"
  by (auto simp: move_items findIndex_key split: option.splits)

end

lemma mset_moveHandEntry:
  "array_move arrayMove \<Longrightarrow> mset (moveHandEntry arrayMove current k k') = mset current"
  unfolding moveHandEntry_def by (rule array_move.mset_move_between)

section \<open>The index after a table play\<close>

definition still_in_hand :: "int set \<Rightarrow> HandEntry \<Rightarrow> bool" where
  "still_in_hand played entry \<longleftrightarrow> \<not> he_isVirtual entry \<and> he_sourceIndex entry \<notin> played"

lemma handIndexLoop_eq:
  "d \<notin> played \<Longrightarrow>
     handIndexLoop d played n xs =
       map_option ((+) n) (findIndex (\<lambda>e. he_sourceIndex e = d) (filter (still_in_hand played) xs))"
proof (induction xs arbitrary: n)
  case Nil
  then show ?case by simp
next
  case (Cons e xs)
  have "map_option ((+) (n + 1)) x = map_option ((+) n) (map_option Suc x)" for x
    by (cases x) auto
  with Cons show ?case by (auto simp: still_in_hand_def)
qed

lemma findIndex_cong: "(\<And>x. x \<in> set xs \<Longrightarrow> P x = Q x) \<Longrightarrow> findIndex P xs = findIndex Q xs"
  by (induction xs) auto

lemma handIndex_in_rest:
  assumes keys: "distinct (map he_key raw)"
    and sources: "inj_on he_sourceIndex {e \<in> set raw. \<not> he_isVirtual e}"
  shows "handIndexAfterSubmittedDrafts raw k drafted
     = findIndex (\<lambda>e. he_key e = k) (filter (still_in_hand (playedSourceIndices drafted)) raw)"
    (is "_ = findIndex _ (filter ?left raw)")
proof (cases "List.find (\<lambda>e. he_key e = k) raw")
  case None
  then have "findIndex (\<lambda>e. he_key e = k) (filter ?left raw) = None"
    by (auto simp: findIndex_None_iff find_None_iff)
  with None show ?thesis by (simp add: handIndexAfterSubmittedDrafts_def)
next
  case (Some d)
  then have d: "d \<in> set raw" "he_key d = k" by (auto dest: find_SomeD)
  have only: "e = d" if "e \<in> set raw" "he_key e = k" for e
    using that d keys by (auto simp: distinct_map inj_on_def)
  show ?thesis
  proof (cases "?left d")
    case False
    then have "findIndex (\<lambda>e. he_key e = k) (filter ?left raw) = None"
      using only by (auto simp: findIndex_None_iff)
    with False Some show ?thesis
      by (auto simp: handIndexAfterSubmittedDrafts_def still_in_hand_def)
  next
    case True
    have "findIndex (\<lambda>e. he_sourceIndex e = he_sourceIndex d) (filter ?left raw)
        = findIndex (\<lambda>e. he_key e = k) (filter ?left raw)"
    proof (rule findIndex_cong)
      fix e assume "e \<in> set (filter ?left raw)"
      then have e: "e \<in> set raw" "?left e" by auto
      show "(he_sourceIndex e = he_sourceIndex d) = (he_key e = k)"
      proof
        assume "he_sourceIndex e = he_sourceIndex d"
        with e True d sources have "e = d" by (auto simp: inj_on_def still_in_hand_def)
        with d show "he_key e = k" by simp
      next
        assume "he_key e = k"
        with only e show "he_sourceIndex e = he_sourceIndex d" by auto
      qed
    qed
    with True Some show ?thesis
      by (simp add: handIndexAfterSubmittedDrafts_def still_in_hand_def handIndexLoop_eq
            option.map_id0 [unfolded id_def] add_0_left [abs_def])
  qed
qed

section \<open>Properties\<close>

text \<open>\<open>buildHandEntries\<close> gives every card of the hand exactly one entry, in the order of the
  hand, with its position as source index; no two entries share a key, also when cards are equal,
  and no entry is virtual.\<close>

theorem hand_entries_of_hand:
  "map he_card (buildHandEntries hand) = hand \<and>
   map he_sourceIndex (buildHandEntries hand) = [0..int (length hand) - 1] \<and>
   distinct (map he_key (buildHandEntries hand)) \<and>
   list_all (\<lambda>e. \<not> he_isVirtual e) (buildHandEntries hand)"
  using buildEntriesFrom_real
  by (fastforce simp: buildHandEntries_def buildEntriesFrom_source buildEntriesFrom_distinct
        list_all_iff)

text \<open>C23: Reapplying a remembered order to a new hand neither loses nor repeats a card: the result is
  a permutation of the entries in which the remembered keys that are still there come first, in
  the remembered order, and the new entries follow in hand order.\<close>

theorem hand_order_permutes:
  assumes "distinct (map he_key entries)" and "distinct orderedKeys"
  shows "mset (applyHandEntryOrder entries orderedKeys) = mset entries \<and>
    handEntryOrder (applyHandEntryOrder entries orderedKeys)
      = filter (\<lambda>k. k \<in> he_key ` set entries) orderedKeys @
        filter (\<lambda>k. k \<notin> set orderedKeys) (handEntryOrder entries)"
  using mset_applyHandEntryOrder [OF assms] keys_applyHandEntryOrder by blast

definition example_hand :: "CardSnapshot list" where
  "example_hand =
     [\<lparr>card_rank = Some 5, card_suit = Some 0, card_isJoker = False\<rparr>,
      \<lparr>card_rank = None, card_suit = None, card_isJoker = True\<rparr>,
      \<lparr>card_rank = Some 5, card_suit = Some 0, card_isJoker = False\<rparr>]"

theorem hand_order_permutes_witness:
  "handEntryOrder (applyHandEntryOrder (buildHandEntries example_hand) [''joker-1'', ''9-9-1'', ''5-0-2''])
     = [''joker-1'', ''5-0-2'', ''5-0-1'']"
proof -
  have "distinct (map he_key (buildHandEntries example_hand))" by code_simp
  moreover have "distinct [''joker-1'', ''9-9-1'', ''5-0-2'']" by simp
  ultimately have "handEntryOrder
      (applyHandEntryOrder (buildHandEntries example_hand) [''joker-1'', ''9-9-1'', ''5-0-2''])
    = filter (\<lambda>k. k \<in> he_key ` set (buildHandEntries example_hand)) [''joker-1'', ''9-9-1'', ''5-0-2''] @
      filter (\<lambda>k. k \<notin> set [''joker-1'', ''9-9-1'', ''5-0-2'']) (handEntryOrder (buildHandEntries example_hand))"
    using hand_order_permutes by blast
  also have "\<dots> = [''joker-1'', ''5-0-2'', ''5-0-1'']" by code_simp
  finally show ?thesis .
qed

text \<open>The index that goes with a discard sent together with a table play is the position of the
  card in what is left of the hand: the real entries whose source is not played, in their order;
  there is none exactly when the card is not among them.\<close>

theorem discard_index_in_remaining_hand:
  assumes "distinct (map he_key raw)"
    and "inj_on he_sourceIndex {e \<in> set raw. \<not> he_isVirtual e}"
  shows "handIndexAfterSubmittedDrafts raw handKey drafted
     = indexOf (map he_key (filter (still_in_hand (playedSourceIndices drafted)) raw)) handKey"
proof -
  have "indexOf (map he_key xs) handKey = findIndex (\<lambda>e. he_key e = handKey) xs"
    for xs :: "HandEntry list"
    by (induction xs) (auto simp: indexOf_def)
  then show ?thesis using handIndex_in_rest [OF assms] by simp
qed

theorem discard_index_in_remaining_hand_witness:
  "handIndexAfterSubmittedDrafts (buildHandEntries example_hand) ''5-0-2''
     [[hd (buildHandEntries example_hand)]] = Some 1"
proof -
  have "distinct (map he_key (buildHandEntries example_hand))" by code_simp
  moreover have "distinct (map he_sourceIndex (buildHandEntries example_hand))" by code_simp
  then have "inj_on he_sourceIndex {e \<in> set (buildHandEntries example_hand). \<not> he_isVirtual e}"
    by (auto simp: distinct_map intro: inj_on_subset)
  ultimately have "handIndexAfterSubmittedDrafts (buildHandEntries example_hand) ''5-0-2''
        [[hd (buildHandEntries example_hand)]]
      = indexOf (map he_key (filter (still_in_hand
          (playedSourceIndices [[hd (buildHandEntries example_hand)]])) (buildHandEntries example_hand)))
          ''5-0-2''"
    by (rule discard_index_in_remaining_hand)
  also have "\<dots> = Some 1" by code_simp
  finally show ?thesis .
qed

end
