(* ===== verification/DropIds.thy ===== *)
theory DropIds
  imports JsText
begin

text \<open>
  The identifiers of the drop zones of the board (\<open>game-board-view-state.ts\<close>): a zone is named
  by a prefix and the numbers of the composition and the joker it belongs to, and a drop is
  resolved by parsing the name back.
\<close>

definition HAND_DROP_ID :: string where
  "HAND_DROP_ID = ''hand-drop-zone''"

definition NEW_COMPOSITION_DROP_ID :: string where
  "NEW_COMPOSITION_DROP_ID = ''new-composition-drop-zone''"

definition DRAFT_COMPOSITION_DROP_ID_PREFIX :: string where
  "DRAFT_COMPOSITION_DROP_ID_PREFIX = ''draft-composition-''"

definition TABLE_COMPOSITION_DROP_ID_PREFIX :: string where
  "TABLE_COMPOSITION_DROP_ID_PREFIX = ''table-composition-''"

definition TABLE_COMPOSITION_EDGE_DROP_ID_PREFIX :: string where
  "TABLE_COMPOSITION_EDGE_DROP_ID_PREFIX = ''table-composition-edge-''"

definition TABLE_COMPOSITION_JOKER_DROP_ID_PREFIX :: string where
  "TABLE_COMPOSITION_JOKER_DROP_ID_PREFIX = ''table-composition-joker-''"

lemmas prefix_defs = HAND_DROP_ID_def NEW_COMPOSITION_DROP_ID_def
  DRAFT_COMPOSITION_DROP_ID_PREFIX_def TABLE_COMPOSITION_DROP_ID_PREFIX_def
  TABLE_COMPOSITION_EDGE_DROP_ID_PREFIX_def TABLE_COMPOSITION_JOKER_DROP_ID_PREFIX_def

datatype TableCompositionEdge = EdgeStart | EdgeEnd

fun edgeText :: "TableCompositionEdge \<Rightarrow> string" where
  "edgeText EdgeStart = ''start''"
| "edgeText EdgeEnd = ''end''"

section \<open>Naming\<close>

definition draftCompositionDropId :: "string \<Rightarrow> string" where
  "draftCompositionDropId compositionId = DRAFT_COMPOSITION_DROP_ID_PREFIX @ compositionId"

definition tableCompositionDropId :: "int \<Rightarrow> string" where
  "tableCompositionDropId compositionIndex =
     TABLE_COMPOSITION_DROP_ID_PREFIX @ js_show compositionIndex"

definition tableCompositionEdgeDropId :: "int \<Rightarrow> TableCompositionEdge \<Rightarrow> string" where
  "tableCompositionEdgeDropId compositionIndex edge =
     TABLE_COMPOSITION_EDGE_DROP_ID_PREFIX @ js_show compositionIndex @ ''-'' @ edgeText edge"

definition tableCompositionJokerDropId :: "int \<Rightarrow> int \<Rightarrow> string" where
  "tableCompositionJokerDropId compositionIndex jokerIndex =
     TABLE_COMPOSITION_JOKER_DROP_ID_PREFIX @ js_show compositionIndex @ ''-'' @ js_show jokerIndex"

section \<open>Parsing\<close>

definition compositionIdFromDropId :: "string \<Rightarrow> string option" where
  "compositionIdFromDropId dropId =
     (if \<not> startsWith dropId DRAFT_COMPOSITION_DROP_ID_PREFIX then None
      else Some (slice_from (length DRAFT_COMPOSITION_DROP_ID_PREFIX) dropId))"

definition tableCompositionEdgeTargetFromDropId ::
  "string \<Rightarrow> (int \<times> TableCompositionEdge) option" where
  "tableCompositionEdgeTargetFromDropId dropId =
     (if \<not> startsWith dropId TABLE_COMPOSITION_EDGE_DROP_ID_PREFIX then None
      else (let target = slice_from (length TABLE_COMPOSITION_EDGE_DROP_ID_PREFIX) dropId
            in case indexOf target (CHR ''-'') of
                 None \<Rightarrow> None
               | Some separatorIndex \<Rightarrow>
                   (let compositionIndex = js_Number (take separatorIndex target);
                        edge = slice_from (separatorIndex + 1) target
                    in case compositionIndex of
                         None \<Rightarrow> None
                       | Some i \<Rightarrow>
                           (if i < 0 then None
                            else if edge = ''start'' then Some (i, EdgeStart)
                            else if edge = ''end'' then Some (i, EdgeEnd)
                            else None))))"

definition tableCompositionJokerTargetFromDropId :: "string \<Rightarrow> (int \<times> int) option" where
  "tableCompositionJokerTargetFromDropId dropId =
     (if \<not> startsWith dropId TABLE_COMPOSITION_JOKER_DROP_ID_PREFIX then None
      else (let target = slice_from (length TABLE_COMPOSITION_JOKER_DROP_ID_PREFIX) dropId
            in case indexOf target (CHR ''-'') of
                 None \<Rightarrow> None
               | Some separatorIndex \<Rightarrow>
                   (let compositionIndex = js_Number (take separatorIndex target);
                        jokerIndex = js_Number (slice_from (separatorIndex + 1) target)
                    in case compositionIndex of
                         None \<Rightarrow> None
                       | Some i \<Rightarrow>
                           (if i < 0 then None
                            else (case jokerIndex of
                                    None \<Rightarrow> None
                                  | Some j \<Rightarrow> (if j < 0 then None else Some (i, j)))))))"

section \<open>Round trips\<close>

lemma indexOf_show_dash:
  "0 \<le> i \<Longrightarrow> indexOf (js_show i @ CHR ''-'' # s) (CHR ''-'') = Some (length (js_show i))"
  by (simp add: indexOf_dash_append)

lemma slice_after_dash: "slice_from (Suc (length p)) (p @ x # s) = s"
  by (simp add: slice_from_def)

lemma edge_roundtrip:
  "0 \<le> i \<Longrightarrow> tableCompositionEdgeTargetFromDropId (tableCompositionEdgeDropId i e) = Some (i, e)"
  by (cases e)
    (simp_all add: tableCompositionEdgeTargetFromDropId_def tableCompositionEdgeDropId_def Let_def
       indexOf_show_dash slice_after_dash)

lemma joker_roundtrip:
  "0 \<le> i \<Longrightarrow> 0 \<le> j \<Longrightarrow>
     tableCompositionJokerTargetFromDropId (tableCompositionJokerDropId i j) = Some (i, j)"
  by (simp add: tableCompositionJokerTargetFromDropId_def tableCompositionJokerDropId_def Let_def
        indexOf_show_dash slice_after_dash)

lemma draft_roundtrip: "compositionIdFromDropId (draftCompositionDropId i) = Some i"
  by (simp add: compositionIdFromDropId_def draftCompositionDropId_def)

lemma prefix_clash:
  "\<not> startsWith (draftCompositionDropId c) TABLE_COMPOSITION_EDGE_DROP_ID_PREFIX"
  "\<not> startsWith (draftCompositionDropId c) TABLE_COMPOSITION_JOKER_DROP_ID_PREFIX"
  "\<not> startsWith (tableCompositionEdgeDropId i e) DRAFT_COMPOSITION_DROP_ID_PREFIX"
  "\<not> startsWith (tableCompositionEdgeDropId i e) TABLE_COMPOSITION_JOKER_DROP_ID_PREFIX"
  "\<not> startsWith (tableCompositionJokerDropId i j) DRAFT_COMPOSITION_DROP_ID_PREFIX"
  "\<not> startsWith (tableCompositionJokerDropId i j) TABLE_COMPOSITION_EDGE_DROP_ID_PREFIX"
  by (simp_all add: startsWith_def prefix_defs draftCompositionDropId_def
        tableCompositionEdgeDropId_def tableCompositionJokerDropId_def)

lemma parsers_reject:
  "compositionIdFromDropId (tableCompositionEdgeDropId i e) = None"
  "compositionIdFromDropId (tableCompositionJokerDropId i j) = None"
  "tableCompositionEdgeTargetFromDropId (draftCompositionDropId c) = None"
  "tableCompositionEdgeTargetFromDropId (tableCompositionJokerDropId i j) = None"
  "tableCompositionJokerTargetFromDropId (draftCompositionDropId c) = None"
  "tableCompositionJokerTargetFromDropId (tableCompositionEdgeDropId i e) = None"
  by (simp_all add: compositionIdFromDropId_def tableCompositionEdgeTargetFromDropId_def
        tableCompositionJokerTargetFromDropId_def prefix_clash)

text \<open>The plain zone of a table composition is read by none of the three parsers.\<close>

lemma parsers_reject_plain:
  "compositionIdFromDropId (tableCompositionDropId i) = None"
  "tableCompositionEdgeTargetFromDropId (tableCompositionDropId i) = None"
  "tableCompositionJokerTargetFromDropId (tableCompositionDropId i) = None"
proof -
  obtain c s where "js_show i = c # s" "c \<in> insert (CHR ''-'') (set digits)"
    using show_first by blast
  then show
    "compositionIdFromDropId (tableCompositionDropId i) = None"
    "tableCompositionEdgeTargetFromDropId (tableCompositionDropId i) = None"
    "tableCompositionJokerTargetFromDropId (tableCompositionDropId i) = None"
    by (auto simp: compositionIdFromDropId_def tableCompositionEdgeTargetFromDropId_def
          tableCompositionJokerTargetFromDropId_def tableCompositionDropId_def startsWith_def
          prefix_defs digits_def)
qed

text \<open>C26: A drop on an edge zone, on a joker zone or on a draft zone is resolved to exactly the
  composition, edge, joker or draft the zone was named for, and no zone of one kind is taken for a
  zone of another kind.\<close>

theorem drop_ids_roundtrip:
  assumes "0 \<le> i" and "0 \<le> j"
  shows
    "tableCompositionEdgeTargetFromDropId (tableCompositionEdgeDropId i e) = Some (i, e) \<and>
     tableCompositionJokerTargetFromDropId (tableCompositionJokerDropId i j) = Some (i, j) \<and>
     compositionIdFromDropId (draftCompositionDropId c) = Some c \<and>
     (\<forall>z \<in> {tableCompositionDropId i, tableCompositionEdgeDropId i e, tableCompositionJokerDropId i j}.
        compositionIdFromDropId z = None) \<and>
     (\<forall>z \<in> {tableCompositionDropId i, draftCompositionDropId c, tableCompositionJokerDropId i j}.
        tableCompositionEdgeTargetFromDropId z = None) \<and>
     (\<forall>z \<in> {tableCompositionDropId i, draftCompositionDropId c, tableCompositionEdgeDropId i e}.
        tableCompositionJokerTargetFromDropId z = None)"
  using assms
  by (simp add: edge_roundtrip joker_roundtrip draft_roundtrip parsers_reject parsers_reject_plain)

theorem drop_ids_roundtrip_witness:
  "tableCompositionEdgeTargetFromDropId ''table-composition-edge-12-end'' = Some (12, EdgeEnd)"
proof -
  have "tableCompositionEdgeDropId 12 EdgeEnd = ''table-composition-edge-12-end''" by code_simp
  then show ?thesis using drop_ids_roundtrip [of 12 0 EdgeEnd] by simp
qed

end
