(* ===== verification/DraftOps.thy ===== *)
theory DraftOps
  imports HandEntries
begin

text \<open>
  The drafted compositions of the player and the operations that edit them
  (\<open>game-board-view-state.ts\<close>). A draft is a new composition, or an addition to the table
  composition \<open>dc_tableIndex\<close>; it lists the keys of the hand entries staged on it. The invariant
  \<open>drafts_ok\<close> says that a card is staged once, that no draft is empty and that ids are unique;
  \<open>draft_edit\<close> is the contract all operations on one card share.
\<close>

record DraftComposition =
  dc_id :: string
  dc_handKeys :: "string list"
  dc_tableIndex :: "int option"
  dc_insertIndex :: "int option"
  dc_cardInsertIndices :: "(string \<times> int) list option"
  dc_reclaimTargets :: "(string \<times> int) list option"

section \<open>Operations\<close>

text \<open>\<open>Object.fromEntries(Object.entries(m ?? {}).filter(([key]) => key !== handKey))\<close>\<close>

definition entriesWithout :: "string \<Rightarrow> (string \<times> int) list option \<Rightarrow> (string \<times> int) list" where
  "entriesWithout handKey m = filter (\<lambda>(key, _). key \<noteq> handKey) (or_else m [])"

text \<open>\<open>Object.keys(m).length > 0 ? m : undefined\<close>\<close>

definition undefined_if_empty :: "'a list \<Rightarrow> 'a list option" where
  "undefined_if_empty m = (if m = [] then None else Some m)"

definition includesKey :: "string \<Rightarrow> DraftComposition \<Rightarrow> bool" where
  "includesKey handKey c \<longleftrightarrow> List.member (dc_handKeys c) handKey"

definition withoutHandKey :: "string \<Rightarrow> DraftComposition \<Rightarrow> DraftComposition option" where
  "withoutHandKey handKey c =
     (let handKeys = filter (\<lambda>key. key \<noteq> handKey) (dc_handKeys c)
      in if handKeys = [] then None
         else Some (c\<lparr>
           dc_handKeys := handKeys,
           dc_cardInsertIndices := undefined_if_empty (entriesWithout handKey (dc_cardInsertIndices c)),
           dc_reclaimTargets := undefined_if_empty (entriesWithout handKey (dc_reclaimTargets c))\<rparr>))"

definition removeHandKeyFromDrafts ::
  "DraftComposition list \<Rightarrow> string \<Rightarrow> DraftComposition list" where
  "removeHandKeyFromDrafts compositions handKey =
     (if \<not> list_ex (includesKey handKey) compositions then compositions
      else List.map_filter (withoutHandKey handKey) compositions)"

definition pruneDraftCompositions ::
  "DraftComposition list \<Rightarrow> string set \<Rightarrow> DraftComposition list" where
  "pruneDraftCompositions compositions validHandKeys =
     List.map_filter
       (\<lambda>c. let handKeys = filter (\<lambda>k. k \<in> validHandKeys) (dc_handKeys c)
            in if handKeys = [] then None else Some (c\<lparr>dc_handKeys := handKeys\<rparr>)) compositions"

text \<open>\<open>overHandKey ? a : b\<close>: the empty text is false as well.\<close>

definition given :: "string option \<Rightarrow> bool" where
  "given overHandKey \<longleftrightarrow> overHandKey \<noteq> None \<and> overHandKey \<noteq> Some []"

definition insertBefore :: "string list \<Rightarrow> string \<Rightarrow> string option \<Rightarrow> string list" where
  "insertBefore handKeys handKey overHandKey =
     (case (if given overHandKey then indexOf handKeys (the overHandKey) else None) of
        Some insertIndex \<Rightarrow> take insertIndex handKeys @ [handKey] @ drop insertIndex handKeys
      | None \<Rightarrow> handKeys @ [handKey])"

definition reorderWithin ::
  "(string list \<Rightarrow> nat \<Rightarrow> nat \<Rightarrow> string list) \<Rightarrow> DraftComposition list \<Rightarrow> DraftComposition \<Rightarrow>
     string \<Rightarrow> string \<Rightarrow> DraftComposition list" where
  "reorderWithin arrayMove compositions source handKey overHandKey =
     (case (indexOf (dc_handKeys source) handKey, indexOf (dc_handKeys source) overHandKey) of
        (Some oldIndex, Some newIndex) \<Rightarrow>
          (if oldIndex = newIndex then compositions
           else map (\<lambda>c. if dc_id c = dc_id source
                         then c\<lparr>dc_handKeys := arrayMove (dc_handKeys c) oldIndex newIndex\<rparr> else c)
                  compositions)
      | _ \<Rightarrow> compositions)"

definition placeInto ::
  "DraftComposition list \<Rightarrow> string \<Rightarrow> string \<Rightarrow> string option \<Rightarrow> DraftComposition list" where
  "placeInto compositions handKey targetCompositionId overHandKey =
     (let next_drafts = removeHandKeyFromDrafts compositions handKey
      in case findIndex (\<lambda>c. dc_id c = targetCompositionId) next_drafts of
           None \<Rightarrow> next_drafts
         | Some targetIndex \<Rightarrow>
             (let target = next_drafts ! targetIndex;
                  handKeys = filter (\<lambda>key. key \<noteq> handKey) (dc_handKeys target)
              in next_drafts[targetIndex :=
                   target\<lparr>dc_handKeys := insertBefore handKeys handKey overHandKey\<rparr>]))"

definition insertHandKeyIntoDraft ::
  "(string list \<Rightarrow> nat \<Rightarrow> nat \<Rightarrow> string list) \<Rightarrow> DraftComposition list \<Rightarrow> string \<Rightarrow> string \<Rightarrow>
     string option \<Rightarrow> DraftComposition list" where
  "insertHandKeyIntoDraft arrayMove compositions handKey targetCompositionId overHandKey =
     (case (List.find (includesKey handKey) compositions,
            List.find (\<lambda>c. dc_id c = targetCompositionId) compositions) of
        (Some source, Some target) \<Rightarrow>
          (if dc_id source = dc_id target \<and> given overHandKey
           then reorderWithin arrayMove compositions source handKey (the overHandKey)
           else placeInto compositions handKey targetCompositionId overHandKey)
      | _ \<Rightarrow> placeInto compositions handKey targetCompositionId overHandKey)"

definition moveDraftCompositionInsertIndex ::
  "DraftComposition list \<Rightarrow> string \<Rightarrow> int \<Rightarrow> DraftComposition list" where
  "moveDraftCompositionInsertIndex compositions compositionId insertIndex =
     map (\<lambda>c. if dc_id c = compositionId then c\<lparr>dc_insertIndex := Some insertIndex\<rparr> else c)
       compositions"

definition setDraftCardInsertIndex ::
  "DraftComposition list \<Rightarrow> string \<Rightarrow> string \<Rightarrow> int \<Rightarrow> DraftComposition list" where
  "setDraftCardInsertIndex compositions compositionId handKey insertIndex =
     map (\<lambda>c. if dc_id c \<noteq> compositionId then c
              else c\<lparr>
                dc_cardInsertIndices :=
                  Some (AList.update handKey insertIndex (or_else (dc_cardInsertIndices c) [])),
                dc_reclaimTargets := Some (entriesWithout handKey (dc_reclaimTargets c))\<rparr>)
       compositions"

definition setDraftCardReclaimTarget ::
  "DraftComposition list \<Rightarrow> string \<Rightarrow> string \<Rightarrow> int \<Rightarrow> DraftComposition list" where
  "setDraftCardReclaimTarget compositions compositionId handKey jokerIndex =
     map (\<lambda>c. if dc_id c \<noteq> compositionId then c
              else c\<lparr>
                dc_cardInsertIndices :=
                  undefined_if_empty (entriesWithout handKey (dc_cardInsertIndices c)),
                dc_reclaimTargets :=
                  Some (AList.update handKey jokerIndex (or_else (dc_reclaimTargets c) []))\<rparr>)
       compositions"

section \<open>The invariant\<close>

definition staged :: "DraftComposition list \<Rightarrow> string list" where
  "staged drafts = concat (map dc_handKeys drafts)"

definition draft_ids :: "DraftComposition list \<Rightarrow> string list" where
  "draft_ids drafts = map dc_id drafts"

definition drafts_ok :: "DraftComposition list \<Rightarrow> bool" where
  "drafts_ok drafts \<longleftrightarrow>
     distinct (staged drafts) \<and> distinct (draft_ids drafts) \<and> (\<forall>c \<in> set drafts. dc_handKeys c \<noteq> [])"

lemma staged_simps [simp]:
  "staged [] = []" "staged (c # drafts) = dc_handKeys c @ staged drafts"
  "staged (xs @ ys) = staged xs @ staged ys"
  by (simp_all add: staged_def)

lemma draft_ids_simps [simp]:
  "draft_ids [] = []" "draft_ids (c # drafts) = dc_id c # draft_ids drafts"
  "draft_ids (xs @ ys) = draft_ids xs @ draft_ids ys"
  by (simp_all add: draft_ids_def)

lemma in_staged_iff: "k \<in> set (staged drafts) \<longleftrightarrow> (\<exists>c \<in> set drafts. k \<in> set (dc_handKeys c))"
  by (auto simp: staged_def)

lemma includesKey_iff [simp]: "includesKey k c \<longleftrightarrow> k \<in> set (dc_handKeys c)"
  by (simp add: includesKey_def)

lemma staged_remove: "staged (removeHandKeyFromDrafts drafts k) = filter (\<lambda>key. key \<noteq> k) (staged drafts)"
proof (cases "list_ex (includesKey k) drafts")
  case True
  have "staged (List.map_filter (withoutHandKey k) ds) = filter (\<lambda>key. key \<noteq> k) (staged ds)" for ds
    by (induction ds) (auto simp: map_filter_simps withoutHandKey_def Let_def)
  with True show ?thesis by (simp add: removeHandKeyFromDrafts_def)
next
  case False
  then have "k \<notin> set (staged drafts)" by (auto simp: in_staged_iff list_ex_iff)
  then have "filter (\<lambda>key. key \<noteq> k) (staged drafts) = staged drafts"
    by (auto simp: filter_id_conv)
  with False show ?thesis by (simp add: removeHandKeyFromDrafts_def)
qed

lemma map_filter_draft:
  assumes "\<And>c c'. f c = Some c' \<Longrightarrow> dc_id c' = dc_id c"
  shows "set (draft_ids (List.map_filter f ds)) \<subseteq> set (draft_ids ds) \<and>
    (distinct (draft_ids ds) \<longrightarrow> distinct (draft_ids (List.map_filter f ds)))"
  using assms by (induction ds) (auto simp: map_filter_simps split: option.splits)

lemma withoutHandKey_id: "withoutHandKey k c = Some c' \<Longrightarrow> dc_id c' = dc_id c"
  by (auto simp: withoutHandKey_def Let_def split: if_splits)

lemma ids_remove:
  "set (draft_ids (removeHandKeyFromDrafts ds k)) \<subseteq> set (draft_ids ds)"
  "distinct (draft_ids ds) \<Longrightarrow> distinct (draft_ids (removeHandKeyFromDrafts ds k))"
  using map_filter_draft [of "withoutHandKey k" ds, OF withoutHandKey_id]
  by (simp_all add: removeHandKeyFromDrafts_def)

lemma filter_absent: "k \<notin> set xs \<Longrightarrow> filter (\<lambda>key. key \<noteq> k) xs = xs"
  by (auto simp: filter_id_conv)

lemma in_removeD:
  assumes "c \<in> set (removeHandKeyFromDrafts ds k)"
  shows "\<exists>c0 \<in> set ds. dc_id c = dc_id c0 \<and> dc_tableIndex c = dc_tableIndex c0 \<and>
    dc_handKeys c = filter (\<lambda>key. key \<noteq> k) (dc_handKeys c0)"
proof (cases "list_ex (includesKey k) ds")
  case False
  with assms have "c \<in> set ds" "k \<notin> set (dc_handKeys c)"
    by (auto simp: removeHandKeyFromDrafts_def list_ex_iff)
  then show ?thesis by (intro bexI [of _ c]) (simp_all add: filter_absent)
next
  case True
  with assms obtain c0 where "c0 \<in> set ds" "withoutHandKey k c0 = Some c"
    by (auto simp: removeHandKeyFromDrafts_def map_filter_def)
  then show ?thesis
    by (intro bexI [of _ c0]) (auto simp: withoutHandKey_def Let_def split: if_splits)
qed

lemma remove_nonempty:
  "\<forall>c \<in> set ds. dc_handKeys c \<noteq> [] \<Longrightarrow>
     \<forall>c \<in> set (removeHandKeyFromDrafts ds k). dc_handKeys c \<noteq> []"
  by (auto simp: removeHandKeyFromDrafts_def map_filter_def withoutHandKey_def Let_def)

lemma remove_ok: "drafts_ok ds \<Longrightarrow> drafts_ok (removeHandKeyFromDrafts ds k)"
  using remove_nonempty [of ds k] by (simp add: drafts_ok_def staged_remove ids_remove)

lemma in_removeI:
  assumes "c0 \<in> set ds" and "filter (\<lambda>key. key \<noteq> k) (dc_handKeys c0) \<noteq> []"
  shows "\<exists>c \<in> set (removeHandKeyFromDrafts ds k). dc_id c = dc_id c0 \<and>
    dc_tableIndex c = dc_tableIndex c0 \<and> dc_handKeys c = filter (\<lambda>key. key \<noteq> k) (dc_handKeys c0)"
proof (cases "list_ex (includesKey k) ds")
  case False
  with assms have "k \<notin> set (dc_handKeys c0)" by (auto simp: list_ex_iff)
  with False assms(1) show ?thesis
    by (intro bexI [of _ c0]) (simp_all add: removeHandKeyFromDrafts_def filter_absent)
next
  case True
  from assms(2) obtain c where c: "withoutHandKey k c0 = Some c"
    by (simp add: withoutHandKey_def Let_def)
  with True assms(1) have "c \<in> set (removeHandKeyFromDrafts ds k)"
    by (force simp: removeHandKeyFromDrafts_def map_filter_def)
  with c show ?thesis
    by (intro bexI [of _ c]) (auto simp: withoutHandKey_def Let_def split: if_splits)
qed

section \<open>Which draft a card is staged on\<close>

text \<open>The abstract view of the drafts: the cards of every draft, as a function of its id.\<close>

definition cards_of :: "DraftComposition list \<Rightarrow> string \<Rightarrow> string set" where
  "cards_of drafts d = (\<Union>c \<in> set (filter (\<lambda>c. dc_id c = d) drafts). set (dc_handKeys c))"

lemma in_cards_of_iff:
  "k \<in> cards_of drafts d \<longleftrightarrow> (\<exists>c \<in> set drafts. dc_id c = d \<and> k \<in> set (dc_handKeys c))"
  by (auto simp: cards_of_def)

lemma cards_of_remove: "cards_of (removeHandKeyFromDrafts ds k) d = cards_of ds d - {k}"
proof (intro set_eqI iffI)
  fix x assume "x \<in> cards_of (removeHandKeyFromDrafts ds k) d"
  then obtain c where "c \<in> set (removeHandKeyFromDrafts ds k)" "dc_id c = d" "x \<in> set (dc_handKeys c)"
    by (auto simp: in_cards_of_iff)
  with in_removeD [OF this(1)] show "x \<in> cards_of ds d - {k}"
    by (auto simp: in_cards_of_iff)
next
  fix x assume "x \<in> cards_of ds d - {k}"
  then obtain c where c: "c \<in> set ds" "dc_id c = d" "x \<in> set (dc_handKeys c)" "x \<noteq> k"
    by (auto simp: in_cards_of_iff)
  then have "filter (\<lambda>key. key \<noteq> k) (dc_handKeys c) \<noteq> []" by (auto simp: filter_empty_conv)
  from in_removeI [OF c(1) this] c show "x \<in> cards_of (removeHandKeyFromDrafts ds k) d"
    by (auto simp: in_cards_of_iff)
qed

lemma mset_insertBefore: "mset (insertBefore ks k over) = add_mset k (mset ks)"
proof -
  have "mset (take i ks) + mset (drop i ks) = mset ks" for i
    by (metis append_take_drop_id mset_append)
  then show ?thesis by (auto simp: insertBefore_def split: option.splits)
qed

lemma set_insertBefore [simp]: "set (insertBefore ks k over) = insert k (set ks)"
  by (metis mset_insertBefore set_mset_add_mset_insert set_mset_mset)

lemma insertBefore_nonempty [simp]: "insertBefore ks k over \<noteq> []"
  by (auto simp: insertBefore_def split: option.splits)

lemma mset_staged: "mset (staged ds) = (\<Sum>c \<leftarrow> ds. mset (dc_handKeys c))"
  by (induction ds) auto

lemma mset_staged_update:
  assumes "i < length ds"
  shows "mset (staged (ds[i := c])) + mset (dc_handKeys (ds ! i)) = mset (staged ds) + mset (dc_handKeys c)"
  using assms
proof (induction ds arbitrary: i)
  case Nil
  then show ?case by simp
next
  case (Cons x ds)
  then show ?case by (cases i) (auto simp: ac_simps)
qed

lemma draft_ids_update: "i < length ds \<Longrightarrow> dc_id c = dc_id (ds ! i) \<Longrightarrow> draft_ids (ds[i := c]) = draft_ids ds"
  by (simp add: draft_ids_def map_update list_update_same_conv)

section \<open>Placing a card\<close>

lemma not_staged_remove [simp]: "k \<notin> set (staged (removeHandKeyFromDrafts ds k))"
  by (simp add: staged_remove)

lemma in_draft_ids: "d \<in> set (draft_ids ds) \<longleftrightarrow> (\<exists>c \<in> set ds. dc_id c = d)"
  by (auto simp: draft_ids_def)

text \<open>The two outcomes of \<open>placeInto\<close>: the target is gone, or it takes the card.\<close>

lemma placeInto_gone:
  "d \<notin> set (draft_ids (removeHandKeyFromDrafts ds k)) \<Longrightarrow>
     placeInto ds k d over = removeHandKeyFromDrafts ds k"
proof -
  assume "d \<notin> set (draft_ids (removeHandKeyFromDrafts ds k))"
  then have "findIndex (\<lambda>c. dc_id c = d) (removeHandKeyFromDrafts ds k) = None"
    by (auto simp: findIndex_None_iff in_draft_ids)
  then show ?thesis by (simp add: placeInto_def)
qed

lemma placeInto_taken:
  assumes "d \<in> set (draft_ids (removeHandKeyFromDrafts ds k))"
  obtains i where "i < length (removeHandKeyFromDrafts ds k)"
    and "dc_id (removeHandKeyFromDrafts ds k ! i) = d"
    and "placeInto ds k d over = (removeHandKeyFromDrafts ds k)
      [i := (removeHandKeyFromDrafts ds k ! i)
         \<lparr>dc_handKeys := insertBefore (dc_handKeys (removeHandKeyFromDrafts ds k ! i)) k over\<rparr>]"
proof -
  let ?n = "removeHandKeyFromDrafts ds k"
  from assms obtain i where i: "findIndex (\<lambda>c. dc_id c = d) ?n = Some i"
    by (cases "findIndex (\<lambda>c. dc_id c = d) ?n") (auto simp: findIndex_None_iff in_draft_ids)
  then have *: "i < length ?n" "dc_id (?n ! i) = d" by (auto dest: findIndex_SomeD)
  from * have "k \<notin> set (dc_handKeys (?n ! i))"
    using not_staged_remove [of k ds] by (auto simp: in_staged_iff simp del: not_staged_remove)
  then have "placeInto ds k d over
      = ?n[i := (?n ! i)\<lparr>dc_handKeys := insertBefore (dc_handKeys (?n ! i)) k over\<rparr>]"
    using i by (simp add: placeInto_def Let_def filter_absent)
  with * show thesis by (rule that)
qed

lemma ids_placeInto: "draft_ids (placeInto ds k d over) = draft_ids (removeHandKeyFromDrafts ds k)"
proof (cases "d \<in> set (draft_ids (removeHandKeyFromDrafts ds k))")
  case True
  then show ?thesis
    by (rule placeInto_taken [where over = over]) (simp add: draft_ids_update)
qed (simp add: placeInto_gone)

lemma mset_placeInto:
  assumes "d \<in> set (draft_ids (removeHandKeyFromDrafts ds k))"
  shows "mset (staged (placeInto ds k d over)) = add_mset k (mset (staged (removeHandKeyFromDrafts ds k)))"
proof -
  let ?n = "removeHandKeyFromDrafts ds k"
  obtain i where i: "i < length ?n" and p: "placeInto ds k d over
      = ?n[i := (?n ! i)\<lparr>dc_handKeys := insertBefore (dc_handKeys (?n ! i)) k over\<rparr>]"
    using placeInto_taken [OF assms, of over] by metis
  from mset_staged_update [OF i] have
    "mset (staged (placeInto ds k d over)) + mset (dc_handKeys (?n ! i))
      = mset (staged ?n) + add_mset k (mset (dc_handKeys (?n ! i)))"
    unfolding p by (metis DraftComposition.select_convs(2) DraftComposition.surjective
        DraftComposition.update_convs(2) mset_insertBefore)
  then show ?thesis by simp
qed

lemma placeInto_ok:
  assumes ok: "drafts_ok ds"
  shows "drafts_ok (placeInto ds k d over)"
proof (cases "d \<in> set (draft_ids (removeHandKeyFromDrafts ds k))")
  case False
  with ok show ?thesis by (simp add: placeInto_gone remove_ok)
next
  case True
  let ?n = "removeHandKeyFromDrafts ds k"
  have n: "drafts_ok ?n" by (rule remove_ok [OF ok])
  have "distinct (staged (placeInto ds k d over)) = distinct (k # staged ?n)"
    using mset_placeInto [OF True, of over] by (intro mset_eq_imp_distinct_iff) simp
  moreover have "distinct (k # staged ?n)" using n by (simp add: drafts_ok_def)
  moreover have "\<forall>c \<in> set (placeInto ds k d over). dc_handKeys c \<noteq> []"
    by (rule placeInto_taken [OF True, of over]) (use n in \<open>auto simp: drafts_ok_def dest!: set_update_subset_insert [THEN subsetD]\<close>)
  ultimately show ?thesis using n by (simp add: drafts_ok_def ids_placeInto)
qed

lemma cards_of_update:
  assumes "distinct (draft_ids ds)" and "i < length ds" and "dc_id c = dc_id (ds ! i)"
  shows "cards_of (ds[i := c]) d = (if d = dc_id c then set (dc_handKeys c) else cards_of ds d)"
proof -
  have inj: "j = i" if "j < length ds" "dc_id (ds ! j) = dc_id (ds ! i)" for j
    using assms that nth_eq_iff_index_eq [of "draft_ids ds" j i] by (simp add: draft_ids_def)
  have nth: "k \<in> cards_of xs d \<longleftrightarrow> (\<exists>j < length xs. dc_id (xs ! j) = d \<and> k \<in> set (dc_handKeys (xs ! j)))"
    for xs k unfolding in_cards_of_iff by (metis in_set_conv_nth)
  show ?thesis
  proof (cases "d = dc_id c")
    case True
    then have "k \<in> cards_of (ds[i := c]) d \<longleftrightarrow> k \<in> set (dc_handKeys c)" for k
      unfolding nth using assms(2,3) inj by (metis length_list_update nth_list_update_eq nth_list_update_neq)
    with True show ?thesis by (simp add: set_eq_iff)
  next
    case False
    then have "k \<in> cards_of (ds[i := c]) d \<longleftrightarrow> k \<in> cards_of ds d" for k
      unfolding nth using assms(2,3) by (metis length_list_update nth_list_update_eq nth_list_update_neq)
    with False show ?thesis by (simp add: set_eq_iff)
  qed
qed

lemma cards_of_nth: "distinct (draft_ids ds) \<Longrightarrow> i < length ds \<Longrightarrow> cards_of ds (dc_id (ds ! i)) = set (dc_handKeys (ds ! i))"
  using cards_of_update [of ds i "ds ! i" "dc_id (ds ! i)"] by simp

lemma cards_of_placeInto:
  assumes ok: "drafts_ok ds"
  shows "cards_of (placeInto ds k d over) d' =
    (if d' = d \<and> cards_of ds d - {k} \<noteq> {} then insert k (cards_of ds d) else cards_of ds d' - {k})"
proof (cases "d \<in> set (draft_ids (removeHandKeyFromDrafts ds k))")
  case False
  then have "cards_of (removeHandKeyFromDrafts ds k) d = {}" by (auto simp: in_cards_of_iff in_draft_ids)
  then have "cards_of ds d - {k} = {}" by (simp add: cards_of_remove)
  with False show ?thesis by (simp add: placeInto_gone cards_of_remove)
next
  case True
  let ?n = "removeHandKeyFromDrafts ds k"
  have n: "distinct (draft_ids ?n)" "\<forall>c \<in> set ?n. dc_handKeys c \<noteq> []"
    using remove_ok [OF ok] by (auto simp: drafts_ok_def)
  obtain i where i: "i < length ?n" "dc_id (?n ! i) = d" and p: "placeInto ds k d over
      = ?n[i := (?n ! i)\<lparr>dc_handKeys := insertBefore (dc_handKeys (?n ! i)) k over\<rparr>]"
    using placeInto_taken [OF True, of over] by metis
  have c: "cards_of ds d - {k} = set (dc_handKeys (?n ! i))"
    using cards_of_nth [OF n(1) i(1)] i(2) by (simp add: cards_of_remove)
  then have "cards_of ds d - {k} \<noteq> {}" using n(2) i(1) by simp
  moreover have "insert k (set (dc_handKeys (?n ! i))) = insert k (cards_of ds d)"
    unfolding c [symmetric] by blast
  ultimately show ?thesis
    unfolding p using i by (simp add: cards_of_update [OF n(1)] cards_of_remove)
qed

section \<open>Edits that only rearrange\<close>

definition rearranges :: "(DraftComposition \<Rightarrow> DraftComposition) \<Rightarrow> DraftComposition list \<Rightarrow> bool" where
  "rearranges f ds \<longleftrightarrow>
     (\<forall>c \<in> set ds. dc_id (f c) = dc_id c \<and> mset (dc_handKeys (f c)) = mset (dc_handKeys c))"

lemma rearrangesD:
  assumes "rearranges f ds"
  shows "draft_ids (map f ds) = draft_ids ds"
    and "mset (staged (map f ds)) = mset (staged ds)"
    and "cards_of (map f ds) d = cards_of ds d"
    and "drafts_ok (map f ds) = drafts_ok ds"
proof -
  show ids: "draft_ids (map f ds) = draft_ids ds"
    using assms by (induction ds) (auto simp: rearranges_def)
  show m: "mset (staged (map f ds)) = mset (staged ds)"
    using assms by (induction ds) (auto simp: rearranges_def)
  have keys: "set (dc_handKeys (f c)) = set (dc_handKeys c)" if "c \<in> set ds" for c
    using assms that unfolding rearranges_def by (metis set_mset_mset)
  then show "cards_of (map f ds) d = cards_of ds d"
    using assms by (fastforce simp: in_cards_of_iff rearranges_def)
  have "(\<forall>c \<in> set (map f ds). dc_handKeys c \<noteq> []) = (\<forall>c \<in> set ds. dc_handKeys c \<noteq> [])"
    using keys by (auto simp flip: set_empty)
  then show "drafts_ok (map f ds) = drafts_ok ds"
    unfolding drafts_ok_def ids using mset_eq_imp_distinct_iff [OF m] by simp
qed

lemma rearranges_setInsertIndex:
  "rearranges (\<lambda>c. if dc_id c = d then c\<lparr>dc_insertIndex := i\<rparr> else c) ds"
  by (simp add: rearranges_def)

lemma rearranges_setIndices:
  "rearranges (\<lambda>c. if dc_id c \<noteq> d then c
     else c\<lparr>dc_cardInsertIndices := f c, dc_reclaimTargets := g c\<rparr>) ds"
  by (simp add: rearranges_def)

lemma indices_rearrange [simp]:
  "drafts_ok (moveDraftCompositionInsertIndex ds d i) = drafts_ok ds"
  "cards_of (moveDraftCompositionInsertIndex ds d i) d' = cards_of ds d'"
  "drafts_ok (setDraftCardInsertIndex ds d k i) = drafts_ok ds"
  "cards_of (setDraftCardInsertIndex ds d k i) d' = cards_of ds d'"
  "drafts_ok (setDraftCardReclaimTarget ds d k i) = drafts_ok ds"
  "cards_of (setDraftCardReclaimTarget ds d k i) d' = cards_of ds d'"
  unfolding moveDraftCompositionInsertIndex_def setDraftCardInsertIndex_def setDraftCardReclaimTarget_def
  by (rule rearrangesD [OF rearranges_setInsertIndex] rearrangesD [OF rearranges_setIndices])+

lemma same_draft: "distinct (draft_ids ds) \<Longrightarrow> c \<in> set ds \<Longrightarrow> c' \<in> set ds \<Longrightarrow> dc_id c = dc_id c' \<Longrightarrow> c = c'"
  by (auto simp: draft_ids_def distinct_map inj_on_def)

lemma reorderWithin_rearranges:
  assumes "array_move am" and "drafts_ok ds" and "source \<in> set ds"
  obtains f where "reorderWithin am ds source k over = map f ds" and "rearranges f ds"
proof (cases "indexOf (dc_handKeys source) k = None \<or> indexOf (dc_handKeys source) over = None \<or>
    indexOf (dc_handKeys source) k = indexOf (dc_handKeys source) over")
  case True
  then have "reorderWithin am ds source k over = map id ds"
    by (auto simp: reorderWithin_def split: option.splits)
  then show thesis by (rule that) (simp add: rearranges_def)
next
  case False
  then obtain i j where ij: "indexOf (dc_handKeys source) k = Some i"
    "indexOf (dc_handKeys source) over = Some j" "i \<noteq> j" by auto
  then have len: "i < length (dc_handKeys source)" "j < length (dc_handKeys source)"
    by (auto dest: indexOf_SomeD)
  let ?f = "\<lambda>c. if dc_id c = dc_id source then c\<lparr>dc_handKeys := am (dc_handKeys c) i j\<rparr> else c"
  have "reorderWithin am ds source k over = map ?f ds" using ij by (simp add: reorderWithin_def)
  moreover have "mset (am (dc_handKeys c) i j) = mset (dc_handKeys c)"
    if "c \<in> set ds" "dc_id c = dc_id source" for c
  proof -
    have "c = source" using assms(2,3) that by (intro same_draft [of ds]) (auto simp: drafts_ok_def)
    with len show ?thesis using array_move.move_items [OF assms(1)] by blast
  qed
  then have "rearranges ?f ds" by (simp add: rearranges_def)
  ultimately show thesis by (rule that)
qed

section \<open>Inserting a card\<close>

text \<open>\<open>reordered\<close>: the card is on the target already and dropped on another card of it.\<close>

definition reordered :: "DraftComposition list \<Rightarrow> string \<Rightarrow> string \<Rightarrow> string option \<Rightarrow> bool" where
  "reordered ds k d over \<longleftrightarrow> k \<in> cards_of ds d \<and> given over"

lemma staged_once:
  "distinct (staged ds) \<Longrightarrow> c \<in> set ds \<Longrightarrow> c' \<in> set ds \<Longrightarrow>
     k \<in> set (dc_handKeys c) \<Longrightarrow> k \<in> set (dc_handKeys c') \<Longrightarrow> c = c'"
proof (induction ds)
  case Nil
  then show ?case by simp
next
  case (Cons x ds)
  have "k \<notin> set (staged ds)" if "k \<in> set (dc_handKeys x)"
    using Cons.prems(1) that by auto
  then have "c = x \<longleftrightarrow> c' = x" using Cons.prems by (auto simp: in_staged_iff)
  with Cons show ?case by auto
qed

lemma find_includes:
  assumes "drafts_ok ds" and "k \<in> cards_of ds d"
  shows "\<exists>c. List.find (includesKey k) ds = Some c \<and> dc_id c = d"
proof -
  from assms(2) obtain c where c: "c \<in> set ds" "dc_id c = d" "k \<in> set (dc_handKeys c)"
    by (auto simp: in_cards_of_iff)
  then obtain c' where c': "List.find (includesKey k) ds = Some c'"
    by (cases "List.find (includesKey k) ds") (auto simp: find_None_iff)
  then have "c' \<in> set ds" "k \<in> set (dc_handKeys c')" by (auto dest: find_SomeD)
  with assms(1) c have "c' = c" by (intro staged_once [of ds]) (auto simp: drafts_ok_def)
  with c c' show ?thesis by blast
qed

lemma cards_of_unique:
  assumes "drafts_ok ds" and "k \<in> cards_of ds d" and "k \<in> cards_of ds d'"
  shows "d = d'"
  using find_includes [OF assms(1,2)] find_includes [OF assms(1,3)] by auto

lemma insertHandKey_cases:
  assumes "drafts_ok ds"
  shows "insertHandKeyIntoDraft am ds k d over =
    (if reordered ds k d over
     then reorderWithin am ds (the (List.find (includesKey k) ds)) k (the over)
     else placeInto ds k d over)"
proof (cases "List.find (includesKey k) ds")
  case None
  then have "k \<notin> cards_of ds d" by (auto simp: find_None_iff in_cards_of_iff)
  with None show ?thesis by (simp add: insertHandKeyIntoDraft_def reordered_def)
next
  case (Some source)
  then have s: "source \<in> set ds" "k \<in> set (dc_handKeys source)" by (auto dest: find_SomeD)
  have d: "dc_id source = d \<longleftrightarrow> k \<in> cards_of ds d"
  proof
    assume "dc_id source = d"
    with s show "k \<in> cards_of ds d" by (auto simp: in_cards_of_iff)
  next
    assume "k \<in> cards_of ds d"
    from find_includes [OF assms this] Some show "dc_id source = d" by auto
  qed
  show ?thesis
  proof (cases "List.find (\<lambda>c. dc_id c = d) ds")
    case None
    with s have "dc_id source \<noteq> d" by (auto simp: find_None_iff)
    with None Some d show ?thesis by (simp add: insertHandKeyIntoDraft_def reordered_def)
  next
    case (Some target)
    then have "dc_id target = d" by (auto dest: find_SomeD)
    with Some \<open>List.find (includesKey k) ds = Some source\<close> d show ?thesis
      by (simp add: insertHandKeyIntoDraft_def reordered_def)
  qed
qed

lemma insert_ok:
  assumes "array_move am" and "drafts_ok ds"
  shows "drafts_ok (insertHandKeyIntoDraft am ds k d over)"
proof (cases "reordered ds k d over")
  case True
  then obtain s where s: "List.find (includesKey k) ds = Some s"
    using find_includes [OF assms(2)] by (auto simp: reordered_def)
  then have "s \<in> set ds" by (auto dest: find_SomeD)
  from reorderWithin_rearranges [OF assms this, of k "the over"] show ?thesis
    using True s assms(2) by (metis insertHandKey_cases option.sel rearrangesD(4))
next
  case False
  with assms show ?thesis by (simp add: insertHandKey_cases placeInto_ok)
qed

lemma cards_of_insert:
  assumes "array_move am" and "drafts_ok ds"
  shows "cards_of (insertHandKeyIntoDraft am ds k d over) d' =
    (if d' = d \<and> (cards_of ds d - {k} \<noteq> {} \<or> reordered ds k d over) then insert k (cards_of ds d)
     else cards_of ds d' - {k})"
proof (cases "reordered ds k d over")
  case True
  then have k: "k \<in> cards_of ds d" by (simp add: reordered_def)
  then obtain s where s: "List.find (includesKey k) ds = Some s"
    using find_includes [OF assms(2)] by auto
  then have "s \<in> set ds" by (auto dest: find_SomeD)
  from reorderWithin_rearranges [OF assms this, of k "the over"]
  have "cards_of (insertHandKeyIntoDraft am ds k d over) d' = cards_of ds d'"
    using True s assms(2) by (metis insertHandKey_cases option.sel rearrangesD(3))
  moreover have "cards_of ds d' - {k} = cards_of ds d'" if "d' \<noteq> d"
    using that k cards_of_unique [OF assms(2)] by blast
  ultimately show ?thesis using True k by auto
next
  case False
  with assms show ?thesis by (simp add: insertHandKey_cases cards_of_placeInto)
qed

section \<open>The contract of an edit of one card\<close>

text \<open>
  What the operations on the card \<open>key\<close> share: they keep the invariant, and every other card stays
  on the draft it is on. The gestures of the board compose them.
\<close>

locale draft_edit =
  fixes key :: string and edit :: "DraftComposition list \<Rightarrow> DraftComposition list"
  assumes edit_ok: "drafts_ok ds \<Longrightarrow> drafts_ok (edit ds)"
    and edit_others: "drafts_ok ds \<Longrightarrow> k \<noteq> key \<Longrightarrow> k \<in> cards_of (edit ds) d \<longleftrightarrow> k \<in> cards_of ds d"
begin

lemma staged_others: "drafts_ok ds \<Longrightarrow> k \<noteq> key \<Longrightarrow> k \<in> set (staged (edit ds)) \<longleftrightarrow> k \<in> set (staged ds)"
  using edit_others by (metis in_cards_of_iff in_staged_iff)

lemma then_edit:
  assumes "draft_edit key edit'"
  shows "draft_edit key (\<lambda>ds. edit' (edit ds))"
proof
  fix ds :: "DraftComposition list" and k d
  assume ok: "drafts_ok ds"
  show "drafts_ok (edit' (edit ds))" by (rule draft_edit.edit_ok [OF assms edit_ok [OF ok]])
  assume "k \<noteq> key"
  then show "k \<in> cards_of (edit' (edit ds)) d \<longleftrightarrow> k \<in> cards_of ds d"
    using draft_edit.edit_others [OF assms edit_ok [OF ok]] edit_others [OF ok] by blast
qed

end

interpretation removed: draft_edit k "\<lambda>ds. removeHandKeyFromDrafts ds k" for k
  by unfold_locales (auto simp: remove_ok cards_of_remove)

interpretation targeted: draft_edit k "\<lambda>ds. setDraftCardReclaimTarget ds d k i" for k d i
  by unfold_locales simp_all

interpretation indexed: draft_edit k "\<lambda>ds. setDraftCardInsertIndex ds d k i" for k d i
  by unfold_locales simp_all

interpretation edge_moved: draft_edit k "\<lambda>ds. moveDraftCompositionInsertIndex ds d i" for k d i
  by unfold_locales simp_all

lemma draft_edit_insert:
  "array_move am \<Longrightarrow> draft_edit k (\<lambda>ds. insertHandKeyIntoDraft am ds k d over)"
  by unfold_locales (auto simp: insert_ok cards_of_insert split: if_splits)

interpretation inserted: draft_edit k "\<lambda>ds. insertHandKeyIntoDraft moveItem ds k d over" for k d over
  by (rule draft_edit_insert [OF moved.array_move_axioms])

text \<open>A card may also start a draft of its own, under an id no draft has.\<close>

definition startDraft :: "DraftComposition list \<Rightarrow> string \<Rightarrow> DraftComposition \<Rightarrow> DraftComposition list" where
  "startDraft compositions handKey c = removeHandKeyFromDrafts compositions handKey @ [c]"

lemma cards_of_append: "cards_of (xs @ ys) d = cards_of xs d \<union> cards_of ys d"
  by (auto simp: in_cards_of_iff)

lemma cards_of_startDraft:
  "dc_handKeys c = [k] \<Longrightarrow>
     cards_of (startDraft ds k c) d = cards_of ds d - {k} \<union> (if d = dc_id c then {k} else {})"
  by (auto simp: startDraft_def cards_of_append cards_of_remove in_cards_of_iff)

lemma startDraft_ok:
  assumes "drafts_ok ds" and "dc_id c \<notin> set (draft_ids ds)" and "dc_handKeys c = [k]"
  shows "drafts_ok (startDraft ds k c)"
proof -
  have "dc_id c \<notin> set (draft_ids (removeHandKeyFromDrafts ds k))" using ids_remove(1) assms(2) by blast
  with remove_ok [OF assms(1), of k] assms(3) show ?thesis
    by (auto simp: drafts_ok_def startDraft_def)
qed

section \<open>Placement of a staged card\<close>

text \<open>A card that reclaims a joker has no insertion index, and the other way round.\<close>

definition map_keys :: "(string \<times> int) list option \<Rightarrow> string set" where
  "map_keys m = fst ` set (or_else m [])"

definition placements_ok :: "DraftComposition list \<Rightarrow> bool" where
  "placements_ok ds \<longleftrightarrow>
     (\<forall>c \<in> set ds. map_keys (dc_cardInsertIndices c) \<inter> map_keys (dc_reclaimTargets c) = {})"

lemma map_keys_simps [simp]:
  "map_keys None = {}" "map_keys (Some m) = fst ` set m"
  "map_keys (undefined_if_empty m) = fst ` set m"
  "fst ` set (entriesWithout k m') = map_keys m' - {k}"
  by (auto simp: map_keys_def undefined_if_empty_def entriesWithout_def)

lemma map_keys_update [simp]: "fst ` set (AList.update k i (or_else m [])) = insert k (map_keys m)"
  by (simp add: map_keys_def dom_update)

lemma withoutHandKey_fields:
  assumes "withoutHandKey k c = Some c'"
  shows "map_keys (dc_cardInsertIndices c') = map_keys (dc_cardInsertIndices c) - {k}"
    and "map_keys (dc_reclaimTargets c') = map_keys (dc_reclaimTargets c) - {k}"
  using assms by (auto simp: withoutHandKey_def Let_def split: if_splits)

lemma placements_remove:
  assumes "placements_ok ds"
  shows "placements_ok (removeHandKeyFromDrafts ds k)"
proof (cases "list_ex (includesKey k) ds")
  case False
  with assms show ?thesis by (simp add: removeHandKeyFromDrafts_def)
next
  case True
  {
    fix c' assume "c' \<in> set (removeHandKeyFromDrafts ds k)"
    with True obtain c where "c \<in> set ds" "withoutHandKey k c = Some c'"
      by (auto simp: removeHandKeyFromDrafts_def map_filter_def)
    with assms withoutHandKey_fields [of k c c']
    have "map_keys (dc_cardInsertIndices c') \<inter> map_keys (dc_reclaimTargets c') = {}"
      unfolding placements_ok_def by blast
  }
  then show ?thesis unfolding placements_ok_def by blast
qed

lemma placements_keep:
  assumes "placements_ok ds"
    and "\<And>c. c \<in> set ds' \<Longrightarrow> \<exists>c0 \<in> set ds. dc_cardInsertIndices c = dc_cardInsertIndices c0 \<and>
           dc_reclaimTargets c = dc_reclaimTargets c0"
  shows "placements_ok ds'"
  using assms by (metis placements_ok_def)

lemma placements_placeInto:
  assumes "placements_ok ds"
  shows "placements_ok (placeInto ds k d over)"
proof (cases "d \<in> set (draft_ids (removeHandKeyFromDrafts ds k))")
  case False
  then show ?thesis using assms by (simp add: placeInto_gone placements_remove)
next
  case True
  show ?thesis
    by (rule placeInto_taken [OF True, of over], rule placements_keep [OF placements_remove [OF assms]])
      (auto dest!: set_update_subset_insert [THEN subsetD])
qed

lemma placements_insert:
  assumes "placements_ok ds"
  shows "placements_ok (insertHandKeyIntoDraft am ds k d over)"
proof -
  have "placements_ok (reorderWithin am ds s k k')" for s k'
    by (rule placements_keep [OF assms]) (auto simp: reorderWithin_def split: option.splits if_splits)
  with placements_placeInto [OF assms] show ?thesis
    by (auto simp: insertHandKeyIntoDraft_def split: option.splits)
qed

lemma placements_set:
  assumes "placements_ok ds"
  shows "placements_ok (setDraftCardInsertIndex ds d k i)"
    and "placements_ok (setDraftCardReclaimTarget ds d k i)"
    and "placements_ok (moveDraftCompositionInsertIndex ds d i)"
  using assms
  by (auto simp: placements_ok_def setDraftCardInsertIndex_def setDraftCardReclaimTarget_def
        moveDraftCompositionInsertIndex_def disjoint_iff)

section \<open>Properties\<close>


definition newDraft :: "string \<Rightarrow> string list \<Rightarrow> DraftComposition" where
  "newDraft i ks = \<lparr>dc_id = i, dc_handKeys = ks, dc_tableIndex = None, dc_insertIndex = None,
     dc_cardInsertIndices = None, dc_reclaimTargets = None\<rparr>"


text \<open>Dropping the only card of a draft on the zone of that same draft takes the card off the
  drafts: the draft is emptied and removed before the card is put back, so the card is staged
  nowhere afterwards.\<close>

theorem sole_card_dropped_on_own_draft:
  assumes "drafts_ok drafts" and "cards_of drafts target = {handKey}"
  shows "handKey \<notin> set (staged (insertHandKeyIntoDraft arrayMove drafts handKey target None)) \<and>
    target \<notin> set (draft_ids (insertHandKeyIntoDraft arrayMove drafts handKey target None))"
proof -
  let ?n = "removeHandKeyFromDrafts drafts handKey"
  have gone: "target \<notin> set (draft_ids ?n)"
  proof
    assume "target \<in> set (draft_ids ?n)"
    then obtain c where c: "c \<in> set ?n" "dc_id c = target" by (auto simp: in_draft_ids)
    then have "dc_handKeys c \<noteq> []" using remove_ok [OF assms(1)] by (simp add: drafts_ok_def)
    then have "cards_of ?n target \<noteq> {}" using c by (auto simp: cards_of_def)
    then show False using assms(2) by (simp add: cards_of_remove)
  qed
  moreover have "insertHandKeyIntoDraft arrayMove drafts handKey target None = ?n"
    using gone by (simp add: insertHandKey_cases [OF assms(1)] reordered_def given_def placeInto_gone)
  ultimately show ?thesis by simp
qed

theorem sole_card_dropped_on_own_draft_witness:
  "insertHandKeyIntoDraft moveItem [newDraft ''a'' [''x'']] ''x'' ''a'' None = [] \<and>
   ''x'' \<notin> set (staged (insertHandKeyIntoDraft moveItem [newDraft ''a'' [''x'']] ''x'' ''a'' None))"
proof
  show "insertHandKeyIntoDraft moveItem [newDraft ''a'' [''x'']] ''x'' ''a'' None = []" by code_simp
  have "drafts_ok [newDraft ''a'' [''x'']]" by code_simp
  then show "''x'' \<notin> set (staged (insertHandKeyIntoDraft moveItem [newDraft ''a'' [''x'']] ''x'' ''a'' None))"
    using sole_card_dropped_on_own_draft [of "[newDraft ''a'' [''x'']]" "''a''" "''x''" moveItem]
    by (simp add: cards_of_def newDraft_def)
qed

end
