(* ===== verification/JokerReclaims.thy ===== *)
theory JokerReclaims
  imports CardUtils DraftOps
begin

text \<open>
  Which staged cards replace a joker of a table composition (\<open>game-board-view-state.ts\<close>): by an
  explicit target chosen on the board, or, for a set, inferred from the cards.
\<close>

record PlannedJokerReclaim =
  pr_jokerIndex :: int
  pr_replacementEntry :: HandEntry

record JokerReclaimPlan =
  plan_additions :: "HandEntry list"
  plan_reclaims :: "PlannedJokerReclaim list"

record TableReclaimPlan =
  tp_reclaims :: "PlannedJokerReclaim list"
  tp_reclaimedEntryKeys :: "string set"

section \<open>Options\<close>

type_synonym ReclaimOption = "int \<times> CardSnapshot"

definition jokerAt :: "CompositionSnapshot \<Rightarrow> int \<Rightarrow> bool" where
  "jokerAt composition i =
     (case js_nth (comp_cards composition) i of Some c \<Rightarrow> card_isJoker c | None \<Rightarrow> False)"

definition jokerReclaimOptions :: "CompositionSnapshot \<Rightarrow> ReclaimOption list" where
  "jokerReclaimOptions composition =
     List.map_filter
       (\<lambda>(jokerIndex, cards).
          case js_nth cards 0 of
            None \<Rightarrow> None
          | Some replacementCard \<Rightarrow>
              (if 0 \<le> jokerIndex \<and> jokerAt composition jokerIndex \<and> length cards = 1
               then Some (jokerIndex, replacementCard) else None))
       (or_else (comp_jokerRepresentations composition) [])"

definition canReclaimJokerWithCard :: "CompositionSnapshot \<Rightarrow> int \<Rightarrow> CardSnapshot \<Rightarrow> bool" where
  "canReclaimJokerWithCard composition jokerIndex cd =
     (case List.find (\<lambda>(i, _). i = jokerIndex) (jokerReclaimOptions composition) of
        Some (_, replacementCard) \<Rightarrow> cardsEqual replacementCard cd
      | None \<Rightarrow> False)"

definition isAmbiguousRunInsertion :: "CompositionSnapshot \<Rightarrow> int \<Rightarrow> bool" where
  "isAmbiguousRunInsertion composition insertIndex =
     (if comp_type composition \<noteq> ''run'' then False
      else 0 < insertIndex \<and> insertIndex < int (length (comp_cards composition)))"

text \<open>The template text that serves as the key of an option.\<close>

definition optionCardKey :: "CardSnapshot \<Rightarrow> string" where
  "optionCardKey cd =
     shown_or (card_rank cd) @ ''-'' @ shown_or (card_suit cd) @ ''-'' @
       (if card_isJoker cd then ''true'' else ''false'')"

section \<open>Sets\<close>

text \<open>The first loop: additions fill the free places of the set. The result is
  \<open>(additions, remainingEntries, presentSuits)\<close>.\<close>

fun fillSet ::
  "int \<Rightarrow> int set \<Rightarrow> nat \<Rightarrow> HandEntry list \<Rightarrow> HandEntry list \<times> HandEntry list \<times> int set" where
  "fillSet setRank presentSuits additionsRemaining [] = ([], [], presentSuits)"
| "fillSet setRank presentSuits additionsRemaining (entry # entries) =
     (let keep = (case fillSet setRank presentSuits additionsRemaining entries of
                    (additions, remaining, suits) \<Rightarrow> (additions, entry # remaining, suits))
      in if card_isJoker (he_card entry) \<or> card_rank (he_card entry) \<noteq> Some setRank then keep
         else (case card_suit (he_card entry) of
                 None \<Rightarrow> keep
               | Some suit \<Rightarrow>
                   (if suit \<in> presentSuits then keep
                    else if 0 < additionsRemaining
                      then (case fillSet setRank (insert suit presentSuits)
                                   (additionsRemaining - 1) entries of
                              (additions, remaining, suits) \<Rightarrow> (entry # additions, remaining, suits))
                    else keep)))"

text \<open>The second loop: \<open>optionIndexByCardKey\<close> is a map that loses the option it has given.\<close>

fun matchOptions ::
  "(string \<Rightarrow> ReclaimOption option) \<Rightarrow> HandEntry list \<Rightarrow> JokerReclaimPlan" where
  "matchOptions optionIndexByCardKey [] = \<lparr>plan_additions = [], plan_reclaims = []\<rparr>"
| "matchOptions optionIndexByCardKey (entry # entries) =
     (let matched = (case optionIndexByCardKey (optionCardKey (he_card entry)) of
                       Some (jokerIndex, replacementCard) \<Rightarrow>
                         (if cardsEqual replacementCard (he_card entry)
                          then Some (jokerIndex, replacementCard) else None)
                     | None \<Rightarrow> None)
      in case matched of
           None \<Rightarrow> (let rest = matchOptions optionIndexByCardKey entries
                   in rest\<lparr>plan_additions := entry # plan_additions rest\<rparr>)
         | Some (jokerIndex, replacementCard) \<Rightarrow>
             (let rest = matchOptions
                    (optionIndexByCardKey(optionCardKey replacementCard := None)) entries
              in rest\<lparr>plan_reclaims :=
                   \<lparr>pr_jokerIndex = jokerIndex, pr_replacementEntry = entry\<rparr> # plan_reclaims rest\<rparr>))"

definition jokerIndices :: "CompositionSnapshot \<Rightarrow> int list" where
  "jokerIndices composition =
     List.map_filter (\<lambda>(i, cd). if card_isJoker cd then Some (int i) else None)
       (List.enumerate 0 (comp_cards composition))"

definition setOptions :: "CompositionSnapshot \<Rightarrow> int \<Rightarrow> int set \<Rightarrow> ReclaimOption list" where
  "setOptions composition setRank presentSuits =
     (let availableOptions = jokerReclaimOptions composition
      in if availableOptions = [] \<and> length (jokerIndices composition) = 1
         then (let missingSuits = filter (\<lambda>suit. suit \<notin> presentSuits) [0, 1, 2, 3]
               in if length missingSuits = 1
                  then [(jokerIndices composition ! 0,
                         \<lparr>card_rank = Some setRank, card_suit = Some (missingSuits ! 0),
                          card_isJoker = False\<rparr>)]
                  else availableOptions)
         else availableOptions)"

definition inferSetPlannedJokerReclaims ::
  "CompositionSnapshot \<Rightarrow> HandEntry list \<Rightarrow> JokerReclaimPlan" where
  "inferSetPlannedJokerReclaims composition stagedEntries =
     (let nonJokerCards = naturals (comp_cards composition)
      in case Option.bind (js_nth nonJokerCards 0) card_rank of
           None \<Rightarrow> \<lparr>plan_additions = stagedEntries, plan_reclaims = []\<rparr>
         | Some setRank \<Rightarrow>
             (case fillSet setRank (set (List.map_filter card_suit nonJokerCards))
                     (nat (max 0 (4 - int (length (comp_cards composition))))) stagedEntries of
                (additions, remainingEntries, presentSuits) \<Rightarrow>
                  (let options = setOptions composition setRank presentSuits;
                       matched = matchOptions (last_by (optionCardKey \<circ> snd) options) remainingEntries
                   in matched\<lparr>plan_additions := additions @ plan_additions matched\<rparr>)))"

section \<open>Runs\<close>

text \<open>The loop keeps the indices computed before it while \<open>splice\<close> shortens the array.\<close>

fun matchByIndex ::
  "ReclaimOption list \<Rightarrow> (string \<Rightarrow> nat option) \<Rightarrow> HandEntry list \<Rightarrow> JokerReclaimPlan" where
  "matchByIndex availableOptions optionIndexByCardKey [] = \<lparr>plan_additions = [], plan_reclaims = []\<rparr>"
| "matchByIndex availableOptions optionIndexByCardKey (entry # entries) =
     (let cardKey = optionCardKey (he_card entry);
          matched = Option.bind (optionIndexByCardKey cardKey)
            (\<lambda>i. map_option (\<lambda>option. (i, option)) (js_nth availableOptions (int i)))
      in case matched of
           None \<Rightarrow> (let rest = matchByIndex availableOptions optionIndexByCardKey entries
                   in rest\<lparr>plan_additions := entry # plan_additions rest\<rparr>)
         | Some (i, (jokerIndex, _)) \<Rightarrow>
             (let rest = matchByIndex (remove_at i availableOptions)
                    (optionIndexByCardKey(cardKey := None)) entries
              in rest\<lparr>plan_reclaims :=
                   \<lparr>pr_jokerIndex = jokerIndex, pr_replacementEntry = entry\<rparr> # plan_reclaims rest\<rparr>))"

definition indexByCardKey :: "ReclaimOption list \<Rightarrow> string \<Rightarrow> nat option" where
  "indexByCardKey options key =
     map_option fst (last_by (optionCardKey \<circ> snd \<circ> snd) (List.enumerate 0 options) key)"

definition inferPlannedJokerReclaimsForInsertIndex ::
  "CompositionSnapshot \<Rightarrow> HandEntry list \<Rightarrow> int \<Rightarrow> JokerReclaimPlan" where
  "inferPlannedJokerReclaimsForInsertIndex composition stagedEntries insertIndex =
     (if comp_type composition = ''set'' then inferSetPlannedJokerReclaims composition stagedEntries
      else (let availableOptions = jokerReclaimOptions composition
            in if availableOptions = [] \<or> isAmbiguousRunInsertion composition insertIndex
               then \<lparr>plan_additions = stagedEntries, plan_reclaims = []\<rparr>
               else matchByIndex availableOptions (indexByCardKey availableOptions) stagedEntries))"

definition inferPlannedJokerReclaims ::
  "CompositionSnapshot \<Rightarrow> HandEntry list \<Rightarrow> int option \<Rightarrow> JokerReclaimPlan" where
  "inferPlannedJokerReclaims composition stagedEntries insertIndex =
     inferPlannedJokerReclaimsForInsertIndex composition stagedEntries
       (or_else insertIndex (int (length (comp_cards composition))))"

section \<open>Explicit targets\<close>

definition targetOf :: "(string \<times> int) list option \<Rightarrow> string \<Rightarrow> int option" where
  "targetOf targets key = Option.bind targets (\<lambda>m. map_of m key)"

fun explicitReclaims ::
  "CompositionSnapshot \<Rightarrow> (string \<times> int) list option \<Rightarrow> int set \<Rightarrow> HandEntry list \<Rightarrow>
     PlannedJokerReclaim list" where
  "explicitReclaims composition reclaimTargets usedJokerIndices [] = []"
| "explicitReclaims composition reclaimTargets usedJokerIndices (entry # entries) =
     (case targetOf reclaimTargets (he_key entry) of
        None \<Rightarrow> explicitReclaims composition reclaimTargets usedJokerIndices entries
      | Some jokerIndex \<Rightarrow>
          (if jokerIndex \<in> usedJokerIndices
              \<or> \<not> canReclaimJokerWithCard composition jokerIndex (he_card entry)
           then explicitReclaims composition reclaimTargets usedJokerIndices entries
           else \<lparr>pr_jokerIndex = jokerIndex, pr_replacementEntry = entry\<rparr>
                # explicitReclaims composition reclaimTargets (insert jokerIndex usedJokerIndices)
                    entries))"

definition reclaimed_keys :: "PlannedJokerReclaim list \<Rightarrow> string set" where
  "reclaimed_keys reclaims = set (map (he_key \<circ> pr_replacementEntry) reclaims)"

definition buildExplicitReclaims ::
  "CompositionSnapshot \<Rightarrow> HandEntry list \<Rightarrow> (string \<times> int) list option \<Rightarrow> TableReclaimPlan" where
  "buildExplicitReclaims composition stagedEntries reclaimTargets =
     (let reclaims = explicitReclaims composition reclaimTargets {} stagedEntries
      in \<lparr>tp_reclaims = reclaims, tp_reclaimedEntryKeys = reclaimed_keys reclaims\<rparr>)"

definition planTableJokerReclaims ::
  "CompositionSnapshot \<Rightarrow> HandEntry list \<Rightarrow> int \<Rightarrow> (string \<times> int) list option \<Rightarrow>
     TableReclaimPlan" where
  "planTableJokerReclaims composition stagedEntries insertIndex reclaimTargets =
     (let explicit = buildExplicitReclaims composition stagedEntries reclaimTargets
      in if tp_reclaims explicit \<noteq> [] \<or> comp_type composition \<noteq> ''set'' then explicit
         else (let targetedEntryKeys = fst ` set (or_else reclaimTargets []);
                   entriesInPlayOrder =
                     filter (\<lambda>entry. he_key entry \<notin> targetedEntryKeys) stagedEntries @
                     filter (\<lambda>entry. he_key entry \<in> targetedEntryKeys) stagedEntries;
                   inferred = inferPlannedJokerReclaimsForInsertIndex composition
                     entriesInPlayOrder insertIndex
               in \<lparr>tp_reclaims = plan_reclaims inferred,
                   tp_reclaimedEntryKeys = reclaimed_keys (plan_reclaims inferred)\<rparr>))"

section \<open>Every staged card is an addition or a reclaim\<close>

definition reclaim_entries :: "PlannedJokerReclaim list \<Rightarrow> HandEntry list" where
  "reclaim_entries reclaims = map pr_replacementEntry reclaims"

lemma reclaim_entries_simps [simp]:
  "reclaim_entries [] = []"
  "reclaim_entries (r # rs) = pr_replacementEntry r # reclaim_entries rs"
  by (simp_all add: reclaim_entries_def)

lemma reclaimed_keys_eq: "reclaimed_keys rs = he_key ` set (reclaim_entries rs)"
  by (simp add: reclaimed_keys_def reclaim_entries_def image_comp)

lemma fillSet_partition:
  "fillSet r suits n es = (a, rest, suits') \<Longrightarrow> mset a + mset rest = mset es"
  by (induction r suits n es arbitrary: a rest suits' rule: fillSet.induct)
    (fastforce simp: Let_def split: prod.splits option.splits if_splits)+

lemma matchOptions_partition:
  "mset (plan_additions (matchOptions m es)) + mset (reclaim_entries (plan_reclaims (matchOptions m es)))
     = mset es"
  by (induction es arbitrary: m) (auto simp: Let_def split: option.splits if_splits)

lemma matchByIndex_partition:
  "mset (plan_additions (matchByIndex os m es)) +
     mset (reclaim_entries (plan_reclaims (matchByIndex os m es))) = mset es"
  by (induction es arbitrary: os m)
    (auto simp: Let_def split: option.splits if_splits prod.splits)

lemma inferSet_partition:
  "mset (plan_additions (inferSetPlannedJokerReclaims c es)) +
     mset (reclaim_entries (plan_reclaims (inferSetPlannedJokerReclaims c es))) = mset es"
  using matchOptions_partition
  by (fastforce simp: inferSetPlannedJokerReclaims_def Let_def add.assoc fillSet_partition
        split: option.splits prod.splits)

lemma infer_partition:
  "mset (plan_additions (inferPlannedJokerReclaimsForInsertIndex c es i)) +
     mset (reclaim_entries (plan_reclaims (inferPlannedJokerReclaimsForInsertIndex c es i))) = mset es"
  by (simp add: inferPlannedJokerReclaimsForInsertIndex_def Let_def inferSet_partition
        matchByIndex_partition)

section \<open>Reclaims name jokers, and each joker once\<close>

definition representations_ok :: "CompositionSnapshot \<Rightarrow> bool" where
  "representations_ok c \<longleftrightarrow> distinct (map fst (or_else (comp_jokerRepresentations c) []))"

lemma options_sound:
  "(i, cd) \<in> set (jokerReclaimOptions c) \<Longrightarrow>
     jokerAt c i \<and> (i, [cd]) \<in> set (or_else (comp_jokerRepresentations c) [])"
  by (auto simp: jokerReclaimOptions_def map_filter_def js_nth_def length_Suc_conv
        split: option.splits if_splits)

lemma options_distinct:
  assumes "representations_ok c"
  shows "distinct (map fst (jokerReclaimOptions c))"
proof -
  have "distinct (map fst (List.map_filter f xs)) \<and>
      fst ` set (List.map_filter f xs) \<subseteq> fst ` set xs"
    if "distinct (map fst xs)" and f: "\<And>x i cd. f x = Some (i, cd) \<Longrightarrow> i = fst x"
    for f :: "int \<times> CardSnapshot list \<Rightarrow> ReclaimOption option" and xs
    using that(1)
  proof (induction xs)
    case Nil
    then show ?case by (simp add: map_filter_simps)
  next
    case (Cons x xs)
    then show ?case
      by (cases "f x") (auto simp: map_filter_simps dest!: f, metis fst_conv image_eqI subsetD)
  qed
  note filtered = this
  show ?thesis
    unfolding jokerReclaimOptions_def
    by (rule filtered [THEN conjunct1])
      (use assms in \<open>auto simp: representations_ok_def split: option.splits if_splits\<close>)
qed

lemma canReclaim_iff:
  assumes "representations_ok c"
  shows "canReclaimJokerWithCard c i cd \<longleftrightarrow> (i, cd) \<in> set (jokerReclaimOptions c)"
proof -
  have "canReclaimJokerWithCard c i cd \<longleftrightarrow> map_of (jokerReclaimOptions c) i = Some cd"
  proof -
    have "map_of xs i = map_option snd (List.find (\<lambda>(j, _). j = i) xs)" for xs :: "ReclaimOption list"
      by (induction xs) auto
    then show ?thesis by (auto simp: canReclaimJokerWithCard_def split: option.splits)
  qed
  then show ?thesis using options_distinct [OF assms] by (simp add: map_of_eq_Some_iff)
qed

lemma canReclaim_joker: "canReclaimJokerWithCard c i cd \<Longrightarrow> jokerAt c i"
  by (auto simp: canReclaimJokerWithCard_def dest!: find_SomeD options_sound split: option.splits)

lemma explicit_sound:
  "r \<in> set (explicitReclaims c targets used es) \<Longrightarrow>
     pr_replacementEntry r \<in> set es \<and> pr_jokerIndex r \<notin> used \<and>
     targetOf targets (he_key (pr_replacementEntry r)) = Some (pr_jokerIndex r) \<and>
     canReclaimJokerWithCard c (pr_jokerIndex r) (he_card (pr_replacementEntry r))"
  by (induction c targets used es rule: explicitReclaims.induct)
    (auto split: option.splits if_splits)

lemma explicit_distinct:
  "distinct (map pr_jokerIndex (explicitReclaims c targets used es))"
  by (induction c targets used es rule: explicitReclaims.induct)
    (auto split: option.splits if_splits dest: explicit_sound)

lemma explicit_subseq:
  "distinct (map he_key es) \<Longrightarrow>
     distinct (map he_key (reclaim_entries (explicitReclaims c targets used es)))"
  by (induction c targets used es rule: explicitReclaims.induct)
    (auto simp: reclaim_entries_def split: option.splits if_splits dest: explicit_sound)

section \<open>The option map of a set\<close>

text \<open>
  \<open>option_map_ok c m\<close>: what the map gives for the text of a card is a joker of the composition,
  and different texts give different jokers.
\<close>

definition option_map_ok :: "CompositionSnapshot \<Rightarrow> (string \<Rightarrow> ReclaimOption option) \<Rightarrow> bool" where
  "option_map_ok c m \<longleftrightarrow>
     (\<forall>k i cd. m k = Some (i, cd) \<longrightarrow> jokerAt c i \<and> optionCardKey cd = k) \<and>
     (\<forall>k k' i cd cd'. m k = Some (i, cd) \<longrightarrow> m k' = Some (i, cd') \<longrightarrow> k = k')"

lemma option_map_okD:
  assumes "option_map_ok c m" and "m k = Some (i, cd)"
  shows "jokerAt c i" and "optionCardKey cd = k" and "m k' = Some (i, cd') \<Longrightarrow> k' = k"
  using assms unfolding option_map_ok_def by blast+

lemma option_map_ok_delete: "option_map_ok c m \<Longrightarrow> option_map_ok c (m(k := None))"
  by (auto simp: option_map_ok_def)

lemma option_map_ok_last_by:
  assumes "distinct (map fst os)" and "\<forall>(i, cd) \<in> set os. jokerAt c i"
  shows "option_map_ok c (last_by (optionCardKey \<circ> snd) os)"
  unfolding option_map_ok_def
proof (intro conjI allI impI)
  fix k i cd
  assume "last_by (optionCardKey \<circ> snd) os k = Some (i, cd)"
  from last_by_SomeD [OF this] assms(2) show "jokerAt c i" "optionCardKey cd = k" by auto
next
  fix k k' i cd cd'
  assume "last_by (optionCardKey \<circ> snd) os k = Some (i, cd)"
    "last_by (optionCardKey \<circ> snd) os k' = Some (i, cd')"
  from last_by_SomeD [OF this(1)] last_by_SomeD [OF this(2)] assms(1) show "k = k'"
    by (auto dest: eq_key_imp_eq_value)
qed

lemma jokerAt_index: "i < length (comp_cards c) \<Longrightarrow> jokerAt c (int i) = card_isJoker (comp_cards c ! i)"
  by (simp add: jokerAt_def js_nth_of_nat)

lemma jokerIndices_joker: "i \<in> set (jokerIndices c) \<Longrightarrow> jokerAt c i"
  by (auto simp: jokerIndices_def map_filter_def in_set_enumerate_eq jokerAt_index
        split: if_splits)

lemma setOptions_ok:
  assumes "representations_ok c"
  shows "option_map_ok c (last_by (optionCardKey \<circ> snd) (setOptions c r suits))"
proof (rule option_map_ok_last_by)
  show "distinct (map fst (setOptions c r suits))"
    using options_distinct [OF assms] by (auto simp: setOptions_def Let_def)
  have "jokerAt c (jokerIndices c ! 0)" if "length (jokerIndices c) = 1"
    using that by (intro jokerIndices_joker) simp
  then show "\<forall>(i, cd) \<in> set (setOptions c r suits). jokerAt c i"
    by (auto simp: setOptions_def Let_def dest: options_sound)
qed

lemma matchOptions_sound:
  assumes "option_map_ok c m" and "rc \<in> set (plan_reclaims (matchOptions m es))"
  shows "pr_replacementEntry rc \<in> set es \<and>
    m (optionCardKey (he_card (pr_replacementEntry rc)))
      = Some (pr_jokerIndex rc, he_card (pr_replacementEntry rc))"
  using assms
proof (induction es arbitrary: m)
  case Nil
  then show ?case by simp
next
  case (Cons e es)
  show ?case
  proof (cases "\<exists>i. m (optionCardKey (he_card e)) = Some (i, he_card e)")
    case False
    with Cons.prems(2) have "rc \<in> set (plan_reclaims (matchOptions m es))"
      by (auto simp: Let_def split: option.splits if_splits)
    from Cons.IH [OF Cons.prems(1) this] show ?thesis by simp
  next
    case True
    then obtain i where i: "m (optionCardKey (he_card e)) = Some (i, he_card e)" by blast
    from Cons.prems(2) i consider "rc = \<lparr>pr_jokerIndex = i, pr_replacementEntry = e\<rparr>"
      | "rc \<in> set (plan_reclaims (matchOptions (m(optionCardKey (he_card e) := None)) es))"
      by (auto simp: Let_def)
    then show ?thesis
    proof cases
      case 1
      with i show ?thesis by simp
    next
      case 2
      from Cons.IH [OF option_map_ok_delete [OF Cons.prems(1)] this] show ?thesis
        by (auto split: if_splits)
    qed
  qed
qed

lemma matchOptions_distinct:
  "option_map_ok c m \<Longrightarrow> distinct (map pr_jokerIndex (plan_reclaims (matchOptions m es)))"
proof (induction es arbitrary: m)
  case Nil
  then show ?case by simp
next
  case (Cons e es)
  show ?case
  proof (cases "\<exists>i. m (optionCardKey (he_card e)) = Some (i, he_card e)")
    case False
    with Cons show ?thesis by (auto simp: Let_def split: option.splits if_splits)
  next
    case True
    then obtain i where i: "m (optionCardKey (he_card e)) = Some (i, he_card e)" by blast
    let ?m = "m(optionCardKey (he_card e) := None)"
    have ok: "option_map_ok c ?m" by (rule option_map_ok_delete [OF Cons.prems])
    have "pr_jokerIndex rc \<noteq> i" if "rc \<in> set (plan_reclaims (matchOptions ?m es))" for rc
      using matchOptions_sound [OF ok that] option_map_okD(3) [OF Cons.prems i]
      by (auto split: if_splits)
    then have "i \<notin> set (map pr_jokerIndex (plan_reclaims (matchOptions ?m es)))" by auto
    moreover have "map pr_jokerIndex (plan_reclaims (matchOptions m (e # es)))
        = i # map pr_jokerIndex (plan_reclaims (matchOptions ?m es))"
      using i by (simp add: Let_def)
    ultimately show ?thesis using Cons.IH [OF ok] by (simp only: distinct.simps) simp
  qed
qed

section \<open>The plan for a table composition\<close>

text \<open>
  The contract the rest of the board relies on, stated for any planner: the reclaims take staged
  entries, each at most once, and each joker at most once; \<open>keys\<close> are the keys of the entries taken.
\<close>

definition unreclaimed :: "TableReclaimPlan \<Rightarrow> HandEntry list \<Rightarrow> HandEntry list" where
  "unreclaimed p es = filter (\<lambda>e. he_key e \<notin> tp_reclaimedEntryKeys p) es"

locale reclaim_planner =
  fixes plan :: "HandEntry list \<Rightarrow> TableReclaimPlan"
  assumes plan_entries: "distinct (map he_key es) \<Longrightarrow>
      set (reclaim_entries (tp_reclaims (plan es))) \<subseteq> set es \<and>
      distinct (map he_key (reclaim_entries (tp_reclaims (plan es))))"
    and plan_jokers: "distinct (map pr_jokerIndex (tp_reclaims (plan es)))"
    and plan_keys: "tp_reclaimedEntryKeys (plan es) = reclaimed_keys (tp_reclaims (plan es))"
begin

lemma partition:
  assumes "distinct (map he_key es)"
  shows "mset (reclaim_entries (tp_reclaims (plan es))) + mset (unreclaimed (plan es) es) = mset es"
proof -
  let ?r = "reclaim_entries (tp_reclaims (plan es))"
  have "distinct ?r" using plan_entries [OF assms] by (simp add: distinct_map)
  from mset_split_by_key [OF assms _ this] plan_entries [OF assms] show ?thesis
    by (simp add: unreclaimed_def plan_keys reclaimed_keys_eq)
qed

lemma reclaims_at_most: "distinct (map he_key es) \<Longrightarrow> length (tp_reclaims (plan es)) \<le> length es"
  using arg_cong [OF partition, of es size] by (simp add: reclaim_entries_def)

end

lemma explicit_entries_subset:
  "set (reclaim_entries (explicitReclaims c targets used es)) \<subseteq> set es"
  by (auto simp: reclaim_entries_def dest: explicit_sound)

interpretation explicit: reclaim_planner "\<lambda>es. buildExplicitReclaims c es targets" for c targets
  by unfold_locales
    (simp_all add: buildExplicitReclaims_def Let_def explicit_distinct explicit_subseq explicit_entries_subset)

definition play_order :: "(string \<times> int) list option \<Rightarrow> HandEntry list \<Rightarrow> HandEntry list" where
  "play_order targets es =
     filter (\<lambda>e. he_key e \<notin> fst ` set (or_else targets [])) es @
     filter (\<lambda>e. he_key e \<in> fst ` set (or_else targets [])) es"

lemma mset_play_order: "mset (play_order targets es) = mset es"
  using multiset_partition [of "mset es" "\<lambda>e. he_key e \<notin> fst ` set (or_else targets [])"]
  by (simp add: play_order_def)

lemma planTable_cases:
  "tp_reclaims (planTableJokerReclaims c es i targets) =
     (if explicitReclaims c targets {} es \<noteq> [] \<or> comp_type c \<noteq> ''set''
      then explicitReclaims c targets {} es
      else plan_reclaims (inferSetPlannedJokerReclaims c (play_order targets es)))"
  by (simp add: planTableJokerReclaims_def buildExplicitReclaims_def Let_def play_order_def
        inferPlannedJokerReclaimsForInsertIndex_def)

lemma planTable_keys:
  "tp_reclaimedEntryKeys (planTableJokerReclaims c es i targets)
     = reclaimed_keys (tp_reclaims (planTableJokerReclaims c es i targets))"
  by (simp add: planTableJokerReclaims_def buildExplicitReclaims_def Let_def)

lemma inferSet_entries:
  assumes "distinct (map he_key es)"
  shows "set (reclaim_entries (plan_reclaims (inferSetPlannedJokerReclaims c es))) \<subseteq> set es"
    and "distinct (map he_key (reclaim_entries (plan_reclaims (inferSetPlannedJokerReclaims c es))))"
proof -
  let ?p = "inferSetPlannedJokerReclaims c es"
  have p: "mset (plan_additions ?p @ reclaim_entries (plan_reclaims ?p)) = mset es"
    using inferSet_partition [of c es] by simp
  from mset_eq_setD [OF this] show "set (reclaim_entries (plan_reclaims ?p)) \<subseteq> set es" by auto
  have "mset (map he_key (plan_additions ?p @ reclaim_entries (plan_reclaims ?p))) = mset (map he_key es)"
    using p by (metis mset_map)
  from mset_eq_imp_distinct_iff [OF this] assms
  show "distinct (map he_key (reclaim_entries (plan_reclaims ?p)))" by simp
qed

lemma inferSet_reclaims:
  assumes "representations_ok c"
  shows "distinct (map pr_jokerIndex (plan_reclaims (inferSetPlannedJokerReclaims c es)))"
    and "r \<in> set (plan_reclaims (inferSetPlannedJokerReclaims c es)) \<Longrightarrow> jokerAt c (pr_jokerIndex r)"
  using matchOptions_distinct [OF setOptions_ok [OF assms]]
    matchOptions_sound [OF setOptions_ok [OF assms]] option_map_okD(1) [OF setOptions_ok [OF assms]]
  by (fastforce simp: inferSetPlannedJokerReclaims_def Let_def split: option.splits prod.splits)+

lemma distinct_play_order: "distinct (map he_key (play_order targets es)) = distinct (map he_key es)"
  by (intro mset_eq_imp_distinct_iff) (metis mset_map mset_play_order)

lemma planTable_planner:
  assumes "representations_ok c"
  shows "reclaim_planner (\<lambda>es. planTableJokerReclaims c es i targets)"
proof
  fix es :: "HandEntry list"
  have order: "set (play_order targets es) = set es" using mset_eq_setD [OF mset_play_order] .
  show "distinct (map pr_jokerIndex (tp_reclaims (planTableJokerReclaims c es i targets)))"
    by (simp add: planTable_cases explicit_distinct inferSet_reclaims [OF assms])
  show "tp_reclaimedEntryKeys (planTableJokerReclaims c es i targets)
      = reclaimed_keys (tp_reclaims (planTableJokerReclaims c es i targets))"
    by (rule planTable_keys)
  assume "distinct (map he_key es)"
  then show "set (reclaim_entries (tp_reclaims (planTableJokerReclaims c es i targets))) \<subseteq> set es \<and>
      distinct (map he_key (reclaim_entries (tp_reclaims (planTableJokerReclaims c es i targets))))"
    using inferSet_entries [of "play_order targets es" c] explicit_entries_subset explicit_subseq
    by (auto simp: planTable_cases distinct_play_order order)
qed

lemma planTable_jokers:
  assumes "representations_ok c" and "r \<in> set (tp_reclaims (planTableJokerReclaims c es i targets))"
  shows "jokerAt c (pr_jokerIndex r)"
  using assms(2) inferSet_reclaims(2) [OF assms(1)] explicit_sound canReclaim_joker
  by (fastforce simp: planTable_cases split: if_splits)

section \<open>Properties\<close>

text \<open>C6: Whatever is staged on a table composition and whatever targets were chosen, the plan uses
  every staged card exactly once, as a reclaim or as an addition, reclaims only places that hold a
  joker, and reclaims no joker twice.\<close>

theorem plan_uses_cards_and_jokers_once:
  assumes "representations_ok composition" and "distinct (map he_key entries)"
  shows
    "mset (reclaim_entries (tp_reclaims (planTableJokerReclaims composition entries i targets)))
       + mset (unreclaimed (planTableJokerReclaims composition entries i targets) entries)
       = mset entries \<and>
     distinct (map pr_jokerIndex (tp_reclaims (planTableJokerReclaims composition entries i targets))) \<and>
     (\<forall>r \<in> set (tp_reclaims (planTableJokerReclaims composition entries i targets)).
        jokerAt composition (pr_jokerIndex r))"
  using reclaim_planner.partition [OF planTable_planner [OF assms(1), of i targets] assms(2)]
    reclaim_planner.plan_jokers [OF planTable_planner [OF assms(1), of i targets], of entries]
    planTable_jokers [OF assms(1)]
  by simp

definition heart :: "int \<Rightarrow> CardSnapshot" where
  "heart r = \<lparr>card_rank = Some r, card_suit = Some 0, card_isJoker = False\<rparr>"

definition entry_of :: "string \<Rightarrow> CardSnapshot \<Rightarrow> HandEntry" where
  "entry_of k cd = \<lparr>he_key = k, he_card = cd, he_sourceIndex = 0, he_isVirtual = False\<rparr>"

text \<open>Five to nine of hearts, jokers in the places of the five, the seven and the nine.\<close>

definition joker_run :: CompositionSnapshot where
  "joker_run = \<lparr>comp_type = ''run'', comp_cards = [joker, heart 6, joker, heart 8, joker],
     comp_jokerRepresentations = Some [(0, [heart 5]), (2, [heart 7]), (4, [heart 9])],
     comp_points = 35, comp_complete = False\<rparr>"

theorem plan_uses_cards_and_jokers_once_witness:
  "mset (reclaim_entries (tp_reclaims (planTableJokerReclaims joker_run
        [entry_of ''a'' (heart 7), entry_of ''b'' (heart 10)] 5 (Some [(''a'', 2)]))))
     + mset (unreclaimed (planTableJokerReclaims joker_run
        [entry_of ''a'' (heart 7), entry_of ''b'' (heart 10)] 5 (Some [(''a'', 2)]))
        [entry_of ''a'' (heart 7), entry_of ''b'' (heart 10)])
   = mset [entry_of ''a'' (heart 7), entry_of ''b'' (heart 10)] \<and>
   map pr_jokerIndex (tp_reclaims (planTableJokerReclaims joker_run
        [entry_of ''a'' (heart 7), entry_of ''b'' (heart 10)] 5 (Some [(''a'', 2)]))) = [2]"
proof -
  have "representations_ok joker_run" by code_simp
  moreover have "distinct (map he_key [entry_of ''a'' (heart 7), entry_of ''b'' (heart 10)])" by code_simp
  moreover have "map pr_jokerIndex (tp_reclaims (planTableJokerReclaims joker_run
        [entry_of ''a'' (heart 7), entry_of ''b'' (heart 10)] 5 (Some [(''a'', 2)]))) = [2]" by code_simp
  ultimately show ?thesis using plan_uses_cards_and_jokers_once [of joker_run] by blast
qed

text \<open>The inference for runs uses indices that go stale. With jokers for the five, the seven and
  the nine of hearts, staging the five and the seven makes the plan give the seven the joker of the
  nine, which the reclaim rule of the same file rejects; the joker of the seven stays unused.\<close>

theorem run_inference_takes_wrong_joker:
  "let plan = inferPlannedJokerReclaims joker_run
         [entry_of ''a'' (heart 5), entry_of ''b'' (heart 7)] None
   in map (\<lambda>r. (pr_jokerIndex r, he_card (pr_replacementEntry r))) (plan_reclaims plan)
        = [(0, heart 5), (4, heart 7)] \<and>
      \<not> canReclaimJokerWithCard joker_run 4 (heart 7) \<and>
      canReclaimJokerWithCard joker_run 2 (heart 7)"
  by code_simp

end
