(* ===== verification/TablePlay.thy ===== *)
theory TablePlay
  imports JokerReclaims
begin

text \<open>
  From the drafts of the player to the request that is sent (\<open>game-board-view-state.ts\<close>): the cards
  of a table composition after a draft, the validation of the drafts, the table play request, and
  the views the board draws, with the virtual entries of the jokers a play would win back.
\<close>

record DraftedCompositionView = DraftComposition +
  dv_entries :: "HandEntry list"

record DraftValidationResult =
  val_invalidCompositionIds :: "string set"
  val_invalidEntryKeys :: "string set"

record OpeningTablePlayValidation =
  otv_canSubmit :: bool
  otv_reason :: "string option"

record TableCompositionView =
  tv_tableIndex :: int
  tv_key :: string
  tv_snapshot :: CompositionSnapshot
  tv_stagedEntries :: "HandEntry list"
  tv_reclaims :: "PlannedJokerReclaim list"
  tv_insertIndex :: int
  tv_cardInsertIndices :: "(string \<times> int) list option"

record VirtualReclaimedJoker =
  vj_key :: string
  vj_jokerIndex :: int
  vj_entry :: HandEntry

section \<open>The snapshot of a draft\<close>

definition buildDraftCompositionSnapshot :: "DraftedCompositionView \<Rightarrow> DraftCompositionSnapshot" where
  "buildDraftCompositionSnapshot v =
     (let cardPlacements = map (\<lambda>entry.
            \<lparr>place_insertIndex = targetOf (dc_cardInsertIndices v) (he_key entry),
             place_reclaimJokerIndex = targetOf (dc_reclaimTargets v) (he_key entry)\<rparr>) (dv_entries v);
          hasCardPlacements = list_ex (\<lambda>p. place_insertIndex p \<noteq> None
            \<or> place_reclaimJokerIndex p \<noteq> None) cardPlacements
      in \<lparr>draft_id = dc_id v, draft_tableIndex = dc_tableIndex v, draft_insertIndex = dc_insertIndex v,
          draft_cardPlacements = (if hasCardPlacements then Some cardPlacements else None),
          draft_cards = map he_card (dv_entries v)\<rparr>)"

section \<open>A table composition with a draft applied\<close>

definition insertIndexOf :: "(string \<times> int) list option \<Rightarrow> int \<Rightarrow> HandEntry \<Rightarrow> int" where
  "insertIndexOf cardInsertIndices defaultInsertIndex entry =
     or_else (targetOf cardInsertIndices (he_key entry)) defaultInsertIndex"

definition orderedAt :: "int \<Rightarrow> HandEntry list \<Rightarrow> HandEntry list" where
  "orderedAt insertIndex additions = (if insertIndex = 0 then rev additions else additions)"

definition replaceJokers :: "PlannedJokerReclaim list \<Rightarrow> CardSnapshot list \<Rightarrow> CardSnapshot list" where
  "replaceJokers reclaims cards =
     map (\<lambda>(i, cd). case last_by pr_jokerIndex reclaims (int i) of
                      Some r \<Rightarrow> he_card (pr_replacementEntry r) | None \<Rightarrow> cd)
       (List.enumerate 0 cards)"

definition cardsAfterTableDraft ::
  "CompositionSnapshot \<Rightarrow> DraftedCompositionView \<Rightarrow> string option \<Rightarrow> CardSnapshot list" where
  "cardsAfterTableDraft composition draft excludedEntryKey =
     (let entries = filter (\<lambda>entry. Some (he_key entry) \<noteq> excludedEntryKey) (dv_entries draft);
          defaultInsertIndex = or_else (dc_insertIndex draft) (int (length (comp_cards composition)));
          plannedReclaims = planTableJokerReclaims composition entries defaultInsertIndex
            (dc_reclaimTargets draft);
          cards = replaceJokers (tp_reclaims plannedReclaims) (comp_cards composition);
          additionsByInsertIndex =
            group_by (insertIndexOf (dc_cardInsertIndices draft) defaultInsertIndex)
              (unreclaimed plannedReclaims entries)
      in foldl (\<lambda>cards (insertIndex, additions).
                  splice_insert insertIndex (map he_card (orderedAt insertIndex additions)) cards)
           cards (sort_key (\<lambda>(insertIndex, _). - insertIndex) additionsByInsertIndex))"

section \<open>Validation\<close>

definition ownCards :: "DraftedCompositionView \<Rightarrow> CardSnapshot list" where
  "ownCards draft = map he_card (dv_entries draft)"

definition entriesToMark ::
  "CompositionSnapshot \<Rightarrow> DraftedCompositionView \<Rightarrow> HandEntry list" where
  "entriesToMark composition draft =
     (let individuallyResponsibleEntries =
            filter (\<lambda>entry. isValidDraftComposition
                (cardsAfterTableDraft composition draft (Some (he_key entry)))
                (Some (comp_type composition))) (dv_entries draft)
      in if individuallyResponsibleEntries \<noteq> [] then individuallyResponsibleEntries
         else dv_entries draft)"

definition validateDraft ::
  "CompositionSnapshot list \<Rightarrow> DraftValidationResult \<Rightarrow> DraftedCompositionView \<Rightarrow>
     DraftValidationResult" where
  "validateDraft activeCompositions res draft =
     (case dc_tableIndex draft of
        None \<Rightarrow>
          (if \<not> isValidDraftComposition (ownCards draft) None
           then res\<lparr>val_invalidCompositionIds := insert (dc_id draft) (val_invalidCompositionIds res)\<rparr>
           else res)
      | Some tableIndex \<Rightarrow>
          (case js_nth activeCompositions tableIndex of
             None \<Rightarrow> res\<lparr>val_invalidEntryKeys :=
                       val_invalidEntryKeys res \<union> he_key ` set (dv_entries draft)\<rparr>
           | Some composition \<Rightarrow>
               (if isValidDraftComposition (cardsAfterTableDraft composition draft None)
                     (Some (comp_type composition))
                then res
                else res\<lparr>val_invalidEntryKeys :=
                       val_invalidEntryKeys res
                         \<union> he_key ` set (entriesToMark composition draft)\<rparr>)))"

definition validateDraftedCompositions ::
  "CompositionSnapshot list \<Rightarrow> DraftedCompositionView list \<Rightarrow> DraftValidationResult" where
  "validateDraftedCompositions activeCompositions drafts =
     foldl (validateDraft activeCompositions)
       \<lparr>val_invalidCompositionIds = {}, val_invalidEntryKeys = {}\<rparr> drafts"

section \<open>The request\<close>

definition orderAdditionEntries ::
  "HandEntry list \<Rightarrow> int \<Rightarrow> (string \<times> int) list option \<Rightarrow> HandEntry list" where
  "orderAdditionEntries stagedEntries defaultInsertIndex cardInsertIndices =
     concat (map (\<lambda>(i, entries). orderedAt i entries)
       (group_by (insertIndexOf cardInsertIndices defaultInsertIndex) stagedEntries))"

definition noReclaims :: TableReclaimPlan where
  "noReclaims = \<lparr>tp_reclaims = [], tp_reclaimedEntryKeys = {}\<rparr>"

definition planFor ::
  "CompositionSnapshot option \<Rightarrow> DraftedCompositionView \<Rightarrow> int \<Rightarrow> TableReclaimPlan" where
  "planFor activeComposition composition defaultInsertIndex =
     (case activeComposition of
        Some active \<Rightarrow> planTableJokerReclaims active (dv_entries composition) defaultInsertIndex
                        (dc_reclaimTargets composition)
      | None \<Rightarrow> noReclaims)"

definition addToRequest ::
  "CompositionSnapshot list \<Rightarrow> TablePlayRequest \<Rightarrow> DraftedCompositionView \<Rightarrow> TablePlayRequest" where
  "addToRequest activeCompositions play composition =
     (case dc_tableIndex composition of
        None \<Rightarrow> play\<lparr>play_compositions := play_compositions play @ [\<lparr>reqc_cards = ownCards composition\<rparr>]\<rparr>
      | Some tableIndex \<Rightarrow>
          (let activeComposition = js_nth activeCompositions tableIndex;
               defaultInsertIndex = or_else (dc_insertIndex composition)
                 (case activeComposition of Some c \<Rightarrow> int (length (comp_cards c)) | None \<Rightarrow> 0);
               plannedReclaims = planFor activeComposition composition defaultInsertIndex;
               groups = group_by (insertIndexOf (dc_cardInsertIndices composition) defaultInsertIndex)
                 (unreclaimed plannedReclaims (dv_entries composition))
           in play\<lparr>
             play_additions := play_additions play @
               map (\<lambda>(insertIndex, entries).
                      \<lparr>reqa_compositionIndex = tableIndex, reqa_insertIndex = Some insertIndex,
                       reqa_cards = map he_card (orderedAt insertIndex entries)\<rparr>)
                 (filter (\<lambda>(insertIndex, entries). orderedAt insertIndex entries \<noteq> []) groups),
             play_reclaims := play_reclaims play @
               map (\<lambda>r. \<lparr>reqr_compositionIndex = tableIndex, reqr_jokerIndex = pr_jokerIndex r,
                         reqr_replacementCard = he_card (pr_replacementEntry r)\<rparr>)
                 (tp_reclaims plannedReclaims)\<rparr>))"

definition buildTablePlayRequest ::
  "CompositionSnapshot list \<Rightarrow> DraftedCompositionView list \<Rightarrow> TablePlayRequest" where
  "buildTablePlayRequest activeCompositions draftedCompositionsView =
     foldl (addToRequest activeCompositions)
       \<lparr>play_compositions = [], play_additions = [], play_reclaims = []\<rparr> draftedCompositionsView"

definition validateOpeningTablePlay ::
  "bool \<Rightarrow> DraftedCompositionView list \<Rightarrow> OpeningTablePlayValidation" where
  "validateOpeningTablePlay playerHasOpened draftedCompositionsView =
     (if playerHasOpened then \<lparr>otv_canSubmit = True, otv_reason = None\<rparr>
      else if list_ex (\<lambda>c. dc_tableIndex c = None \<and> dv_entries c \<noteq> []
             \<and> list_all (\<lambda>entry. \<not> he_isVirtual entry) (dv_entries c)) draftedCompositionsView
        then \<lparr>otv_canSubmit = True, otv_reason = None\<rparr>
      else \<lparr>otv_canSubmit = False, otv_reason = Some ''missing-own-composition''\<rparr>)"

section \<open>The views of the table\<close>

definition initialView :: "nat \<times> CompositionSnapshot \<Rightarrow> TableCompositionView" where
  "initialView = (\<lambda>(index, composition).
     \<lparr>tv_tableIndex = int index, tv_key = ''table-'' @ js_show (int index), tv_snapshot = composition,
      tv_stagedEntries = [], tv_reclaims = [],
      tv_insertIndex = int (length (comp_cards composition)), tv_cardInsertIndices = None\<rparr>)"

definition stageOnView ::
  "(string \<Rightarrow> HandEntry option) \<Rightarrow> DraftComposition \<Rightarrow> TableCompositionView \<Rightarrow>
     TableCompositionView" where
  "stageOnView entryByKey composition existing =
     (let stagedEntries = mapHandKeysToEntries (dc_handKeys composition) entryByKey;
          insertIndex = or_else (dc_insertIndex composition)
            (int (length (comp_cards (tv_snapshot existing))));
          plannedReclaims = planTableJokerReclaims (tv_snapshot existing) stagedEntries insertIndex
            (dc_reclaimTargets composition);
          additionEntries = unreclaimed plannedReclaims stagedEntries
      in existing\<lparr>
           tv_stagedEntries :=
             orderAdditionEntries additionEntries insertIndex (dc_cardInsertIndices composition) @
             reclaim_entries (tp_reclaims plannedReclaims),
           tv_reclaims := tp_reclaims plannedReclaims,
           tv_insertIndex := insertIndex,
           tv_cardInsertIndices := dc_cardInsertIndices composition\<rparr>)"

definition stageOnViews ::
  "(string \<Rightarrow> HandEntry option) \<Rightarrow> TableCompositionView list \<Rightarrow> DraftComposition \<Rightarrow>
     TableCompositionView list" where
  "stageOnViews entryByKey views composition =
     (case dc_tableIndex composition of
        None \<Rightarrow> views
      | Some tableIndex \<Rightarrow>
          (case js_nth views tableIndex of
             None \<Rightarrow> views
           | Some existing \<Rightarrow> views[nat tableIndex := stageOnView entryByKey composition existing]))"

definition buildTableCompositionViews ::
  "CompositionSnapshot list \<Rightarrow> DraftComposition list \<Rightarrow> (string \<Rightarrow> HandEntry option) \<Rightarrow>
     TableCompositionView list" where
  "buildTableCompositionViews activeCompositions draftCompositions entryByKey =
     foldl (stageOnViews entryByKey) (map initialView (List.enumerate 0 activeCompositions))
       draftCompositions"

definition virtualKey :: "int \<Rightarrow> int \<Rightarrow> string" where
  "virtualKey tableIndex jokerIndex =
     ''reclaimed-joker-'' @ js_show tableIndex @ ''-'' @ js_show jokerIndex"

definition virtualJoker :: "TableCompositionView \<Rightarrow> PlannedJokerReclaim \<Rightarrow> VirtualReclaimedJoker" where
  "virtualJoker composition reclaim =
     \<lparr>vj_key = virtualKey (tv_tableIndex composition) (pr_jokerIndex reclaim),
      vj_jokerIndex = pr_jokerIndex reclaim,
      vj_entry =
        \<lparr>he_key = virtualKey (tv_tableIndex composition) (pr_jokerIndex reclaim),
         he_card = \<lparr>card_rank = None, card_suit = None, card_isJoker = True\<rparr>,
         he_sourceIndex = -1, he_isVirtual = True\<rparr>\<rparr>"

definition buildVirtualReclaimedJokers ::
  "TableCompositionView list \<Rightarrow> VirtualReclaimedJoker list" where
  "buildVirtualReclaimedJokers tableCompositions =
     concat (map (\<lambda>composition. map (virtualJoker composition) (tv_reclaims composition))
       tableCompositions)"

record ResolvedDraftViews =
  rdv_tableCompositions :: "TableCompositionView list"
  rdv_virtualReclaimedJokers :: "VirtualReclaimedJoker list"
  rdv_draftCompositions :: "DraftComposition list"
  rdv_allHandEntries :: "HandEntry list"
  rdv_allEntryByKey :: "string \<Rightarrow> HandEntry option"

definition resolveDraftViews ::
  "CompositionSnapshot list \<Rightarrow> DraftComposition list \<Rightarrow> HandEntry list \<Rightarrow> ResolvedDraftViews" where
  "resolveDraftViews activeCompositions scopedDraftCompositions handEntries =
     (let validHandKeys = he_key ` set handEntries;
          draftCompositionsFromHand = pruneDraftCompositions scopedDraftCompositions validHandKeys;
          tableCompositions = buildTableCompositionViews activeCompositions
            draftCompositionsFromHand (entryByKeyOf handEntries);
          virtualReclaimedJokers = buildVirtualReclaimedJokers tableCompositions;
          allHandEntries = handEntries @ map vj_entry virtualReclaimedJokers;
          allValidHandKeys = he_key ` set allHandEntries;
          draftCompositions = pruneDraftCompositions scopedDraftCompositions allValidHandKeys;
          allEntryByKey = entryByKeyOf allHandEntries
      in \<lparr>rdv_tableCompositions =
            buildTableCompositionViews activeCompositions draftCompositions allEntryByKey,
          rdv_virtualReclaimedJokers = virtualReclaimedJokers,
          rdv_draftCompositions = draftCompositions,
          rdv_allHandEntries = allHandEntries,
          rdv_allEntryByKey = allEntryByKey\<rparr>)"

section \<open>Conservation of cards\<close>

lemma mset_orderedAt [simp]: "mset (orderedAt i es) = mset es"
  by (simp add: orderedAt_def)

lemma orderedAt_empty [simp]: "orderedAt i es = [] \<longleftrightarrow> es = []"
  by (simp add: orderedAt_def)

lemma mset_concat_snd_perm:
  "mset xs = mset ys \<Longrightarrow> mset (concat (map snd xs)) = mset (concat (map snd ys))"
proof -
  assume "mset xs = mset ys"
  then have "mset (map (mset \<circ> snd) xs) = mset (map (mset \<circ> snd) ys)" by (metis mset_map)
  then have "sum_list (map (mset \<circ> snd) xs) = sum_list (map (mset \<circ> snd) ys)"
    by (metis sum_mset_sum_list)
  then show ?thesis by (simp add: mset_concat comp_def)
qed

lemma mset_foldl_splice:
  "mset (foldl (\<lambda>cards (i, additions). splice_insert i (map he_card (orderedAt i additions)) cards) cards gs)
     = mset cards + image_mset he_card (mset (concat (map snd gs)))"
  by (induction gs arbitrary: cards) (auto simp: mset_splice_insert)

lemma nth_replaceJokers:
  "n < length cards \<Longrightarrow> replaceJokers rs cards ! n =
     (case last_by pr_jokerIndex rs (int n) of
        Some r \<Rightarrow> he_card (pr_replacementEntry r) | None \<Rightarrow> cards ! n)"
  by (simp add: replaceJokers_def nth_enumerate_eq)

lemma length_replaceJokers [simp]: "length (replaceJokers rs cards) = length cards"
  by (simp add: replaceJokers_def)

lemma last_by_Cons:
  "last_by f (x # xs) k = (case last_by f xs k of Some y \<Rightarrow> Some y | None \<Rightarrow> if f x = k then Some x else None)"
proof -
  have "List.find P (ys @ [x]) = (case List.find P ys of Some y \<Rightarrow> Some y | None \<Rightarrow> if P x then Some x else None)"
    for P and ys by (induction ys) auto
  then show ?thesis by (simp add: last_by_def)
qed

lemma replaceJokers_Cons:
  assumes "pr_jokerIndex r \<notin> set (map pr_jokerIndex rs)" and "0 \<le> pr_jokerIndex r"
    and "pr_jokerIndex r < int (length cards)"
  shows "replaceJokers (r # rs) cards =
    (replaceJokers rs cards)[nat (pr_jokerIndex r) := he_card (pr_replacementEntry r)]"
proof (rule nth_equalityI)
  fix n assume "n < length (replaceJokers (r # rs) cards)"
  then have n: "n < length cards" by simp
  show "replaceJokers (r # rs) cards ! n =
      (replaceJokers rs cards)[nat (pr_jokerIndex r) := he_card (pr_replacementEntry r)] ! n"
  proof (cases "pr_jokerIndex r = int n")
    case True
    then have "last_by pr_jokerIndex rs (int n) = None"
      using assms(1) by (simp add: last_by_None_iff)
    with True n show ?thesis by (simp add: nth_replaceJokers last_by_Cons)
  next
    case False
    then have "nat (pr_jokerIndex r) \<noteq> n" using assms(2) by auto
    with False n show ?thesis
      by (simp add: nth_replaceJokers last_by_Cons split: option.splits)
  qed
qed simp

definition reclaimed_jokers :: "CardSnapshot list \<Rightarrow> PlannedJokerReclaim list \<Rightarrow> CardSnapshot list" where
  "reclaimed_jokers cards rs = map (\<lambda>r. cards ! nat (pr_jokerIndex r)) rs"

lemma add_mset_exchange:
  "add_mset a A = add_mset b B \<Longrightarrow> B + X = C \<Longrightarrow> add_mset a (A + X) = add_mset b C"
  by (metis union_mset_add_mset_left)

lemma mset_replaceJokers:
  assumes "distinct (map pr_jokerIndex rs)"
    and "\<forall>r \<in> set rs. 0 \<le> pr_jokerIndex r \<and> pr_jokerIndex r < int (length cards)"
  shows "mset (replaceJokers rs cards) + mset (reclaimed_jokers cards rs)
    = mset cards + image_mset he_card (mset (reclaim_entries rs))"
  using assms
proof (induction rs)
  case Nil
  have "replaceJokers [] cards = cards"
    by (rule nth_equalityI) (simp_all add: nth_replaceJokers last_by_def)
  then show ?case by (simp add: reclaimed_jokers_def)
next
  case (Cons r rs)
  let ?n = "nat (pr_jokerIndex r)" and ?c = "he_card (pr_replacementEntry r)"
  have n: "?n < length cards" using Cons.prems by auto
  have "last_by pr_jokerIndex rs (pr_jokerIndex r) = None"
    using Cons.prems(1) by (simp add: last_by_None_iff)
  then have old: "replaceJokers rs cards ! ?n = cards ! ?n"
    using n Cons.prems(2) by (simp add: nth_replaceJokers)
  have "mset (replaceJokers (r # rs) cards) + {#cards ! ?n#} = add_mset ?c (mset (replaceJokers rs cards))"
    using Cons.prems n old
    by (simp add: replaceJokers_Cons mset_update)
      (metis insert_DiffM add_mset_commute length_replaceJokers nth_mem_mset)
  then have "add_mset (cards ! ?n) (mset (replaceJokers (r # rs) cards))
      = add_mset ?c (mset (replaceJokers rs cards))" by simp
  moreover have "mset (replaceJokers rs cards) + mset (reclaimed_jokers cards rs)
      = mset cards + image_mset he_card (mset (reclaim_entries rs))"
    using Cons by simp
  ultimately show ?case
    using add_mset_exchange [of "cards ! ?n" "mset (replaceJokers (r # rs) cards)" ?c]
    by (simp add: reclaimed_jokers_def)
qed

lemma jokerAt_bounds: "jokerAt c i \<Longrightarrow> 0 \<le> i \<and> i < int (length (comp_cards c))"
  by (auto simp: jokerAt_def js_nth_def split: if_splits)

lemma jokerAt_joker: "jokerAt c i \<Longrightarrow> card_isJoker (comp_cards c ! nat i)"
  by (auto simp: jokerAt_def js_nth_def split: if_splits)

text \<open>The plan and the entries of one draft on one composition.\<close>

definition draft_plan :: "CompositionSnapshot \<Rightarrow> DraftedCompositionView \<Rightarrow> TableReclaimPlan" where
  "draft_plan composition draft =
     planTableJokerReclaims composition (dv_entries draft)
       (or_else (dc_insertIndex draft) (int (length (comp_cards composition))))
       (dc_reclaimTargets draft)"

lemma filter_not_excluded [simp]: "filter (\<lambda>entry. Some (he_key entry) \<noteq> None) es = es"
  by simp

lemma mset_cardsAfterTableDraft:
  assumes "representations_ok c" and "distinct (map he_key (dv_entries d))"
  shows "mset (cardsAfterTableDraft c d None) + mset (reclaimed_jokers (comp_cards c) (tp_reclaims (draft_plan c d)))
    = mset (comp_cards c) + mset (ownCards d)"
proof -
  let ?p = "draft_plan c d"
  have planner: "reclaim_planner (\<lambda>es. planTableJokerReclaims c es
      (or_else (dc_insertIndex d) (int (length (comp_cards c)))) (dc_reclaimTargets d))"
    by (rule planTable_planner [OF assms(1)])
  have part: "mset (reclaim_entries (tp_reclaims ?p)) + mset (unreclaimed ?p (dv_entries d)) = mset (dv_entries d)"
    using reclaim_planner.partition [OF planner assms(2)] by (simp add: draft_plan_def)
  have "mset (cardsAfterTableDraft c d None)
      = mset (replaceJokers (tp_reclaims ?p) (comp_cards c))
        + image_mset he_card (mset (unreclaimed ?p (dv_entries d)))"
    unfolding cardsAfterTableDraft_def Let_def filter_not_excluded mset_foldl_splice
    by (subst mset_concat_snd_perm [OF mset_sort]) (simp add: mset_group_by draft_plan_def)
  moreover have "mset (replaceJokers (tp_reclaims ?p) (comp_cards c))
      + mset (reclaimed_jokers (comp_cards c) (tp_reclaims ?p))
    = mset (comp_cards c) + image_mset he_card (mset (reclaim_entries (tp_reclaims ?p)))"
  proof (rule mset_replaceJokers)
    show "distinct (map pr_jokerIndex (tp_reclaims ?p))"
      using reclaim_planner.plan_jokers [OF planner] by (simp add: draft_plan_def)
    show "\<forall>r \<in> set (tp_reclaims ?p). 0 \<le> pr_jokerIndex r \<and> pr_jokerIndex r < int (length (comp_cards c))"
      using planTable_jokers [OF assms(1)] jokerAt_bounds unfolding draft_plan_def by blast
  qed
  moreover have "mset (ownCards d)
      = image_mset he_card (mset (reclaim_entries (tp_reclaims ?p)) + mset (unreclaimed ?p (dv_entries d)))"
    unfolding part by (simp add: ownCards_def)
  ultimately show ?thesis by (simp add: ac_simps)
qed

section \<open>The request carries every staged card once\<close>

definition request_cards :: "TablePlayRequest \<Rightarrow> CardSnapshot list" where
  "request_cards play =
     concat (map reqc_cards (play_compositions play)) @
     concat (map reqa_cards (play_additions play)) @
     map reqr_replacementCard (play_reclaims play)"

lemma planFor_partition:
  assumes "\<forall>c \<in> set active. representations_ok c" and "distinct (map he_key (dv_entries d))"
  shows "mset (reclaim_entries (tp_reclaims (planFor (js_nth active t) d i)))
    + mset (unreclaimed (planFor (js_nth active t) d i) (dv_entries d)) = mset (dv_entries d)"
proof (cases "js_nth active t")
  case None
  then show ?thesis by (simp add: planFor_def noReclaims_def unreclaimed_def)
next
  case (Some c)
  then have "representations_ok c" using assms(1) js_nth_Some [OF Some] by simp
  from reclaim_planner.partition [OF planTable_planner [OF this, of i "dc_reclaimTargets d"] assms(2)]
  show ?thesis by (simp add: planFor_def Some)
qed

lemma filter_nonempty_groups:
  "filter (\<lambda>(i, es). orderedAt i es \<noteq> []) (group_by f xs) = group_by f xs"
  using group_by_nonempty by (intro filter_True) fastforce

lemma mset_group_cards:
  "mset (concat (map (\<lambda>(i, es). map he_card (orderedAt i es)) gs))
     = image_mset he_card (mset (concat (map snd gs)))"
  by (induction gs) auto

lemma mset_request_step:
  assumes "\<forall>c \<in> set active. representations_ok c" and "distinct (map he_key (dv_entries d))"
  shows "mset (request_cards (addToRequest active play d)) = mset (request_cards play) + mset (ownCards d)"
proof (cases "dc_tableIndex d")
  case None
  then show ?thesis by (simp add: addToRequest_def request_cards_def ac_simps)
next
  case (Some t)
  define i where "i = or_else (dc_insertIndex d)
    (case js_nth active t of Some c \<Rightarrow> int (length (comp_cards c)) | None \<Rightarrow> 0)"
  define p where "p = planFor (js_nth active t) d i"
  define gs where "gs = group_by (insertIndexOf (dc_cardInsertIndices d) i) (unreclaimed p (dv_entries d))"
  have add: "(\<lambda>x. reqa_cards (case x of (j, es) \<Rightarrow> \<lparr>reqa_compositionIndex = t,
      reqa_insertIndex = Some j, reqa_cards = map he_card (orderedAt j es)\<rparr>))
    = (\<lambda>(j, es). map he_card (orderedAt j es))"
    by (simp add: fun_eq_iff)
  have "mset (request_cards (addToRequest active play d)) = mset (request_cards play)
      + (image_mset he_card (mset (concat (map snd gs))) + image_mset he_card (mset (reclaim_entries (tp_reclaims p))))"
    unfolding addToRequest_def Some option.case Let_def i_def [symmetric] p_def [symmetric]
      gs_def [symmetric] request_cards_def
    unfolding gs_def filter_nonempty_groups
    by (simp add: add mset_group_cards reclaim_entries_def comp_def image_mset.compositionality ac_simps)
  also have "\<dots> = mset (request_cards play) + image_mset he_card (mset (dv_entries d))"
    unfolding planFor_partition [OF assms, of t i, folded p_def, symmetric]
    by (simp add: gs_def mset_group_by ac_simps)
  finally show ?thesis by (simp add: ownCards_def)
qed

lemma mset_request:
  assumes "\<forall>c \<in> set active. representations_ok c"
    and "\<forall>d \<in> set drafts. distinct (map he_key (dv_entries d))"
  shows "mset (request_cards (buildTablePlayRequest active drafts)) = mset (concat (map ownCards drafts))"
proof -
  have "mset (request_cards (foldl (addToRequest active) play drafts))
      = mset (request_cards play) + mset (concat (map ownCards drafts))" for play
    using assms(2)
    by (induction drafts arbitrary: play) (auto simp: mset_request_step [OF assms(1)] ac_simps)
  then show ?thesis by (simp add: buildTablePlayRequest_def) (simp add: request_cards_def)
qed

section \<open>What validation reports\<close>

definition draft_valid :: "CompositionSnapshot list \<Rightarrow> DraftedCompositionView \<Rightarrow> bool" where
  "draft_valid active d =
     (case dc_tableIndex d of
        None \<Rightarrow> isValidDraftComposition (ownCards d) None
      | Some t \<Rightarrow>
          (case js_nth active t of
             None \<Rightarrow> False
           | Some c \<Rightarrow> isValidDraftComposition (cardsAfterTableDraft c d None) (Some (comp_type c))))"

text \<open>The cards a draft is reported for: all of them when the composition is gone or no single
  card is responsible, else the cards whose removal makes the composition valid.\<close>

definition marked :: "CompositionSnapshot list \<Rightarrow> DraftedCompositionView \<Rightarrow> HandEntry list" where
  "marked active d =
     (case Option.bind (dc_tableIndex d) (js_nth active) of
        None \<Rightarrow> dv_entries d
      | Some c \<Rightarrow> entriesToMark c d)"

lemma set_entriesToMark: "set (entriesToMark c d) \<subseteq> set (dv_entries d)"
  by (auto simp: entriesToMark_def Let_def)

lemma entriesToMark_empty [simp]: "entriesToMark c d = [] \<longleftrightarrow> dv_entries d = []"
  by (auto simp: entriesToMark_def Let_def filter_empty_conv)

lemma validateDraft_eq:
  "val_invalidCompositionIds (validateDraft active res d)
     = val_invalidCompositionIds res
       \<union> (if dc_tableIndex d = None \<and> \<not> draft_valid active d then {dc_id d} else {})"
  "val_invalidEntryKeys (validateDraft active res d)
     = val_invalidEntryKeys res
       \<union> (if dc_tableIndex d \<noteq> None \<and> \<not> draft_valid active d then he_key ` set (marked active d) else {})"
  by (auto simp: validateDraft_def draft_valid_def marked_def split: option.splits)

lemma validate_eq:
  "val_invalidCompositionIds (validateDraftedCompositions active drafts)
     = dc_id ` {d \<in> set drafts. dc_tableIndex d = None \<and> \<not> draft_valid active d}"
  "val_invalidEntryKeys (validateDraftedCompositions active drafts)
     = (\<Union>d \<in> {d \<in> set drafts. dc_tableIndex d \<noteq> None \<and> \<not> draft_valid active d}.
          he_key ` set (marked active d))"
proof -
  have "val_invalidCompositionIds (foldl (validateDraft active) res drafts)
      = val_invalidCompositionIds res
        \<union> dc_id ` {d \<in> set drafts. dc_tableIndex d = None \<and> \<not> draft_valid active d} \<and>
    val_invalidEntryKeys (foldl (validateDraft active) res drafts)
      = val_invalidEntryKeys res
        \<union> (\<Union>d \<in> {d \<in> set drafts. dc_tableIndex d \<noteq> None \<and> \<not> draft_valid active d}.
             he_key ` set (marked active d))" for res
    by (induction drafts arbitrary: res) (auto simp: validateDraft_eq)
  then show
    "val_invalidCompositionIds (validateDraftedCompositions active drafts)
       = dc_id ` {d \<in> set drafts. dc_tableIndex d = None \<and> \<not> draft_valid active d}"
    "val_invalidEntryKeys (validateDraftedCompositions active drafts)
       = (\<Union>d \<in> {d \<in> set drafts. dc_tableIndex d \<noteq> None \<and> \<not> draft_valid active d}.
            he_key ` set (marked active d))"
    by (simp_all add: validateDraftedCompositions_def)
qed

lemma marked_nonempty: "marked active d = [] \<longleftrightarrow> dv_entries d = []"
  by (simp add: marked_def split: option.splits)

section \<open>The views and the virtual jokers\<close>

definition view_ok :: "TableCompositionView \<Rightarrow> bool" where
  "view_ok v \<longleftrightarrow>
     distinct (map pr_jokerIndex (tv_reclaims v)) \<and>
     (\<forall>r \<in> set (tv_reclaims v). jokerAt (tv_snapshot v) (pr_jokerIndex r))"

lemma stageOnView_keeps [simp]:
  "tv_tableIndex (stageOnView m c v) = tv_tableIndex v"
  "tv_snapshot (stageOnView m c v) = tv_snapshot v"
  by (simp_all add: stageOnView_def Let_def)

lemma stageOnView_ok: "representations_ok (tv_snapshot v) \<Longrightarrow> view_ok (stageOnView m c v)"
  using reclaim_planner.plan_jokers [OF planTable_planner] planTable_jokers
  by (simp add: view_ok_def stageOnView_def Let_def)

definition views_ok :: "CompositionSnapshot list \<Rightarrow> TableCompositionView list \<Rightarrow> bool" where
  "views_ok active views \<longleftrightarrow>
     map tv_snapshot views = active \<and> map tv_tableIndex views = map int [0..<length active] \<and>
     (\<forall>v \<in> set views. view_ok v)"

lemma stageOnViews_ok:
  assumes "\<forall>c \<in> set active. representations_ok c" and "views_ok active views"
  shows "views_ok active (stageOnViews m views d)"
proof (cases "Option.bind (dc_tableIndex d) (js_nth views)")
  case None
  then have "stageOnViews m views d = views"
    by (auto simp: stageOnViews_def split: option.splits)
  with assms(2) show ?thesis by simp
next
  case (Some v)
  then obtain t where t: "dc_tableIndex d = Some t" "js_nth views t = Some v" by (auto simp: bind_eq_Some_conv)
  then have n: "nat t < length views" "views ! nat t = v" by (auto simp: js_nth_def split: if_splits)
  then have "tv_snapshot v \<in> set active" using assms(2) by (auto simp: views_ok_def)
  with assms(1) have ok: "view_ok (stageOnView m d v)" by (simp add: stageOnView_ok)
  have "map tv_snapshot (views[nat t := stageOnView m d v]) = map tv_snapshot views"
    "map tv_tableIndex (views[nat t := stageOnView m d v]) = map tv_tableIndex views"
    using n by (simp_all add: map_update list_update_same_conv)
  with assms(2) ok t show ?thesis
    by (auto simp: views_ok_def stageOnViews_def dest!: set_update_subset_insert [THEN subsetD])
qed

lemma buildViews_ok:
  assumes "\<forall>c \<in> set active. representations_ok c"
  shows "views_ok active (buildTableCompositionViews active drafts m)"
proof -
  have "map tv_snapshot (map initialView (List.enumerate 0 active)) = active"
    "map tv_tableIndex (map initialView (List.enumerate 0 active)) = map int [0..<length active]"
    by (auto intro!: nth_equalityI simp: initialView_def nth_enumerate_eq)
  moreover have "view_ok (initialView x)" for x by (simp add: initialView_def view_ok_def split: prod.splits)
  ultimately have init: "views_ok active (map initialView (List.enumerate 0 active))"
    by (simp add: views_ok_def)
  have "views_ok active (foldl (stageOnViews m) views drafts)" if "views_ok active views" for views
    using that by (induction drafts arbitrary: views) (simp_all add: stageOnViews_ok [OF assms])
  with init show ?thesis by (simp add: buildTableCompositionViews_def)
qed

lemma virtualKey_inj:
  assumes "0 \<le> t" and "0 \<le> t'" and "virtualKey t j = virtualKey t' j'"
  shows "t = t' \<and> j = j'"
proof -
  from assms(3) have "js_show t @ CHR ''-'' # js_show j = js_show t' @ CHR ''-'' # js_show j'"
    by (simp add: virtualKey_def)
  from append_first_eq [OF this] assms(1,2) show ?thesis by (auto dest: js_show_inj)
qed

lemma virtual_keys_distinct:
  assumes "\<forall>v \<in> set views. view_ok v" and "distinct (map tv_tableIndex views)"
    and "\<forall>v \<in> set views. 0 \<le> tv_tableIndex v"
  shows "distinct (map vj_key (buildVirtualReclaimedJokers views))"
  using assms
proof (induction views)
  case Nil
  then show ?case by (simp add: buildVirtualReclaimedJokers_def)
next
  case (Cons v views)
  have t: "0 \<le> tv_tableIndex v" using Cons.prems(3) by simp
  have "virtualKey (tv_tableIndex v) j = virtualKey (tv_tableIndex v) j' \<longleftrightarrow> j = j'" for j j'
    using virtualKey_inj [OF t t] by blast
  then have "distinct (map (vj_key \<circ> virtualJoker v) (tv_reclaims v))"
    using Cons.prems(1) by (auto simp: view_ok_def distinct_map virtualJoker_def inj_on_def)
  moreover have "vj_key (virtualJoker v r) \<noteq> vj_key (virtualJoker v' r')"
    if "v' \<in> set views" for v' r r'
  proof
    assume "vj_key (virtualJoker v r) = vj_key (virtualJoker v' r')"
    then have "tv_tableIndex v = tv_tableIndex v'"
      using virtualKey_inj [OF t, of "tv_tableIndex v'"] Cons.prems(3) that by (auto simp: virtualJoker_def)
    with Cons.prems(2) that show False by (metis distinct.simps(2) image_eqI list.simps(9) set_map)
  qed
  ultimately show ?case
    using Cons by (auto simp: buildVirtualReclaimedJokers_def comp_def)
qed

lemma vj_entry_key: "vj \<in> set (buildVirtualReclaimedJokers views) \<Longrightarrow> he_key (vj_entry vj) = vj_key vj"
  by (auto simp: buildVirtualReclaimedJokers_def virtualJoker_def)

lemma virtual_not_hand_key: "virtualKey t j \<noteq> key_at (handCardKey cd) n"
proof -
  have "\<exists>c s. handCardKey cd = c # s \<and> c \<noteq> CHR ''r''"
  proof -
    have "\<exists>c s. shown_or x = c # s \<and> c \<noteq> CHR ''r''" for x
      using show_first [of "the x"] by (cases x) (auto simp: shown_or_def digits_def)
    then show ?thesis by (auto simp: handCardKey_def) (metis append_Cons)
  qed
  then show ?thesis by (auto simp: virtualKey_def key_at_def)
qed

lemma virtual_jokerAt:
  assumes "views_ok active views" and "vj \<in> set (buildVirtualReclaimedJokers views)"
  shows "\<exists>t c. js_nth active t = Some c \<and> jokerAt c (vj_jokerIndex vj) \<and>
    vj_key vj = virtualKey t (vj_jokerIndex vj)"
proof -
  from assms(2) obtain v r where v: "v \<in> set views" and r: "r \<in> set (tv_reclaims v)"
    and vj: "vj = virtualJoker v r" by (auto simp: buildVirtualReclaimedJokers_def)
  from v obtain n where n: "n < length views" "views ! n = v" by (auto simp: in_set_conv_nth)
  have snap: "map tv_snapshot views = active"
    and idx: "map tv_tableIndex views = map int [0..<length active]"
    using assms(1) by (simp_all add: views_ok_def)
  have len: "length views = length active" using arg_cong [OF snap, of length] by simp
  have "active ! n = map tv_snapshot views ! n" by (simp only: snap)
  then have "active ! n = tv_snapshot v" using n by simp
  moreover have "tv_tableIndex v = map tv_tableIndex views ! n" using n by simp
  then have "tv_tableIndex v = int n" unfolding idx using n len by simp
  ultimately have "js_nth active (tv_tableIndex v) = Some (tv_snapshot v)"
    using n len by (simp add: js_nth_of_nat)
  moreover have "jokerAt (tv_snapshot v) (pr_jokerIndex r)"
    using assms(1) v r by (simp add: views_ok_def view_ok_def)
  ultimately show ?thesis by (auto simp: vj virtualJoker_def)
qed

section \<open>Properties\<close>

text \<open>C1: The table play request that is sent holds exactly the cards of the drafts: every staged
  card once, in a new composition, an addition or a joker reclaim, and no other card.\<close>

theorem request_carries_each_card_once:
  assumes "\<forall>c \<in> set activeCompositions. representations_ok c"
    and "\<forall>d \<in> set drafts. distinct (map he_key (dv_entries d))"
  shows "mset (request_cards (buildTablePlayRequest activeCompositions drafts))
    = mset (concat (map ownCards drafts))"
  using assms by (rule mset_request)

definition draftView :: "string \<Rightarrow> int option \<Rightarrow> (string \<times> int) list option \<Rightarrow> HandEntry list \<Rightarrow> DraftedCompositionView" where
  "draftView i t targets es = \<lparr>dc_id = i, dc_handKeys = map he_key es, dc_tableIndex = t,
     dc_insertIndex = None, dc_cardInsertIndices = None, dc_reclaimTargets = targets, dv_entries = es\<rparr>"

definition example_drafts :: "DraftedCompositionView list" where
  "example_drafts =
     [draftView ''d1'' None None [entry_of ''a'' (heart 1), entry_of ''b'' (heart 2), entry_of ''c'' (heart 3)],
      draftView ''d2'' (Some 0) (Some [(''d'', 2)]) [entry_of ''d'' (heart 7), entry_of ''e'' (heart 10)]]"

theorem request_carries_each_card_once_witness:
  "mset (request_cards (buildTablePlayRequest [joker_run] example_drafts))
    = mset [heart 1, heart 2, heart 3, heart 7, heart 10]"
proof -
  have "\<forall>c \<in> set [joker_run]. representations_ok c" by code_simp
  moreover have "\<forall>d \<in> set example_drafts. distinct (map he_key (dv_entries d))" by code_simp
  ultimately have "mset (request_cards (buildTablePlayRequest [joker_run] example_drafts))
      = mset (concat (map ownCards example_drafts))"
    by (rule request_carries_each_card_once)
  also have "concat (map ownCards example_drafts) = [heart 1, heart 2, heart 3, heart 7, heart 10]"
    by code_simp
  finally show ?thesis .
qed

text \<open>C8: Applying a draft to a table composition keeps all cards: the new composition and the jokers
  won back are the old composition and the staged cards.\<close>

theorem table_draft_conserves_cards:
  assumes "representations_ok composition" and "distinct (map he_key (dv_entries draft))"
  shows "mset (cardsAfterTableDraft composition draft None) +
      mset (reclaimed_jokers (comp_cards composition) (tp_reclaims (draft_plan composition draft)))
    = mset (comp_cards composition) + mset (ownCards draft) \<and>
    (\<forall>cd \<in> set (reclaimed_jokers (comp_cards composition) (tp_reclaims (draft_plan composition draft))).
       card_isJoker cd)"
  using mset_cardsAfterTableDraft [OF assms] planTable_jokers [OF assms(1)] jokerAt_joker
  by (auto simp: reclaimed_jokers_def draft_plan_def)

theorem table_draft_conserves_cards_witness:
  "cardsAfterTableDraft joker_run (example_drafts ! 1) None
     = [joker, heart 6, heart 7, heart 8, joker, heart 10] \<and>
   mset (cardsAfterTableDraft joker_run (example_drafts ! 1) None) + {#joker#}
     = mset (comp_cards joker_run) + mset (ownCards (example_drafts ! 1))"
proof
  show "cardsAfterTableDraft joker_run (example_drafts ! 1) None
     = [joker, heart 6, heart 7, heart 8, joker, heart 10]" by code_simp
  have "representations_ok joker_run" by code_simp
  moreover have "distinct (map he_key (dv_entries (example_drafts ! 1)))" by code_simp
  moreover have "reclaimed_jokers (comp_cards joker_run) (tp_reclaims (draft_plan joker_run (example_drafts ! 1)))
      = [joker]" by code_simp
  ultimately show "mset (cardsAfterTableDraft joker_run (example_drafts ! 1) None) + {#joker#}
     = mset (comp_cards joker_run) + mset (ownCards (example_drafts ! 1))"
    using table_draft_conserves_cards [of joker_run "example_drafts ! 1"] by simp
qed

text \<open>C11: Validation reports nothing exactly when every draft is valid: a new composition is a set or
  a run, and a draft on a table composition leaves that composition valid (a draft without cards
  has nothing to report). What is reported names the invalid new compositions and cards of
  invalid additions only.\<close>

theorem validation_reports_invalid_drafts:
  "(val_invalidCompositionIds (validateDraftedCompositions active drafts) = {} \<and>
    val_invalidEntryKeys (validateDraftedCompositions active drafts) = {}) =
   (\<forall>d \<in> set drafts. draft_valid active d \<or> dc_tableIndex d \<noteq> None \<and> dv_entries d = []) \<and>
   val_invalidCompositionIds (validateDraftedCompositions active drafts)
     = dc_id ` {d \<in> set drafts. dc_tableIndex d = None \<and> \<not> draft_valid active d} \<and>
   val_invalidEntryKeys (validateDraftedCompositions active drafts)
     \<subseteq> he_key ` (\<Union>d \<in> {d \<in> set drafts. dc_tableIndex d \<noteq> None \<and> \<not> draft_valid active d}.
          set (dv_entries d))"
proof (intro conjI)
  have m: "set (marked active d) \<subseteq> set (dv_entries d)" for d
    using set_entriesToMark by (auto simp: marked_def split: option.splits)
  show "val_invalidEntryKeys (validateDraftedCompositions active drafts)
     \<subseteq> he_key ` (\<Union>d \<in> {d \<in> set drafts. dc_tableIndex d \<noteq> None \<and> \<not> draft_valid active d}.
          set (dv_entries d))"
    unfolding validate_eq using m by blast
  show "(val_invalidCompositionIds (validateDraftedCompositions active drafts) = {} \<and>
      val_invalidEntryKeys (validateDraftedCompositions active drafts) = {}) =
    (\<forall>d \<in> set drafts. draft_valid active d \<or> dc_tableIndex d \<noteq> None \<and> dv_entries d = [])"
    unfolding validate_eq by (auto simp: marked_nonempty)
qed (rule validate_eq)

theorem validation_reports_invalid_drafts_witness:
  "val_invalidEntryKeys (validateDraftedCompositions [joker_run]
     [draftView ''d'' (Some 0) None [entry_of ''a'' (heart 10), entry_of ''b'' (heart 2)]]) \<noteq> {}"
proof -
  let ?d = "draftView ''d'' (Some 0) None [entry_of ''a'' (heart 10), entry_of ''b'' (heart 2)]"
  have "\<not> draft_valid [joker_run] ?d" "dv_entries ?d \<noteq> []" "dc_tableIndex ?d \<noteq> None" by code_simp+
  then show ?thesis using validation_reports_invalid_drafts [of "[joker_run]" "[?d]"] by auto
qed

text \<open>A player who has not opened may play on the table exactly when one of the drafts is a new
  composition made of cards of the own hand only (none of them a joker still to be won back).\<close>

theorem opening_rule:
  "otv_canSubmit (validateOpeningTablePlay playerHasOpened drafts) \<longleftrightarrow>
     playerHasOpened \<or>
     (\<exists>d \<in> set drafts. dc_tableIndex d = None \<and> dv_entries d \<noteq> [] \<and>
        (\<forall>e \<in> set (dv_entries d). \<not> he_isVirtual e))"
  by (auto simp: validateOpeningTablePlay_def list_ex_iff list_all_iff)

theorem opening_rule_witness:
  "otv_canSubmit (validateOpeningTablePlay False example_drafts)"
  unfolding opening_rule
  by (rule disjI2, rule bexI [of _ "hd example_drafts"]) (simp_all add: example_drafts_def draftView_def entry_of_def)

text \<open>The entries the board works with, those of the hand and the virtual ones, have pairwise
  different keys, and every virtual entry stands for a joker that lies on the table.\<close>

theorem resolved_entries_distinct:
  assumes "\<forall>c \<in> set active. representations_ok c"
    and "mset handEntries = mset (buildHandEntries hand)"
  shows "distinct (map he_key (rdv_allHandEntries (resolveDraftViews active drafts handEntries))) \<and>
    (\<forall>vj \<in> set (rdv_virtualReclaimedJokers (resolveDraftViews active drafts handEntries)).
       \<exists>t c. js_nth active t = Some c \<and> jokerAt c (vj_jokerIndex vj) \<and>
         vj_key vj = virtualKey t (vj_jokerIndex vj))"
proof -
  define views where "views = buildTableCompositionViews active
    (pruneDraftCompositions drafts (he_key ` set handEntries)) (entryByKeyOf handEntries)"
  have ok: "views_ok active views" unfolding views_def by (rule buildViews_ok [OF assms(1)])
  have t: "map tv_tableIndex views = map int [0..<length active]" using ok by (simp add: views_ok_def)
  have "distinct (map tv_tableIndex views)" unfolding t by (simp add: distinct_map)
  moreover have "\<forall>v \<in> set views. 0 \<le> tv_tableIndex v"
    using arg_cong [OF t, of set] by (metis (no_types, lifting) image_eqI in_set_conv_nth list.set_map of_nat_0_le_iff imageE)
  ultimately have v: "distinct (map vj_key (buildVirtualReclaimedJokers views))"
    using ok by (intro virtual_keys_distinct) (auto simp: views_ok_def)
  have "map he_key (map vj_entry (buildVirtualReclaimedJokers views)) = map vj_key (buildVirtualReclaimedJokers views)"
    by (simp add: vj_entry_key)
  with v have "distinct (map he_key (map vj_entry (buildVirtualReclaimedJokers views)))" by (simp only:)
  moreover have "distinct (map he_key handEntries)"
    using build_keys_distinct [of hand] assms(2) by (metis mset_eq_imp_distinct_iff mset_map)
  moreover have "he_key e \<noteq> vj_key vj" if "e \<in> set handEntries" "vj \<in> set (buildVirtualReclaimedJokers views)" for e vj
  proof -
    have "e \<in> set (buildHandEntries hand)" using that(1) assms(2) by (metis set_mset_mset)
    then obtain n where "he_key e = key_at (handCardKey (he_card e)) n"
      using build_key_form [of e "\<lambda>_. None" 0 hand] by (auto simp: buildHandEntries_def)
    with virtual_jokerAt [OF ok that(2)] show ?thesis by (metis virtual_not_hand_key)
  qed
  ultimately have "distinct (map he_key (handEntries @ map vj_entry (buildVirtualReclaimedJokers views)))"
    unfolding map_append distinct_append by (auto simp: vj_entry_key)
  with virtual_jokerAt [OF ok] show ?thesis
    by (simp add: resolveDraftViews_def Let_def views_def)
qed

definition example_hand_cards :: "CardSnapshot list" where
  "example_hand_cards = [heart 7, heart 10]"

definition targeted_draft :: DraftComposition where
  "targeted_draft = \<lparr>dc_id = ''t'', dc_handKeys = [''7-0-1''], dc_tableIndex = Some 0,
     dc_insertIndex = Some 5, dc_cardInsertIndices = None, dc_reclaimTargets = Some [(''7-0-1'', 2)]\<rparr>"

theorem resolved_entries_distinct_witness:
  "map he_key (rdv_allHandEntries (resolveDraftViews [joker_run] [targeted_draft]
      (buildHandEntries example_hand_cards))) = [''7-0-1'', ''10-0-1'', ''reclaimed-joker-0-2''] \<and>
   distinct (map he_key (rdv_allHandEntries (resolveDraftViews [joker_run] [targeted_draft]
      (buildHandEntries example_hand_cards))))"
proof
  show "map he_key (rdv_allHandEntries (resolveDraftViews [joker_run] [targeted_draft]
      (buildHandEntries example_hand_cards))) = [''7-0-1'', ''10-0-1'', ''reclaimed-joker-0-2'']"
    by code_simp
  have "\<forall>c \<in> set [joker_run]. representations_ok c" by code_simp
  then show "distinct (map he_key (rdv_allHandEntries (resolveDraftViews [joker_run] [targeted_draft]
      (buildHandEntries example_hand_cards))))"
    using resolved_entries_distinct [of "[joker_run]" "buildHandEntries example_hand_cards" example_hand_cards]
    by blast
qed

end
