(* ===== verification/LobbyReducer.thy ===== *)
theory LobbyReducer
  imports GameTypes
begin

text \<open>
  The lobby state and how server messages change it: \<open>game-websocket-provider.tsx\<close> (the reducer and
  its helpers), \<open>lib/game-error-messages.ts\<close> and \<open>routes/game-route-view-state.ts\<close>.

  A message arrives as a type and a data object that the code reads field by field with
  \<open>data?.f\<close>; \<open>WireData\<close> holds those fields, \<open>None\<close> where a field is missing, \<open>null\<close> or, where the
  code tests the type of the field, of another type.
\<close>

record WireData =
  wd_sessionId :: "string option"
  wd_playerId :: "string option"
  wd_room :: "RoomSnapshot option"
  wd_game :: "GameSnapshot option"
  wd_spectating :: bool
  wd_result :: "ActionResult option"
  wd_userId :: "string option"
  wd_friends :: "SocialUser list option"
  wd_incomingFriendRequests :: "FriendRequest list option"
  wd_outgoingFriendRequestUserIds :: "string list option"
  wd_gameInvites :: "GameInvite list option"
  wd_code :: "string option"
  wd_message :: "string option"
  wd_action :: "string option"
  wd_requestId :: "string option"

section \<open>Error texts\<close>

definition errorCodes :: "string list" where
  "errorCodes =
     [''internal_error'', ''rate_limit_exceeded'', ''auth_required'', ''session_not_found'',
      ''session_user_mismatch'', ''connect_first'', ''missing_data'', ''invalid_data'',
      ''unknown_message_type'', ''already_in_room'', ''room_not_found'', ''room_full'',
      ''game_starting'', ''game_already_started'', ''join_room_first'', ''host_only_start'',
      ''not_enough_players'', ''players_disconnected'', ''deal_choice_pending'', ''no_deal_choice'',
      ''deal_chooser_only'', ''cut_size_required'', ''invalid_cut_size'', ''invalid_game_mode'',
      ''invalid_dealing_type'', ''invalid_dealing_order'', ''lobby_only_leave'',
      ''host_only_next_round'', ''player_inactive'', ''end_request_active'',
      ''end_request_cooldown'', ''unknown_end_request'', ''end_request_not_found'',
      ''vote_ineligible'', ''unknown_emote'', ''unknown_draw_source'', ''not_your_turn'',
      ''game_not_initialized'', ''game_not_in_progress'', ''game_in_progress'',
      ''cannot_start_next_round'', ''invalid_composition'', ''already_drew'', ''not_drawn'',
      ''cannot_take_discard'', ''cards_not_in_hand'', ''initial_points'',
      ''initial_own_composition'', ''keep_final_discard'', ''use_drawn_discard'',
      ''player_not_found'', ''already_forfeited'', ''invalid_card'', ''invalid_draft'',
      ''name_required'', ''problem_required'', ''problem_too_long'', ''connection_failed'',
      ''connection_lost'', ''connection_unavailable'', ''invalid_server_message'', ''send_failed'',
      ''command_timeout'']"

text \<open>\<open>m\<close> gives the generated text by its key, \<open>m ''error_...''\<close>; \<open>None\<close> is a code that is no text.\<close>

definition gameErrorMessage :: "(string \<Rightarrow> string) \<Rightarrow> string option \<Rightarrow> string" where
  "gameErrorMessage m code =
     (case code of
        None \<Rightarrow> m ''error_unknown''
      | Some c \<Rightarrow> (if List.member errorCodes c then m (''error_'' @ c) else m ''error_unknown''))"

section \<open>Updates\<close>

definition emptySocialState :: SocialState where
  "emptySocialState =
     \<lparr>social_userId = [], social_friends = [], social_incomingFriendRequests = [],
      social_outgoingFriendRequestUserIds = [], social_gameInvites = []\<rparr>"

definition initialState :: LobbyState where
  "initialState =
     \<lparr>ls_connectionStatus = Idle, ls_sessionId = [], ls_playerId = [], ls_room = None,
      ls_game = None, ls_lastActionResult = None, ls_lastError = None, ls_lastErrorCode = None,
      ls_lastErrorMessage = None, ls_lastErrorId = 0, ls_lastEvent = None,
      ls_completedGame = None, ls_isSpectating = False, ls_social = emptySocialState\<rparr>"

text \<open>\<open>part\<close> is the object spread over the current state.\<close>

definition withError ::
  "(string \<Rightarrow> string) \<Rightarrow> LobbyState \<Rightarrow> string \<Rightarrow> (LobbyState \<Rightarrow> LobbyState) \<Rightarrow> string option \<Rightarrow>
     LobbyState" where
  "withError m current code part developerMessage =
     (part current)\<lparr>
       ls_lastError := Some (gameErrorMessage m (Some code)),
       ls_lastErrorCode := Some code,
       ls_lastErrorMessage := Some (or_else developerMessage code),
       ls_lastErrorId := ls_lastErrorId current + 1\<rparr>"

definition clearError :: "LobbyState \<Rightarrow> (LobbyState \<Rightarrow> LobbyState) \<Rightarrow> LobbyState" where
  "clearError current part =
     (part current)\<lparr>ls_lastError := None, ls_lastErrorCode := None, ls_lastErrorMessage := None\<rparr>"

definition isRejectedSessionError :: "string \<Rightarrow> bool" where
  "isRejectedSessionError code \<longleftrightarrow> code = ''session_not_found'' \<or> code = ''session_user_mismatch''"

definition isSocialAction :: "string option \<Rightarrow> bool" where
  "isSocialAction action \<longleftrightarrow>
     action = Some ''send_friend_request'' \<or> action = Some ''respond_friend_request'' \<or>
     action = Some ''remove_friend'' \<or> action = Some ''send_game_invite'' \<or>
     action = Some ''respond_game_invite'' \<or> action = Some ''spectate_game'' \<or>
     action = Some ''stop_spectating''"

definition phase_is :: "RoomSnapshot option \<Rightarrow> string \<Rightarrow> bool" where
  "phase_is room phase \<longleftrightarrow> map_option room_phase room = Some phase"

definition reduceConnected :: "LobbyState \<Rightarrow> WireData \<Rightarrow> LobbyState" where
  "reduceConnected current data =
     clearError current (\<lambda>s. s\<lparr>
       ls_connectionStatus := Connected,
       ls_sessionId := or_else (wd_sessionId data) (ls_sessionId current),
       ls_playerId := or_else (wd_playerId data) (ls_playerId current),
       ls_isSpectating := False,
       ls_lastEvent := Some ''connected''\<rparr>)"

definition reduceRoomState :: "LobbyState \<Rightarrow> WireData \<Rightarrow> LobbyState" where
  "reduceRoomState current data =
     (let room = wd_room data;
          completedGame =
            (case (room, ls_game current) of
               (Some r, Some g) \<Rightarrow>
                 (if room_phase r = ''game_over'' then Some \<lparr>done_room = r, done_game = g\<rparr>
                  else ls_completedGame current)
             | _ \<Rightarrow> ls_completedGame current)
      in clearError current (\<lambda>s. s\<lparr>
           ls_room := room,
           ls_game := (if phase_is room ''lobby'' then None else ls_game current),
           ls_completedGame := completedGame,
           ls_lastEvent := Some ''room_state''\<rparr>))"

definition reduceGameState :: "LobbyState \<Rightarrow> WireData \<Rightarrow> LobbyState" where
  "reduceGameState current data =
     clearError current (\<lambda>s. s\<lparr>
       ls_room := or_option (wd_room data) (ls_room current),
       ls_game := wd_game data,
       ls_isSpectating := wd_spectating data,
       ls_completedGame :=
         (case (wd_room data, wd_game data) of
            (Some r, Some g) \<Rightarrow>
              (if room_phase r = ''game_over'' then Some \<lparr>done_room = r, done_game = g\<rparr>
               else if room_phase r = ''in_progress'' \<or> room_phase r = ''round_over'' then None
               else ls_completedGame current)
          | (Some r, None) \<Rightarrow>
              (if room_phase r = ''in_progress'' \<or> room_phase r = ''round_over'' then None
               else ls_completedGame current)
          | (None, _) \<Rightarrow> ls_completedGame current),
       ls_lastEvent := Some ''game_state''\<rparr>)"

definition reduceSocialState :: "LobbyState \<Rightarrow> WireData \<Rightarrow> LobbyState" where
  "reduceSocialState current data =
     clearError current (\<lambda>s. s\<lparr>
       ls_social :=
         \<lparr>social_userId = or_else (wd_userId data) (social_userId (ls_social current)),
          social_friends = or_else (wd_friends data) [],
          social_incomingFriendRequests = or_else (wd_incomingFriendRequests data) [],
          social_outgoingFriendRequestUserIds = or_else (wd_outgoingFriendRequestUserIds data) [],
          social_gameInvites = or_else (wd_gameInvites data) []\<rparr>,
       ls_lastEvent := Some ''social_state''\<rparr>)"

definition reduceError :: "(string \<Rightarrow> string) \<Rightarrow> LobbyState \<Rightarrow> WireData \<Rightarrow> LobbyState" where
  "reduceError m current data =
     (let code = or_else (wd_code data) ''internal_error'';
          developerMessage =
            (case wd_message data of Some t \<Rightarrow> (if t \<noteq> [] then t else code) | None \<Rightarrow> code)
      in if wd_action data = Some ''draft_update'' \<or> isSocialAction (wd_action data)
         then clearError current (\<lambda>s. s\<lparr>ls_lastEvent := Some ''error''\<rparr>)
         else withError m current code
           (\<lambda>s. s\<lparr>
              ls_connectionStatus :=
                (if ls_connectionStatus current = Connecting then Disconnected
                 else ls_connectionStatus current),
              ls_sessionId := (if isRejectedSessionError code then [] else ls_sessionId current),
              ls_lastEvent := Some ''error''\<rparr>)
           (Some developerMessage))"

definition reduceIncomingMessage ::
  "(string \<Rightarrow> string) \<Rightarrow> LobbyState \<Rightarrow> string \<Rightarrow> WireData \<Rightarrow> LobbyState" where
  "reduceIncomingMessage m current type data =
     (if type = ''connected'' then reduceConnected current data
      else if type = ''room_state'' then reduceRoomState current data
      else if type = ''game_state'' then reduceGameState current data
      else if type = ''spectating_ended'' then
        clearError current (\<lambda>s. s\<lparr>ls_room := None, ls_game := None, ls_isSpectating := False,
          ls_lastEvent := Some ''spectating_ended''\<rparr>)
      else if type = ''action_result'' then
        clearError current (\<lambda>s. s\<lparr>ls_lastActionResult := wd_result data,
          ls_lastEvent := Some ''action_result''\<rparr>)
      else if type = ''left_room'' then
        clearError current (\<lambda>s. s\<lparr>ls_room := None, ls_game := None, ls_completedGame := None,
          ls_isSpectating := False, ls_lastEvent := Some ''left_room''\<rparr>)
      else if type = ''social_state'' then reduceSocialState current data
      else if type = ''error'' then reduceError m current data
      else withError m current ''unknown_message_type'' (\<lambda>s. s) None)"

definition getDealerIndex :: "RoomSnapshot option \<Rightarrow> int" where
  "getDealerIndex room =
     (case room of
        None \<Rightarrow> 0
      | Some r \<Rightarrow>
          (if room_players r = [] then 0
           else (case findIndex pl_isHost (room_players r) of
                   Some hostIndex \<Rightarrow> int hostIndex
                 | None \<Rightarrow> 0)))"

definition setConnectionError :: "(string \<Rightarrow> string) \<Rightarrow> LobbyState \<Rightarrow> string \<Rightarrow> LobbyState" where
  "setConnectionError m current code =
     withError m current code (\<lambda>s. s\<lparr>ls_connectionStatus := Disconnected\<rparr>) None"

text \<open>Whether the game route still waits for its first snapshot (\<open>game-route-view-state.ts\<close>).\<close>

definition isGameRouteSnapshotResolving :: "LobbyState \<Rightarrow> bool" where
  "isGameRouteSnapshotResolving state =
     (if ls_connectionStatus state = Idle then True
      else if ls_connectionStatus state = Connecting \<and> ls_room state = None \<and> ls_game state = None
        then True
      else (case ls_room state of
              None \<Rightarrow> False
            | Some r \<Rightarrow> room_phase r \<noteq> ''lobby'' \<and> ls_game state = None))"

section \<open>The invariant of the lobby state\<close>

text \<open>
  The three fields of an error are set and cleared together, and a completed game is one whose
  room has reached \<open>game_over\<close>.
\<close>

definition lobby_ok :: "LobbyState \<Rightarrow> bool" where
  "lobby_ok s \<longleftrightarrow>
     (ls_lastError s = None \<longleftrightarrow> ls_lastErrorCode s = None) \<and>
     (ls_lastError s = None \<longleftrightarrow> ls_lastErrorMessage s = None) \<and>
     (\<forall>c. ls_completedGame s = Some c \<longrightarrow> room_phase (done_room c) = ''game_over'')"

text \<open>An update of other fields, and one of the completed game to a completed game or nothing.\<close>

definition completed_ok :: "LobbyState \<Rightarrow> bool" where
  "completed_ok s \<longleftrightarrow> (\<forall>c. ls_completedGame s = Some c \<longrightarrow> room_phase (done_room c) = ''game_over'')"

lemma lobby_ok_initial [simp]: "lobby_ok initialState"
  by (simp add: lobby_ok_def initialState_def)

lemma lobby_ok_withError [simp]: "lobby_ok (withError m s code part msg) \<longleftrightarrow> completed_ok (part s)"
  by (auto simp: lobby_ok_def withError_def completed_ok_def)

lemma lobby_ok_clearError [simp]: "lobby_ok (clearError s part) \<longleftrightarrow> completed_ok (part s)"
  by (auto simp: lobby_ok_def clearError_def completed_ok_def)

lemma lobby_ok_completed [simp]: "lobby_ok s \<Longrightarrow> completed_ok s"
  by (simp add: lobby_ok_def completed_ok_def)

lemma lobby_ok_setConnectionError [simp]: "lobby_ok s \<Longrightarrow> lobby_ok (setConnectionError m s code)"
  by (simp add: setConnectionError_def) (simp add: completed_ok_def lobby_ok_def)

lemmas reduce_defs = reduceConnected_def reduceRoomState_def reduceGameState_def
  reduceSocialState_def reduceError_def

lemma completed_ok_iff: "lobby_ok s \<Longrightarrow> ls_completedGame s = Some c \<Longrightarrow> room_phase (done_room c) = ''game_over''"
  by (simp add: lobby_ok_def)

lemma lobby_ok_connected: "lobby_ok s \<Longrightarrow> lobby_ok (reduceConnected s data)"
  by (simp add: reduceConnected_def completed_ok_def completed_ok_iff)

lemma lobby_ok_roomState: "lobby_ok s \<Longrightarrow> lobby_ok (reduceRoomState s data)"
  by (auto simp: reduceRoomState_def Let_def completed_ok_def completed_ok_iff
        split: option.splits if_splits)

lemma lobby_ok_gameState: "lobby_ok s \<Longrightarrow> lobby_ok (reduceGameState s data)"
  by (auto simp: reduceGameState_def completed_ok_def completed_ok_iff split: option.splits if_splits)

lemma lobby_ok_socialState: "lobby_ok s \<Longrightarrow> lobby_ok (reduceSocialState s data)"
  by (simp add: reduceSocialState_def completed_ok_def completed_ok_iff)

lemma lobby_ok_error: "lobby_ok s \<Longrightarrow> lobby_ok (reduceError m s data)"
  by (simp add: reduceError_def Let_def completed_ok_def completed_ok_iff)

lemma lobby_ok_reduce: "lobby_ok s \<Longrightarrow> lobby_ok (reduceIncomingMessage m s type data)"
  unfolding reduceIncomingMessage_def
  by (simp add: lobby_ok_connected lobby_ok_roomState lobby_ok_gameState lobby_ok_socialState
        lobby_ok_error completed_ok_def completed_ok_iff)

lemma errorId_withError [simp]: "ls_lastErrorId (withError m s code part msg) = ls_lastErrorId s + 1"
  by (simp add: withError_def)

lemma lastError_clearError [simp]: "ls_lastError (clearError s part) = None"
  by (simp add: clearError_def)

lemma lastError_withError [simp]: "ls_lastError (withError m s code part msg) = Some (gameErrorMessage m (Some code))"
  by (simp add: withError_def)

lemma errorId_clearError [simp]: "ls_lastErrorId (clearError s part) = ls_lastErrorId (part s)"
  by (simp add: clearError_def)

lemma errorId_reduce:
  "ls_lastErrorId (reduceIncomingMessage m s type data) =
     (if ls_lastError (reduceIncomingMessage m s type data) = None then ls_lastErrorId s
      else ls_lastErrorId s + 1)"
  by (simp add: reduceIncomingMessage_def reduceConnected_def reduceRoomState_def reduceGameState_def
        reduceSocialState_def reduceError_def Let_def)

lemma sessionId_reduce:
  assumes "type \<noteq> ''connected''" and "\<not> (type = ''error'' \<and> isRejectedSessionError (or_else (wd_code data) ''internal_error''))"
  shows "ls_sessionId (reduceIncomingMessage m s type data) = ls_sessionId s"
  using assms
  by (simp add: reduceIncomingMessage_def reduceRoomState_def reduceGameState_def
        reduceSocialState_def reduceError_def Let_def clearError_def withError_def)

text \<open>C21: Whatever message arrives, the error fields stay set or cleared together, a completed game
  stays one whose room is over, the error counter moves by one exactly when the message leaves an
  error to show, and the session id changes only on \<open>connected\<close> and on a rejected session.\<close>

theorem message_keeps_lobby_sound:
  assumes "lobby_ok s"
  shows "lobby_ok (reduceIncomingMessage m s type data) \<and>
    ls_lastErrorId (reduceIncomingMessage m s type data) =
      (if ls_lastError (reduceIncomingMessage m s type data) = None then ls_lastErrorId s
       else ls_lastErrorId s + 1) \<and>
    (ls_sessionId (reduceIncomingMessage m s type data) \<noteq> ls_sessionId s \<longrightarrow>
       type = ''connected'' \<or>
       type = ''error'' \<and> isRejectedSessionError (or_else (wd_code data) ''internal_error''))"
  using lobby_ok_reduce [OF assms] errorId_reduce sessionId_reduce by blast

definition emptyData :: WireData where
  "emptyData =
     \<lparr>wd_sessionId = None, wd_playerId = None, wd_room = None, wd_game = None, wd_spectating = False,
      wd_result = None, wd_userId = None, wd_friends = None, wd_incomingFriendRequests = None,
      wd_outgoingFriendRequestUserIds = None, wd_gameInvites = None, wd_code = None,
      wd_message = None, wd_action = None, wd_requestId = None\<rparr>"

theorem message_keeps_lobby_sound_witness:
  "ls_lastErrorId (reduceIncomingMessage (\<lambda>k. k) initialState ''error''
     (emptyData\<lparr>wd_code := Some ''session_not_found''\<rparr>)) = 1"
proof -
  have "ls_lastError (reduceIncomingMessage (\<lambda>k. k) initialState ''error''
     (emptyData\<lparr>wd_code := Some ''session_not_found''\<rparr>)) \<noteq> None"
    by (simp add: reduceIncomingMessage_def reduceError_def emptyData_def isSocialAction_def Let_def)
  then show ?thesis
    using message_keeps_lobby_sound [OF lobby_ok_initial, of "\<lambda>k. k" "''error''"
        "emptyData\<lparr>wd_code := Some ''session_not_found''\<rparr>"]
    by (simp add: initialState_def)
qed

end
