(* ===== verification/Machine.thy ===== *)
theory Machine
  imports Main
begin

text \<open>
  Runs of a transition system: the states reached from a start state by any sequence of steps, and
  the interface of an invariant, from which the facts about all runs follow.
\<close>

inductive reach :: "('s \<Rightarrow> 's \<Rightarrow> bool) \<Rightarrow> 's \<Rightarrow> 's \<Rightarrow> bool" for step :: "'s \<Rightarrow> 's \<Rightarrow> bool" and s0 :: 's
  where
  reach_start: "reach step s0 s0"
| reach_step: "reach step s0 s \<Longrightarrow> step s s' \<Longrightarrow> reach step s0 s'"

locale invariant =
  fixes start :: "'s \<Rightarrow> bool" and step :: "'s \<Rightarrow> 's \<Rightarrow> bool" and inv :: "'s \<Rightarrow> bool"
  assumes start_inv: "start s \<Longrightarrow> inv s"
    and step_inv: "inv s \<Longrightarrow> step s s' \<Longrightarrow> inv s'"
begin

lemma reach_inv: "reach step s s' \<Longrightarrow> inv s \<Longrightarrow> inv s'"
  by (induction rule: reach.induct) (auto intro: step_inv)

lemma run_inv: "start s \<Longrightarrow> reach step s s' \<Longrightarrow> inv s'"
  using reach_inv start_inv by blast

end

text \<open>A run given by its events, for a machine whose steps are a guarded function of an event.\<close>

definition guarded_step :: "('e \<Rightarrow> 's \<Rightarrow> bool) \<Rightarrow> ('e \<Rightarrow> 's \<Rightarrow> 's) \<Rightarrow> 's \<Rightarrow> 's \<Rightarrow> bool" where
  "guarded_step enabled handle s s' \<longleftrightarrow> (\<exists>e. enabled e s \<and> s' = handle e s)"

fun run :: "('e \<Rightarrow> 's \<Rightarrow> bool) \<Rightarrow> ('e \<Rightarrow> 's \<Rightarrow> 's) \<Rightarrow> 'e list \<Rightarrow> 's \<Rightarrow> 's option" where
  "run enabled handle [] s = Some s"
| "run enabled handle (e # es) s =
     (if enabled e s then run enabled handle es (handle e s) else None)"

lemma run_reach_from:
  "reach (guarded_step enabled handle) s0 s \<Longrightarrow> run enabled handle es s = Some s' \<Longrightarrow>
     reach (guarded_step enabled handle) s0 s'"
proof (induction es arbitrary: s)
  case Nil
  then show ?case by simp
next
  case (Cons e es)
  then have "guarded_step enabled handle s (handle e s)"
    by (auto simp: guarded_step_def split: if_splits)
  with Cons.prems(1) have "reach (guarded_step enabled handle) s0 (handle e s)"
    by (rule reach_step)
  from Cons.IH [OF this] Cons.prems(2) show ?case by (simp split: if_splits)
qed

lemma run_reach: "run enabled handle es s = Some s' \<Longrightarrow> reach (guarded_step enabled handle) s s'"
  by (rule run_reach_from [OF reach_start])

end
