(* ===== verification/Connection.thy ===== *)
theory Connection
  imports LobbyReducer Machine
begin

text \<open>
  The connection controller of \<open>game-websocket-provider.tsx\<close> (\<open>useGameWebSocketController\<close>).

  The state holds the refs of the hook, the store, and what the browser keeps for it: the ready
  state of every socket created and the connect attempt its handlers close over, the
  authorisation requests still open, the timers, the frames handed to a socket and the settled
  promises. An event is a call of the API, or a callback the browser runs: one JavaScript task
  each, so a handler is one function on the state. What the code does not control is data of the
  event: the answer of the authorisation, the text of a message as \<open>JSON.parse\<close> reads it, a fresh
  UUID, and the error \<open>socket.send\<close> may throw.
\<close>

section \<open>State\<close>

datatype ReadyState = CONNECTING | OPEN | CLOSING | CLOSED

record Socket =
  sk_ready :: ReadyState
  sk_attempt :: nat

datatype Outcome = Resolved ActionResult | Rejected string

record PendingAction =
  pa_requestId :: string
  pa_playerId :: "string option"
  pa_expectedAction :: string

datatype CommandData =
    EmptyData
  | ConnectData string
  | RoomCodeData string
  | UserData string
  | RequestAnswerData string bool
  | InviteAnswerData string bool
  | StartGameData int GameMode
  | DealTypeData string
  | DealChoiceData DealingChoiceRequest
  | EndKindData string
  | VoteData string bool
  | ReportData string bool
  | EmoteData string
  | DrawData string
  | DraftsData "DraftCompositionSnapshot list"
  | PlayData TablePlayRequest
  | PlayDiscardData TablePlayRequest int CardSnapshot
  | DiscardData int CardSnapshot

record Frame =
  fr_socket :: nat
  fr_type :: string
  fr_data :: CommandData
  fr_requestId :: "string option"

record ConnState =
  cn_lobby :: LobbyState
  cn_socket :: "nat option"
  cn_attempt :: nat
  cn_inFlight :: bool
  cn_reconnectTimer :: "nat option"
  cn_reconnectAttempt :: nat
  cn_pending :: "PendingAction list"
  cn_sockets :: "Socket list"
  cn_auths :: "nat list"
  cn_actionTimers :: "string list"
  cn_sent :: "Frame list"
  cn_settled :: "(string \<times> Outcome) list"

definition initialConn :: ConnState where
  "initialConn =
     \<lparr>cn_lobby = initialState, cn_socket = None, cn_attempt = 0, cn_inFlight = False,
      cn_reconnectTimer = None, cn_reconnectAttempt = 0, cn_pending = [], cn_sockets = [],
      cn_auths = [], cn_actionTimers = [], cn_sent = [], cn_settled = []\<rparr>"

definition reconnectBaseDelayMs :: nat where
  "reconnectBaseDelayMs = 500"

definition reconnectMaxDelayMs :: nat where
  "reconnectMaxDelayMs = 5000"

text \<open>\<open>readyState\<close> of the socket a ref points to; \<open>close()\<close> makes a live socket \<open>CLOSING\<close>.\<close>

definition ready :: "ConnState \<Rightarrow> nat \<Rightarrow> ReadyState" where
  "ready s k = sk_ready (cn_sockets s ! k)"

definition setReady :: "nat \<Rightarrow> ReadyState \<Rightarrow> ConnState \<Rightarrow> ConnState" where
  "setReady k r s = s\<lparr>cn_sockets := (cn_sockets s)[k := (cn_sockets s ! k)\<lparr>sk_ready := r\<rparr>]\<rparr>"

definition closeSocket :: "nat \<Rightarrow> ConnState \<Rightarrow> ConnState" where
  "closeSocket k s = (if ready s k = CONNECTING \<or> ready s k = OPEN then setReady k CLOSING s else s)"

definition updateState :: "(LobbyState \<Rightarrow> LobbyState) \<Rightarrow> ConnState \<Rightarrow> ConnState" where
  "updateState f s = s\<lparr>cn_lobby := f (cn_lobby s)\<rparr>"

section \<open>Pending actions\<close>

definition settle :: "(string \<times> Outcome) list \<Rightarrow> ConnState \<Rightarrow> ConnState" where
  "settle outcomes s =
     s\<lparr>cn_actionTimers := filter (\<lambda>t. t \<notin> fst ` set outcomes) (cn_actionTimers s),
       cn_settled := cn_settled s @ outcomes\<rparr>"

text \<open>An empty request id counts as none.\<close>

definition rejectPendingActions :: "string \<Rightarrow> string option \<Rightarrow> ConnState \<Rightarrow> ConnState" where
  "rejectPendingActions message requestId s =
     (let one = (requestId \<noteq> None \<and> requestId \<noteq> Some []);
          actions = (if one then filter (\<lambda>p. Some (pa_requestId p) = requestId) (cn_pending s)
                     else cn_pending s);
          remaining = (if one then filter (\<lambda>p. Some (pa_requestId p) \<noteq> requestId) (cn_pending s)
                  else [])
      in settle (map (\<lambda>p. (pa_requestId p, Rejected message)) actions) (s\<lparr>cn_pending := remaining\<rparr>))"

definition answers :: "ActionResult option \<Rightarrow> PendingAction \<Rightarrow> bool" where
  "answers result p =
     (case result of
        None \<Rightarrow> False
      | Some r \<Rightarrow>
          ar_requestId r = Some (pa_requestId p) \<and> ar_action r = pa_expectedAction p \<and>
          (pa_playerId p = None \<or> pa_playerId p = Some [] \<or> Some (ar_playerId r) = pa_playerId p))"

definition remove_nth :: "nat \<Rightarrow> 'a list \<Rightarrow> 'a list" where
  "remove_nth i xs = take i xs @ drop (Suc i) xs"

definition resolvePendingAction :: "ActionResult option \<Rightarrow> ConnState \<Rightarrow> ConnState" where
  "resolvePendingAction result s =
     (case findIndex (answers result) (cn_pending s) of
        None \<Rightarrow> s
      | Some index \<Rightarrow>
          (let pending = cn_pending s ! index;
               outcome = (case result of
                            Some r \<Rightarrow> (if ar_ok r then Resolved r else Rejected ''send_failed'')
                          | None \<Rightarrow> Rejected ''send_failed'')
           in settle [(pa_requestId pending, outcome)]
                (s\<lparr>cn_pending := remove_nth index (cn_pending s)\<rparr>)))"

definition applyIncomingMessage ::
  "(string \<Rightarrow> string) \<Rightarrow> string \<Rightarrow> WireData \<Rightarrow> ConnState \<Rightarrow> ConnState" where
  "applyIncomingMessage m type data s =
     (let s1 = (if type = ''action_result'' then resolvePendingAction (wd_result data) s else s);
          s2 = (if type = ''error''
                   \<and> wd_requestId data \<noteq> None
                   \<and> list_ex (\<lambda>p. Some (pa_requestId p) = wd_requestId data
                        \<and> Some (pa_expectedAction p) = wd_action data) (cn_pending s1)
                then rejectPendingActions
                       (or_else (or_option (wd_message data) (wd_code data)) ''internal_error'')
                       (wd_requestId data) s1
                else s1)
      in updateState (\<lambda>current. reduceIncomingMessage m current type data) s2)"

section \<open>Sending\<close>

definition playerBoundActions :: "string list" where
  "playerBoundActions =
     [''play'', ''play_and_discard'', ''discard'', ''forfeit_game'', ''request_end_game'',
      ''vote_end_game'', ''report_issue'']"

text \<open>\<open>awaitResult\<close> carries the UUID the call draws when it waits for the result; \<open>thrown\<close> is
  the message of the error \<open>socket.send\<close> throws, if it does (\<open>None\<close> inside: not an \<open>Error\<close>).\<close>

definition send ::
  "(string \<Rightarrow> string) \<Rightarrow> string \<Rightarrow> CommandData \<Rightarrow> string option \<Rightarrow> string option option \<Rightarrow>
     ConnState \<Rightarrow> ConnState" where
  "send m type data requestId thrown s =
     (case cn_socket s of
        Some k \<Rightarrow>
          (if ready s k \<noteq> OPEN
           then updateState (\<lambda>c. withError m c ''connection_unavailable'' (\<lambda>c. c) None) s
           else
             (let s1 = (case requestId of
                          None \<Rightarrow> s
                        | Some rid \<Rightarrow>
                            s\<lparr>cn_pending := cn_pending s @
                                [\<lparr>pa_requestId = rid,
                                  pa_playerId = (if List.member playerBoundActions type
                                                 then Some (ls_playerId (cn_lobby s)) else None),
                                  pa_expectedAction = type\<rparr>],
                              cn_actionTimers := cn_actionTimers s @ [rid]\<rparr>)
              in case thrown of
                   Some msg \<Rightarrow>
                     (case requestId of
                        Some rid \<Rightarrow> rejectPendingActions (or_else msg ''send_failed'') requestId s1
                      | None \<Rightarrow> updateState (\<lambda>c. withError m c ''send_failed'' (\<lambda>c. c) None) s1)
                 | None \<Rightarrow>
                     updateState (\<lambda>c. clearError c (\<lambda>c. c\<lparr>ls_lastEvent := Some type\<rparr>))
                       (s1\<lparr>cn_sent := cn_sent s1 @
                          [\<lparr>fr_socket = k, fr_type = type, fr_data = data, fr_requestId = requestId\<rparr>]\<rparr>)))
      | None \<Rightarrow> updateState (\<lambda>c. withError m c ''connection_unavailable'' (\<lambda>c. c) None) s)"

text \<open>What \<open>send\<close> answers at once: a rejection when the call awaits a result and there is no open
  socket, else the promise of the pending action.\<close>

definition rejectedAtOnce :: "ConnState \<Rightarrow> bool" where
  "rejectedAtOnce s = (case cn_socket s of Some k \<Rightarrow> ready s k \<noteq> OPEN | None \<Rightarrow> True)"

section \<open>Connecting\<close>

definition clearReconnectTimer :: "ConnState \<Rightarrow> ConnState" where
  "clearReconnectTimer s = s\<lparr>cn_reconnectTimer := None\<rparr>"

definition reconnectDelay :: "nat \<Rightarrow> nat" where
  "reconnectDelay attempt = min (reconnectBaseDelayMs * 2 ^ attempt) reconnectMaxDelayMs"

definition scheduleReconnect :: "ConnState \<Rightarrow> ConnState" where
  "scheduleReconnect s =
     (if cn_reconnectTimer s \<noteq> None then s
      else s\<lparr>cn_reconnectTimer := Some (reconnectDelay (cn_reconnectAttempt s)),
             cn_reconnectAttempt := cn_reconnectAttempt s + 1\<rparr>)"

definition connect :: "(string \<Rightarrow> string) \<Rightarrow> string option \<Rightarrow> ConnState \<Rightarrow> ConnState" where
  "connect m serverUrl s0 =
     (let s = clearReconnectTimer s0
      in if cn_inFlight s then s
         else if (case cn_socket s of
                    Some k \<Rightarrow> ready s k = OPEN \<or> ready s k = CONNECTING | None \<Rightarrow> False) then s
         else if serverUrl = None \<or> serverUrl = Some []
           then updateState (\<lambda>c. setConnectionError m c ''internal_error'') s
         else updateState (\<lambda>c. clearError c (\<lambda>c'. c'\<lparr>
                  ls_connectionStatus :=
                    (if ls_connectionStatus c = Disconnected then Disconnected else Connecting),
                  ls_lastEvent := None\<rparr>))
                (s\<lparr>cn_attempt := cn_attempt s + 1, cn_inFlight := True,
                   cn_auths := cn_auths s @ [cn_attempt s + 1]\<rparr>))"

datatype AuthResult = AuthUnavailable | AuthMissing | AuthGranted

text \<open>The continuation of the authorisation request of a connect attempt.\<close>

definition authResolved ::
  "(string \<Rightarrow> string) \<Rightarrow> nat \<Rightarrow> AuthResult \<Rightarrow> ConnState \<Rightarrow> ConnState" where
  "authResolved m connectAttempt result s0 =
     (let s = s0\<lparr>cn_auths := remove1 connectAttempt (cn_auths s0)\<rparr>
      in if cn_attempt s \<noteq> connectAttempt then s\<lparr>cn_inFlight := False\<rparr>
         else (case result of
           AuthUnavailable \<Rightarrow>
             scheduleReconnect (updateState (\<lambda>c. c\<lparr>ls_connectionStatus := Disconnected\<rparr>)
               (s\<lparr>cn_inFlight := False\<rparr>))
         | AuthMissing \<Rightarrow>
             updateState (\<lambda>c. setConnectionError m c ''auth_required'') (s\<lparr>cn_inFlight := False\<rparr>)
         | AuthGranted \<Rightarrow>
             s\<lparr>cn_sockets := cn_sockets s @ [\<lparr>sk_ready = CONNECTING, sk_attempt = connectAttempt\<rparr>],
               cn_socket := Some (length (cn_sockets s))\<rparr>))"

definition isCurrent :: "nat \<Rightarrow> ConnState \<Rightarrow> bool" where
  "isCurrent k s \<longleftrightarrow> cn_attempt s = sk_attempt (cn_sockets s ! k) \<and> cn_socket s = Some k"

definition onOpen :: "nat \<Rightarrow> ConnState \<Rightarrow> ConnState" where
  "onOpen k s =
     (if \<not> isCurrent k s then closeSocket k s
      else s\<lparr>cn_inFlight := False, cn_reconnectAttempt := 0,
             cn_sent := cn_sent s @
               [\<lparr>fr_socket = k, fr_type = ''connect'', fr_data = ConnectData (ls_sessionId (cn_lobby s)),
                 fr_requestId = None\<rparr>]\<rparr>)"

text \<open>The raw data of a message: text that parses to an object with a type, or anything else.
  \<open>parseEnvelope\<close> answers \<open>null\<close> for the latter and for an empty type.\<close>

type_synonym Envelope = "string \<times> WireData"

definition parseEnvelope :: "('raw \<Rightarrow> Envelope option) \<Rightarrow> 'raw \<Rightarrow> Envelope option" where
  "parseEnvelope parse raw =
     (case parse raw of
        None \<Rightarrow> None
      | Some (type, data) \<Rightarrow> (if type = [] then None else Some (type, data)))"

definition onMessage ::
  "(string \<Rightarrow> string) \<Rightarrow> ('raw \<Rightarrow> Envelope option) \<Rightarrow> 'raw \<Rightarrow> ConnState \<Rightarrow> ConnState" where
  "onMessage m parse raw s =
     (case parseEnvelope parse raw of
        None \<Rightarrow> updateState (\<lambda>c. setConnectionError m c ''invalid_server_message'') s
      | Some (type, data) \<Rightarrow> applyIncomingMessage m type data s)"

definition handleConnectionLoss :: "nat \<Rightarrow> string \<Rightarrow> ConnState \<Rightarrow> ConnState" where
  "handleConnectionLoss k code s =
     (if cn_socket s \<noteq> Some k then s
      else scheduleReconnect
             (updateState (\<lambda>c. c\<lparr>ls_connectionStatus := Disconnected\<rparr>)
               (rejectPendingActions code None
                 (s\<lparr>cn_socket := None, cn_inFlight := False\<rparr>))))"

definition onError :: "nat \<Rightarrow> ConnState \<Rightarrow> ConnState" where
  "onError k s = (if \<not> isCurrent k s then s else handleConnectionLoss k ''connection_failed'' s)"

definition onClose :: "nat \<Rightarrow> ConnState \<Rightarrow> ConnState" where
  "onClose k s = handleConnectionLoss k ''connection_lost'' s"

definition dropSocket :: "ConnState \<Rightarrow> ConnState" where
  "dropSocket s =
     (case cn_socket s of
        None \<Rightarrow> s
      | Some k \<Rightarrow> closeSocket k (s\<lparr>cn_socket := None\<rparr>))"

definition cancelPendingConnect :: "ConnState \<Rightarrow> ConnState" where
  "cancelPendingConnect s0 =
     (let s = clearReconnectTimer s0
      in rejectPendingActions ''connection_lost'' None
           (dropSocket (s\<lparr>cn_attempt := cn_attempt s + 1, cn_inFlight := False\<rparr>)))"

definition disconnect :: "ConnState \<Rightarrow> ConnState" where
  "disconnect s0 =
     (let s = clearReconnectTimer s0
      in updateState (\<lambda>c. c\<lparr>
             ls_connectionStatus := Disconnected, ls_room := None, ls_game := None,
             ls_isSpectating := False, ls_social := emptySocialState,
             ls_lastEvent := Some ''manual_disconnect''\<rparr>)
           (rejectPendingActions ''connection_lost'' None
             (dropSocket (s\<lparr>cn_reconnectAttempt := 0, cn_attempt := cn_attempt s + 1,
                            cn_inFlight := False\<rparr>))))"

definition dismissError :: "ConnState \<Rightarrow> ConnState" where
  "dismissError s = updateState (\<lambda>c. clearError c (\<lambda>c. c)) s"

definition dismissCompletedGame :: "ConnState \<Rightarrow> ConnState" where
  "dismissCompletedGame s = updateState (\<lambda>c. c\<lparr>ls_completedGame := None\<rparr>) s"

section \<open>The calls of the interface\<close>

datatype ApiCall =
    CreateRoom
  | JoinRoom string
  | SendFriendRequest string
  | RespondFriendRequest string bool
  | RemoveFriend string
  | SendGameInvite string
  | RespondGameInvite string bool
  | SpectateGame string
  | StopSpectating
  | StartGame GameMode
  | StartNextRound
  | ChooseDealType string
  | ChooseDealing DealingChoiceRequest
  | LeaveRoom
  | ForfeitGame
  | RequestEndGame
  | VoteEndGame string bool
  | ReportIssue string bool
  | SendEmote string
  | DrawFromDeck
  | DrawFromDiscard
  | UpdateTurnDrafts "DraftCompositionSnapshot list"
  | PlayTable TablePlayRequest
  | PlayTableAndDiscard TablePlayRequest int CardSnapshot
  | DiscardCard int CardSnapshot

text \<open>The type, the data and whether the call awaits its result.\<close>

fun apiCommand :: "LobbyState \<Rightarrow> ApiCall \<Rightarrow> string \<times> CommandData \<times> bool" where
  "apiCommand st CreateRoom = (''create_room'', EmptyData, False)"
| "apiCommand st (JoinRoom roomCode) = (''join_room'', RoomCodeData roomCode, False)"
| "apiCommand st (SendFriendRequest userId) = (''send_friend_request'', UserData userId, True)"
| "apiCommand st (RespondFriendRequest requestId accept) =
     (''respond_friend_request'', RequestAnswerData requestId accept, True)"
| "apiCommand st (RemoveFriend userId) = (''remove_friend'', UserData userId, True)"
| "apiCommand st (SendGameInvite userId) = (''send_game_invite'', UserData userId, True)"
| "apiCommand st (RespondGameInvite inviteId accept) =
     (''respond_game_invite'', InviteAnswerData inviteId accept, True)"
| "apiCommand st (SpectateGame userId) = (''spectate_game'', UserData userId, True)"
| "apiCommand st StopSpectating = (''stop_spectating'', EmptyData, True)"
| "apiCommand st (StartGame gameMode) =
     (''start_game'', StartGameData (getDealerIndex (ls_room st)) gameMode, False)"
| "apiCommand st StartNextRound = (''start_next_round'', EmptyData, False)"
| "apiCommand st (ChooseDealType choice) = (''choose_dealing'', DealTypeData choice, False)"
| "apiCommand st (ChooseDealing choice) = (''choose_dealing'', DealChoiceData choice, False)"
| "apiCommand st LeaveRoom = (''leave_room'', EmptyData, False)"
| "apiCommand st ForfeitGame = (''forfeit_game'', EmptyData, True)"
| "apiCommand st RequestEndGame = (''request_end_game'', EndKindData ''mutual_end'', True)"
| "apiCommand st (VoteEndGame proposalId approve) =
     (''vote_end_game'', VoteData proposalId approve, True)"
| "apiCommand st (ReportIssue description requestAbort) =
     (''report_issue'', ReportData description requestAbort, True)"
| "apiCommand st (SendEmote emoji) = (''send_emote'', EmoteData emoji, False)"
| "apiCommand st DrawFromDeck = (''draw'', DrawData ''deck'', False)"
| "apiCommand st DrawFromDiscard = (''draw'', DrawData ''discard'', False)"
| "apiCommand st (UpdateTurnDrafts draft) = (''draft_update'', DraftsData draft, False)"
| "apiCommand st (PlayTable play) = (''play'', PlayData play, True)"
| "apiCommand st (PlayTableAndDiscard play cardIndex cd) =
     (''play_and_discard'', PlayDiscardData play cardIndex cd, True)"
| "apiCommand st (DiscardCard cardIndex cd) = (''discard'', DiscardData cardIndex cd, True)"

definition callApi ::
  "(string \<Rightarrow> string) \<Rightarrow> ApiCall \<Rightarrow> string \<Rightarrow> string option option \<Rightarrow> ConnState \<Rightarrow> ConnState" where
  "callApi m call uuid thrown s =
     (case apiCommand (cn_lobby s) call of
        (type, data, awaitResult) \<Rightarrow> send m type data (if awaitResult then Some uuid else None) thrown s)"

section \<open>Events\<close>

datatype 'raw ConnEvent =
    ApiEvent ApiCall string "string option option"
  | ConnectEvent
  | DisconnectEvent
  | DismissErrorEvent
  | DismissCompletedGameEvent
  | UnloadEvent
  | AuthEvent nat AuthResult
  | SocketOpens nat
  | SocketMessage nat 'raw
  | PeerCloses nat
  | SocketFails nat
  | SocketCloses nat
  | ReconnectFires
  | ActionTimesOut string

text \<open>
  When the environment can produce an event: a UUID is new, an authorisation answers once, a socket
  opens when it was connecting, delivers messages while it is open, and a timer fires while it is
  set. The browser changes the ready state before it runs the handler.
\<close>

definition issued_ids :: "ConnState \<Rightarrow> string set" where
  "issued_ids s = pa_requestId ` set (cn_pending s) \<union> fst ` set (cn_settled s)"

fun enabled :: "'raw ConnEvent \<Rightarrow> ConnState \<Rightarrow> bool" where
  "enabled (ApiEvent call uuid thrown) s = (uuid \<noteq> [] \<and> uuid \<notin> issued_ids s)"
| "enabled (AuthEvent connectAttempt result) s = (connectAttempt \<in> set (cn_auths s))"
| "enabled (SocketOpens k) s = (k < length (cn_sockets s) \<and> ready s k = CONNECTING)"
| "enabled (SocketMessage k raw) s = (k < length (cn_sockets s) \<and> ready s k = OPEN)"
| "enabled (PeerCloses k) s = (k < length (cn_sockets s) \<and> ready s k = OPEN)"
| "enabled (SocketFails k) s = (k < length (cn_sockets s) \<and> ready s k \<noteq> CLOSED)"
| "enabled (SocketCloses k) s = (k < length (cn_sockets s))"
| "enabled ReconnectFires s = (cn_reconnectTimer s \<noteq> None)"
| "enabled (ActionTimesOut rid) s = (rid \<in> set (cn_actionTimers s))"
| "enabled _ s = True"

fun handle ::
  "(string \<Rightarrow> string) \<Rightarrow> string option \<Rightarrow> ('raw \<Rightarrow> Envelope option) \<Rightarrow> 'raw ConnEvent \<Rightarrow> ConnState \<Rightarrow>
     ConnState" where
  "handle m serverUrl parse (ApiEvent call uuid thrown) s = callApi m call uuid thrown s"
| "handle m serverUrl parse ConnectEvent s = connect m serverUrl s"
| "handle m serverUrl parse DisconnectEvent s = disconnect s"
| "handle m serverUrl parse DismissErrorEvent s = dismissError s"
| "handle m serverUrl parse DismissCompletedGameEvent s = dismissCompletedGame s"
| "handle m serverUrl parse UnloadEvent s = cancelPendingConnect s"
| "handle m serverUrl parse (AuthEvent connectAttempt result) s = authResolved m connectAttempt result s"
| "handle m serverUrl parse (SocketOpens k) s = onOpen k (setReady k OPEN s)"
| "handle m serverUrl parse (SocketMessage k raw) s = onMessage m parse raw s"
| "handle m serverUrl parse (PeerCloses k) s = setReady k CLOSING s"
| "handle m serverUrl parse (SocketFails k) s = onError k (setReady k CLOSED s)"
| "handle m serverUrl parse (SocketCloses k) s = onClose k (setReady k CLOSED s)"
| "handle m serverUrl parse ReconnectFires s = connect m serverUrl (s\<lparr>cn_reconnectTimer := None\<rparr>)"
| "handle m serverUrl parse (ActionTimesOut rid) s =
     rejectPendingActions ''command_timeout'' (Some rid)
       (s\<lparr>cn_actionTimers := remove1 rid (cn_actionTimers s)\<rparr>)"

abbreviation conn_step ::
  "(string \<Rightarrow> string) \<Rightarrow> string option \<Rightarrow> ('raw \<Rightarrow> Envelope option) \<Rightarrow> ConnState \<Rightarrow> ConnState \<Rightarrow> bool" where
  "conn_step m serverUrl parse \<equiv> guarded_step enabled (handle m serverUrl parse)"

section \<open>The invariant: actions\<close>

definition actions_ok :: "ConnState \<Rightarrow> bool" where
  "actions_ok s \<longleftrightarrow>
     distinct (map pa_requestId (cn_pending s) @ map fst (cn_settled s)) \<and>
     [] \<notin> pa_requestId ` set (cn_pending s) \<and>
     distinct (cn_actionTimers s) \<and>
     set (cn_actionTimers s) = pa_requestId ` set (cn_pending s)"

lemma actions_ok_initial [simp]: "actions_ok initialConn"
  by (simp add: actions_ok_def initialConn_def)

lemma updateState_fields [simp]:
  "cn_lobby (updateState f s) = f (cn_lobby s)" "cn_socket (updateState f s) = cn_socket s"
  "cn_attempt (updateState f s) = cn_attempt s" "cn_inFlight (updateState f s) = cn_inFlight s"
  "cn_reconnectTimer (updateState f s) = cn_reconnectTimer s"
  "cn_reconnectAttempt (updateState f s) = cn_reconnectAttempt s"
  "cn_pending (updateState f s) = cn_pending s" "cn_sockets (updateState f s) = cn_sockets s"
  "cn_auths (updateState f s) = cn_auths s" "cn_actionTimers (updateState f s) = cn_actionTimers s"
  "cn_sent (updateState f s) = cn_sent s" "cn_settled (updateState f s) = cn_settled s"
  by (simp_all add: updateState_def)

lemma settle_fields [simp]:
  "cn_lobby (settle os s) = cn_lobby s" "cn_socket (settle os s) = cn_socket s"
  "cn_attempt (settle os s) = cn_attempt s" "cn_inFlight (settle os s) = cn_inFlight s"
  "cn_reconnectTimer (settle os s) = cn_reconnectTimer s"
  "cn_reconnectAttempt (settle os s) = cn_reconnectAttempt s"
  "cn_pending (settle os s) = cn_pending s" "cn_sockets (settle os s) = cn_sockets s"
  "cn_auths (settle os s) = cn_auths s" "cn_sent (settle os s) = cn_sent s"
  by (simp_all add: settle_def)

text \<open>\<open>names\<close>: the pending actions a rejection with this request id is about.\<close>

definition names :: "string option \<Rightarrow> PendingAction \<Rightarrow> bool" where
  "names requestId p \<longleftrightarrow> requestId = None \<or> requestId = Some [] \<or> requestId = Some (pa_requestId p)"

lemma reject_eq:
  "rejectPendingActions msg rid s =
     settle (map (\<lambda>p. (pa_requestId p, Rejected msg)) (filter (names rid) (cn_pending s)))
       (s\<lparr>cn_pending := filter (\<lambda>p. \<not> names rid p) (cn_pending s)\<rparr>)"
proof (cases "rid = None \<or> rid = Some []")
  case True
  then have "names rid = (\<lambda>p. True)" by (auto simp: names_def fun_eq_iff)
  with True show ?thesis by (auto simp: rejectPendingActions_def Let_def)
next
  case False
  then have "names rid = (\<lambda>p. Some (pa_requestId p) = rid)" by (auto simp: names_def fun_eq_iff)
  with False show ?thesis by (simp add: rejectPendingActions_def Let_def)
qed

lemma settle_ok:
  assumes ids: "distinct (map pa_requestId (cn_pending s) @ map fst (cn_settled s))"
    and nonempty: "[] \<notin> pa_requestId ` set (cn_pending s)"
    and timers: "distinct (cn_actionTimers s)"
      "set (cn_actionTimers s) \<union> fst ` set outcomes = pa_requestId ` set (cn_pending s)"
    and parts: "mset (cn_pending s) = mset done + mset rest" "map fst outcomes = map pa_requestId done"
  shows "actions_ok (settle outcomes (s\<lparr>cn_pending := rest\<rparr>))"
proof -
  have "mset (map pa_requestId (cn_pending s) @ map fst (cn_settled s))
      = mset (map pa_requestId rest @ map fst (cn_settled s) @ map fst outcomes)"
    using arg_cong [OF parts(1), of "image_mset pa_requestId"] parts(2) by simp
  from mset_eq_imp_distinct_iff [OF this] ids
  have d: "distinct (map pa_requestId rest @ map fst (cn_settled s) @ map fst outcomes)" by simp
  have p: "set (cn_pending s) = set done \<union> set rest"
    using arg_cong [OF parts(1), of set_mset] by simp
  have o: "fst ` set outcomes = pa_requestId ` set done"
    using arg_cong [OF parts(2), of set] by simp
  have "set (filter (\<lambda>t. t \<notin> fst ` set outcomes) (cn_actionTimers s)) = pa_requestId ` set rest"
  proof -
    have "set (filter (\<lambda>t. t \<notin> fst ` set outcomes) (cn_actionTimers s))
        = (set (cn_actionTimers s) \<union> fst ` set outcomes) - fst ` set outcomes" by auto
    also have "\<dots> = (fst ` set outcomes \<union> pa_requestId ` set rest) - fst ` set outcomes"
      using timers(2) by (simp only: p image_Un o)
    also have "\<dots> = pa_requestId ` set rest - fst ` set outcomes" by blast
    also have "\<dots> = pa_requestId ` set rest" using d by auto
    finally show ?thesis .
  qed
  with d nonempty p timers(1) show ?thesis
    by (auto simp: actions_ok_def settle_def)
qed

lemma mset_filter_parts: "mset xs = mset (filter P xs) + mset (filter (\<lambda>x. \<not> P x) xs)"
  by (simp add: multiset_partition)

lemma reject_ok:
  assumes "distinct (map pa_requestId (cn_pending s) @ map fst (cn_settled s))"
    and "[] \<notin> pa_requestId ` set (cn_pending s)" and "distinct (cn_actionTimers s)"
    and "set (cn_actionTimers s) \<union> pa_requestId ` set (filter (names rid) (cn_pending s))
      = pa_requestId ` set (cn_pending s)"
  shows "actions_ok (rejectPendingActions msg rid s)"
  unfolding reject_eq
  by (rule settle_ok [OF assms(1-3) _ mset_filter_parts [of _ "names rid"]])
    (use assms(4) in \<open>simp_all add: image_image\<close>)

lemma actions_ok_reject:
  assumes "actions_ok s"
  shows "actions_ok (rejectPendingActions msg rid s)"
  using assms by (intro reject_ok) (auto simp: actions_ok_def)

lemma mset_remove_nth: "i < length xs \<Longrightarrow> mset xs = mset [xs ! i] + mset (remove_nth i xs)"
  unfolding remove_nth_def by (subst (1) id_take_nth_drop) auto

lemma actions_ok_resolve:
  assumes "actions_ok s"
  shows "actions_ok (resolvePendingAction result s)"
proof (cases "findIndex (answers result) (cn_pending s)")
  case None
  with assms show ?thesis by (simp add: resolvePendingAction_def)
next
  case (Some i)
  then have i: "i < length (cn_pending s)" by (auto dest: findIndex_SomeD)
  then have "cn_pending s ! i \<in> set (cn_pending s)" by simp
  with assms have timers: "set (cn_actionTimers s) \<union> {pa_requestId (cn_pending s ! i)}
      = pa_requestId ` set (cn_pending s)"
    by (auto simp: actions_ok_def)
  obtain outcome where r: "resolvePendingAction result s
      = settle [(pa_requestId (cn_pending s ! i), outcome)] (s\<lparr>cn_pending := remove_nth i (cn_pending s)\<rparr>)"
    using Some by (simp add: resolvePendingAction_def Let_def)
  show ?thesis
    unfolding r
  proof (rule settle_ok [OF _ _ _ _ mset_remove_nth [OF i]])
    show "distinct (map pa_requestId (cn_pending s) @ map fst (cn_settled s))"
      "[] \<notin> pa_requestId ` set (cn_pending s)" "distinct (cn_actionTimers s)"
      using assms unfolding actions_ok_def by blast+
  qed (use timers in simp_all)
qed

lemma actions_ok_timeout:
  assumes "actions_ok s" and "rid \<in> set (cn_actionTimers s)"
  shows "actions_ok (rejectPendingActions msg (Some rid) (s\<lparr>cn_actionTimers := remove1 rid (cn_actionTimers s)\<rparr>))"
proof (rule reject_ok)
  let ?s = "s\<lparr>cn_actionTimers := remove1 rid (cn_actionTimers s)\<rparr>"
  have d: "distinct (cn_actionTimers s)" "set (cn_actionTimers s) = pa_requestId ` set (cn_pending s)"
    "[] \<notin> pa_requestId ` set (cn_pending s)"
    using assms(1) unfolding actions_ok_def by blast+
  then have "rid \<in> pa_requestId ` set (cn_pending s)" using assms(2) by simp
  with d(3) have rid: "rid \<in> pa_requestId ` set (cn_pending s)" "rid \<noteq> []" by metis+
  from rid(2) have "names (Some rid) = (\<lambda>p. rid = pa_requestId p)" by (simp add: names_def fun_eq_iff)
  then have "pa_requestId ` set (filter (names (Some rid)) (cn_pending s)) = {rid}"
    using rid(1) by auto
  then show "set (cn_actionTimers ?s) \<union> pa_requestId ` set (filter (names (Some rid)) (cn_pending ?s))
      = pa_requestId ` set (cn_pending ?s)"
    using d(1,2) rid(1) by auto
  show "distinct (cn_actionTimers ?s)" using d(1) by simp
  show "[] \<notin> pa_requestId ` set (cn_pending ?s)" using d(3) by simp
  show "distinct (map pa_requestId (cn_pending ?s) @ map fst (cn_settled ?s))"
    using assms(1) by (simp add: actions_ok_def)
qed

lemma actions_ok_cong:
  "cn_pending s' = cn_pending s \<Longrightarrow> cn_settled s' = cn_settled s \<Longrightarrow>
     cn_actionTimers s' = cn_actionTimers s \<Longrightarrow> actions_ok s' = actions_ok s"
  by (simp add: actions_ok_def)

lemma actions_ok_updateState [simp]: "actions_ok (updateState f s) = actions_ok s"
  by (rule actions_ok_cong) simp_all

lemma actions_ok_apply:
  assumes "actions_ok s"
  shows "actions_ok (applyIncomingMessage m type data s)"
  using assms by (simp add: applyIncomingMessage_def Let_def actions_ok_resolve actions_ok_reject)

lemma actions_ok_issue:
  assumes "actions_ok s" and "rid \<noteq> []" and "rid \<notin> issued_ids s"
  shows "actions_ok (s\<lparr>cn_pending := cn_pending s @ [\<lparr>pa_requestId = rid, pa_playerId = pl, pa_expectedAction = t\<rparr>],
    cn_actionTimers := cn_actionTimers s @ [rid]\<rparr>)"
  using assms by (auto simp: actions_ok_def issued_ids_def)

lemma actions_ok_send:
  assumes "actions_ok s" and "\<forall>rid. requestId = Some rid \<longrightarrow> rid \<noteq> [] \<and> rid \<notin> issued_ids s"
  shows "actions_ok (send m type data requestId thrown s)"
proof -
  have sent: "actions_ok (s1\<lparr>cn_sent := x\<rparr>) = actions_ok s1" for s1 x
    by (rule actions_ok_cong) simp_all
  show ?thesis
    using assms(1) actions_ok_issue [OF assms(1)] assms(2)
    by (auto simp: send_def Let_def sent actions_ok_reject
          split: option.splits)
qed

section \<open>The invariant: sockets, attempts and timers\<close>

definition attempt_of :: "ConnState \<Rightarrow> nat \<Rightarrow> nat" where
  "attempt_of s k = sk_attempt (cn_sockets s ! k)"

definition live :: "ConnState \<Rightarrow> nat \<Rightarrow> bool" where
  "live s k \<longleftrightarrow> k < length (cn_sockets s) \<and> (ready s k = CONNECTING \<or> ready s k = OPEN)"

definition sockets_ok :: "ConnState \<Rightarrow> bool" where
  "sockets_ok s \<longleftrightarrow>
     (\<forall>k. cn_socket s = Some k \<longrightarrow> k < length (cn_sockets s)) \<and>
     (\<forall>k. live s k \<longrightarrow> cn_socket s = Some k \<and> attempt_of s k = cn_attempt s) \<and>
     (\<forall>k < length (cn_sockets s). attempt_of s k \<notin> set (cn_auths s) \<and> attempt_of s k \<le> cn_attempt s) \<and>
     distinct (cn_auths s) \<and> (\<forall>a \<in> set (cn_auths s). a \<le> cn_attempt s)"

definition inFlight_ok :: "ConnState \<Rightarrow> bool" where
  "inFlight_ok s \<longleftrightarrow>
     (cn_inFlight s \<longrightarrow> cn_attempt s \<in> set (cn_auths s) \<or>
        (\<exists>k. live s k \<and> ready s k = CONNECTING))"

definition timer_ok :: "ConnState \<Rightarrow> bool" where
  "timer_ok s \<longleftrightarrow>
     (\<forall>d. cn_reconnectTimer s = Some d \<longrightarrow> reconnectBaseDelayMs \<le> d \<and> d \<le> reconnectMaxDelayMs)"

lemma setReady_fields [simp]:
  "cn_lobby (setReady k r s) = cn_lobby s" "cn_socket (setReady k r s) = cn_socket s"
  "cn_attempt (setReady k r s) = cn_attempt s" "cn_inFlight (setReady k r s) = cn_inFlight s"
  "cn_reconnectTimer (setReady k r s) = cn_reconnectTimer s"
  "cn_reconnectAttempt (setReady k r s) = cn_reconnectAttempt s"
  "cn_pending (setReady k r s) = cn_pending s" "cn_auths (setReady k r s) = cn_auths s"
  "cn_actionTimers (setReady k r s) = cn_actionTimers s" "cn_sent (setReady k r s) = cn_sent s"
  "cn_settled (setReady k r s) = cn_settled s"
  "length (cn_sockets (setReady k r s)) = length (cn_sockets s)"
  by (simp_all add: setReady_def)

lemma ready_setReady [simp]:
  "ready (setReady k r s) j = (if j = k \<and> k < length (cn_sockets s) then r else ready s j)"
  by (cases "k < length (cn_sockets s)") (auto simp: setReady_def ready_def nth_list_update list_update_beyond not_less)

lemma attempt_setReady [simp]: "attempt_of (setReady k r s) j = attempt_of s j"
  by (cases "k < length (cn_sockets s)") (auto simp: setReady_def attempt_of_def nth_list_update list_update_beyond not_less)

lemma live_setReady [simp]:
  "live (setReady k r s) j \<longleftrightarrow> (if j = k then k < length (cn_sockets s) \<and> (r = CONNECTING \<or> r = OPEN) else live s j)"
  by (auto simp: live_def)

lemma closeSocket_fields [simp]:
  "cn_lobby (closeSocket k s) = cn_lobby s" "cn_socket (closeSocket k s) = cn_socket s"
  "cn_attempt (closeSocket k s) = cn_attempt s" "cn_inFlight (closeSocket k s) = cn_inFlight s"
  "cn_reconnectTimer (closeSocket k s) = cn_reconnectTimer s"
  "cn_reconnectAttempt (closeSocket k s) = cn_reconnectAttempt s"
  "cn_pending (closeSocket k s) = cn_pending s" "cn_auths (closeSocket k s) = cn_auths s"
  "cn_actionTimers (closeSocket k s) = cn_actionTimers s" "cn_sent (closeSocket k s) = cn_sent s"
  "cn_settled (closeSocket k s) = cn_settled s"
  "length (cn_sockets (closeSocket k s)) = length (cn_sockets s)"
  "attempt_of (closeSocket k s) j = attempt_of s j"
  by (simp_all add: closeSocket_def)

lemma live_closeSocket [simp]: "live (closeSocket k s) j \<longleftrightarrow> live s j \<and> j \<noteq> k"
  by (auto simp: closeSocket_def) (auto simp: live_def)

lemma live_ready: "cn_sockets s' = cn_sockets s \<Longrightarrow> live s' k = live s k \<and> ready s' k = ready s k \<and> attempt_of s' k = attempt_of s k"
  by (simp add: live_def ready_def attempt_of_def)

text \<open>The facts that depend on the socket table only.\<close>

lemma sockets_cong:
  "cn_sockets s' = cn_sockets s \<Longrightarrow> cn_socket s' = cn_socket s \<Longrightarrow> cn_attempt s' = cn_attempt s \<Longrightarrow>
     cn_auths s' = cn_auths s \<Longrightarrow> sockets_ok s' = sockets_ok s"
  using live_ready [of s' s] by (simp add: sockets_ok_def)

lemma inFlight_cong:
  "cn_sockets s' = cn_sockets s \<Longrightarrow> cn_inFlight s' = cn_inFlight s \<Longrightarrow> cn_attempt s' = cn_attempt s \<Longrightarrow>
     cn_auths s' = cn_auths s \<Longrightarrow> inFlight_ok s' = inFlight_ok s"
  using live_ready [of s' s] by (simp add: inFlight_ok_def)

definition conn_ok :: "ConnState \<Rightarrow> bool" where
  "conn_ok s \<longleftrightarrow> sockets_ok s \<and> inFlight_ok s \<and> timer_ok s"

lemma conn_cong:
  "cn_sockets s' = cn_sockets s \<Longrightarrow> cn_socket s' = cn_socket s \<Longrightarrow> cn_attempt s' = cn_attempt s \<Longrightarrow>
     cn_auths s' = cn_auths s \<Longrightarrow> cn_inFlight s' = cn_inFlight s \<Longrightarrow>
     cn_reconnectTimer s' = cn_reconnectTimer s \<Longrightarrow> conn_ok s' = conn_ok s"
  using sockets_cong [of s' s] inFlight_cong [of s' s] by (simp add: conn_ok_def timer_ok_def)

lemma conn_ok_initial [simp]: "conn_ok initialConn"
  by (simp add: conn_ok_def sockets_ok_def inFlight_ok_def timer_ok_def initialConn_def live_def)

lemma conn_ok_updateState [simp]: "conn_ok (updateState f s) = conn_ok s"
  by (rule conn_cong) simp_all

lemma conn_ok_settle [simp]: "conn_ok (settle os s) = conn_ok s"
  by (rule conn_cong) simp_all

lemma conn_ok_reject [simp]: "conn_ok (rejectPendingActions msg rid s) = conn_ok s"
  unfolding reject_eq by (simp, rule conn_cong) simp_all

lemma conn_ok_resolve [simp]: "conn_ok (resolvePendingAction r s) = conn_ok s"
proof -
  have "conn_ok (s\<lparr>cn_pending := x\<rparr>) = conn_ok s" for x by (rule conn_cong) simp_all
  then show ?thesis by (simp add: resolvePendingAction_def Let_def split: option.splits)
qed

lemma conn_ok_apply [simp]: "conn_ok (applyIncomingMessage m type data s) = conn_ok s"
  by (simp add: applyIncomingMessage_def Let_def)

lemma conn_ok_send [simp]: "conn_ok (send m type data rid thrown s) = conn_ok s"
proof -
  have "conn_ok (s\<lparr>cn_pending := x, cn_actionTimers := y\<rparr>) = conn_ok s"
    "conn_ok (s'\<lparr>cn_sent := z\<rparr>) = conn_ok s'" for x y z s'
    by (rule conn_cong; simp)+
  then show ?thesis by (simp add: send_def Let_def split: option.splits)
qed

lemma delay_bounds: "reconnectBaseDelayMs \<le> reconnectDelay n \<and> reconnectDelay n \<le> reconnectMaxDelayMs"
proof -
  have "500 * 1 \<le> 500 * (2::nat) ^ n" by (intro mult_le_mono) simp_all
  then show ?thesis by (simp add: reconnectDelay_def reconnectBaseDelayMs_def reconnectMaxDelayMs_def)
qed

lemma conn_ok_schedule [simp]: "conn_ok s \<Longrightarrow> conn_ok (scheduleReconnect s)"
proof -
  assume "conn_ok s"
  moreover have "sockets_ok (s\<lparr>cn_reconnectTimer := t, cn_reconnectAttempt := n\<rparr>) = sockets_ok s"
    "inFlight_ok (s\<lparr>cn_reconnectTimer := t, cn_reconnectAttempt := n\<rparr>) = inFlight_ok s" for t n
    by (rule sockets_cong inFlight_cong; simp)+
  ultimately show ?thesis
    using delay_bounds by (auto simp: scheduleReconnect_def conn_ok_def timer_ok_def)
qed

lemma conn_ok_clearTimer [simp]: "conn_ok s \<Longrightarrow> conn_ok (clearReconnectTimer s)"
proof -
  assume "conn_ok s"
  moreover have "sockets_ok (clearReconnectTimer s) = sockets_ok s" "inFlight_ok (clearReconnectTimer s) = inFlight_ok s"
    by (rule sockets_cong inFlight_cong; simp add: clearReconnectTimer_def)+
  ultimately show ?thesis by (simp add: conn_ok_def timer_ok_def clearReconnectTimer_def)
qed

lemma dropSocket_fields [simp]:
  "cn_lobby (dropSocket s) = cn_lobby s" "cn_socket (dropSocket s) = None"
  "cn_attempt (dropSocket s) = cn_attempt s" "cn_inFlight (dropSocket s) = cn_inFlight s"
  "cn_reconnectTimer (dropSocket s) = cn_reconnectTimer s"
  "cn_pending (dropSocket s) = cn_pending s" "cn_auths (dropSocket s) = cn_auths s"
  "cn_actionTimers (dropSocket s) = cn_actionTimers s" "cn_settled (dropSocket s) = cn_settled s"
  "length (cn_sockets (dropSocket s)) = length (cn_sockets s)"
  "attempt_of (dropSocket s) j = attempt_of s j"
  by (auto simp: dropSocket_def attempt_of_def [symmetric] split: option.splits)
    (simp add: attempt_of_def)

lemma table_updates [simp]:
  "live (s\<lparr>cn_socket := x\<rparr>) k = live s k" "attempt_of (s\<lparr>cn_socket := x\<rparr>) k = attempt_of s k"
  "ready (s\<lparr>cn_socket := x\<rparr>) k = ready s k"
  "live (s\<lparr>cn_attempt := n\<rparr>) k = live s k" "attempt_of (s\<lparr>cn_attempt := n\<rparr>) k = attempt_of s k"
  "ready (s\<lparr>cn_attempt := n\<rparr>) k = ready s k"
  "live (s\<lparr>cn_inFlight := b\<rparr>) k = live s k" "attempt_of (s\<lparr>cn_inFlight := b\<rparr>) k = attempt_of s k"
  "ready (s\<lparr>cn_inFlight := b\<rparr>) k = ready s k"
  "live (s\<lparr>cn_auths := as\<rparr>) k = live s k" "attempt_of (s\<lparr>cn_auths := as\<rparr>) k = attempt_of s k"
  "ready (s\<lparr>cn_auths := as\<rparr>) k = ready s k"
  "live (s\<lparr>cn_reconnectAttempt := n\<rparr>) k = live s k"
  "attempt_of (s\<lparr>cn_reconnectAttempt := n\<rparr>) k = attempt_of s k"
  "ready (s\<lparr>cn_reconnectAttempt := n\<rparr>) k = ready s k"
  "live (s\<lparr>cn_sent := fs\<rparr>) k = live s k" "attempt_of (s\<lparr>cn_sent := fs\<rparr>) k = attempt_of s k"
  "ready (s\<lparr>cn_sent := fs\<rparr>) k = ready s k"
  by (simp_all add: live_def ready_def attempt_of_def)

lemma sockets_okD:
  assumes "sockets_ok s"
  shows "cn_socket s = Some k \<Longrightarrow> k < length (cn_sockets s)"
    and "live s k \<Longrightarrow> cn_socket s = Some k"
    and "live s k \<Longrightarrow> attempt_of s k = cn_attempt s"
    and "k < length (cn_sockets s) \<Longrightarrow> attempt_of s k \<notin> set (cn_auths s)"
    and "k < length (cn_sockets s) \<Longrightarrow> attempt_of s k \<le> cn_attempt s"
    and "distinct (cn_auths s)"
    and "a \<in> set (cn_auths s) \<Longrightarrow> a \<le> cn_attempt s"
  using assms by (simp_all add: sockets_ok_def)

lemma live_dropSocket: "live (dropSocket s) j \<longleftrightarrow> live s j \<and> cn_socket s \<noteq> Some j"
  by (auto simp: dropSocket_def split: option.splits)

text \<open>Dropping the current socket leaves no live socket, so the attempt counter may move.\<close>

lemma conn_ok_drop:
  assumes "conn_ok s"
  shows "conn_ok (dropSocket (s\<lparr>cn_attempt := cn_attempt s + 1, cn_inFlight := False\<rparr>))"
proof -
  let ?s = "s\<lparr>cn_attempt := cn_attempt s + 1, cn_inFlight := False\<rparr>"
  have ok: "sockets_ok s" "timer_ok s" using assms by (simp_all add: conn_ok_def)
  have none: "\<not> live (dropSocket ?s) k" for k
    using sockets_okD(2) [OF ok(1)] by (auto simp: live_dropSocket)
  have "sockets_ok (dropSocket ?s)"
    using none sockets_okD(4-7) [OF ok(1)] by (auto simp: sockets_ok_def le_SucI)
  with ok(2) show ?thesis by (simp add: conn_ok_def inFlight_ok_def timer_ok_def)
qed

lemma conn_ok_connect: "conn_ok s0 \<Longrightarrow> conn_ok (connect m url s0)"
proof -
  assume ok0: "conn_ok s0"
  define s where "s = clearReconnectTimer s0"
  have ok: "conn_ok s" using ok0 by (simp add: s_def)
  then have sok: "sockets_ok s" and tok: "timer_ok s" by (simp_all add: conn_ok_def)
  let ?s = "s\<lparr>cn_attempt := cn_attempt s + 1, cn_inFlight := True, cn_auths := cn_auths s @ [cn_attempt s + 1]\<rparr>"
  show ?thesis
  proof (cases "cn_inFlight s \<or> (case cn_socket s of Some k \<Rightarrow> ready s k = OPEN \<or> ready s k = CONNECTING | None \<Rightarrow> False)
      \<or> url = None \<or> url = Some []")
    case True
    with ok show ?thesis by (auto simp: connect_def Let_def s_def [symmetric])
  next
    case False
    have none: "\<not> live s k" for k
    proof
      assume l: "live s k"
      from False sockets_okD(2) [OF sok l] l show False by (auto simp: live_def)
    qed
    have "sockets_ok ?s"
      using none sockets_okD(1,4-7) [OF sok] by (fastforce simp: sockets_ok_def le_SucI)
    moreover have "inFlight_ok ?s" "timer_ok ?s" using tok by (simp_all add: inFlight_ok_def timer_ok_def)
    ultimately have "conn_ok ?s" by (simp add: conn_ok_def)
    with False show ?thesis by (auto simp: connect_def Let_def s_def [symmetric])
  qed
qed

lemma conn_ok_auth:
  assumes "conn_ok s" and a: "a \<in> set (cn_auths s)"
  shows "conn_ok (authResolved m a result s)"
proof -
  let ?s = "s\<lparr>cn_auths := remove1 a (cn_auths s)\<rparr>"
  have ok: "sockets_ok s" "timer_ok s" using assms by (simp_all add: conn_ok_def)
  show ?thesis
  proof (cases "cn_attempt s = a \<and> result = AuthGranted")
    case False
    have "sockets_ok (?s\<lparr>cn_inFlight := False\<rparr>)"
      using sockets_okD [OF ok(1)] by (auto simp: sockets_ok_def)
    with ok(2) have "conn_ok (?s\<lparr>cn_inFlight := False\<rparr>)"
      by (simp add: conn_ok_def inFlight_ok_def timer_ok_def)
    with False show ?thesis by (auto simp: authResolved_def Let_def split: AuthResult.splits)
  next
    case True
    define s2 where "s2 = ?s\<lparr>cn_sockets := cn_sockets s @ [\<lparr>sk_ready = CONNECTING, sk_attempt = a\<rparr>],
      cn_socket := Some (length (cn_sockets s))\<rparr>"
    have none: "\<not> live s k" for k
    proof
      assume l: "live s k"
      then have "attempt_of s k \<in> set (cn_auths s)" using sockets_okD(3) [OF ok(1) l] True a by simp
      with sockets_okD(4) [OF ok(1), of k] l show False by (simp add: live_def)
    qed
    have l: "live s2 k \<longleftrightarrow> k = length (cn_sockets s)" for k
      using none [of k] by (auto simp: s2_def live_def ready_def nth_append)
    have t: "attempt_of s2 k = (if k < length (cn_sockets s) then attempt_of s k else a)"
      if "k < length (cn_sockets s2)" for k
      using that by (auto simp: s2_def attempt_of_def nth_append)
    have f: "cn_socket s2 = Some (length (cn_sockets s))" "cn_attempt s2 = a"
      "cn_auths s2 = remove1 a (cn_auths s)" "length (cn_sockets s2) = Suc (length (cn_sockets s))"
      using True by (simp_all add: s2_def)
    have "sockets_ok s2"
      unfolding sockets_ok_def l f
      using t f(4) sockets_okD(4-7) [OF ok(1)] True by auto
    moreover have "ready s2 (length (cn_sockets s)) = CONNECTING" by (simp add: s2_def ready_def)
    then have "inFlight_ok s2" by (simp add: inFlight_ok_def l)
    moreover have "timer_ok s2" using ok(2) by (simp add: timer_ok_def s2_def)
    ultimately have "conn_ok s2" by (simp add: conn_ok_def)
    with True show ?thesis by (simp add: authResolved_def s2_def)
  qed
qed

lemma inFlight_setReady:
  assumes "\<not> live s k \<or> ready s k \<noteq> CONNECTING" and "inFlight_ok s"
  shows "inFlight_ok (setReady k r s)"
proof (cases "\<exists>j. live s j \<and> ready s j = CONNECTING")
  case True
  then obtain j where "live s j" "ready s j = CONNECTING" by blast
  with assms(1) have "live (setReady k r s) j \<and> ready (setReady k r s) j = CONNECTING" by auto
  then show ?thesis unfolding inFlight_ok_def by blast
next
  case False
  with assms(2) show ?thesis by (auto simp: inFlight_ok_def)
qed

lemma conn_ok_open:
  assumes "conn_ok s" and k: "k < length (cn_sockets s)" "ready s k = CONNECTING"
  shows "conn_ok (onOpen k (setReady k OPEN s))"
proof -
  have ok: "sockets_ok s" "timer_ok s" using assms(1) by (simp_all add: conn_ok_def)
  have l: "live s k" using k by (simp add: live_def)
  have "isCurrent k (setReady k OPEN s)"
    using sockets_okD(2,3) [OF ok(1) l] by (simp add: isCurrent_def attempt_of_def [symmetric])
  moreover have "sockets_ok (setReady k OPEN s)"
    unfolding sockets_ok_def using sockets_okD [OF ok(1)] l
    by (metis attempt_setReady live_setReady setReady_fields(2,3,8,12))
  moreover have "sockets_ok (s'\<lparr>cn_inFlight := b, cn_reconnectAttempt := n, cn_sent := f\<rparr>) = sockets_ok s'"
    for s' b n f by (rule sockets_cong) simp_all
  ultimately show ?thesis
    using ok(2) by (simp add: onOpen_def conn_ok_def inFlight_ok_def timer_ok_def)
qed

lemma conn_ok_peerCloses:
  assumes "conn_ok s" and "k < length (cn_sockets s)" and "ready s k = OPEN"
  shows "conn_ok (setReady k CLOSING s)"
proof -
  have ok: "sockets_ok s" "inFlight_ok s" "timer_ok s" using assms(1) by (simp_all add: conn_ok_def)
  have "sockets_ok (setReady k CLOSING s)"
    using ok(1) unfolding sockets_ok_def
    by (simp only: setReady_fields attempt_setReady live_setReady) auto
  moreover have "inFlight_ok (setReady k CLOSING s)"
    using ok(2) assms(3) by (intro inFlight_setReady) simp_all
  ultimately show ?thesis using ok(3) by (simp add: conn_ok_def timer_ok_def)
qed

lemma sockets_dead: "sockets_ok s \<Longrightarrow> sockets_ok (setReady k CLOSED s)"
  unfolding sockets_ok_def by (simp only: setReady_fields attempt_setReady live_setReady) auto

lemma conn_ok_actionTimers [simp]: "conn_ok (s\<lparr>cn_actionTimers := x\<rparr>) = conn_ok s"
  by (rule conn_cong) simp_all

text \<open>A socket that is gone: the loss handler forgets it, or it was not the current one.\<close>

lemma conn_ok_lost:
  assumes "conn_ok s" and "k < length (cn_sockets s)"
  shows "conn_ok (handleConnectionLoss k code (setReady k CLOSED s))"
proof (cases "cn_socket s = Some k")
  case True
  have ok: "sockets_ok s" "timer_ok s" using assms(1) by (simp_all add: conn_ok_def)
  have none: "\<not> live (setReady k CLOSED s) j" for j
    using sockets_okD(2) [OF ok(1), of j] True by auto
  have "sockets_ok (setReady k CLOSED s\<lparr>cn_socket := None, cn_inFlight := False\<rparr>)"
    using none sockets_okD(4-7) [OF ok(1)] by (simp add: sockets_ok_def)
  with ok(2) have "conn_ok (setReady k CLOSED s\<lparr>cn_socket := None, cn_inFlight := False\<rparr>)"
    by (simp add: conn_ok_def inFlight_ok_def timer_ok_def)
  with True show ?thesis by (simp add: handleConnectionLoss_def)
next
  case False
  have ok: "sockets_ok s" "inFlight_ok s" "timer_ok s" using assms(1) by (simp_all add: conn_ok_def)
  then have "\<not> live s k" using sockets_okD(2) [OF ok(1), of k] False by auto
  with ok have "sockets_ok (setReady k CLOSED s)" "inFlight_ok (setReady k CLOSED s)"
    by (simp_all add: sockets_dead inFlight_setReady)
  with ok(3) False show ?thesis
    by (simp add: handleConnectionLoss_def conn_ok_def timer_ok_def)
qed

lemma conn_ok_fails:
  assumes "conn_ok s" and "k < length (cn_sockets s)"
  shows "conn_ok (onError k (setReady k CLOSED s))"
proof (cases "isCurrent k (setReady k CLOSED s)")
  case True
  then show ?thesis using conn_ok_lost [OF assms] by (simp add: onError_def)
next
  case False
  have ok: "sockets_ok s" "inFlight_ok s" "timer_ok s" using assms(1) by (simp_all add: conn_ok_def)
  have "\<not> live s k"
    using False sockets_okD(2,3) [OF ok(1), of k] by (auto simp: isCurrent_def attempt_of_def [symmetric])
  with ok have "sockets_ok (setReady k CLOSED s)" "inFlight_ok (setReady k CLOSED s)"
    by (simp_all add: sockets_dead inFlight_setReady)
  with ok(3) False show ?thesis by (simp add: onError_def conn_ok_def timer_ok_def)
qed

lemma conn_ok_clear_drop: "conn_ok s \<Longrightarrow> conn_ok (s\<lparr>cn_reconnectTimer := None\<rparr>)"
  using conn_ok_clearTimer [of s] by (simp add: clearReconnectTimer_def)

lemma conn_ok_cancel: "conn_ok s \<Longrightarrow> conn_ok (cancelPendingConnect s)"
  using conn_ok_drop [OF conn_ok_clearTimer, of s] by (simp add: cancelPendingConnect_def Let_def)

lemma conn_ok_disconnect: "conn_ok s \<Longrightarrow> conn_ok (disconnect s)"
proof -
  assume ok: "conn_ok s"
  have "conn_ok (s'\<lparr>cn_reconnectAttempt := n\<rparr>) = conn_ok s'" for s' n by (rule conn_cong) simp_all
  with ok have "conn_ok (clearReconnectTimer s\<lparr>cn_reconnectAttempt := 0\<rparr>)" by simp
  from conn_ok_drop [OF this] show ?thesis by (simp add: disconnect_def Let_def)
qed

lemma conn_ok_handle:
  assumes "conn_ok s" and "enabled e s"
  shows "conn_ok (handle m url parse e s)"
  using assms
  by (cases e)
    (simp_all add: callApi_def conn_ok_connect conn_ok_disconnect dismissError_def
       dismissCompletedGame_def conn_ok_cancel conn_ok_auth conn_ok_open onMessage_def
       conn_ok_peerCloses conn_ok_fails onClose_def conn_ok_lost conn_ok_clear_drop
       split: prod.splits option.splits)

section \<open>Every event keeps the invariants\<close>

lemma actions_kept:
  "actions_ok (clearReconnectTimer s) = actions_ok s"
  "actions_ok (scheduleReconnect s) = actions_ok s"
  "actions_ok (setReady k r s) = actions_ok s"
  "actions_ok (closeSocket k s) = actions_ok s"
  "actions_ok (dropSocket s) = actions_ok s"
  "actions_ok (s\<lparr>cn_socket := x\<rparr>) = actions_ok s"
  "actions_ok (s\<lparr>cn_attempt := n\<rparr>) = actions_ok s"
  "actions_ok (s\<lparr>cn_inFlight := b\<rparr>) = actions_ok s"
  "actions_ok (s\<lparr>cn_reconnectTimer := t\<rparr>) = actions_ok s"
  "actions_ok (s\<lparr>cn_reconnectAttempt := n\<rparr>) = actions_ok s"
  by (rule actions_ok_cong; simp add: clearReconnectTimer_def scheduleReconnect_def)+

lemma actions_connect: "actions_ok (connect m url s) = actions_ok s"
  by (rule actions_ok_cong) (simp_all add: connect_def Let_def clearReconnectTimer_def)

lemma actions_auth: "actions_ok (authResolved m a r s) = actions_ok s"
  by (rule actions_ok_cong)
    (simp_all add: authResolved_def Let_def scheduleReconnect_def split: AuthResult.splits)

lemma actions_open: "actions_ok (onOpen k s) = actions_ok s"
  by (rule actions_ok_cong) (simp_all add: onOpen_def)

lemma actions_loss: "actions_ok s \<Longrightarrow> actions_ok (handleConnectionLoss k code s)"
  by (simp add: handleConnectionLoss_def actions_kept actions_ok_reject)

lemma actions_message: "actions_ok s \<Longrightarrow> actions_ok (onMessage m parse raw s)"
  by (simp add: onMessage_def actions_ok_apply split: option.splits prod.splits)

lemma actions_api:
  "actions_ok s \<Longrightarrow> uuid \<noteq> [] \<Longrightarrow> uuid \<notin> issued_ids s \<Longrightarrow> actions_ok (callApi m call uuid thrown s)"
  by (simp add: callApi_def actions_ok_send split: prod.splits)

lemma actions_ok_handle:
  assumes "actions_ok s" and "enabled e s"
  shows "actions_ok (handle m url parse e s)"
  using assms
  by (cases e)
    (simp_all add: actions_api actions_connect disconnect_def cancelPendingConnect_def Let_def
       actions_ok_reject actions_kept dismissError_def dismissCompletedGame_def actions_auth
       actions_open actions_message onError_def onClose_def actions_loss actions_ok_timeout)

text \<open>The lobby state: every handler changes it by the updates of the reducer theory.\<close>

lemma lobby_reject [simp]: "cn_lobby (rejectPendingActions msg rid s) = cn_lobby s"
  unfolding reject_eq by simp

lemma lobby_resolve [simp]: "cn_lobby (resolvePendingAction r s) = cn_lobby s"
  by (simp add: resolvePendingAction_def Let_def split: option.splits)

lemma lobby_schedule [simp]: "cn_lobby (scheduleReconnect s) = cn_lobby s"
  by (simp add: scheduleReconnect_def)

lemma lobby_ok_status [simp]: "lobby_ok (c\<lparr>ls_connectionStatus := x\<rparr>) = lobby_ok c"
  by (simp add: lobby_ok_def)

lemma lobby_apply: "lobby_ok (cn_lobby s) \<Longrightarrow> lobby_ok (cn_lobby (applyIncomingMessage m type data s))"
  by (simp add: applyIncomingMessage_def Let_def lobby_ok_reduce)

lemma lobby_send: "lobby_ok (cn_lobby s) \<Longrightarrow> lobby_ok (cn_lobby (send m type data rid thrown s))"
  by (simp add: send_def Let_def completed_ok_def completed_ok_iff split: option.splits)

lemma lobby_connect: "lobby_ok (cn_lobby s) \<Longrightarrow> lobby_ok (cn_lobby (connect m url s))"
  by (simp add: connect_def Let_def clearReconnectTimer_def completed_ok_def completed_ok_iff)

lemma lobby_auth: "lobby_ok (cn_lobby s) \<Longrightarrow> lobby_ok (cn_lobby (authResolved m a r s))"
  by (simp add: authResolved_def Let_def split: AuthResult.splits)

lemma lobby_loss: "lobby_ok (cn_lobby s) \<Longrightarrow> lobby_ok (cn_lobby (handleConnectionLoss k code s))"
  by (simp add: handleConnectionLoss_def)

lemma lobby_disconnect: "lobby_ok (cn_lobby s) \<Longrightarrow> lobby_ok (cn_lobby (disconnect s))"
  by (simp add: disconnect_def Let_def clearReconnectTimer_def) (auto simp: lobby_ok_def)

lemma lobby_ok_handle:
  assumes "lobby_ok (cn_lobby s)"
  shows "lobby_ok (cn_lobby (handle m url parse e s))"
  using assms
  by (cases e)
    (simp_all add: callApi_def lobby_send lobby_connect lobby_disconnect dismissError_def
       dismissCompletedGame_def cancelPendingConnect_def clearReconnectTimer_def Let_def lobby_auth
       onOpen_def onMessage_def lobby_apply onError_def onClose_def lobby_loss completed_ok_def
       completed_ok_iff split: prod.splits option.splits,
     auto simp: lobby_ok_def)

definition conn_inv :: "ConnState \<Rightarrow> bool" where
  "conn_inv s \<longleftrightarrow> conn_ok s \<and> actions_ok s \<and> lobby_ok (cn_lobby s)"

interpretation conn: invariant "\<lambda>s. s = initialConn" "conn_step m url parse" conn_inv for m url parse
proof
  show "conn_inv s" if "s = initialConn" for s
    using that by (simp add: conn_inv_def) (simp add: initialConn_def)
  show "conn_inv s'" if "conn_inv s" and "conn_step m url parse s s'" for s s'
    using that by (auto simp: guarded_step_def conn_inv_def conn_ok_handle actions_ok_handle lobby_ok_handle)
qed

lemma reached_inv: "reach (conn_step m url parse) initialConn s \<Longrightarrow> conn_inv s"
  by (rule conn.run_inv [OF refl])

section \<open>Properties\<close>

definition texts :: "string \<Rightarrow> string" where
  "texts key = key"

definition example_url :: "string option" where
  "example_url = Some ''https://game''"

text \<open>The raw data of the examples is the envelope itself.\<close>

abbreviation example_run :: "Envelope ConnEvent list \<Rightarrow> ConnState option" where
  "example_run es \<equiv> run enabled (handle texts example_url Some) es initialConn"

lemma example_reach: "example_run es = Some s \<Longrightarrow> reach (conn_step texts example_url Some) initialConn s"
  by (rule run_reach)

text \<open>C2: In every run there is at most one socket that is connecting or open, it is the one the
  controller holds, and it belongs to the current connect attempt; the delay of a pending
  reconnect is between half a second and five seconds.\<close>

theorem one_live_socket:
  assumes "reach (conn_step m url parse) initialConn s"
  shows "(\<forall>k. live s k \<longrightarrow> cn_socket s = Some k \<and> attempt_of s k = cn_attempt s) \<and>
    (\<forall>d. cn_reconnectTimer s = Some d \<longrightarrow> 500 \<le> d \<and> d \<le> 5000)"
  using reached_inv [OF assms]
  by (simp add: conn_inv_def conn_ok_def sockets_ok_def timer_ok_def reconnectBaseDelayMs_def
        reconnectMaxDelayMs_def)

definition opened :: ConnState where
  "opened = the (example_run [ConnectEvent, AuthEvent 1 AuthGranted, SocketOpens 0])"

lemma opened_run: "example_run [ConnectEvent, AuthEvent 1 AuthGranted, SocketOpens 0] = Some opened"
  by code_simp

theorem one_live_socket_witness: "live opened 0 \<and> cn_socket opened = Some 0"
proof -
  have "live opened 0" by code_simp
  then show ?thesis using one_live_socket [OF example_reach [OF opened_run]] by blast
qed

text \<open>C12: In every run a request id is pending or settled, never both and never twice, and a timeout
  is set for exactly the pending ones: every awaited call is settled at most once, and nothing but
  a pending call can still time out.\<close>

theorem actions_settle_once:
  assumes "reach (conn_step m url parse) initialConn s"
  shows "distinct (map pa_requestId (cn_pending s) @ map fst (cn_settled s)) \<and>
    distinct (cn_actionTimers s) \<and> set (cn_actionTimers s) = pa_requestId ` set (cn_pending s)"
  using reached_inv [OF assms] by (simp add: conn_inv_def actions_ok_def)

definition played :: ConnState where
  "played = the (example_run
     [ConnectEvent, AuthEvent 1 AuthGranted, SocketOpens 0, ApiEvent ForfeitGame ''r1'' None,
      ApiEvent StopSpectating ''r2'' None, ActionTimesOut ''r1''])"

lemma played_run:
  "example_run
     [ConnectEvent, AuthEvent 1 AuthGranted, SocketOpens 0, ApiEvent ForfeitGame ''r1'' None,
      ApiEvent StopSpectating ''r2'' None, ActionTimesOut ''r1''] = Some played"
  by code_simp

theorem actions_settle_once_witness:
  "cn_settled played = [(''r1'', Rejected ''command_timeout'')] \<and>
   set (cn_actionTimers played) = {''r2''}"
proof -
  have "cn_settled played = [(''r1'', Rejected ''command_timeout'')]"
    and "map pa_requestId (cn_pending played) = [''r2'']" by code_simp+
  then show ?thesis
    using actions_settle_once [OF example_reach [OF played_run]] by (metis empty_set list.simps(15) set_map)
qed

text \<open>The flag that keeps a second connect from starting never gets stuck: whenever it is set,
  some event the controller waits for can still happen and clears it.\<close>

theorem in_flight_can_end:
  assumes "reach (conn_step m url parse) initialConn s" and "cn_inFlight s"
  shows "\<exists>e. enabled e s \<and> \<not> cn_inFlight (handle m url parse e s)"
proof -
  have ok: "sockets_ok s" "inFlight_ok s"
    using reached_inv [OF assms(1)] by (simp_all add: conn_inv_def conn_ok_def)
  from assms(2) ok(2) consider "cn_attempt s \<in> set (cn_auths s)" | k where "live s k" "ready s k = CONNECTING"
    by (auto simp: inFlight_ok_def)
  then show ?thesis
  proof cases
    case 1
    then show ?thesis
      by (intro exI [of _ "AuthEvent (cn_attempt s) AuthMissing"]) (simp add: authResolved_def)
  next
    case 2
    have "isCurrent k (setReady k OPEN s)"
      using sockets_okD(2,3) [OF ok(1) 2(1)] by (simp add: isCurrent_def attempt_of_def [symmetric])
    with 2 show ?thesis
      by (intro exI [of _ "SocketOpens k"]) (simp add: live_def onOpen_def)
  qed
qed

definition dialing :: ConnState where
  "dialing = the (example_run [ConnectEvent, AuthEvent 1 AuthGranted])"

theorem in_flight_can_end_witness:
  "\<exists>e. enabled e dialing \<and> \<not> cn_inFlight (handle texts example_url (Some :: Envelope \<Rightarrow> Envelope option) e dialing)"
proof (rule in_flight_can_end)
  have "example_run [ConnectEvent, AuthEvent 1 AuthGranted] = Some dialing" by code_simp
  then show "reach (conn_step texts example_url (Some :: Envelope \<Rightarrow> Envelope option)) initialConn dialing"
    by (rule example_reach)
  show "cn_inFlight dialing" by code_simp
qed

lemma disconnect_fields [simp]:
  "cn_socket (disconnect s) = None" "cn_pending (disconnect s) = []"
  "cn_reconnectTimer (disconnect s) = None" "cn_inFlight (disconnect s) = False"
  "cn_attempt (disconnect s) = cn_attempt s + 1" "cn_auths (disconnect s) = cn_auths s"
  "cn_settled (disconnect s) = cn_settled s @ map (\<lambda>p. (pa_requestId p, Rejected ''connection_lost'')) (cn_pending s)"
  by (simp_all add: disconnect_def Let_def clearReconnectTimer_def reject_eq names_def)
    (simp add: settle_def)

text \<open>C14: After a disconnect nothing of the connection is left: no socket, no live socket behind the
  controller's back, no reconnect timer, no pending action and no action timer; the pending
  actions are rejected, and the answer of an authorisation that was still open creates no socket
  and starts no reconnect.\<close>

theorem disconnect_leaves_nothing:
  assumes "reach (conn_step m url parse) initialConn s"
  shows "cn_socket (disconnect s) = None \<and> (\<forall>k. \<not> live (disconnect s) k) \<and>
    cn_reconnectTimer (disconnect s) = None \<and> cn_pending (disconnect s) = [] \<and>
    cn_actionTimers (disconnect s) = [] \<and>
    (\<forall>p \<in> set (cn_pending s). (pa_requestId p, Rejected ''connection_lost'') \<in> set (cn_settled (disconnect s))) \<and>
    (\<forall>a \<in> set (cn_auths (disconnect s)). \<forall>r.
       cn_socket (authResolved m a r (disconnect s)) = None \<and>
       cn_reconnectTimer (authResolved m a r (disconnect s)) = None)"
proof -
  have inv: "conn_inv s" by (rule reached_inv [OF assms])
  then have "conn_inv (disconnect s)"
    using conn_ok_disconnect actions_ok_handle [of s DisconnectEvent m url parse] lobby_disconnect
    by (simp add: conn_inv_def)
  then have ok: "sockets_ok (disconnect s)" "actions_ok (disconnect s)"
    by (simp_all add: conn_inv_def conn_ok_def)
  have "\<forall>k. \<not> live (disconnect s) k" using sockets_okD(2) [OF ok(1)] by auto
  moreover have "cn_actionTimers (disconnect s) = []" using ok(2) by (simp add: actions_ok_def)
  moreover have "a \<le> cn_attempt s" if "a \<in> set (cn_auths s)" for a
    using inv that by (simp add: conn_inv_def conn_ok_def sockets_ok_def)
  then have "cn_attempt (disconnect s) \<noteq> a" if "a \<in> set (cn_auths s)" for a using that by fastforce
  ultimately show ?thesis by (auto simp: authResolved_def)
qed

theorem disconnect_leaves_nothing_witness:
  "cn_pending played \<noteq> [] \<and> cn_actionTimers (disconnect played) = []"
proof
  show "cn_pending played \<noteq> []" by code_simp
  show "cn_actionTimers (disconnect played) = []"
    using disconnect_leaves_nothing [OF example_reach [OF played_run]] by blast
qed

text \<open>C22: When the current socket closes, every pending action is rejected as lost, the state shows
  the connection as disconnected, and a reconnect is scheduled.\<close>

theorem loss_rejects_and_reconnects:
  assumes "cn_socket s = Some k" and "s' = handle m url parse (SocketCloses k) s"
  shows "cn_pending s' = [] \<and>
    cn_settled s' = cn_settled s @ map (\<lambda>p. (pa_requestId p, Rejected ''connection_lost'')) (cn_pending s) \<and>
    cn_socket s' = None \<and> \<not> cn_inFlight s' \<and>
    ls_connectionStatus (cn_lobby s') = Disconnected \<and> cn_reconnectTimer s' \<noteq> None"
  using assms
  by (simp add: onClose_def handleConnectionLoss_def reject_eq names_def scheduleReconnect_def)
    (simp add: settle_def)

theorem loss_rejects_and_reconnects_witness:
  "cn_reconnectTimer (handle texts example_url (Some :: Envelope \<Rightarrow> Envelope option) (SocketCloses 0) played) \<noteq> None"
proof -
  have "cn_socket played = Some 0" by code_simp
  then show ?thesis using loss_rejects_and_reconnects by blast
qed

text \<open>The answer of an abandoned authorisation request clears the in-flight flag of the attempt
  that replaced it: after connect, disconnect, connect and the first answer the second attempt is
  still open but the flag is down, so a further connect opens a third request beside it.\<close>

theorem stale_auth_clears_in_flight:
  "let s = the (example_run [ConnectEvent, DisconnectEvent, ConnectEvent, AuthEvent 1 AuthGranted])
   in cn_attempt s = 3 \<and> cn_auths s = [3] \<and> \<not> cn_inFlight s \<and>
      cn_auths (connect texts example_url s) = [3, 4]"
  by code_simp

end
