(* ===== verification/BoardRender.thy ===== *)
theory BoardRender
  imports TablePlay DropIds
begin

text \<open>
  What a render of the board computes from its props and its state (\<open>game-board-view.tsx\<close>), the
  persisted hand order (\<open>game-hand-order-store.ts\<close>), the activity map of the submitted
  compositions and the choice among drop collisions.
\<close>

section \<open>The persisted hand order\<close>

type_synonym HandOrders = "(string \<times> string list) list"

definition usePersistedHandOrder :: "HandOrders \<Rightarrow> string option \<Rightarrow> string list" where
  "usePersistedHandOrder orders scopeKey =
     (case scopeKey of
        None \<Rightarrow> []
      | Some key \<Rightarrow> (if key = [] then [] else or_else (map_of orders key) []))"

text \<open>The second component is what is written to \<open>localStorage\<close>, if anything is.\<close>

definition setPersistedHandOrder ::
  "HandOrders \<Rightarrow> string option \<Rightarrow> string list \<Rightarrow> HandOrders \<times> HandOrders option" where
  "setPersistedHandOrder orders scopeKey order =
     (case scopeKey of
        None \<Rightarrow> (orders, None)
      | Some key \<Rightarrow>
          (if key = [] then (orders, None)
           else if or_else (map_of orders key) [] = order then (orders, None)
           else (let nextState = AList.update key order orders in (nextState, Some nextState))))"

section \<open>Props and state\<close>

record GameBoardTurnState =
  bt_canDrawDeck :: bool
  bt_canDrawDiscard :: bool
  bt_canDiscard :: bool
  bt_isMyTurn :: bool
  bt_turnPlayerName :: string

record BoardProps =
  bp_game :: "GameSnapshot option"
  bp_roomCode :: "string option"
  bp_playerId :: string
  bp_turnState :: GameBoardTurnState
  bp_topDiscardCard :: "CardSnapshot option"
  bp_draftSyncEnabled :: bool
  bp_guided :: bool

record HandOrderState =
  ho_scopeKey :: "string option"
  ho_order :: "string list option"

record DraftCompositionState =
  ds_scopeKey :: "string option"
  ds_compositions :: "DraftComposition list"
  ds_baselineHandOrder :: "string list option"

text \<open>A card in the air: drawn from the deck or the discard pile, or taken from the own cards.\<close>

datatype ActiveDrag =
    DrawDrag (drag_source: DrawSource) (drag_card: "CardSnapshot option")
      (drag_baselineEntries: "HandEntry list") (drag_baselineOrder: "string list")
  | HandDrag (drag_handKey: string) (drag_baselineHandOrder: "string list")
      (drag_baselineDrafts: "DraftComposition list") (drag_hasReorderedHand: bool)

section \<open>Derived values\<close>

text \<open>\<open>roomCode && playerId ? `${roomCode}:${playerId}` : null\<close>\<close>

definition handOrderScopeKey :: "BoardProps \<Rightarrow> string option" where
  "handOrderScopeKey p =
     (case bp_roomCode p of
        None \<Rightarrow> None
      | Some roomCode \<Rightarrow>
          (if roomCode = [] \<or> bp_playerId p = [] then None
           else Some (roomCode @ '':'' @ bp_playerId p)))"

definition draftScopeKey :: "GameSnapshot option \<Rightarrow> string \<Rightarrow> bool \<Rightarrow> string option" where
  "draftScopeKey game playerId isMyTurn =
     (case game of
        None \<Rightarrow> None
      | Some g \<Rightarrow>
          (if \<not> isMyTurn then None
           else Some (playerId @ '':'' @ js_show (game_round g) @ '':''
                        @ js_show (turn_number (game_turn g)))))"

definition currentDraftScopeKey :: "BoardProps \<Rightarrow> string option" where
  "currentDraftScopeKey p = draftScopeKey (bp_game p) (bp_playerId p) (bt_isMyTurn (bp_turnState p))"

definition activeCompositionsOf :: "BoardProps \<Rightarrow> CompositionSnapshot list" where
  "activeCompositionsOf p = (case bp_game p of None \<Rightarrow> [] | Some g \<Rightarrow> game_activeCompositions g)"

definition rawHandEntriesOf :: "BoardProps \<Rightarrow> HandEntry list" where
  "rawHandEntriesOf p = buildHandEntries (case bp_game p of None \<Rightarrow> [] | Some g \<Rightarrow> game_hand g)"

definition handOrderOf :: "BoardProps \<Rightarrow> HandOrderState \<Rightarrow> HandOrders \<Rightarrow> string list" where
  "handOrderOf p handOrderState persisted =
     (case ho_order handOrderState of
        Some order \<Rightarrow>
          (if ho_scopeKey handOrderState = handOrderScopeKey p then order
           else usePersistedHandOrder persisted (handOrderScopeKey p))
      | None \<Rightarrow> usePersistedHandOrder persisted (handOrderScopeKey p))"

definition scopedCompositions :: "BoardProps \<Rightarrow> DraftCompositionState \<Rightarrow> DraftComposition list" where
  "scopedCompositions p ds =
     (if ds_scopeKey ds = currentDraftScopeKey p then ds_compositions ds else [])"

definition buildDraftedCompositionViews ::
  "DraftComposition list \<Rightarrow> (string \<Rightarrow> HandEntry option) \<Rightarrow> DraftedCompositionView list" where
  "buildDraftedCompositionViews draftCompositions entryByKey =
     map (\<lambda>c. \<lparr>dc_id = dc_id c, dc_handKeys = dc_handKeys c, dc_tableIndex = dc_tableIndex c,
               dc_insertIndex = dc_insertIndex c, dc_cardInsertIndices = dc_cardInsertIndices c,
               dc_reclaimTargets = dc_reclaimTargets c,
               dv_entries = mapHandKeysToEntries (dc_handKeys c) entryByKey\<rparr>) draftCompositions"

definition stagedHandKeySet :: "DraftComposition list \<Rightarrow> string set" where
  "stagedHandKeySet draftCompositions = set (staged draftCompositions)"

definition availableEntries :: "HandEntry list \<Rightarrow> DraftComposition list \<Rightarrow> HandEntry list" where
  "availableEntries allHandEntries draftCompositions =
     filter (\<lambda>entry. he_key entry \<notin> stagedHandKeySet draftCompositions) allHandEntries"

definition playerHasOpened :: "BoardProps \<Rightarrow> bool" where
  "playerHasOpened p =
     (case bp_game p of
        None \<Rightarrow> False
      | Some g \<Rightarrow>
          (case List.find (\<lambda>player. ps_playerId player = bp_playerId p) (game_players g) of
             None \<Rightarrow> False
           | Some player \<Rightarrow> ps_hasOpened player))"

definition canSubmitViews :: "BoardProps \<Rightarrow> DraftedCompositionView list \<Rightarrow> bool" where
  "canSubmitViews p views \<longleftrightarrow>
     bt_canDiscard (bp_turnState p) \<and> views \<noteq> [] \<and>
     otv_canSubmit (validateOpeningTablePlay (playerHasOpened p) views)"

definition draftValidationOf ::
  "BoardProps \<Rightarrow> bool \<Rightarrow> DraftedCompositionView list \<Rightarrow> DraftValidationResult" where
  "draftValidationOf p showDraftValidation views =
     (if showDraftValidation then validateDraftedCompositions (activeCompositionsOf p) views
      else \<lparr>val_invalidCompositionIds = {}, val_invalidEntryKeys = {}\<rparr>)"

section \<open>Activities of the submitted compositions\<close>

record SubmittedCardActivity =
  sca_kind :: string
  sca_playerId :: string

record SubmittedCompositionActivity =
  sub_kind :: "string option"
  sub_playerId :: "string option"
  sub_cardActivities :: "(int \<times> SubmittedCardActivity) list"

type_synonym ActivityMap = "(int \<times> SubmittedCompositionActivity) list"

definition submittedCard :: "string \<Rightarrow> CardActivitySnapshot \<Rightarrow> SubmittedCardActivity" where
  "submittedCard otherwise details =
     \<lparr>sca_kind = (if cact_kind details = ''joker_reclaim'' then ''joker_reclaim'' else otherwise),
      sca_playerId = cact_playerId details\<rparr>"

definition activityDetails ::
  "CompositionActivitySnapshot list \<Rightarrow> int \<Rightarrow> int \<Rightarrow> CardActivitySnapshot option" where
  "activityDetails activities index cardIndex =
     Option.bind (last_by act_tableIndex activities index)
       (\<lambda>a. Option.bind (act_cardActivities a) (\<lambda>m. map_of m cardIndex))"

text \<open>The activity of one card of the composition, \<open>None\<close> when the loop records nothing for it.\<close>

definition cardActivity ::
  "CompositionSnapshot option \<Rightarrow> CompositionSnapshot \<Rightarrow> CardActivitySnapshot option \<Rightarrow> int \<Rightarrow>
     SubmittedCardActivity option" where
  "cardActivity baseline current details cardIndex =
     (case details of
        None \<Rightarrow> None
      | Some d \<Rightarrow>
          (case baseline of
             None \<Rightarrow> Some (submittedCard ''new'' d)
           | Some b \<Rightarrow>
               (case js_nth (comp_cards b) cardIndex of
                  None \<Rightarrow> Some (submittedCard ''addition'' d)
                | Some baselineCard \<Rightarrow>
                    (if cact_kind d = ''joker_reclaim''
                        \<or> js_nth (comp_cards current) cardIndex \<noteq> Some baselineCard
                     then Some (submittedCard ''addition'' d) else None))))"

definition compositionCardActivities ::
  "CompositionActivitySnapshot list \<Rightarrow> CompositionSnapshot option \<Rightarrow> CompositionSnapshot \<Rightarrow> int \<Rightarrow>
     (int \<times> SubmittedCardActivity) list" where
  "compositionCardActivities activities baseline current index =
     List.map_filter
       (\<lambda>cardIndex. map_option (\<lambda>a. (cardIndex, a))
          (cardActivity baseline current (activityDetails activities index cardIndex) cardIndex))
       [0..int (length (comp_cards current)) - 1]"

definition addCompositionActivity ::
  "CompositionSnapshot list \<Rightarrow> CompositionActivitySnapshot list \<Rightarrow> ActivityMap \<Rightarrow>
     nat \<times> CompositionSnapshot \<Rightarrow> ActivityMap" where
  "addCompositionActivity baselineCompositions activities activityMap = (\<lambda>(n, current).
     (let index = int n;
          baseline = js_nth baselineCompositions index;
          activity = or_else (map_of activityMap index)
            \<lparr>sub_kind = None, sub_playerId = None, sub_cardActivities = []\<rparr>;
          cards = compositionCardActivities activities baseline current index
      in case baseline of
           None \<Rightarrow>
             AList.update index
               (activity\<lparr>sub_kind := Some (or_else (sub_kind activity) ''new_composition''),
                         sub_cardActivities := sub_cardActivities activity @ cards\<rparr>) activityMap
         | Some _ \<Rightarrow>
             (if cards = [] then activityMap
              else AList.update index
                (activity\<lparr>sub_cardActivities := sub_cardActivities activity @ cards\<rparr>) activityMap)))"

definition buildSubmittedCompositionActivityMap ::
  "CompositionSnapshot list \<Rightarrow> CompositionSnapshot list \<Rightarrow> TurnActivitySnapshot option \<Rightarrow>
     ActivityMap" where
  "buildSubmittedCompositionActivityMap baselineCompositions currentCompositions turnActivity =
     (let activities = or_else (Option.bind turnActivity ta_compositionActivities) [];
          initial = foldl (\<lambda>m a. AList.update (act_tableIndex a)
              \<lparr>sub_kind = act_kind a, sub_playerId = act_playerId a, sub_cardActivities = []\<rparr> m)
            [] activities
      in foldl (addCompositionActivity baselineCompositions activities) initial
           (List.enumerate 0 currentCompositions))"

section \<open>Collisions\<close>

text \<open>
  \<open>pointerWithin\<close> and \<open>closestCenter\<close> of \<open>@dnd-kit/core\<close> give the ids of zones under the pointer and
  of the closest among some zones; the zones are given by their ids.
\<close>

definition boardCollisions ::
  "string set \<Rightarrow> string list \<Rightarrow> (string list \<Rightarrow> string list) \<Rightarrow> string list \<Rightarrow> string list" where
  "boardCollisions handCardIds pointerCollisions closestCenter droppableContainers =
     (let handCardContainers = filter (\<lambda>c. c \<in> handCardIds) droppableContainers;
          pointerSpecific = filter (\<lambda>c. c \<noteq> NEW_COMPOSITION_DROP_ID \<and> c \<noteq> HAND_DROP_ID)
            pointerCollisions;
          jokerSpecific = filter (\<lambda>c. startsWith c ''table-composition-joker-'') pointerSpecific;
          edgeSpecific = filter (\<lambda>c. startsWith c ''table-composition-edge-'') pointerSpecific
      in if jokerSpecific \<noteq> [] then jokerSpecific
         else if edgeSpecific \<noteq> [] then edgeSpecific
         else if pointerSpecific \<noteq> [] then pointerSpecific
         else if list_ex (\<lambda>c. c = HAND_DROP_ID) pointerCollisions \<and> handCardContainers \<noteq> []
                 \<and> closestCenter handCardContainers \<noteq> []
           then closestCenter handCardContainers
         else if pointerCollisions \<noteq> [] then pointerCollisions
         else [])"

section \<open>The hand order store\<close>

text \<open>Remembering an order and reading it back\<close>

lemma persisted_same:
  "usePersistedHandOrder (fst (setPersistedHandOrder orders (Some key) order)) (Some key)
     = (if key = [] then [] else order)"
  by (simp add: usePersistedHandOrder_def setPersistedHandOrder_def Let_def update_Some_unfold
        update_conv)

lemma persisted_other:
  "key' \<noteq> key \<Longrightarrow>
     usePersistedHandOrder (fst (setPersistedHandOrder orders (Some key) order)) (Some key')
       = usePersistedHandOrder orders (Some key')"
  by (simp add: usePersistedHandOrder_def setPersistedHandOrder_def Let_def update_conv)

end
