(* ===== verification/BoardController.thy ===== *)
theory BoardController
  imports BoardRender Machine
begin

text \<open>
  The drag and drop controller of the board (\<open>useGameBoardController\<close> in \<open>game-board-view.tsx\<close>).

  The state holds the React states and refs of the hook, the hand order store, and the calls and
  sounds the handlers made, in order. React renders between two events, so a handler starts from
  the values of the last render, computed here from the state, and the ref
  \<open>draftCompositionStateRef\<close> equals the state then. An asynchronous handler is two functions: what
  it does up to the call it awaits, and what it does with the answer.
\<close>

datatype BoardEffect =
    Sound string
  | DrawFromDeckCall
  | DrawFromDiscardCall
  | PlayTableCall TablePlayRequest
  | PlayTableAndDiscardCall TablePlayRequest int CardSnapshot
  | DiscardCardCall int CardSnapshot
  | DrawDragStateCall bool
  | DrawSettledCall
  | DraftStateCall bool bool "DraftCompositionSnapshot list" bool

record BoardState =
  bd_handOrderState :: HandOrderState
  bd_activeDrag :: "ActiveDrag option"
  bd_drafts :: DraftCompositionState
  bd_showDraftValidation :: bool
  bd_nextDraftId :: nat
  bd_skipNextDraftSync :: bool
  bd_lastDragOverTarget :: "(string \<times> string option) option"
  bd_persisted :: HandOrders
  bd_effects :: "BoardEffect list"

definition initialBoard :: "HandOrders \<Rightarrow> BoardState" where
  "initialBoard persisted =
     \<lparr>bd_handOrderState = \<lparr>ho_scopeKey = None, ho_order = None\<rparr>, bd_activeDrag = None,
      bd_drafts = \<lparr>ds_scopeKey = None, ds_compositions = [], ds_baselineHandOrder = None\<rparr>,
      bd_showDraftValidation = False, bd_nextDraftId = 0, bd_skipNextDraftSync = False,
      bd_lastDragOverTarget = None, bd_persisted = persisted, bd_effects = []\<rparr>"

text \<open>The ids of dnd-kit elements are texts; \<open>ev_over\<close> is the zone under the card, if any.\<close>

record DragEvent =
  ev_activeId :: string
  ev_overId :: "string option"
  ev_drawSource :: "string option"
  ev_cardIndex :: "int option"
  ev_isVirtual :: bool

section \<open>The values of a render\<close>

definition handEntriesOf :: "BoardProps \<Rightarrow> BoardState \<Rightarrow> HandEntry list" where
  "handEntriesOf p s =
     applyHandEntryOrder (rawHandEntriesOf p) (handOrderOf p (bd_handOrderState s) (bd_persisted s))"

definition resolutionOf :: "BoardProps \<Rightarrow> BoardState \<Rightarrow> ResolvedDraftViews" where
  "resolutionOf p s =
     resolveDraftViews (activeCompositionsOf p) (scopedCompositions p (bd_drafts s)) (handEntriesOf p s)"

definition draftCompositionsOf :: "BoardProps \<Rightarrow> BoardState \<Rightarrow> DraftComposition list" where
  "draftCompositionsOf p s = rdv_draftCompositions (resolutionOf p s)"

definition availableHandEntriesOf :: "BoardProps \<Rightarrow> BoardState \<Rightarrow> HandEntry list" where
  "availableHandEntriesOf p s =
     availableEntries (rdv_allHandEntries (resolutionOf p s)) (draftCompositionsOf p s)"

definition draftedViewsOf :: "BoardProps \<Rightarrow> BoardState \<Rightarrow> DraftedCompositionView list" where
  "draftedViewsOf p s =
     buildDraftedCompositionViews (draftCompositionsOf p s) (rdv_allEntryByKey (resolutionOf p s))"

definition activeDrawEntryOf :: "BoardProps \<Rightarrow> BoardState \<Rightarrow> HandEntry option" where
  "activeDrawEntryOf p s =
     (case bd_activeDrag s of
        Some (DrawDrag source cd baselineEntries baselineOrder) \<Rightarrow>
          findNewHandEntry baselineEntries (applyHandEntryOrder (rawHandEntriesOf p) baselineOrder)
      | _ \<Rightarrow> None)"

definition canSubmitTablePlay :: "BoardProps \<Rightarrow> BoardState \<Rightarrow> bool" where
  "canSubmitTablePlay p s = canSubmitViews p (draftedViewsOf p s)"

section \<open>Updates\<close>

definition emit :: "BoardEffect list \<Rightarrow> BoardState \<Rightarrow> BoardState" where
  "emit es s = s\<lparr>bd_effects := bd_effects s @ es\<rparr>"

definition commitDrafts :: "DraftCompositionState \<Rightarrow> BoardState \<Rightarrow> BoardState" where
  "commitDrafts nextState s = s\<lparr>bd_drafts := nextState\<rparr>"

definition updateHandOrder :: "BoardProps \<Rightarrow> string list \<Rightarrow> BoardState \<Rightarrow> BoardState" where
  "updateHandOrder p order s =
     (let current = bd_handOrderState s
      in s\<lparr>bd_handOrderState :=
             (if ho_scopeKey current = handOrderScopeKey p \<and> ho_order current = Some order then current
              else \<lparr>ho_scopeKey = handOrderScopeKey p, ho_order = Some order\<rparr>),
           bd_persisted := fst (setPersistedHandOrder (bd_persisted s) (handOrderScopeKey p) order)\<rparr>)"

definition repeatedDragOverTarget :: "DragEvent \<Rightarrow> string option \<Rightarrow> BoardState \<Rightarrow> bool" where
  "repeatedDragOverTarget ev overId s \<longleftrightarrow> bd_lastDragOverTarget s = Some (ev_activeId ev, overId)"

definition noteDragOverTarget :: "DragEvent \<Rightarrow> string option \<Rightarrow> BoardState \<Rightarrow> BoardState" where
  "noteDragOverTarget ev overId s = s\<lparr>bd_lastDragOverTarget := Some (ev_activeId ev, overId)\<rparr>"

text \<open>\<open>handEntries\<close> is the value of the render the handler belongs to.\<close>

definition reportGuidance ::
  "BoardProps \<Rightarrow> HandEntry list \<Rightarrow> DraftComposition list \<Rightarrow> bool \<Rightarrow> BoardState \<Rightarrow> BoardState" where
  "reportGuidance p handEntries nextCompositions isDraggingCard s =
     (if \<not> bp_guided p then s
      else (let nextResolution = resolveDraftViews (activeCompositionsOf p) nextCompositions handEntries;
                nextViews = buildDraftedCompositionViews (rdv_draftCompositions nextResolution)
                  (rdv_allEntryByKey nextResolution)
            in emit [DraftStateCall (nextViews \<noteq> []) (canSubmitViews p nextViews)
                      (map buildDraftCompositionSnapshot nextViews) isDraggingCard] s))"

definition updateDraftCompositions ::
  "BoardProps \<Rightarrow> HandEntry list \<Rightarrow> (DraftComposition list \<Rightarrow> DraftComposition list) \<Rightarrow> bool \<Rightarrow>
     BoardState \<Rightarrow> BoardState" where
  "updateDraftCompositions p handEntries updater isDraggingCard s =
     (let current = bd_drafts s;
          isCurrentScope = (ds_scopeKey current = currentDraftScopeKey p);
          scoped = scopedCompositions p current;
          nextCompositions = updater scoped;
          nextBaselineHandOrder =
            or_option (if isCurrentScope then ds_baselineHandOrder current else None)
              (if scoped = [] \<and> nextCompositions \<noteq> [] then Some (handEntryOrder handEntries) else None)
      in reportGuidance p handEntries nextCompositions isDraggingCard
           (commitDrafts \<lparr>ds_scopeKey = currentDraftScopeKey p, ds_compositions = nextCompositions,
              ds_baselineHandOrder = nextBaselineHandOrder\<rparr>
             (s\<lparr>bd_showDraftValidation := False\<rparr>)))"

definition finishReturningHandKey ::
  "BoardProps \<Rightarrow> HandEntry list \<Rightarrow> string \<Rightarrow> BoardState \<Rightarrow> BoardState" where
  "finishReturningHandKey p handEntries handKey s =
     (let nextCompositions = removeHandKeyFromDrafts (scopedCompositions p (bd_drafts s)) handKey
      in reportGuidance p handEntries nextCompositions False
           (commitDrafts \<lparr>ds_scopeKey = currentDraftScopeKey p, ds_compositions = nextCompositions,
              ds_baselineHandOrder =
                (if nextCompositions \<noteq> [] then ds_baselineHandOrder (bd_drafts s) else None)\<rparr> s))"

definition resetDraftCompositions :: "BoardProps \<Rightarrow> bool \<Rightarrow> BoardState \<Rightarrow> BoardState" where
  "resetDraftCompositions p sync s =
     (let s1 = s\<lparr>bd_showDraftValidation := False,
                 bd_skipNextDraftSync := (if sync then bd_skipNextDraftSync s else True)\<rparr>;
          s2 = (case ds_baselineHandOrder (bd_drafts s) of
                  Some order \<Rightarrow>
                    (if ds_scopeKey (bd_drafts s) = currentDraftScopeKey p
                     then updateHandOrder p order s1 else s1)
                | None \<Rightarrow> s1)
      in commitDrafts \<lparr>ds_scopeKey = currentDraftScopeKey p, ds_compositions = [],
           ds_baselineHandOrder = None\<rparr> s2)"

text \<open>The effect that sends the drafts to the server, run when the serialized drafts change: the
  drafts to send, if any.\<close>

definition syncTurnDrafts ::
  "BoardProps \<Rightarrow> BoardState \<Rightarrow> DraftCompositionSnapshot list option \<times> BoardState" where
  "syncTurnDrafts p s =
     (if \<not> bp_draftSyncEnabled p \<or> \<not> bt_isMyTurn (bp_turnState p) then (None, s)
      else if bd_skipNextDraftSync s then (None, s\<lparr>bd_skipNextDraftSync := False\<rparr>)
      else (Some (map buildDraftCompositionSnapshot (draftedViewsOf p s)), s))"

section \<open>Submitting\<close>

text \<open>The answer of an awaited call: \<open>None\<close> when it throws, else whether \<open>ok\<close> is not \<open>false\<close>.\<close>

type_synonym CallAnswer = "bool option"

definition submitDraftCompositions :: "BoardProps \<Rightarrow> BoardState \<Rightarrow> BoardState" where
  "submitDraftCompositions p s =
     (if \<not> canSubmitTablePlay p s then s
      else emit [PlayTableCall (buildTablePlayRequest (activeCompositionsOf p) (draftedViewsOf p s))] s)"

text \<open>\<open>p\<close> are the props the handler closed over.\<close>

definition submitAnswered :: "BoardProps \<Rightarrow> CallAnswer \<Rightarrow> BoardState \<Rightarrow> BoardState" where
  "submitAnswered p answer s =
     (if answer = Some True then resetDraftCompositions p False s
      else emit [Sound ''invalid-action''] (s\<lparr>bd_showDraftValidation := True\<rparr>))"

section \<open>Starting a drag\<close>

definition handleDragStart :: "BoardProps \<Rightarrow> DragEvent \<Rightarrow> BoardState \<Rightarrow> BoardState" where
  "handleDragStart p ev s0 =
     (let s = s0\<lparr>bd_lastDragOverTarget := None\<rparr>;
          handEntries = handEntriesOf p s0;
          guide = (if bp_guided p then [DrawDragStateCall True] else [])
      in if ev_drawSource ev = Some ''deck'' then
           emit ([Sound ''card-pickup''] @ guide @ [DrawFromDeckCall])
             (s\<lparr>bd_activeDrag := Some (DrawDrag DrawDeck None handEntries (handEntryOrder handEntries))\<rparr>)
         else (case (if ev_drawSource ev = Some ''discard'' then bp_topDiscardCard p else None) of
           Some topDiscardCard \<Rightarrow>
             emit ([Sound ''card-pickup''] @ guide @ [DrawFromDiscardCall])
               (s\<lparr>bd_activeDrag := Some (DrawDrag DrawDiscard (Some topDiscardCard) handEntries
                  (handEntryOrder handEntries))\<rparr>)
         | None \<Rightarrow>
             (if ev_activeId ev = [] then s\<lparr>bd_activeDrag := None\<rparr>
              else emit [Sound ''card-pickup'']
                (s\<lparr>bd_activeDrag := Some (HandDrag (ev_activeId ev) (handEntryOrder handEntries)
                   (draftCompositionsOf p s0) False)\<rparr>))))"

section \<open>Moving over zones\<close>

definition movedOrder ::
  "(HandEntry list \<Rightarrow> nat \<Rightarrow> nat \<Rightarrow> HandEntry list) \<Rightarrow> BoardProps \<Rightarrow> BoardState \<Rightarrow> string \<Rightarrow> string \<Rightarrow>
     string list" where
  "movedOrder moveEntry p s handKey overKey =
     handEntryOrder (moveHandEntry moveEntry (handEntriesOf p s) handKey overKey)"

definition dragOverDraw ::
  "(HandEntry list \<Rightarrow> nat \<Rightarrow> nat \<Rightarrow> HandEntry list) \<Rightarrow> BoardProps \<Rightarrow> DragEvent \<Rightarrow> string list \<Rightarrow>
     BoardState \<Rightarrow> BoardState" where
  "dragOverDraw moveEntry p ev baselineOrder s =
     (case activeDrawEntryOf p s of
        None \<Rightarrow> s
      | Some entry \<Rightarrow>
          (if repeatedDragOverTarget ev (ev_overId ev) s then s
           else (let s1 = noteDragOverTarget ev (ev_overId ev) s
                 in case ev_overId ev of
                      None \<Rightarrow> updateHandOrder p baselineOrder s1
                    | Some overHandKey \<Rightarrow>
                        (if overHandKey = ''discard-pile'' then updateHandOrder p baselineOrder s1
                         else updateHandOrder p (movedOrder moveEntry p s (he_key entry) overHandKey) s1))))"

definition markReordered :: "ActiveDrag option \<Rightarrow> ActiveDrag option" where
  "markReordered drag =
     (case drag of
        Some (HandDrag handKey order drafts hasReordered) \<Rightarrow> Some (HandDrag handKey order drafts True)
      | _ \<Rightarrow> drag)"

definition holds :: "string \<Rightarrow> DraftComposition list \<Rightarrow> bool" where
  "holds handKey drafts \<longleftrightarrow> list_ex (includesKey handKey) drafts"

text \<open>Entering a draft: the target has to be a new composition the card is not on already.\<close>

definition dragOverDraft ::
  "(string list \<Rightarrow> nat \<Rightarrow> nat \<Rightarrow> string list) \<Rightarrow> BoardProps \<Rightarrow> string \<Rightarrow> string \<Rightarrow> BoardState \<Rightarrow>
     BoardState" where
  "dragOverDraft moveKey p handKey overId s =
     (let drafts = draftCompositionsOf p s;
          droppedOnDraftCard = List.find (includesKey overId) drafts;
          targetDraft = or_option droppedOnDraftCard
            (Option.bind (compositionIdFromDropId overId) (\<lambda>i. List.find (\<lambda>c. dc_id c = i) drafts));
          currentDraft = List.find (includesKey handKey) drafts
      in case targetDraft of
           None \<Rightarrow> s
         | Some target \<Rightarrow>
             (if dc_tableIndex target \<noteq> None \<or> map_option dc_id currentDraft = Some (dc_id target) then s
              else updateDraftCompositions p (handEntriesOf p s)
                (\<lambda>current. insertHandKeyIntoDraft moveKey current handKey (dc_id target)
                   (if droppedOnDraftCard \<noteq> None then Some overId else None)) True s))"

definition dragOverHand ::
  "(HandEntry list \<Rightarrow> nat \<Rightarrow> nat \<Rightarrow> HandEntry list) \<Rightarrow> (string list \<Rightarrow> nat \<Rightarrow> nat \<Rightarrow> string list) \<Rightarrow>
     BoardProps \<Rightarrow> string \<Rightarrow> DraftComposition list \<Rightarrow> string \<Rightarrow> BoardState \<Rightarrow> BoardState" where
  "dragOverHand moveEntry moveKey p handKey baselineDrafts overId s =
     (let startedInDraft = holds handKey baselineDrafts;
          droppedOnHandCard = list_ex (\<lambda>entry. he_key entry = overId) (availableHandEntriesOf p s)
      in if \<not> startedInDraft \<and> droppedOnHandCard \<and> handKey \<noteq> overId then
           (let s1 = updateHandOrder p (movedOrder moveEntry p s handKey overId) s
            in s1\<lparr>bd_activeDrag := markReordered (bd_activeDrag s1)\<rparr>)
         else if \<not> bt_canDiscard (bp_turnState p) then s
         else if startedInDraft \<and> (overId = HAND_DROP_ID \<or> droppedOnHandCard) then
           (let s1 = updateDraftCompositions p (handEntriesOf p s)
                  (\<lambda>current. removeHandKeyFromDrafts current handKey) True s
            in if droppedOnHandCard \<and> handKey \<noteq> overId
               then updateHandOrder p (movedOrder moveEntry p s handKey overId) s1 else s1)
         else dragOverDraft moveKey p handKey overId s)"

definition handleDragOver ::
  "(HandEntry list \<Rightarrow> nat \<Rightarrow> nat \<Rightarrow> HandEntry list) \<Rightarrow> (string list \<Rightarrow> nat \<Rightarrow> nat \<Rightarrow> string list) \<Rightarrow>
     BoardProps \<Rightarrow> DragEvent \<Rightarrow> BoardState \<Rightarrow> BoardState" where
  "handleDragOver moveEntry moveKey p ev s =
     (case bd_activeDrag s of
        None \<Rightarrow> s
      | Some (DrawDrag source cd baselineEntries baselineOrder) \<Rightarrow> dragOverDraw moveEntry p ev baselineOrder s
      | Some (HandDrag handKey order baselineDrafts hasReordered) \<Rightarrow>
          (if repeatedDragOverTarget ev (ev_overId ev) s then s
           else (let s1 = noteDragOverTarget ev (ev_overId ev) s
                 in case ev_overId ev of
                      None \<Rightarrow> s1
                    | Some overId \<Rightarrow> dragOverHand moveEntry moveKey p handKey baselineDrafts overId s1)))"

section \<open>Dropping\<close>

definition tableCompositionInsertIndexForEdge ::
  "CompositionSnapshot \<Rightarrow> TableCompositionEdge \<Rightarrow> int" where
  "tableCompositionInsertIndexForEdge composition edge =
     (if edge = EdgeStart then 0 else int (length (comp_cards composition)))"

definition draftIdOf :: "nat \<Rightarrow> string" where
  "draftIdOf n = ''draft-'' @ js_show (int n)"

definition newTableDraft ::
  "string \<Rightarrow> string \<Rightarrow> int option \<Rightarrow> int option \<Rightarrow> (string \<times> int) list option \<Rightarrow>
     (string \<times> int) list option \<Rightarrow> DraftComposition" where
  "newTableDraft i handKey tableIndex insertIndex cardInsertIndices reclaimTargets =
     \<lparr>dc_id = i, dc_handKeys = [handKey], dc_tableIndex = tableIndex, dc_insertIndex = insertIndex,
      dc_cardInsertIndices = cardInsertIndices, dc_reclaimTargets = reclaimTargets\<rparr>"

definition stageOnEdge ::
  "(string list \<Rightarrow> nat \<Rightarrow> nat \<Rightarrow> string list) \<Rightarrow> CompositionSnapshot list \<Rightarrow> string \<Rightarrow> string \<Rightarrow>
     int \<Rightarrow> TableCompositionEdge \<Rightarrow> DraftComposition list \<Rightarrow> DraftComposition list" where
  "stageOnEdge moveKey active newId handKey tableIndex edge current =
     (let insertIndex = (case js_nth active tableIndex of
            Some target \<Rightarrow> tableCompositionInsertIndexForEdge target edge | None \<Rightarrow> 0)
      in case List.find (\<lambda>c. dc_tableIndex c = Some tableIndex) current of
           Some existing \<Rightarrow>
             setDraftCardInsertIndex
               (insertHandKeyIntoDraft moveKey current handKey (dc_id existing) None)
               (dc_id existing) handKey insertIndex
         | None \<Rightarrow>
             startDraft current handKey
               (newTableDraft newId handKey (Some tableIndex) (Some insertIndex)
                 (Some [(handKey, insertIndex)]) None))"

definition stageOnJoker ::
  "(string list \<Rightarrow> nat \<Rightarrow> nat \<Rightarrow> string list) \<Rightarrow> CompositionSnapshot list \<Rightarrow> string \<Rightarrow> string \<Rightarrow>
     int \<Rightarrow> int \<Rightarrow> DraftComposition list \<Rightarrow> DraftComposition list" where
  "stageOnJoker moveKey active newId handKey tableIndex jokerIndex current =
     (case List.find (\<lambda>c. dc_tableIndex c = Some tableIndex) current of
        Some existing \<Rightarrow>
          setDraftCardReclaimTarget
            (insertHandKeyIntoDraft moveKey current handKey (dc_id existing) None)
            (dc_id existing) handKey jokerIndex
      | None \<Rightarrow>
          startDraft current handKey
            (newTableDraft newId handKey (Some tableIndex)
              (Some (case js_nth active tableIndex of
                       Some target \<Rightarrow> int (length (comp_cards target)) | None \<Rightarrow> 0))
              None (Some [(handKey, jokerIndex)])))"

definition stageNew :: "string \<Rightarrow> string \<Rightarrow> DraftComposition list \<Rightarrow> DraftComposition list" where
  "stageNew newId handKey current =
     startDraft current handKey (newTableDraft newId handKey None None None None)"

definition stageOnContainer ::
  "(string list \<Rightarrow> nat \<Rightarrow> nat \<Rightarrow> string list) \<Rightarrow> string \<Rightarrow> string \<Rightarrow> DraftComposition list \<Rightarrow>
     DraftComposition list" where
  "stageOnContainer moveKey handKey container current =
     (let next_drafts = insertHandKeyIntoDraft moveKey current handKey container None
      in case List.find (\<lambda>c. dc_id c = container) current of
           Some target \<Rightarrow>
             (if dc_tableIndex target \<noteq> None
              then moveDraftCompositionInsertIndex next_drafts container
                     (or_else (dc_insertIndex target) (int (length (dc_handKeys target))))
              else next_drafts)
         | None \<Rightarrow> next_drafts)"

text \<open>\<open>nextDraftIdRef.current += 1\<close> around an update that may start a draft\<close>

definition updateWithNewId ::
  "BoardProps \<Rightarrow> (string \<Rightarrow> DraftComposition list \<Rightarrow> DraftComposition list) \<Rightarrow> BoardState \<Rightarrow> BoardState" where
  "updateWithNewId p updater s =
     updateDraftCompositions p (handEntriesOf p s) (updater (draftIdOf (bd_nextDraftId s))) False
       (emit [Sound ''card-place''] (s\<lparr>bd_nextDraftId := bd_nextDraftId s + 1\<rparr>))"

definition discardDropped :: "BoardProps \<Rightarrow> DragEvent \<Rightarrow> BoardState \<Rightarrow> BoardState" where
  "discardDropped p ev s =
     (let views = draftedViewsOf p s
      in if holds (ev_activeId ev) (draftCompositionsOf p s) then s
         else if ev_isVirtual ev then emit [Sound ''invalid-action''] s
         else (case ev_cardIndex ev of
           None \<Rightarrow> s
         | Some cardIndex \<Rightarrow>
             (case (if views \<noteq> []
                    then map_option int (handIndexAfterSubmittedDrafts (rawHandEntriesOf p)
                           (ev_activeId ev) (map dv_entries views))
                    else Some cardIndex) of
                None \<Rightarrow> s
              | Some discardIndex \<Rightarrow>
                  (case rdv_allEntryByKey (resolutionOf p s) (ev_activeId ev) of
                     None \<Rightarrow> s
                   | Some draggedEntry \<Rightarrow>
                       (if views \<noteq> []
                        then emit [PlayTableAndDiscardCall
                               (buildTablePlayRequest (activeCompositionsOf p) views)
                               discardIndex (he_card draggedEntry)] s
                        else emit [DiscardCardCall discardIndex (he_card draggedEntry)] s)))))"

text \<open>The answer of \<open>onPlayTableAndDiscard\<close>\<close>

definition discardAnswered :: "CallAnswer \<Rightarrow> BoardState \<Rightarrow> BoardState" where
  "discardAnswered answer s =
     (if answer = Some True then s
      else emit [Sound ''invalid-action''] (s\<lparr>bd_showDraftValidation := True\<rparr>))"

definition dropReordered ::
  "(HandEntry list \<Rightarrow> nat \<Rightarrow> nat \<Rightarrow> HandEntry list) \<Rightarrow> BoardProps \<Rightarrow> string \<Rightarrow> string \<Rightarrow> BoardState \<Rightarrow>
     BoardState" where
  "dropReordered moveEntry p handKey overId s =
     updateHandOrder p (movedOrder moveEntry p s handKey overId) s"

text \<open>The drop of a staged or free card of the own cards on a zone, in the order of the tests.\<close>

definition dropOnZone ::
  "(HandEntry list \<Rightarrow> nat \<Rightarrow> nat \<Rightarrow> HandEntry list) \<Rightarrow> (string list \<Rightarrow> nat \<Rightarrow> nat \<Rightarrow> string list) \<Rightarrow>
     BoardProps \<Rightarrow> DragEvent \<Rightarrow> DraftComposition list \<Rightarrow> bool \<Rightarrow> string \<Rightarrow> BoardState \<Rightarrow> BoardState" where
  "dropOnZone moveEntry moveKey p ev baselineDrafts hasReordered overId s =
     (let handKey = ev_activeId ev;
          drafts = draftCompositionsOf p s;
          draggedEntry = rdv_allEntryByKey (resolutionOf p s) handKey;
          droppedOnDraftCard = List.find (includesKey overId) drafts;
          droppedOnHandCard = list_ex (\<lambda>entry. he_key entry = overId) (availableHandEntriesOf p s);
          returnedToHandDuringDrag = (holds handKey baselineDrafts \<and> \<not> holds handKey drafts);
          droppedOnDraftContainer = compositionIdFromDropId overId;
          edgeTarget = (if draggedEntry = None then None
                        else tableCompositionEdgeTargetFromDropId overId);
          jokerTarget = (if draggedEntry = None then None
                         else tableCompositionJokerTargetFromDropId overId)
      in if overId = ''discard-pile'' then discardDropped p ev s
         else if \<not> bt_canDiscard (bp_turnState p) then
           (if droppedOnHandCard \<and> handKey \<noteq> overId \<and> \<not> hasReordered
            then emit [Sound ''card-place''] (dropReordered moveEntry p handKey overId s) else s)
         else (case edgeTarget of
           Some (tableIndex, edge) \<Rightarrow>
             updateWithNewId p (\<lambda>newId. stageOnEdge moveKey (activeCompositionsOf p) newId handKey
                 tableIndex edge) s
         | None \<Rightarrow> (case jokerTarget of
           Some (tableIndex, jokerIndex) \<Rightarrow>
             updateWithNewId p (\<lambda>newId. stageOnJoker moveKey (activeCompositionsOf p) newId handKey
                 tableIndex jokerIndex) s
         | None \<Rightarrow>
             (if overId = NEW_COMPOSITION_DROP_ID then
                updateWithNewId p (\<lambda>newId. stageNew newId handKey) s
              else (case droppedOnDraftCard of
                Some target \<Rightarrow>
                  updateDraftCompositions p (handEntriesOf p s)
                    (\<lambda>current. insertHandKeyIntoDraft moveKey current handKey (dc_id target) (Some overId))
                    False (emit [Sound ''card-place''] s)
              | None \<Rightarrow>
                  (if given droppedOnDraftContainer then
                     updateDraftCompositions p (handEntriesOf p s)
                       (stageOnContainer moveKey handKey (the droppedOnDraftContainer)) False
                       (emit [Sound ''card-place''] s)
                   else if overId = HAND_DROP_ID then
                     finishReturningHandKey p (handEntriesOf p s) handKey (emit [Sound ''card-place''] s)
                   else if droppedOnHandCard then
                     (let s1 = finishReturningHandKey p (handEntriesOf p s) handKey
                            (emit [Sound ''card-place''] s)
                      in if handKey \<noteq> overId \<and> \<not> returnedToHandDuringDrag \<and> \<not> hasReordered
                         then updateHandOrder p (movedOrder moveEntry p s handKey overId) s1 else s1)
                   else s))))))"

text \<open>Putting everything back to where it was when the drag started.\<close>

definition restoreBaseline ::
  "BoardProps \<Rightarrow> HandEntry list \<Rightarrow> string list \<Rightarrow> DraftComposition list \<Rightarrow> BoardState \<Rightarrow> BoardState" where
  "restoreBaseline p handEntries baselineHandOrder baselineDrafts s =
     reportGuidance p handEntries baselineDrafts False
       (commitDrafts \<lparr>ds_scopeKey = currentDraftScopeKey p, ds_compositions = baselineDrafts,
          ds_baselineHandOrder = ds_baselineHandOrder (bd_drafts s)\<rparr>
         (updateHandOrder p baselineHandOrder s))"

definition handleDragEnd ::
  "(HandEntry list \<Rightarrow> nat \<Rightarrow> nat \<Rightarrow> HandEntry list) \<Rightarrow> (string list \<Rightarrow> nat \<Rightarrow> nat \<Rightarrow> string list) \<Rightarrow>
     BoardProps \<Rightarrow> DragEvent \<Rightarrow> BoardState \<Rightarrow> BoardState" where
  "handleDragEnd moveEntry moveKey p ev s0 =
     (let s = s0\<lparr>bd_lastDragOverTarget := None, bd_activeDrag := None\<rparr>
      in case bd_activeDrag s0 of
           None \<Rightarrow> s
         | Some (DrawDrag source cd baselineEntries baselineOrder) \<Rightarrow>
             (let s1 = (if bp_guided p then emit [DrawDragStateCall False, DrawSettledCall] s else s)
              in if (case activeDrawEntryOf p s0 of Some e \<Rightarrow> he_key e \<noteq> [] | None \<Rightarrow> False)
                    \<and> given (ev_overId ev) \<and> ev_overId ev \<noteq> Some ''discard-pile''
                 then s1 else updateHandOrder p baselineOrder s1)
         | Some (HandDrag handKey baselineHandOrder baselineDrafts hasReordered) \<Rightarrow>
             (case ev_overId ev of
                None \<Rightarrow> restoreBaseline p (handEntriesOf p s0) baselineHandOrder baselineDrafts s
              | Some overId \<Rightarrow> dropOnZone moveEntry moveKey p ev baselineDrafts hasReordered overId s))"

definition handleDragCancel :: "BoardProps \<Rightarrow> BoardState \<Rightarrow> BoardState" where
  "handleDragCancel p s0 =
     (let s = s0\<lparr>bd_lastDragOverTarget := None, bd_activeDrag := None\<rparr>
      in case bd_activeDrag s0 of
           None \<Rightarrow> s
         | Some (DrawDrag source cd baselineEntries baselineOrder) \<Rightarrow>
             updateHandOrder p baselineOrder
               (if bp_guided p then emit [DrawDragStateCall False, DrawSettledCall] s else s)
         | Some (HandDrag handKey baselineHandOrder baselineDrafts hasReordered) \<Rightarrow>
             restoreBaseline p (handEntriesOf p s0) baselineHandOrder baselineDrafts s)"

section \<open>Events\<close>

datatype BoardEvent =
    DragStart DragEvent
  | DragOver DragEvent
  | DragEnd DragEvent
  | DragCancel
  | ResetDrafts
  | SubmitDrafts
  | SubmitAnswer CallAnswer
  | DiscardAnswer CallAnswer
  | DraftsChanged

fun boardHandle ::
  "(HandEntry list \<Rightarrow> nat \<Rightarrow> nat \<Rightarrow> HandEntry list) \<Rightarrow> (string list \<Rightarrow> nat \<Rightarrow> nat \<Rightarrow> string list) \<Rightarrow>
     BoardProps \<Rightarrow> BoardEvent \<Rightarrow> BoardState \<Rightarrow> BoardState" where
  "boardHandle moveEntry moveKey p (DragStart ev) s = handleDragStart p ev s"
| "boardHandle moveEntry moveKey p (DragOver ev) s = handleDragOver moveEntry moveKey p ev s"
| "boardHandle moveEntry moveKey p (DragEnd ev) s = handleDragEnd moveEntry moveKey p ev s"
| "boardHandle moveEntry moveKey p DragCancel s = handleDragCancel p s"
| "boardHandle moveEntry moveKey p ResetDrafts s = resetDraftCompositions p True s"
| "boardHandle moveEntry moveKey p SubmitDrafts s = submitDraftCompositions p s"
| "boardHandle moveEntry moveKey p (SubmitAnswer answer) s = submitAnswered p answer s"
| "boardHandle moveEntry moveKey p (DiscardAnswer answer) s = discardAnswered answer s"
| "boardHandle moveEntry moveKey p DraftsChanged s = snd (syncTurnDrafts p s)"

text \<open>The props may change with every event: a new snapshot, a new turn, another player.\<close>

definition board_step ::
  "(HandEntry list \<Rightarrow> nat \<Rightarrow> nat \<Rightarrow> HandEntry list) \<Rightarrow> (string list \<Rightarrow> nat \<Rightarrow> nat \<Rightarrow> string list) \<Rightarrow>
     BoardState \<Rightarrow> BoardState \<Rightarrow> bool" where
  "board_step moveEntry moveKey s s' \<longleftrightarrow> (\<exists>p e. s' = boardHandle moveEntry moveKey p e s)"

section \<open>The invariant\<close>

text \<open>Well-formed drafts whose ids were handed out before the counter \<open>n\<close>.\<close>

definition ids_below :: "nat \<Rightarrow> DraftComposition list \<Rightarrow> bool" where
  "ids_below n ds \<longleftrightarrow> (\<forall>i \<in> set (draft_ids ds). \<exists>m < n. i = draftIdOf m)"

definition good :: "nat \<Rightarrow> DraftComposition list \<Rightarrow> bool" where
  "good n ds \<longleftrightarrow> drafts_ok ds \<and> placements_ok ds \<and> ids_below n ds"

lemma good_Nil [simp]: "good n []"
  by (simp add: good_def drafts_ok_def placements_ok_def ids_below_def)

lemma good_mono: "good n ds \<Longrightarrow> n \<le> n' \<Longrightarrow> good n' ds"
  by (force simp: good_def ids_below_def)

lemma ids_below_subset: "ids_below n ds \<Longrightarrow> set (draft_ids ds') \<subseteq> set (draft_ids ds) \<Longrightarrow> ids_below n ds'"
  by (auto simp: ids_below_def)

lemma good_remove: "good n ds \<Longrightarrow> good n (removeHandKeyFromDrafts ds k)"
  using ids_below_subset [OF _ ids_remove(1)] by (simp add: good_def remove_ok placements_remove)

lemma ids_reorder: "draft_ids (reorderWithin am ds c k over) = draft_ids ds"
  by (auto simp: reorderWithin_def draft_ids_def split: option.splits)

lemma ids_insert: "set (draft_ids (insertHandKeyIntoDraft am ds k d over)) \<subseteq> set (draft_ids ds)"
  using ids_remove(1) [of ds k]
  by (auto simp: insertHandKeyIntoDraft_def ids_placeInto ids_reorder split: option.splits if_splits)

lemma good_insert: "array_move am \<Longrightarrow> good n ds \<Longrightarrow> good n (insertHandKeyIntoDraft am ds k d over)"
  using ids_below_subset [OF _ ids_insert] by (simp add: good_def insert_ok placements_insert)

lemma ids_set [simp]:
  "draft_ids (setDraftCardInsertIndex ds d k i) = draft_ids ds"
  "draft_ids (setDraftCardReclaimTarget ds d k i) = draft_ids ds"
  "draft_ids (moveDraftCompositionInsertIndex ds d i) = draft_ids ds"
  by (simp_all add: draft_ids_def setDraftCardInsertIndex_def setDraftCardReclaimTarget_def
        moveDraftCompositionInsertIndex_def)

lemma good_set:
  assumes "good n ds"
  shows "good n (setDraftCardInsertIndex ds d k i)"
    and "good n (setDraftCardReclaimTarget ds d k i)"
    and "good n (moveDraftCompositionInsertIndex ds d i)"
  using assms placements_set by (simp_all add: good_def ids_below_def)

lemma draftIdOf_inj: "draftIdOf m = draftIdOf n \<longleftrightarrow> m = n"
  by (auto simp: draftIdOf_def dest: js_show_inj)

lemma good_start:
  assumes "good n ds" and "dc_id c = draftIdOf n" and "dc_handKeys c = [k]"
    and "map_keys (dc_cardInsertIndices c) \<inter> map_keys (dc_reclaimTargets c) = {}"
  shows "good (Suc n) (startDraft ds k c)"
proof -
  have "dc_id c \<notin> set (draft_ids ds)"
    using assms(1,2) by (auto simp: good_def ids_below_def draftIdOf_inj)
  then have "drafts_ok (startDraft ds k c)"
    using assms by (intro startDraft_ok) (simp_all add: good_def)
  moreover have "placements_ok (startDraft ds k c)"
    using assms placements_remove [of ds k] by (auto simp: good_def placements_ok_def startDraft_def)
  moreover have "ids_below (Suc n) (startDraft ds k c)"
    using good_remove [OF assms(1), of k] assms(2)
    by (fastforce simp: good_def ids_below_def startDraft_def less_Suc_eq)
  ultimately show ?thesis by (simp add: good_def)
qed

lemma staged_prune: "staged (pruneDraftCompositions ds K) = filter (\<lambda>k. k \<in> K) (staged ds)"
  unfolding pruneDraftCompositions_def
  by (induction ds) (auto simp: map_filter_simps Let_def)

lemma in_prune:
  "c \<in> set (pruneDraftCompositions ds K) \<Longrightarrow>
     dc_handKeys c \<noteq> [] \<and> (\<exists>c0 \<in> set ds. dc_cardInsertIndices c = dc_cardInsertIndices c0 \<and>
       dc_reclaimTargets c = dc_reclaimTargets c0)"
  by (auto simp: pruneDraftCompositions_def map_filter_def Let_def split: if_splits)

lemma ids_prune:
  "set (draft_ids (pruneDraftCompositions ds K)) \<subseteq> set (draft_ids ds)"
  "distinct (draft_ids ds) \<Longrightarrow> distinct (draft_ids (pruneDraftCompositions ds K))"
proof -
  let ?f = "\<lambda>c. let handKeys = filter (\<lambda>k. k \<in> K) (dc_handKeys c)
      in if handKeys = [] then None else Some (c\<lparr>dc_handKeys := handKeys\<rparr>)"
  have f: "dc_id c' = dc_id c" if "?f c = Some c'" for c c'
    using that by (auto simp: Let_def split: if_splits)
  show "set (draft_ids (pruneDraftCompositions ds K)) \<subseteq> set (draft_ids ds)"
    "distinct (draft_ids ds) \<Longrightarrow> distinct (draft_ids (pruneDraftCompositions ds K))"
    unfolding pruneDraftCompositions_def using map_filter_draft [of ?f ds, OF f] by blast+
qed

lemma good_prune:
  assumes "good n ds"
  shows "good n (pruneDraftCompositions ds K)"
proof -
  have g: "drafts_ok ds" "placements_ok ds" "ids_below n ds" using assms by (simp_all add: good_def)
  have "\<forall>c \<in> set (pruneDraftCompositions ds K). dc_handKeys c \<noteq> []" using in_prune by blast
  with g(1) have "drafts_ok (pruneDraftCompositions ds K)"
    by (simp add: drafts_ok_def staged_prune ids_prune(2))
  moreover have "placements_ok (pruneDraftCompositions ds K)"
    by (rule placements_keep [OF g(2)]) (use in_prune in blast)
  moreover have "ids_below n (pruneDraftCompositions ds K)"
    by (rule ids_below_subset [OF g(3) ids_prune(1)])
  ultimately show ?thesis by (simp add: good_def)
qed

definition drag_ok :: "nat \<Rightarrow> ActiveDrag option \<Rightarrow> bool" where
  "drag_ok n drag \<longleftrightarrow>
     (case drag of Some (HandDrag k order drafts mv) \<Rightarrow> good n drafts | _ \<Rightarrow> True)"

definition board_inv :: "BoardState \<Rightarrow> bool" where
  "board_inv s \<longleftrightarrow>
     good (bd_nextDraftId s) (ds_compositions (bd_drafts s)) \<and>
     drag_ok (bd_nextDraftId s) (bd_activeDrag s)"

lemma drag_ok_None [simp]: "drag_ok n None"
  by (simp add: drag_ok_def)

lemma drag_ok_mono: "drag_ok n d \<Longrightarrow> n \<le> n' \<Longrightarrow> drag_ok n' d"
  by (auto simp: drag_ok_def good_mono split: option.splits ActiveDrag.splits)

lemma emit_fields [simp]:
  "bd_drafts (emit es s) = bd_drafts s" "bd_activeDrag (emit es s) = bd_activeDrag s"
  "bd_nextDraftId (emit es s) = bd_nextDraftId s" "bd_handOrderState (emit es s) = bd_handOrderState s"
  "bd_persisted (emit es s) = bd_persisted s" "bd_effects (emit es s) = bd_effects s @ es"
  by (simp_all add: emit_def)

lemma updateHandOrder_fields [simp]:
  "bd_drafts (updateHandOrder p order s) = bd_drafts s"
  "bd_activeDrag (updateHandOrder p order s) = bd_activeDrag s"
  "bd_nextDraftId (updateHandOrder p order s) = bd_nextDraftId s"
  "bd_effects (updateHandOrder p order s) = bd_effects s"
  by (simp_all add: updateHandOrder_def Let_def)

lemma reportGuidance_fields [simp]:
  "bd_drafts (reportGuidance p es cs b s) = bd_drafts s"
  "bd_activeDrag (reportGuidance p es cs b s) = bd_activeDrag s"
  "bd_nextDraftId (reportGuidance p es cs b s) = bd_nextDraftId s"
  "bd_handOrderState (reportGuidance p es cs b s) = bd_handOrderState s"
  "bd_persisted (reportGuidance p es cs b s) = bd_persisted s"
  by (simp_all add: reportGuidance_def Let_def)

lemma noteDragOverTarget_fields [simp]:
  "bd_drafts (noteDragOverTarget ev o' s) = bd_drafts s"
  "bd_activeDrag (noteDragOverTarget ev o' s) = bd_activeDrag s"
  "bd_nextDraftId (noteDragOverTarget ev o' s) = bd_nextDraftId s"
  by (simp_all add: noteDragOverTarget_def)

lemma board_inv_cong:
  "bd_drafts s' = bd_drafts s \<Longrightarrow> bd_activeDrag s' = bd_activeDrag s \<Longrightarrow>
     bd_nextDraftId s' = bd_nextDraftId s \<Longrightarrow> board_inv s' = board_inv s"
  by (simp add: board_inv_def)

lemma board_inv_kept [simp]:
  "board_inv (emit es s) = board_inv s" "board_inv (updateHandOrder p order s) = board_inv s"
  "board_inv (reportGuidance p es' cs b s) = board_inv s"
  "board_inv (noteDragOverTarget ev o' s) = board_inv s"
  "board_inv (s\<lparr>bd_showDraftValidation := b\<rparr>) = board_inv s"
  "board_inv (s\<lparr>bd_skipNextDraftSync := b\<rparr>) = board_inv s"
  "board_inv (s\<lparr>bd_lastDragOverTarget := t\<rparr>) = board_inv s"
  by (rule board_inv_cong; simp)+

lemma good_scoped: "board_inv s \<Longrightarrow> good (bd_nextDraftId s) (scopedCompositions p (bd_drafts s))"
  by (simp add: board_inv_def scopedCompositions_def)

lemma good_drafts: "board_inv s \<Longrightarrow> good (bd_nextDraftId s) (draftCompositionsOf p s)"
  using good_prune [OF good_scoped]
  by (simp add: draftCompositionsOf_def resolutionOf_def resolveDraftViews_def Let_def)

lemma updateDrafts_fields [simp]:
  "ds_compositions (bd_drafts (updateDraftCompositions p es f b s)) = f (scopedCompositions p (bd_drafts s))"
  "bd_activeDrag (updateDraftCompositions p es f b s) = bd_activeDrag s"
  "bd_nextDraftId (updateDraftCompositions p es f b s) = bd_nextDraftId s"
  by (simp_all add: updateDraftCompositions_def Let_def commitDrafts_def)

lemma board_inv_update:
  assumes "drag_ok (bd_nextDraftId s) (bd_activeDrag s)"
    and "good (bd_nextDraftId s) (f (scopedCompositions p (bd_drafts s)))"
  shows "board_inv (updateDraftCompositions p es f b s)"
  using assms by (simp add: board_inv_def)

lemma board_inv_finish: "board_inv s \<Longrightarrow> board_inv (finishReturningHandKey p es k s)"
  using good_remove [OF good_scoped]
  by (simp add: finishReturningHandKey_def Let_def commitDrafts_def) (simp add: board_inv_def)

lemma board_inv_reset: "board_inv s \<Longrightarrow> board_inv (resetDraftCompositions p sync s)"
  by (simp add: resetDraftCompositions_def Let_def commitDrafts_def board_inv_def split: option.splits)

lemma board_inv_start: "board_inv s \<Longrightarrow> board_inv (handleDragStart p ev s)"
  using good_drafts [of s p]
  by (auto simp: handleDragStart_def Let_def board_inv_def drag_ok_def split: option.splits)

lemma board_inv_overDraw: "board_inv s \<Longrightarrow> board_inv (dragOverDraw me p ev order s)"
  by (simp add: dragOverDraw_def Let_def split: option.splits)

lemma board_inv_overDraft:
  assumes "array_move mk" and "board_inv s"
  shows "board_inv (dragOverDraft mk p k over s)"
proof -
  have "drag_ok (bd_nextDraftId s) (bd_activeDrag s)" using assms(2) by (simp add: board_inv_def)
  then have "board_inv (updateDraftCompositions p es
      (\<lambda>current. insertHandKeyIntoDraft mk current k d over') b s)" for es d over' b
    by (rule board_inv_update) (rule good_insert [OF assms(1) good_scoped [OF assms(2)]])
  with assms(2) show ?thesis by (simp add: dragOverDraft_def Let_def split: option.splits)
qed

lemma drag_ok_reordered [simp]: "drag_ok n (markReordered d) = drag_ok n d"
  by (simp add: drag_ok_def markReordered_def split: option.splits ActiveDrag.splits)

lemma board_inv_overHand:
  assumes "array_move mk" and "board_inv s"
  shows "board_inv (dragOverHand me mk p k ds over s)"
proof -
  have drag: "drag_ok (bd_nextDraftId s) (bd_activeDrag s)" using assms(2) by (simp add: board_inv_def)
  have "board_inv (updateHandOrder p order s\<lparr>bd_activeDrag := markReordered (bd_activeDrag s)\<rparr>)" for order
    using assms(2) by (simp add: board_inv_def)
  moreover have "board_inv (updateDraftCompositions p es (\<lambda>current. removeHandKeyFromDrafts current k') b s)"
    for es k' b
    by (rule board_inv_update [OF drag]) (rule good_remove [OF good_scoped [OF assms(2)]])
  ultimately show ?thesis
    using board_inv_overDraft [OF assms] assms(2) by (simp add: dragOverHand_def Let_def)
qed

lemma board_inv_over: "array_move mk \<Longrightarrow> board_inv s \<Longrightarrow> board_inv (handleDragOver me mk p ev s)"
  by (simp add: handleDragOver_def Let_def board_inv_overDraw board_inv_overHand
        split: option.splits ActiveDrag.splits)

section \<open>Drops keep the invariant\<close>

lemma good_stageOnEdge:
  "array_move mk \<Longrightarrow> good n ds \<Longrightarrow> good (Suc n) (stageOnEdge mk active (draftIdOf n) k t e ds)"
  using good_insert [of mk n ds] good_set(1) good_mono [of n _ "Suc n"]
  by (auto simp: stageOnEdge_def Let_def newTableDraft_def split: option.splits intro!: good_start)

lemma good_stageOnJoker:
  "array_move mk \<Longrightarrow> good n ds \<Longrightarrow> good (Suc n) (stageOnJoker mk active (draftIdOf n) k t j ds)"
  using good_insert [of mk n ds] good_set(2) good_mono [of n _ "Suc n"]
  by (auto simp: stageOnJoker_def newTableDraft_def split: option.splits intro!: good_start)

lemma good_stageNew: "good n ds \<Longrightarrow> good (Suc n) (stageNew (draftIdOf n) k ds)"
  by (auto simp: stageNew_def newTableDraft_def intro!: good_start)

lemma good_stageOnContainer: "array_move mk \<Longrightarrow> good n ds \<Longrightarrow> good n (stageOnContainer mk k d ds)"
  using good_insert [of mk n ds] good_set(3)
  by (simp add: stageOnContainer_def Let_def split: option.splits)

lemma board_inv_newId:
  assumes "board_inv s" and "\<And>n ds. good n ds \<Longrightarrow> good (Suc n) (f (draftIdOf n) ds)"
  shows "board_inv (updateWithNewId p f s)"
  unfolding updateWithNewId_def
  by (rule board_inv_update)
    (use assms(1) assms(2) [OF good_scoped [OF assms(1)]] drag_ok_mono in \<open>auto simp: board_inv_def\<close>)

lemma board_inv_discard: "board_inv s \<Longrightarrow> board_inv (discardDropped p ev s)"
  by (simp add: discardDropped_def Let_def split: option.splits)

lemma board_inv_updateD:
  assumes "board_inv s" and "\<And>n ds. good n ds \<Longrightarrow> good n (f ds)"
  shows "board_inv (updateDraftCompositions p es f b (emit fx s))"
  by (rule board_inv_update)
    (use assms(1) assms(2) [OF good_scoped [OF assms(1)]] in \<open>auto simp: board_inv_def\<close>)

lemma board_inv_if: "board_inv a \<Longrightarrow> board_inv b \<Longrightarrow> board_inv (if c then a else b)"
  by simp

lemma board_inv_option:
  "board_inv a \<Longrightarrow> (\<And>x. board_inv (f x)) \<Longrightarrow> board_inv (case x of None \<Rightarrow> a | Some x \<Rightarrow> f x)"
  by (cases x) simp_all

lemma board_inv_prod: "(\<And>a b. board_inv (f a b)) \<Longrightarrow> board_inv (case x of (a, b) \<Rightarrow> f a b)"
  by (cases x) simp

lemma board_inv_drop:
  assumes "array_move mk" and "board_inv s"
  shows "board_inv (dropOnZone me mk p ev ds re over s)"
proof -
  have new: "board_inv (updateWithNewId p (\<lambda>i. stageOnEdge mk active i k t e) s)"
    "board_inv (updateWithNewId p (\<lambda>i. stageOnJoker mk active i k t j) s)"
    "board_inv (updateWithNewId p (\<lambda>i. stageNew i k) s)" for active k t e j
    by (rule board_inv_newId [OF assms(2)],
        simp add: good_stageOnEdge good_stageOnJoker good_stageNew assms(1))+
  have upd: "board_inv (updateDraftCompositions p es (stageOnContainer mk k d) b (emit fx s))"
    "board_inv (updateDraftCompositions p es
       (\<lambda>current. insertHandKeyIntoDraft mk current k d o') b (emit fx s))" for es k d b fx o'
    by (rule board_inv_updateD [OF assms(2)], simp add: good_stageOnContainer good_insert assms(1))+
  show ?thesis
    unfolding dropOnZone_def Let_def
    by (intro board_inv_if board_inv_option board_inv_prod)
      (simp_all add: assms new upd board_inv_discard board_inv_finish dropReordered_def)
qed

lemma board_inv_restore:
  "board_inv s \<Longrightarrow> good (bd_nextDraftId s) ds \<Longrightarrow> board_inv (restoreBaseline p es order ds s)"
  by (simp add: restoreBaseline_def commitDrafts_def) (simp add: board_inv_def)

lemma board_inv_noDrag [simp]: "board_inv s \<Longrightarrow> board_inv (s\<lparr>bd_activeDrag := None\<rparr>)"
  by (simp add: board_inv_def)

lemma board_inv_end:
  assumes "array_move mk" and "board_inv s"
  shows "board_inv (handleDragEnd me mk p ev s)"
proof -
  have "drag_ok (bd_nextDraftId s) (bd_activeDrag s)" using assms(2) by (simp add: board_inv_def)
  then show ?thesis
    using assms
    by (auto simp: handleDragEnd_def Let_def drag_ok_def
          intro!: board_inv_restore board_inv_drop split: option.splits ActiveDrag.splits)
qed

lemma board_inv_cancel:
  assumes "board_inv s"
  shows "board_inv (handleDragCancel p s)"
proof -
  have "drag_ok (bd_nextDraftId s) (bd_activeDrag s)" using assms by (simp add: board_inv_def)
  then show ?thesis
    using assms
    by (auto simp: handleDragCancel_def Let_def drag_ok_def
          intro!: board_inv_restore split: option.splits ActiveDrag.splits)
qed

lemma board_inv_handle:
  assumes "array_move mk" and "board_inv s"
  shows "board_inv (boardHandle me mk p e s)"
  using assms
  by (cases e)
    (simp_all add: board_inv_start board_inv_over board_inv_end board_inv_cancel board_inv_reset
       submitDraftCompositions_def submitAnswered_def discardAnswered_def syncTurnDrafts_def)

end
