(* ===== verification/BoardPlay.thy ===== *)
theory BoardPlay
  imports BoardController
begin

text \<open>
  What the board of \<open>BoardController\<close> promises: the hand order stays a permutation of the hand, a
  cancelled drag leaves no trace, and what is sent to the server are cards of the hand, each once.
\<close>

section \<open>The hand order\<close>

definition order_ok :: "string list option \<Rightarrow> bool" where
  "order_ok order \<longleftrightarrow> (case order of None \<Rightarrow> True | Some keys \<Rightarrow> distinct keys)"

definition drag_order :: "ActiveDrag option \<Rightarrow> string list option" where
  "drag_order drag =
     (case drag of
        None \<Rightarrow> None
      | Some (DrawDrag source cd entries order) \<Rightarrow> Some order
      | Some (HandDrag k order drafts mv) \<Rightarrow> Some order)"

definition orders_inv :: "BoardState \<Rightarrow> bool" where
  "orders_inv s \<longleftrightarrow>
     order_ok (ho_order (bd_handOrderState s)) \<and> (\<forall>kv \<in> set (bd_persisted s). distinct (snd kv)) \<and>
     order_ok (ds_baselineHandOrder (bd_drafts s)) \<and> order_ok (drag_order (bd_activeDrag s))"

lemma order_ok_simps [simp]: "order_ok None" "order_ok (Some ks) = distinct ks"
  by (simp_all add: order_ok_def)

lemma drag_order_simps [simp]:
  "drag_order None = None" "drag_order (Some (DrawDrag source cd entries order)) = Some order"
  "drag_order (Some (HandDrag k order drafts mv)) = Some order"
  by (simp_all add: drag_order_def)

lemma drag_order_reordered [simp]: "drag_order (markReordered d) = drag_order d"
  by (simp add: drag_order_def markReordered_def split: option.splits ActiveDrag.splits)

lemma set_AList_update: "set (AList.update k v al) \<subseteq> insert (k, v) (set al)"
  by (induction al) auto

lemma raw_distinct: "distinct (map he_key (rawHandEntriesOf p))"
  by (simp add: rawHandEntriesOf_def build_keys_distinct)

lemma persisted_distinct:
  assumes "\<forall>kv \<in> set orders. distinct (snd kv)"
  shows "distinct (usePersistedHandOrder orders scope)"
proof -
  have "distinct (or_else (map_of orders k) [])" for k
  proof (cases "map_of orders k")
    case (Some order)
    then have "(k, order) \<in> set orders" by (rule map_of_SomeD)
    with assms show ?thesis using Some by auto
  qed simp
  then show ?thesis by (simp add: usePersistedHandOrder_def split: option.split)
qed

lemma handOrderOf_distinct: "orders_inv s \<Longrightarrow> distinct (handOrderOf p (bd_handOrderState s) (bd_persisted s))"
  using persisted_distinct by (auto simp: handOrderOf_def orders_inv_def split: option.split)

lemma handEntries_mset: "orders_inv s \<Longrightarrow> mset (handEntriesOf p s) = mset (rawHandEntriesOf p)"
  unfolding handEntriesOf_def by (rule mset_applyHandEntryOrder [OF raw_distinct handOrderOf_distinct])

lemma mset_keys_distinct:
  "mset es = mset es' \<Longrightarrow> distinct (map he_key es) = distinct (map he_key es')"
  by (metis mset_eq_imp_distinct_iff mset_map)

lemma handEntries_distinct: "orders_inv s \<Longrightarrow> distinct (map he_key (handEntriesOf p s))"
  using mset_keys_distinct [OF handEntries_mset] raw_distinct by blast

lemma handOrder_distinct: "orders_inv s \<Longrightarrow> distinct (handEntryOrder (handEntriesOf p s))"
  by (simp add: handEntryOrder_def handEntries_distinct)

lemma movedOrder_distinct: "array_move me \<Longrightarrow> orders_inv s \<Longrightarrow> distinct (movedOrder me p s k over)"
  using mset_keys_distinct [OF mset_moveHandEntry] handEntries_distinct
  by (auto simp: movedOrder_def handEntryOrder_def)

lemma orders_cong:
  "bd_handOrderState s' = bd_handOrderState s \<Longrightarrow> bd_persisted s' = bd_persisted s \<Longrightarrow>
     ds_baselineHandOrder (bd_drafts s') = ds_baselineHandOrder (bd_drafts s) \<Longrightarrow>
     drag_order (bd_activeDrag s') = drag_order (bd_activeDrag s) \<Longrightarrow> orders_inv s' = orders_inv s"
  by (simp add: orders_inv_def)

lemma orders_kept [simp]:
  "orders_inv (emit es s) = orders_inv s" "orders_inv (noteDragOverTarget ev o' s) = orders_inv s"
  "orders_inv (reportGuidance p es' cs b s) = orders_inv s"
  "orders_inv (s\<lparr>bd_showDraftValidation := b\<rparr>) = orders_inv s"
  "orders_inv (s\<lparr>bd_skipNextDraftSync := b\<rparr>) = orders_inv s"
  "orders_inv (s\<lparr>bd_lastDragOverTarget := t\<rparr>) = orders_inv s"
  "orders_inv (s\<lparr>bd_nextDraftId := n\<rparr>) = orders_inv s"
  "orders_inv (s\<lparr>bd_activeDrag := markReordered (bd_activeDrag s)\<rparr>) = orders_inv s"
  by (rule orders_cong; simp add: noteDragOverTarget_def)+

lemma orders_update: "orders_inv s \<Longrightarrow> distinct order \<Longrightarrow> orders_inv (updateHandOrder p order s)"
  using set_AList_update [of _ order "bd_persisted s"]
  by (auto simp: updateHandOrder_def orders_inv_def Let_def setPersistedHandOrder_def
        split: option.split) fastforce+

lemma orders_commit:
  "orders_inv s \<Longrightarrow> order_ok (ds_baselineHandOrder d) \<Longrightarrow> orders_inv (commitDrafts d s)"
  by (simp add: commitDrafts_def orders_inv_def)

lemma orders_baseline: "orders_inv s \<Longrightarrow> order_ok (ds_baselineHandOrder (bd_drafts s))"
  by (simp add: orders_inv_def)

lemma orders_drag: "orders_inv s \<Longrightarrow> order_ok (drag_order (bd_activeDrag s))"
  by (simp add: orders_inv_def)

lemma orders_noDrag: "orders_inv s \<Longrightarrow> orders_inv (s\<lparr>bd_activeDrag := None\<rparr>)"
  by (simp add: orders_inv_def)

lemma orders_updateDrafts:
  "orders_inv s \<Longrightarrow> distinct (map he_key es) \<Longrightarrow> orders_inv (updateDraftCompositions p es f b s)"
  using orders_baseline [of s]
  by (auto simp: updateDraftCompositions_def Let_def or_option_def handEntryOrder_def
        intro!: orders_commit split: option.split)

lemma orders_finish: "orders_inv s \<Longrightarrow> orders_inv (finishReturningHandKey p es k s)"
  using orders_baseline [of s] by (simp add: finishReturningHandKey_def Let_def orders_commit)

lemma orders_reset: "orders_inv s \<Longrightarrow> orders_inv (resetDraftCompositions p sync s)"
  using orders_baseline [of s]
  by (auto simp: resetDraftCompositions_def Let_def intro!: orders_commit orders_update split: option.split)

lemma orders_restore:
  "orders_inv s \<Longrightarrow> distinct order \<Longrightarrow> orders_inv (restoreBaseline p es order ds s)"
  using orders_baseline [of s] by (simp add: restoreBaseline_def orders_commit orders_update)

lemma orders_start: "orders_inv s \<Longrightarrow> orders_inv (handleDragStart p ev s)"
  using handOrder_distinct [of s p]
  by (simp add: handleDragStart_def Let_def split: option.split) (simp add: orders_inv_def)

lemma orders_if: "orders_inv a \<Longrightarrow> orders_inv b \<Longrightarrow> orders_inv (if c then a else b)"
  by simp

lemma orders_option:
  "orders_inv a \<Longrightarrow> (\<And>x. orders_inv (f x)) \<Longrightarrow> orders_inv (case x of None \<Rightarrow> a | Some x \<Rightarrow> f x)"
  by (cases x) simp_all

lemma orders_prod: "(\<And>a b. orders_inv (f a b)) \<Longrightarrow> orders_inv (case x of (a, b) \<Rightarrow> f a b)"
  by (cases x) simp

lemmas orders_cases = orders_if orders_option orders_prod

lemma drag_cases [case_names None Draw Hand]:
  assumes "drag = None \<Longrightarrow> P"
    and "\<And>source cd entries order. drag = Some (DrawDrag source cd entries order) \<Longrightarrow> P"
    and "\<And>k order drafts mv. drag = Some (HandDrag k order drafts mv) \<Longrightarrow> P"
  shows P
proof (cases drag)
  case (Some d)
  then show P using assms(2,3) by (cases d) simp_all
qed (rule assms(1))

lemma orders_overDraw:
  assumes "array_move me" and "orders_inv s" and "distinct order"
  shows "orders_inv (dragOverDraw me p ev order s)"
  unfolding dragOverDraw_def Let_def
  by (intro orders_cases orders_update) (simp_all add: assms movedOrder_distinct)

lemma orders_overDraft: "orders_inv s \<Longrightarrow> orders_inv (dragOverDraft mk p k over s)"
  unfolding dragOverDraft_def Let_def
  by (intro orders_cases orders_updateDrafts) (simp_all add: handEntries_distinct)

lemma orders_overHand:
  assumes "array_move me" and "orders_inv s"
  shows "orders_inv (dragOverHand me mk p k ds over s)"
  unfolding dragOverHand_def Let_def orders_kept
  by (intro orders_cases orders_update orders_updateDrafts orders_overDraft)
    (simp_all add: assms movedOrder_distinct handEntries_distinct orders_update
      orders_kept(8) [of "updateHandOrder p order s" for order, simplified])

lemma orders_over: "array_move me \<Longrightarrow> orders_inv s \<Longrightarrow> orders_inv (handleDragOver me mk p ev s)"
  using orders_drag [of s]
  by (cases "bd_activeDrag s" rule: drag_cases)
    (simp_all add: handleDragOver_def Let_def orders_overDraw orders_overHand split: option.split)

lemma orders_newId: "orders_inv s \<Longrightarrow> orders_inv (updateWithNewId p f s)"
  by (simp add: updateWithNewId_def orders_updateDrafts handEntries_distinct)

lemma orders_discard: "orders_inv s \<Longrightarrow> orders_inv (discardDropped p ev s)"
  unfolding discardDropped_def Let_def by (intro orders_cases) simp_all

lemma orders_drop:
  assumes "array_move me" and "orders_inv s"
  shows "orders_inv (dropOnZone me mk p ev ds re over s)"
  unfolding dropOnZone_def Let_def dropReordered_def
  by (intro orders_cases)
    (simp_all add: assms orders_newId orders_discard orders_updateDrafts orders_finish orders_update
       movedOrder_distinct handEntries_distinct)

lemma orders_end: "array_move me \<Longrightarrow> orders_inv s \<Longrightarrow> orders_inv (handleDragEnd me mk p ev s)"
  using orders_drag [of s] orders_noDrag [of "s\<lparr>bd_lastDragOverTarget := None\<rparr>"]
  by (cases "bd_activeDrag s" rule: drag_cases)
    (simp_all add: handleDragEnd_def Let_def orders_update orders_restore orders_drop split: option.split)

lemma orders_cancel: "orders_inv s \<Longrightarrow> orders_inv (handleDragCancel p s)"
  using orders_drag [of s] orders_noDrag [of "s\<lparr>bd_lastDragOverTarget := None\<rparr>"]
  by (cases "bd_activeDrag s" rule: drag_cases)
    (simp_all add: handleDragCancel_def Let_def orders_update orders_restore)

lemma orders_handle: "array_move me \<Longrightarrow> orders_inv s \<Longrightarrow> orders_inv (boardHandle me mk p e s)"
  by (cases e)
    (simp_all add: orders_start orders_over orders_end orders_cancel orders_reset
       submitDraftCompositions_def submitAnswered_def discardAnswered_def syncTurnDrafts_def)

section \<open>Both invariants along a run\<close>

definition board_start :: "BoardState \<Rightarrow> bool" where
  "board_start s \<longleftrightarrow> (\<exists>orders. s = initialBoard orders \<and> (\<forall>kv \<in> set orders. distinct (snd kv)))"

definition board_ok :: "BoardState \<Rightarrow> bool" where
  "board_ok s \<longleftrightarrow> board_inv s \<and> orders_inv s"

lemma board_ok_invariant:
  "array_move me \<Longrightarrow> array_move mk \<Longrightarrow> invariant board_start (board_step me mk) board_ok"
  by unfold_locales
    (auto simp: board_step_def board_ok_def board_inv_handle orders_handle board_start_def,
     simp_all add: board_inv_def orders_inv_def initialBoard_def)

interpretation play: invariant board_start "board_step moveItem moveItem" board_ok
  by (rule board_ok_invariant [OF moved.array_move_axioms moved.array_move_axioms])

text \<open>C4: Whatever the player drags and drops, and however the game changes in between, the drafts stay
  well formed: no card is staged twice, no draft is empty, the ids of the drafts differ and are ids
  handed out before, a card is either placed or takes a joker's place, never both; and the
  remembered hand orders name no card twice.\<close>

theorem board_state_well_formed:
  assumes "board_start s0" and "reach (board_step moveItem moveItem) s0 s"
  shows "drafts_ok (ds_compositions (bd_drafts s)) \<and> placements_ok (ds_compositions (bd_drafts s)) \<and>
    ids_below (bd_nextDraftId s) (ds_compositions (bd_drafts s)) \<and>
    distinct (handEntryOrder (handEntriesOf p s)) \<and>
    mset (handEntriesOf p s) = mset (rawHandEntriesOf p)"
  using play.run_inv [OF assms] handOrder_distinct handEntries_mset
  by (simp add: board_ok_def board_inv_def good_def)

fun board_run :: "BoardProps \<Rightarrow> BoardEvent list \<Rightarrow> BoardState \<Rightarrow> BoardState" where
  "board_run p [] s = s"
| "board_run p (e # es) s = board_run p es (boardHandle moveItem moveItem p e s)"

lemma board_run_reach:
  "reach (board_step moveItem moveItem) s0 s \<Longrightarrow> reach (board_step moveItem moveItem) s0 (board_run p es s)"
proof (induction es arbitrary: s)
  case (Cons e es)
  have "board_step moveItem moveItem s (boardHandle moveItem moveItem p e s)"
    by (auto simp: board_step_def)
  with Cons.prems have "reach (board_step moveItem moveItem) s0 (boardHandle moveItem moveItem p e s)"
    by (rule reach_step)
  then show ?case using Cons.IH by simp
qed simp

definition example_board :: BoardProps where
  "example_board =
     \<lparr>bp_game = Some \<lparr>game_gameMode = None, game_phase = 0, game_round = 1, game_dealerIndex = 0,
        game_roundWinnerIndex = -1,
        game_turn = \<lparr>turn_number = 4, turn_playerIndex = 0, turn_playerId = Some ''ann'',
          turn_hasDrawn = True, turn_mustUseDiscardDraw = False\<rparr>,
        game_players = [\<lparr>ps_playerId = ''ann'', ps_handCount = 4, ps_hand = None, ps_totalPoints = 0,
          ps_pointsGained = 0, ps_unadjustedTotalPoints = None, ps_hasOpened = True, ps_forfeited = False\<rparr>],
        game_hand = [heart 7, heart 9, heart 10, heart 7], game_drawPileCount = 40,
        game_discardPile = [heart 1], game_activeCompositions = [joker_run], game_turnActivity = None\<rparr>,
      bp_roomCode = Some ''ABCD'', bp_playerId = ''ann'',
      bp_turnState = \<lparr>bt_canDrawDeck = False, bt_canDrawDiscard = False, bt_canDiscard = True,
        bt_isMyTurn = True, bt_turnPlayerName = ''Ann''\<rparr>,
      bp_topDiscardCard = Some (heart 1), bp_draftSyncEnabled = True, bp_guided = False\<rparr>"

definition drag_event :: "string \<Rightarrow> string option \<Rightarrow> DragEvent" where
  "drag_event key over = \<lparr>ev_activeId = key, ev_overId = over, ev_drawSource = None,
     ev_cardIndex = Some 0, ev_isVirtual = False\<rparr>"

definition example_moves :: "BoardEvent list" where
  "example_moves =
     [DragStart (drag_event ''9-0-1'' None), DragEnd (drag_event ''9-0-1'' (Some NEW_COMPOSITION_DROP_ID)),
      DragStart (drag_event ''7-0-2'' None), DragOver (drag_event ''7-0-2'' (Some ''10-0-1'')),
      DragOver (drag_event ''7-0-2'' (Some ''9-0-1''))]"

theorem board_state_well_formed_witness:
  "draft_ids (ds_compositions (bd_drafts (board_run example_board example_moves (initialBoard []))))
     = [''draft-0''] \<and>
   staged (ds_compositions (bd_drafts (board_run example_board example_moves (initialBoard []))))
     = [''7-0-2'', ''9-0-1''] \<and>
   drafts_ok (ds_compositions (bd_drafts (board_run example_board example_moves (initialBoard []))))"
proof (intro conjI)
  have "board_start (initialBoard [])" by (auto simp: board_start_def)
  then show "drafts_ok (ds_compositions (bd_drafts (board_run example_board example_moves (initialBoard []))))"
    using board_state_well_formed board_run_reach [OF reach_start] by blast
qed code_simp+

section \<open>A cancelled drag\<close>

lemma map_filter_map_filter:
  "List.map_filter g (List.map_filter f xs) = List.map_filter (\<lambda>x. Option.bind (f x) g) xs"
  by (induction xs) (auto simp: map_filter_simps split: option.split)

lemma prune_Nil [simp]: "pruneDraftCompositions [] K = []"
  by (simp add: pruneDraftCompositions_def map_filter_simps)

lemma prune_Cons:
  "pruneDraftCompositions (c # cs) K =
     (if filter (\<lambda>k. k \<in> K) (dc_handKeys c) = [] then pruneDraftCompositions cs K
      else c\<lparr>dc_handKeys := filter (\<lambda>k. k \<in> K) (dc_handKeys c)\<rparr> # pruneDraftCompositions cs K)"
  by (simp add: pruneDraftCompositions_def map_filter_simps Let_def)

lemma prune_prune:
  "pruneDraftCompositions (pruneDraftCompositions ds K) K' = pruneDraftCompositions ds (K \<inter> K')"
proof (induction ds)
  case (Cons c ds)
  have "filter (\<lambda>k. k \<in> K') (filter (\<lambda>k. k \<in> K) ks) = filter (\<lambda>k. k \<in> K \<inter> K') ks" for ks
    by (induction ks) auto
  moreover have "filter (\<lambda>k. k \<in> K) ks = [] \<Longrightarrow> filter (\<lambda>k. k \<in> K \<inter> K') ks = []" for ks
    by (induction ks) (auto split: if_splits)
  ultimately show ?case using Cons.IH by (simp only: prune_Cons if_split) (simp add: prune_Cons)
qed simp

lemma resolve_again:
  "resolveDraftViews active (rdv_draftCompositions (resolveDraftViews active ds es)) es
     = resolveDraftViews active ds es"
proof -
  have "(K \<union> V) \<inter> K = K" for K V :: "string set" by blast
  then show ?thesis
    by (simp add: resolveDraftViews_def Let_def prune_prune image_Un)
qed

lemma overDraft_drag: "bd_activeDrag (dragOverDraft mk p k over s) = bd_activeDrag s"
  unfolding dragOverDraft_def Let_def
  by (rule option.exhaust [of "or_option (List.find (includesKey over) (draftCompositionsOf p s))
        (Option.bind (compositionIdFromDropId over)
          (\<lambda>i. List.find (\<lambda>c. dc_id c = i) (draftCompositionsOf p s)))"]) simp_all

lemma overHand_drag:
  "bd_activeDrag (dragOverHand me mk p k ds over s) \<in> {bd_activeDrag s, markReordered (bd_activeDrag s)}"
  unfolding dragOverHand_def Let_def by (simp add: overDraft_drag)

lemma over_drag:
  assumes "bd_activeDrag s = Some (HandDrag k order ds mv)"
  shows "\<exists>mv'. bd_activeDrag (handleDragOver me mk p ev s) = Some (HandDrag k order ds mv')"
proof (cases "repeatedDragOverTarget ev (ev_overId ev) s \<or> ev_overId ev = None")
  case True
  then show ?thesis using assms by (auto simp: handleDragOver_def Let_def)
next
  case False
  then obtain over where "ev_overId ev = Some over" by blast
  with False assms overHand_drag [of me mk p k ds over "noteDragOverTarget ev (Some over) s"]
  show ?thesis by (auto simp: handleDragOver_def Let_def markReordered_def)
qed

lemma overs_drag:
  "bd_activeDrag s = Some (HandDrag k order ds mv) \<Longrightarrow>
     \<exists>mv'. bd_activeDrag (fold (handleDragOver me mk p) evs s) = Some (HandDrag k order ds mv')"
  by (induction evs arbitrary: s mv) (simp, metis fold_simps(2) over_drag)

lemma entries_after_order:
  "handEntriesOf p (updateHandOrder p order s) = applyHandEntryOrder (rawHandEntriesOf p) order"
  by (simp add: handEntriesOf_def updateHandOrder_def handOrderOf_def Let_def)

lemma entries_reorder_self:
  assumes "orders_inv s"
  shows "applyHandEntryOrder (rawHandEntriesOf p) (handEntryOrder (handEntriesOf p s)) = handEntriesOf p s"
  by (rule applyHandEntryOrder_self [OF handEntries_distinct [OF assms] handEntries_mset [OF assms]])

lemma restored:
  "handEntriesOf p (restoreBaseline p es order ds s) = applyHandEntryOrder (rawHandEntriesOf p) order"
  "scopedCompositions p (bd_drafts (restoreBaseline p es order ds s)) = ds"
  "bd_activeDrag (restoreBaseline p es order ds s) = bd_activeDrag s"
  using entries_after_order [of p order s]
  by (simp_all add: restoreBaseline_def commitDrafts_def handEntriesOf_def scopedCompositions_def)

definition drag_stopped :: "BoardEvent \<Rightarrow> bool" where
  "drag_stopped e \<longleftrightarrow> e = DragCancel \<or> (\<exists>ev. e = DragEnd ev \<and> ev_overId ev = None)"

text \<open>C7: A drag of a card of the own hand that is cancelled, or let go outside every zone, changes nothing,
  whatever it was dragged over: the drafts, the views of the table and the order of the hand are
  those of before.\<close>

theorem cancelled_drag_restores:
  assumes "board_start s0" and "reach (board_step moveItem moveItem) s0 s"
    and "ev_drawSource ev = None" and "ev_activeId ev \<noteq> []" and "drag_stopped stop"
  shows "let s' = boardHandle moveItem moveItem p stop
        (fold (handleDragOver moveItem moveItem p) evs (handleDragStart p ev s))
    in handEntriesOf p s' = handEntriesOf p s \<and> resolutionOf p s' = resolutionOf p s \<and>
      bd_activeDrag s' = None"
proof -
  let ?order = "handEntryOrder (handEntriesOf p s)" and ?ds = "draftCompositionsOf p s"
  define s1 where "s1 = fold (handleDragOver moveItem moveItem p) evs (handleDragStart p ev s)"
  have inv: "orders_inv s" using play.run_inv [OF assms(1,2)] by (simp add: board_ok_def)
  have "bd_activeDrag (handleDragStart p ev s) = Some (HandDrag (ev_activeId ev) ?order ?ds False)"
    using assms(3,4) by (simp add: handleDragStart_def Let_def)
  then obtain mv where "bd_activeDrag s1 = Some (HandDrag (ev_activeId ev) ?order ?ds mv)"
    unfolding s1_def using overs_drag by blast
  then have stop: "boardHandle moveItem moveItem p stop s1 = restoreBaseline p (handEntriesOf p s1) ?order ?ds
      (s1\<lparr>bd_lastDragOverTarget := None, bd_activeDrag := None\<rparr>)"
    using assms(5) by (auto simp: drag_stopped_def handleDragEnd_def handleDragCancel_def Let_def)
  have "handEntriesOf p (boardHandle moveItem moveItem p stop s1) = handEntriesOf p s"
    unfolding stop by (simp add: restored(1) entries_reorder_self [OF inv])
  moreover from this have "resolutionOf p (boardHandle moveItem moveItem p stop s1) = resolutionOf p s"
    by (simp add: resolutionOf_def stop restored(2) draftCompositionsOf_def resolve_again)
  ultimately show ?thesis by (simp add: s1_def [symmetric] stop restored(3))
qed

theorem cancelled_drag_restores_witness:
  "let s = board_run example_board example_moves (initialBoard []);
       overs = [drag_event ''7-0-1'' (Some ''9-0-1''), drag_event ''7-0-1'' (Some HAND_DROP_ID)];
       s1 = fold (handleDragOver moveItem moveItem example_board) overs
              (handleDragStart example_board (drag_event ''7-0-1'' None) s)
   in draftCompositionsOf example_board s1 \<noteq> draftCompositionsOf example_board s \<and>
      draftCompositionsOf example_board (boardHandle moveItem moveItem example_board DragCancel s1)
        = draftCompositionsOf example_board s"
proof -
  let ?s = "board_run example_board example_moves (initialBoard [])"
  let ?overs = "[drag_event ''7-0-1'' (Some ''9-0-1''), drag_event ''7-0-1'' (Some HAND_DROP_ID)]"
  let ?s1 = "fold (handleDragOver moveItem moveItem example_board) ?overs
              (handleDragStart example_board (drag_event ''7-0-1'' None) ?s)"
  have "draftCompositionsOf example_board ?s1 \<noteq> draftCompositionsOf example_board ?s" by code_simp
  moreover have "board_start (initialBoard [])" by (auto simp: board_start_def)
  then have "resolutionOf example_board (boardHandle moveItem moveItem example_board DragCancel ?s1)
      = resolutionOf example_board ?s"
    using cancelled_drag_restores [OF _ board_run_reach [OF reach_start], of "initialBoard []"
        "drag_event ''7-0-1'' None" DragCancel example_board ?overs example_board example_moves]
    by (simp add: drag_stopped_def drag_event_def Let_def)
  ultimately show ?thesis by (simp add: Let_def draftCompositionsOf_def)
qed

section \<open>What is sent\<close>

text \<open>The cards a call to the server spends.\<close>

fun sent_cards :: "BoardEffect \<Rightarrow> CardSnapshot list" where
  "sent_cards (PlayTableCall play) = request_cards play"
| "sent_cards (PlayTableAndDiscardCall play i cd) = request_cards play @ [cd]"
| "sent_cards (DiscardCardCall i cd) = [cd]"
| "sent_cards e = []"

text \<open>\<open>s'\<close> has the effects of \<open>s\<close> and then effects of \<open>E\<close>.\<close>

definition sends :: "BoardEffect set \<Rightarrow> BoardState \<Rightarrow> BoardState \<Rightarrow> bool" where
  "sends E s s' \<longleftrightarrow> (\<exists>es. bd_effects s' = bd_effects s @ es \<and> set es \<subseteq> E)"

lemma sends_same: "bd_effects s' = bd_effects s \<Longrightarrow> sends E s s'"
  by (simp add: sends_def)

lemma sends_emit: "sends E s s' \<Longrightarrow> set es \<subseteq> E \<Longrightarrow> sends E s (emit es s')"
  by (auto simp: sends_def)

lemma sends_from: "bd_effects s'' = bd_effects s \<Longrightarrow> sends E s'' s' \<Longrightarrow> sends E s s'"
  by (simp add: sends_def)

lemma sends_updateHandOrder [simp]: "sends E s (updateHandOrder p order s') = sends E s s'"
  by (simp add: sends_def)

lemma sends_commit [simp]: "sends E s (commitDrafts d s') = sends E s s'"
  by (simp add: sends_def commitDrafts_def)

lemma sends_reset: "sends E s (resetDraftCompositions p sync s)"
  by (simp add: resetDraftCompositions_def Let_def split: option.split) (simp add: sends_def)

lemma sends_if: "(c \<Longrightarrow> sends E s a) \<Longrightarrow> (\<not> c \<Longrightarrow> sends E s b) \<Longrightarrow> sends E s (if c then a else b)"
  by simp

lemma sends_option:
  "sends E s a \<Longrightarrow> (\<And>x. o' = Some x \<Longrightarrow> sends E s (f x)) \<Longrightarrow>
     sends E s (case o' of None \<Rightarrow> a | Some x \<Rightarrow> f x)"
  by (cases o') simp_all

lemma sends_prod: "(\<And>a b. sends E s (f a b)) \<Longrightarrow> sends E s (case x of (a, b) \<Rightarrow> f a b)"
  by (cases x) simp

lemmas sends_cases = sends_if sends_option sends_prod

lemma sends_overDraw: "sends E s (dragOverDraw me p ev order s)"
  unfolding dragOverDraw_def Let_def
  by (intro sends_cases) (simp_all add: sends_same noteDragOverTarget_def)

text \<open>
  What every handler that only sorts the hand or changes drafts may cause: sounds and reports of
  the drafts.
\<close>

locale harmless_effects =
  fixes E :: "BoardEffect set"
  assumes sound_in: "Sound x \<in> E"
    and report_in: "DraftStateCall a b ds c \<in> E"
begin

lemma sends_report: "sends E s s' \<Longrightarrow> sends E s (reportGuidance p es cs b s')"
  by (simp add: reportGuidance_def Let_def sends_emit report_in)

lemma sends_sound: "sends E s s' \<Longrightarrow> sends E s (emit [Sound x] s')"
  by (simp add: sends_emit sound_in)

lemma sends_updateDrafts: "sends E s s' \<Longrightarrow> sends E s (updateDraftCompositions p es f b s')"
  unfolding updateDraftCompositions_def Let_def
  by (rule sends_report, simp) (simp add: sends_def)

lemma sends_finish: "sends E s s' \<Longrightarrow> sends E s (finishReturningHandKey p es k s')"
  unfolding finishReturningHandKey_def Let_def by (rule sends_report) simp

lemma sends_restore: "sends E s s' \<Longrightarrow> sends E s (restoreBaseline p es order ds s')"
  unfolding restoreBaseline_def by (rule sends_report) simp

lemma sends_newId: "sends E s (updateWithNewId p f s)"
  unfolding updateWithNewId_def
  by (intro sends_updateDrafts sends_sound) (simp add: sends_def)

lemma sends_drop:
  assumes "over = ''discard-pile'' \<Longrightarrow> sends E s (discardDropped p ev s)"
  shows "sends E s (dropOnZone me mk p ev ds re over s)"
  using assms unfolding dropOnZone_def Let_def dropReordered_def
  by (intro sends_cases sends_newId sends_updateDrafts sends_finish sends_sound)
    (simp_all add: sends_finish sends_sound sends_same)

lemma sends_overHand: "sends E s (dragOverHand me mk p k ds over s)"
  unfolding dragOverHand_def dragOverDraft_def Let_def
  by (intro sends_cases sends_updateDrafts)
    (simp_all add: sends_same sends_updateDrafts)

lemma sends_over: "sends E s (handleDragOver me mk p ev s)"
proof (cases "bd_activeDrag s" rule: drag_cases)
  case (Hand k order drafts mv)
  have "sends E s (dragOverHand me mk p k drafts over (noteDragOverTarget ev o' s))" for over o'
    by (rule sends_from [OF _ sends_overHand]) (simp add: noteDragOverTarget_def)
  with Hand show ?thesis
    by (auto simp: handleDragOver_def Let_def sends_same noteDragOverTarget_def split: option.split)
qed (simp_all add: handleDragOver_def sends_same sends_overDraw)

lemma sends_end:
  assumes "\<And>source cd entries order. bd_activeDrag s = Some (DrawDrag source cd entries order) \<Longrightarrow> bp_guided p \<Longrightarrow>
      {DrawDragStateCall False, DrawSettledCall} \<subseteq> E"
    and "ev_overId ev = Some ''discard-pile'' \<Longrightarrow>
      sends E s (discardDropped p ev (s\<lparr>bd_lastDragOverTarget := None, bd_activeDrag := None\<rparr>))"
  shows "sends E s (handleDragEnd me mk p ev s)"
proof (cases "bd_activeDrag s" rule: drag_cases)
  case None
  then show ?thesis by (simp add: handleDragEnd_def Let_def sends_same)
next
  case (Draw source cd entries order)
  then show ?thesis
    using assms(1) by (simp add: handleDragEnd_def Let_def sends_emit sends_same)
next
  case (Hand k order drafts mv)
  let ?s = "s\<lparr>bd_lastDragOverTarget := None, bd_activeDrag := None\<rparr>"
  have "sends E s (dropOnZone me mk p ev drafts mv over ?s)" if "ev_overId ev = Some over" for over
  proof (rule sends_from [of ?s, OF _ sends_drop])
    assume "over = ''discard-pile''"
    with assms(2) that show "sends E ?s (discardDropped p ev ?s)" by (simp add: sends_def)
  qed simp
  with Hand show ?thesis
    by (auto simp: handleDragEnd_def Let_def sends_restore sends_same split: option.split)
qed

lemma sends_cancel:
  assumes "\<And>source cd entries order. bd_activeDrag s = Some (DrawDrag source cd entries order) \<Longrightarrow> bp_guided p \<Longrightarrow>
      {DrawDragStateCall False, DrawSettledCall} \<subseteq> E"
  shows "sends E s (handleDragCancel p s)"
  using assms by (cases "bd_activeDrag s" rule: drag_cases)
    (simp_all add: handleDragCancel_def Let_def sends_emit sends_restore sends_same)

end

text \<open>The calls the handlers may make in a render.\<close>

inductive_set board_calls :: "BoardProps \<Rightarrow> BoardState \<Rightarrow> BoardEffect set" for p :: BoardProps and s :: BoardState
  where
  play: "canSubmitTablePlay p s \<Longrightarrow>
     PlayTableCall (buildTablePlayRequest (activeCompositionsOf p) (draftedViewsOf p s)) \<in> board_calls p s"
| discard: "draftedViewsOf p s = [] \<Longrightarrow> \<not> holds key (draftCompositionsOf p s) \<Longrightarrow>
     rdv_allEntryByKey (resolutionOf p s) key = Some entry \<Longrightarrow>
     DiscardCardCall i (he_card entry) \<in> board_calls p s"
| both: "draftedViewsOf p s \<noteq> [] \<Longrightarrow> \<not> holds key (draftCompositionsOf p s) \<Longrightarrow>
     handIndexAfterSubmittedDrafts (rawHandEntriesOf p) key (map dv_entries (draftedViewsOf p s)) = Some n \<Longrightarrow>
     rdv_allEntryByKey (resolutionOf p s) key = Some entry \<Longrightarrow>
     PlayTableAndDiscardCall (buildTablePlayRequest (activeCompositionsOf p) (draftedViewsOf p s))
       (int n) (he_card entry) \<in> board_calls p s"

inductive_cases play_call: "PlayTableCall play \<in> board_calls p s"
inductive_cases discard_call: "DiscardCardCall i cd \<in> board_calls p s"

lemma same_render:
  assumes "bd_handOrderState s' = bd_handOrderState s" "bd_persisted s' = bd_persisted s"
    "bd_drafts s' = bd_drafts s"
  shows "handEntriesOf p s' = handEntriesOf p s" "resolutionOf p s' = resolutionOf p s"
    "draftCompositionsOf p s' = draftCompositionsOf p s" "draftedViewsOf p s' = draftedViewsOf p s"
    "board_calls p s' = board_calls p s"
proof -
  show h: "handEntriesOf p s' = handEntriesOf p s" using assms by (simp add: handEntriesOf_def)
  show r: "resolutionOf p s' = resolutionOf p s" using assms h by (simp add: resolutionOf_def)
  show d: "draftCompositionsOf p s' = draftCompositionsOf p s" using r by (simp add: draftCompositionsOf_def)
  show v: "draftedViewsOf p s' = draftedViewsOf p s" using r d by (simp add: draftedViewsOf_def)
  show "board_calls p s' = board_calls p s"
    by (auto simp: board_calls.simps canSubmitTablePlay_def r d v)
qed

text \<open>The calls of a render, and whatever spends no card.\<close>

definition spending :: "BoardProps \<Rightarrow> BoardState \<Rightarrow> BoardEffect set" where
  "spending p s = board_calls p s \<union> {e. sent_cards e = []}"

lemma spending_play: "canSubmitTablePlay p s \<Longrightarrow>
    PlayTableCall (buildTablePlayRequest (activeCompositionsOf p) (draftedViewsOf p s)) \<in> spending p s"
  by (simp add: spending_def board_calls.play)

interpretation spending: harmless_effects "spending p s" for p s
  by unfold_locales (simp_all add: spending_def)

lemma sends_discard: "sends (spending p s) s (discardDropped p ev s)"
  unfolding discardDropped_def Let_def
  by (intro sends_cases sends_emit sends_same)
    (auto simp: spending_def split: if_splits intro: board_calls.intros)

lemma sends_start: "sends (spending p s) s' (handleDragStart p ev s')"
  unfolding handleDragStart_def Let_def
  by (intro sends_cases sends_emit) (auto simp: sends_same spending_def)

lemma board_end_spends: "sends (spending p s) s (handleDragEnd me mk p ev s)"
proof (rule spending.sends_end)
  let ?s = "s\<lparr>bd_lastDragOverTarget := None, bd_activeDrag := None\<rparr>"
  have "board_calls p ?s = board_calls p s" by (rule same_render) simp_all
  then show "sends (spending p s) s (discardDropped p ev ?s)"
    using sends_discard [of p ?s ev] by (simp add: spending_def sends_def)
qed (simp_all add: spending_def)

lemma board_cancel_spends: "sends (spending p s) s (handleDragCancel p s)"
  by (rule spending.sends_cancel) (simp add: spending_def)

lemma sends_handle: "sends (spending p s) s (boardHandle me mk p e s)"
  by (cases e)
    (simp_all add: sends_start spending.sends_over board_end_spends board_cancel_spends sends_reset syncTurnDrafts_def
       submitDraftCompositions_def submitAnswered_def discardAnswered_def
       sends_emit sends_same spending.sound_in spending_play)

section \<open>Only cards of the hand\<close>


lemma staged_entries:
  "concat (map dv_entries (buildDraftedCompositionViews ds f)) = List.map_filter f (staged ds)"
proof -
  have a: "List.map_filter f (xs @ ys) = List.map_filter f xs @ List.map_filter f ys" for xs ys
    by (induction xs) (simp_all add: map_filter_simps split: option.split)
  show ?thesis
    by (induction ds) (simp_all add: buildDraftedCompositionViews_def mapHandKeysToEntries_def a map_filter_simps(2))
qed

lemma entryByKey_in:
  "rdv_allEntryByKey (resolutionOf p s) k = Some e \<Longrightarrow>
     e \<in> set (rdv_allHandEntries (resolutionOf p s)) \<and> he_key e = k"
  by (auto simp: resolutionOf_def resolveDraftViews_def Let_def entryByKeyOf_def dest: last_by_SomeD)

lemma map_filter_by_key:
  assumes "distinct ks" and "\<And>k e. f k = Some e \<Longrightarrow> e \<in> set es \<and> he_key e = k"
  shows "mset (List.map_filter f ks) \<subseteq># mset es"
proof -
  have m: "set (List.map_filter f ks) = {e. \<exists>k \<in> set ks. f k = Some e}"
    by (induction ks) (auto simp: map_filter_simps split: option.split)
  have "distinct (List.map_filter f ks)"
    using assms(1)
  proof (induction ks)
    case (Cons k ks)
    have "e \<notin> set (List.map_filter f ks)" if "f k = Some e" for e
      using assms(2) [OF that] assms(2) Cons.prems
      by (induction ks) (auto simp: map_filter_simps split: option.splits)
    with Cons show ?case by (simp add: map_filter_simps split: option.split)
  qed (simp add: map_filter_simps)
  moreover have "set (List.map_filter f ks) \<subseteq> set es" using assms(2) by (auto simp: m)
  ultimately show ?thesis
    by (auto simp: subseteq_mset_def distinct_count_atmost_1 count_greater_eq_one_iff)
qed

definition heldCards :: "BoardProps \<Rightarrow> CardSnapshot list" where
  "heldCards p = (case bp_game p of None \<Rightarrow> [] | Some g \<Rightarrow> game_hand g)"

lemma raw_cards: "map he_card (rawHandEntriesOf p) = heldCards p"
  by (simp add: rawHandEntriesOf_def heldCards_def buildHandEntries_def)

lemma all_entries:
  "rdv_allHandEntries (resolutionOf p s)
     = handEntriesOf p s @ map vj_entry (rdv_virtualReclaimedJokers (resolutionOf p s))"
  "vj \<in> set (rdv_virtualReclaimedJokers (resolutionOf p s)) \<Longrightarrow> he_card (vj_entry vj) = joker"
  "vj \<in> set (rdv_virtualReclaimedJokers (resolutionOf p s)) \<Longrightarrow> \<exists>t j. he_key (vj_entry vj) = virtualKey t j"
  by (auto simp: resolutionOf_def resolveDraftViews_def Let_def buildVirtualReclaimedJokers_def
        virtualJoker_def joker_def) blast

lemma all_cards:
  assumes "orders_inv s"
  shows "mset (map he_card (rdv_allHandEntries (resolutionOf p s)))
    = mset (heldCards p) + mset (replicate (length (rdv_virtualReclaimedJokers (resolutionOf p s))) joker)"
proof -
  have "map (he_card \<circ> vj_entry) (rdv_virtualReclaimedJokers (resolutionOf p s))
      = replicate (length (rdv_virtualReclaimedJokers (resolutionOf p s))) joker"
    using all_entries(2) by (simp add: map_replicate_const [symmetric])
  moreover have "mset (map he_card (handEntriesOf p s)) = mset (heldCards p)"
    using handEntries_mset [OF assms] raw_cards by (metis mset_map)
  ultimately show ?thesis by (simp add: all_entries(1) del: mset_map)
qed

lemma drafted_entries:
  assumes "board_inv s"
  shows "mset (concat (map dv_entries (draftedViewsOf p s)))
      \<subseteq># mset (rdv_allHandEntries (resolutionOf p s))"
    and "\<forall>d \<in> set (draftedViewsOf p s). distinct (map he_key (dv_entries d))"
proof -
  have ds: "distinct (staged (draftCompositionsOf p s))"
    using good_drafts [OF assms] by (simp add: good_def drafts_ok_def)
  show "mset (concat (map dv_entries (draftedViewsOf p s))) \<subseteq># mset (rdv_allHandEntries (resolutionOf p s))"
    unfolding draftedViewsOf_def staged_entries by (rule map_filter_by_key [OF ds entryByKey_in])
  have "distinct ks \<Longrightarrow> distinct (map he_key (List.map_filter (rdv_allEntryByKey (resolutionOf p s)) ks))"
    for ks
  proof (induction ks)
    case (Cons k ks)
    have "set (map he_key (List.map_filter (rdv_allEntryByKey (resolutionOf p s)) ks)) \<subseteq> set ks" for ks
      by (induction ks) (auto simp: map_filter_simps dest: entryByKey_in split: option.splits)
    with Cons show ?case
      by (auto simp: map_filter_simps dest: entryByKey_in split: option.split)
  qed (simp add: map_filter_simps)
  moreover have "distinct (dc_handKeys c)" if "c \<in> set (draftCompositionsOf p s)" for c
    using ds that by (auto simp: staged_def distinct_concat_iff)
  ultimately show "\<forall>d \<in> set (draftedViewsOf p s). distinct (map he_key (dv_entries d))"
    by (auto simp: draftedViewsOf_def buildDraftedCompositionViews_def mapHandKeysToEntries_def)
qed

lemma add_fresh: "x \<notin># A \<Longrightarrow> x \<in># B \<Longrightarrow> A \<subseteq># B \<Longrightarrow> add_mset x A \<subseteq># B"
  by (auto simp: subseteq_mset_def not_in_iff Suc_le_eq)

lemma holds_staged: "holds k ds \<longleftrightarrow> k \<in> set (staged ds)"
  by (induction ds) (simp_all add: holds_def includesKey_def staged_def)

lemma calls_within:
  assumes ok: "board_ok s" and active: "\<forall>c \<in> set (activeCompositionsOf p). representations_ok c"
    and call: "e \<in> board_calls p s"
  shows "mset (sent_cards e) \<subseteq># mset (map he_card (rdv_allHandEntries (resolutionOf p s)))"
proof -
  let ?all = "rdv_allHandEntries (resolutionOf p s)" and ?views = "draftedViewsOf p s"
  have inv: "board_inv s" using ok by (simp add: board_ok_def)
  have "concat (map ownCards ds) = map he_card (concat (map dv_entries ds))" for ds
    by (induction ds) (simp_all add: ownCards_def)
  with mset_request [OF active drafted_entries(2) [OF inv], of p]
  have request: "mset (request_cards (buildTablePlayRequest (activeCompositionsOf p) ?views))
      = image_mset he_card (mset (concat (map dv_entries ?views)))"
    by (simp only: mset_map)
  note sub = drafted_entries(1) [OF inv, of p]
  from call show ?thesis
  proof cases
    case play
    with sub request show ?thesis by (simp add: image_mset_subseteq_mono)
  next
    case (discard key entry i)
    with entryByKey_in [of p s key entry] show ?thesis by simp
  next
    case (both key n entry)
    have "entry \<notin> set (concat (map dv_entries ?views))"
    proof
      assume "entry \<in> set (concat (map dv_entries ?views))"
      then obtain k where "k \<in> set (staged (draftCompositionsOf p s))"
        "rdv_allEntryByKey (resolutionOf p s) k = Some entry"
        unfolding draftedViewsOf_def staged_entries by (auto simp: map_filter_def)
      moreover from this both(5) have "k = key" using entryByKey_in by metis
      ultimately show False using both(3) by (simp add: holds_staged)
    qed
    moreover have "entry \<in> set ?all" using both(5) entryByKey_in by blast
    ultimately have "add_mset entry (mset (concat (map dv_entries ?views))) \<subseteq># mset ?all"
      using sub by (intro add_fresh) simp_all
    from image_mset_subseteq_mono [OF this, of he_card] both(1) request
    show ?thesis by simp
  qed
qed

text \<open>C3: Whatever was dragged before, a call to the server spends only cards of the own hand, each at
  most once, and jokers the drafts win back from the table, each at most once: a table play, a
  discard, and a discard sent together with a table play, which spends the card it throws in
  addition to those it plays.\<close>

theorem board_sends_own_cards:
  assumes "board_start s0" and "reach (board_step moveItem moveItem) s0 s"
    and "\<forall>c \<in> set (activeCompositionsOf p). representations_ok c"
    and "bd_effects (boardHandle moveItem moveItem p e s) = bd_effects s @ es" and "eff \<in> set es"
  shows "mset (sent_cards eff) \<subseteq># mset (heldCards p)
    + mset (replicate (length (rdv_virtualReclaimedJokers (resolutionOf p s))) joker)"
proof -
  have ok: "board_ok s" by (rule play.run_inv [OF assms(1,2)])
  then have inv: "orders_inv s" by (simp add: board_ok_def)
  from sends_handle [of p s moveItem moveItem e] assms(4,5)
  have "eff \<in> board_calls p s \<or> sent_cards eff = []" by (auto simp: sends_def spending_def)
  then show ?thesis
    using calls_within [OF ok assms(3)] all_cards [OF inv, of p] by auto
qed


definition discard_moves :: "BoardEvent list" where
  "discard_moves = example_moves @ [DragEnd (drag_event ''7-0-2'' (Some ''9-0-1'')),
     DragStart (drag_event ''10-0-1'' None)]"

definition discard_drop :: BoardEvent where
  "discard_drop = DragEnd (drag_event ''10-0-1'' (Some ''discard-pile''))"

definition discard_call :: BoardEffect where
  "discard_call = PlayTableAndDiscardCall
     \<lparr>play_compositions = [\<lparr>reqc_cards = [heart 9, heart 7]\<rparr>], play_additions = [], play_reclaims = []\<rparr>
     1 (heart 10)"

lemma discard_sent:
  "bd_effects (boardHandle moveItem moveItem example_board discard_drop
      (board_run example_board discard_moves (initialBoard [])))
    = bd_effects (board_run example_board discard_moves (initialBoard [])) @ [discard_call]"
  by code_simp

lemma example_start: "board_start (initialBoard [])"
  by (auto simp: board_start_def)

theorem board_sends_own_cards_witness:
  "mset (sent_cards discard_call) = mset [heart 9, heart 7, heart 10] \<and>
   mset (sent_cards discard_call) \<subseteq># mset (heldCards example_board)"
proof
  have "\<forall>c \<in> set (activeCompositionsOf example_board). representations_ok c" by code_simp
  moreover have "rdv_virtualReclaimedJokers (resolutionOf example_board
      (board_run example_board discard_moves (initialBoard []))) = []" by code_simp
  ultimately show "mset (sent_cards discard_call) \<subseteq># mset (heldCards example_board)"
    using board_sends_own_cards [OF example_start board_run_reach [OF reach_start] _ discard_sent, of discard_call]
    by simp
qed (simp add: discard_call_def request_cards_def)



end
