(* ===== verification/SoundEvents.thy ===== *)
theory SoundEvents
  imports GameTypes "HOL-Library.Sublist"
begin

text \<open>
  The sounds of the game (\<open>game-sound-events.ts\<close>): which sounds follow from two consecutive lobby
  states, and the hook that plays them as the state changes.
\<close>

definition playerIds :: "LobbyState \<Rightarrow> string set" where
  "playerIds state = (case ls_room state of None \<Rightarrow> {} | Some room \<Rightarrow> set (map pl_playerId (room_players room)))"

definition compositionActivities :: "LobbyState \<Rightarrow> CompositionActivitySnapshot list" where
  "compositionActivities state =
     (case Option.bind (ls_game state) game_turnActivity of
        None \<Rightarrow> []
      | Some activity \<Rightarrow> (case ta_compositionActivities activity of None \<Rightarrow> [] | Some activities \<Rightarrow> activities))"

text \<open>The text \<open>JSON.stringify\<close> gives is compared only with another such text. The values come from the
  server, with their fields in one order, so two texts are equal exactly when the values are.\<close>

definition compositionActivitySignature :: "LobbyState \<Rightarrow> CompositionActivitySnapshot list" where
  "compositionActivitySignature state = compositionActivities state"

definition hasJokerReclaimActivity :: "LobbyState \<Rightarrow> bool" where
  "hasJokerReclaimActivity state \<longleftrightarrow>
     list_ex (\<lambda>composition.
        act_kind composition = Some ''joker_reclaim'' \<or>
        list_ex (\<lambda>(i, activity). cact_kind activity = ''joker_reclaim'')
          (case act_cardActivities composition of None \<Rightarrow> [] | Some activities \<Rightarrow> activities))
       (compositionActivities state)"

text \<open>\<open>Boolean(a && b && a === b)\<close> on the room codes: the empty code is no room.\<close>

definition isSameRoom :: "LobbyState \<Rightarrow> LobbyState \<Rightarrow> bool" where
  "isSameRoom previous current \<longleftrightarrow>
     (case (ls_room previous, ls_room current) of
        (Some p, Some c) \<Rightarrow> room_code p \<noteq> [] \<and> room_code c \<noteq> [] \<and> room_code p = room_code c
      | _ \<Rightarrow> False)"

definition phaseIs :: "LobbyState \<Rightarrow> string \<Rightarrow> bool" where
  "phaseIs state phase \<longleftrightarrow> map_option room_phase (ls_room state) = Some phase"

definition isOwnTurn :: "LobbyState \<Rightarrow> bool" where
  "isOwnTurn state \<longleftrightarrow>
     phaseIs state ''in_progress'' \<and>
     (case ls_game state of None \<Rightarrow> False | Some game \<Rightarrow> turn_playerId (game_turn game) = Some (ls_playerId state))"

definition sound_if :: "bool \<Rightarrow> string \<Rightarrow> string list" where
  "sound_if condition sound = (if condition then [sound] else [])"

definition errorSounds :: "LobbyState \<Rightarrow> LobbyState \<Rightarrow> string list" where
  "errorSounds previous current =
     sound_if ((case ls_lastError current of None \<Rightarrow> False | Some e \<Rightarrow> e \<noteq> []) \<and>
       ls_lastErrorId current \<noteq> ls_lastErrorId previous) ''invalid-action''"

definition roomSounds :: "LobbyState \<Rightarrow> LobbyState \<Rightarrow> string list" where
  "roomSounds previous current =
     sound_if (\<not> playerIds current \<subseteq> playerIds previous) ''player-joined'' @
     sound_if (\<not> playerIds previous \<subseteq> playerIds current) ''player-left'' @
     (if phaseIs current ''game_over'' \<and> \<not> phaseIs previous ''game_over'' then [''game-win'']
      else sound_if (phaseIs current ''round_over'' \<and> \<not> phaseIs previous ''round_over'') ''round-win'')"

definition tableSounds :: "LobbyState \<Rightarrow> LobbyState \<Rightarrow> GameSnapshot \<Rightarrow> GameSnapshot \<Rightarrow> string list" where
  "tableSounds previous current previousGame currentGame =
     (if compositionActivities current \<noteq> [] \<and>
         compositionActivitySignature previous \<noteq> compositionActivitySignature current
      then (let createdComposition = length (game_activeCompositions currentGame)
                    > length (game_activeCompositions previousGame);
                reclaimedJoker = hasJokerReclaimActivity current
            in sound_if createdComposition ''composition-create'' @
               sound_if reclaimedJoker ''joker-reclaim'' @
               sound_if (\<not> createdComposition \<and> \<not> reclaimedJoker) ''card-place'')
      else [])"

definition turnSounds :: "LobbyState \<Rightarrow> GameSnapshot \<Rightarrow> GameSnapshot \<Rightarrow> string list" where
  "turnSounds current previousGame currentGame =
     (let previousTurn = game_turn previousGame; currentTurn = game_turn currentGame
      in sound_if (turn_number previousTurn = turn_number currentTurn \<and> \<not> turn_hasDrawn previousTurn \<and>
           turn_hasDrawn currentTurn) ''card-draw'' @
         (if turn_number previousTurn \<noteq> turn_number currentTurn
          then ''card-discard'' # sound_if (isOwnTurn current) ''turn-start'' else []))"

definition gameSoundsForStateChange :: "LobbyState \<Rightarrow> LobbyState \<Rightarrow> string list" where
  "gameSoundsForStateChange previous current =
     errorSounds previous current @
     (if \<not> isSameRoom previous current then []
      else roomSounds previous current @
        (case (ls_game previous, ls_game current) of
           (Some previousGame, Some currentGame) \<Rightarrow>
             (if game_round previousGame \<noteq> game_round currentGame
              then sound_if (isOwnTurn current) ''turn-start''
              else turnSounds current previousGame currentGame
                @ tableSounds previous current previousGame currentGame)
         | _ \<Rightarrow> sound_if (isOwnTurn current) ''turn-start''))"

text \<open>The hook: the ref holds the state of the last run of the effect; the result is what is played.\<close>

fun useGameSoundEvents :: "LobbyState \<Rightarrow> LobbyState list \<Rightarrow> string list" where
  "useGameSoundEvents previousState [] = []"
| "useGameSoundEvents previousState (state # states) =
     gameSoundsForStateChange previousState state @ useGameSoundEvents state states"

section \<open>Properties\<close>

lemma sound_if_simps [simp]:
  "sound_if False snd = []" "sound_if True snd = [snd]" "x \<in> set (sound_if c snd) \<longleftrightarrow> c \<and> x = snd"
  for snd :: string
  unfolding sound_if_def by auto

lemma unchanged_state_is_silent: "gameSoundsForStateChange state state = []"
  by (simp add: gameSoundsForStateChange_def errorSounds_def roomSounds_def turnSounds_def
        tableSounds_def isOwnTurn_def Let_def sound_if_def split: option.split)

text \<open>Renders that do not change the state play nothing: the sounds of a run are those of the run
  without its repetitions.\<close>

theorem repeated_states_are_silent:
  "useGameSoundEvents s states = useGameSoundEvents s (tl (remdups_adj (s # states)))"
proof (induction states arbitrary: s)
  case (Cons t states)
  show ?case
  proof (cases "t = s")
    case True
    with Cons show ?thesis by (simp add: unchanged_state_is_silent)
  next
    case False
    then have "tl (remdups_adj (s # t # states)) = t # tl (remdups_adj (t # states))" by simp
    then have "useGameSoundEvents s (tl (remdups_adj (s # t # states)))
        = gameSoundsForStateChange s t @ useGameSoundEvents t (tl (remdups_adj (t # states)))"
      by (simp only: useGameSoundEvents.simps)
    then show ?thesis using Cons.IH [of t] by (simp only: useGameSoundEvents.simps)
  qed
qed simp

definition turn_came :: "LobbyState \<Rightarrow> LobbyState \<Rightarrow> bool" where
  "turn_came previous current \<longleftrightarrow>
     (case (ls_game previous, ls_game current) of
        (Some p, Some c) \<Rightarrow> game_round p \<noteq> game_round c \<or> turn_number (game_turn p) \<noteq> turn_number (game_turn c)
      | _ \<Rightarrow> True)"

lemma sound_groups:
  "set (errorSounds p c) \<subseteq> {''invalid-action''}"
  "set (roomSounds p c) \<subseteq> {''player-joined'', ''player-left'', ''game-win'', ''round-win''}"
  "set (tableSounds p c pg cg) \<subseteq> {''composition-create'', ''joker-reclaim'', ''card-place''}"
  "set (turnSounds c pg cg) \<subseteq> {''card-draw'', ''card-discard'', ''turn-start''}"
  by (auto simp: errorSounds_def roomSounds_def tableSounds_def turnSounds_def Let_def split: if_splits)

lemma turn_start_turnSounds:
  "''turn-start'' \<in> set (turnSounds c pg cg)
     \<longleftrightarrow> turn_number (game_turn pg) \<noteq> turn_number (game_turn cg) \<and> isOwnTurn c"
  by (auto simp: turnSounds_def Let_def)

lemma no_turn_start:
  "''turn-start'' \<notin> set (errorSounds p c)" "''turn-start'' \<notin> set (roomSounds p c)"
  "''turn-start'' \<notin> set (tableSounds p c pg cg)"
  using sound_groups(1) [of p c] sound_groups(2) [of p c] sound_groups(3) [of p c pg cg] by auto

text \<open>The sounds of one change come in a fixed order, so none is repeated.\<close>

lemma sound_order:
  "subseq (errorSounds p c) [''invalid-action'']"
  "subseq (roomSounds p c) [''player-joined'', ''player-left'', ''game-win'', ''round-win'']"
  "subseq (tableSounds p c pg cg) [''composition-create'', ''joker-reclaim'', ''card-place'']"
  "subseq (turnSounds c pg cg) [''card-draw'', ''card-discard'', ''turn-start'']"
  "subseq (sound_if b ''turn-start'') [''card-draw'', ''card-discard'', ''turn-start'']"
  by (simp_all add: errorSounds_def roomSounds_def tableSounds_def turnSounds_def Let_def sound_if_def)

definition allSounds :: "string list" where
  "allSounds = [''invalid-action''] @ [''player-joined'', ''player-left'', ''game-win'', ''round-win''] @
     [''card-draw'', ''card-discard'', ''turn-start''] @ [''composition-create'', ''joker-reclaim'', ''card-place'']"

lemma gameSounds_order: "subseq (gameSoundsForStateChange p c) allSounds"
proof -
  note join = list_emb_append_mono [OF sound_order(1)]
  note room = join [OF list_emb_append_mono [OF sound_order(2)]]
  have none: "subseq (errorSounds p c) allSounds"
    using join [OF list_emb_Nil] by (simp add: allSounds_def)
  have start: "subseq (errorSounds p c @ roomSounds p c @ sound_if b ''turn-start'') allSounds" for b
    using room [OF list_emb_append_mono [OF sound_order(5) list_emb_Nil]] by (simp add: allSounds_def)
  have full: "subseq (errorSounds p c @ roomSounds p c @ turnSounds c pg cg @ tableSounds p c pg cg) allSounds"
    for pg cg
    using room [OF list_emb_append_mono [OF sound_order(4) sound_order(3)]] unfolding allSounds_def .
  show ?thesis
    using none start full by (simp add: gameSoundsForStateChange_def split: option.split)
qed

lemma distinct_subseq: "subseq xs ys \<Longrightarrow> distinct ys \<Longrightarrow> distinct xs"
  by (induction rule: list_emb.induct) (auto dest: list_emb_set)

lemma gameSounds_distinct: "distinct (gameSoundsForStateChange previous current)"
  by (rule distinct_subseq [OF gameSounds_order]) (simp add: allSounds_def)

text \<open>The start of a turn is announced exactly when, in the same room and a running game, a new turn
  began and it is the own one, and no sound is played twice for one change.\<close>

theorem turn_start_announced:
  "(''turn-start'' \<in> set (gameSoundsForStateChange previous current)
      \<longleftrightarrow> isSameRoom previous current \<and> isOwnTurn current \<and> turn_came previous current) \<and>
   distinct (gameSoundsForStateChange previous current)"
  using gameSounds_distinct [of previous current]
  by (simp add: gameSoundsForStateChange_def no_turn_start turn_start_turnSounds turn_came_def
        del: distinct_append split: option.split) blast

end
