(* ===== verification/SpectatorPreview.thy ===== *)
theory SpectatorPreview
  imports BoardRender
begin

text \<open>
  The table as other players see it (\<open>game-board-table-state.ts\<close>, \<open>game-board-table.tsx\<close>,
  \<open>composition-row.tsx\<close>): the preview of a draft rebuilt from the snapshot that was sent, the row of
  a composition with its staged cards, and the points shown for the drafts.
\<close>

section \<open>Keys of shown cards\<close>

definition draftCardKey :: "CardSnapshot \<Rightarrow> string" where
  "draftCardKey cd =
     (if card_isJoker cd then ''joker''
      else (case card_rank cd of None \<Rightarrow> ''unknown'' | Some r \<Rightarrow> js_show r) @ ''-'' @
           (case card_suit cd of None \<Rightarrow> ''unknown'' | Some s \<Rightarrow> js_show s))"

fun draftCardInstancesFrom :: "(string \<Rightarrow> nat option) \<Rightarrow> CardSnapshot list \<Rightarrow> (CardSnapshot \<times> string) list" where
  "draftCardInstancesFrom duplicateCounts [] = []"
| "draftCardInstancesFrom duplicateCounts (cd # cards) =
     (let baseKey = draftCardKey cd; duplicateCount = or_else (duplicateCounts baseKey) 0
      in (cd, baseKey @ ''-'' @ js_show (int duplicateCount))
         # draftCardInstancesFrom (duplicateCounts(baseKey \<mapsto> duplicateCount + 1)) cards)"

definition draftCardInstances :: "CardSnapshot list \<Rightarrow> (CardSnapshot \<times> string) list" where
  "draftCardInstances cards = draftCardInstancesFrom (\<lambda>_. None) cards"

definition compositionCardKey :: "CardSnapshot \<Rightarrow> string" where
  "compositionCardKey cd =
     (if card_isJoker cd then ''joker''
      else (case card_rank cd of None \<Rightarrow> ''?'' | Some r \<Rightarrow> js_show r) @ ''-'' @
           (case card_suit cd of None \<Rightarrow> ''?'' | Some s \<Rightarrow> js_show s))"

record CompositionCardView =
  ccv_card :: CardSnapshot
  ccv_index :: nat
  ccv_key :: string

fun buildCardViewsFrom :: "(string \<Rightarrow> nat option) \<Rightarrow> (nat \<times> CardSnapshot) list \<Rightarrow> CompositionCardView list" where
  "buildCardViewsFrom counts [] = []"
| "buildCardViewsFrom counts ((index, cd) # cards) =
     (let baseKey = compositionCardKey cd; occurrence = or_else (counts baseKey) 0 + 1
      in \<lparr>ccv_card = cd, ccv_index = index, ccv_key = baseKey @ ''-'' @ js_show (int occurrence)\<rparr>
         # buildCardViewsFrom (counts(baseKey \<mapsto> occurrence)) cards)"

definition buildCompositionCardViews :: "CardSnapshot list \<Rightarrow> CompositionCardView list" where
  "buildCompositionCardViews cards = buildCardViewsFrom (\<lambda>_. None) (List.enumerate 0 cards)"

section \<open>The preview of a draft\<close>

text \<open>\<open>placements?.[index]?.[field]\<close> for every entry; the field is given by its selector.\<close>

definition alignedEntryIndexMap ::
  "HandEntry list \<Rightarrow> CardPlacement list option \<Rightarrow> (CardPlacement \<Rightarrow> int option) \<Rightarrow> (string \<times> int) list" where
  "alignedEntryIndexMap entries placements field =
     List.map_filter
       (\<lambda>(index, entry).
          map_option (\<lambda>value. (he_key entry, value))
            (Option.bind placements (\<lambda>ps. Option.bind (js_nth ps (int index)) field)))
       (List.enumerate 0 entries)"

record DraftPreview =
  pv_stagedEntries :: "HandEntry list"
  pv_reclaims :: "PlannedJokerReclaim list"
  pv_insertIndex :: "int option"
  pv_cardInsertIndices :: "(string \<times> int) list option"

definition orderedAdditions :: "(int \<times> HandEntry list) list \<Rightarrow> HandEntry list" where
  "orderedAdditions entriesByInsertIndex =
     rev (or_else (map_of entriesByInsertIndex 0) []) @
     concat (map snd (filter (\<lambda>(entryInsertIndex, entries). entryInsertIndex \<noteq> 0) entriesByInsertIndex))"

definition draftPreviewForComposition ::
  "TableCompositionView option \<Rightarrow> DraftCompositionSnapshot \<Rightarrow> CardSnapshot list \<Rightarrow> DraftPreview" where
  "draftPreviewForComposition tableComposition draft cards =
     (let stagedEntries = buildHandEntries cards
      in case tableComposition of
           None \<Rightarrow> \<lparr>pv_stagedEntries = stagedEntries, pv_reclaims = [], pv_insertIndex = draft_insertIndex draft,
                    pv_cardInsertIndices = None\<rparr>
         | Some composition \<Rightarrow>
             (let insertIndex = or_else (draft_insertIndex draft) (int (length (comp_cards (tv_snapshot composition))));
                  reclaimTargets = alignedEntryIndexMap stagedEntries (draft_cardPlacements draft) place_reclaimJokerIndex;
                  cardInsertIndices = alignedEntryIndexMap stagedEntries (draft_cardPlacements draft) place_insertIndex;
                  plannedReclaims = planTableJokerReclaims (tv_snapshot composition) stagedEntries insertIndex
                    (Some reclaimTargets);
                  additionEntries = filter (\<lambda>entry. he_key entry \<notin> tp_reclaimedEntryKeys plannedReclaims) stagedEntries;
                  entriesByInsertIndex = group_by
                    (\<lambda>entry. or_else (map_of cardInsertIndices (he_key entry)) insertIndex) additionEntries
              in \<lparr>pv_stagedEntries = orderedAdditions entriesByInsertIndex,
                  pv_reclaims = tp_reclaims plannedReclaims, pv_insertIndex = Some insertIndex,
                  pv_cardInsertIndices = Some cardInsertIndices\<rparr>))"

section \<open>A composition with what is staged on it\<close>

record ShownComposition =
  sh_stagedEntries :: "HandEntry list"
  sh_reclaims :: "PlannedJokerReclaim list"
  sh_insertIndex :: "int option"
  sh_cardInsertIndices :: "(string \<times> int) list option"

definition shownComposition :: "TableCompositionView \<Rightarrow> DraftPreview option \<Rightarrow> ShownComposition" where
  "shownComposition composition spectatorDraft =
     (if tv_stagedEntries composition \<noteq> []
      then \<lparr>sh_stagedEntries = tv_stagedEntries composition, sh_reclaims = tv_reclaims composition,
            sh_insertIndex = Some (tv_insertIndex composition),
            sh_cardInsertIndices = tv_cardInsertIndices composition\<rparr>
      else (case spectatorDraft of
              None \<Rightarrow> \<lparr>sh_stagedEntries = [], sh_reclaims = [], sh_insertIndex = None, sh_cardInsertIndices = None\<rparr>
            | Some draft \<Rightarrow>
                \<lparr>sh_stagedEntries = pv_stagedEntries draft, sh_reclaims = pv_reclaims draft,
                 sh_insertIndex = pv_insertIndex draft, sh_cardInsertIndices = pv_cardInsertIndices draft\<rparr>))"

text \<open>The row: the additions left of the composition, its cards with reclaimed jokers replaced, and the
  additions right of it.\<close>

record CompositionRowView =
  row_additionsAtStart :: "HandEntry list"
  row_previewCards :: "CardSnapshot list"
  row_additionsAtEnd :: "HandEntry list"
  row_complete :: bool

definition reclaimReplacements :: "PlannedJokerReclaim list \<Rightarrow> Replacement list" where
  "reclaimReplacements reclaims =
     map (\<lambda>reclaim. (pr_jokerIndex reclaim, he_card (pr_replacementEntry reclaim))) reclaims"

definition additionEntriesOf :: "ShownComposition \<Rightarrow> HandEntry list" where
  "additionEntriesOf shown =
     filter (\<lambda>entry. he_key entry \<notin> reclaimed_keys (sh_reclaims shown)) (sh_stagedEntries shown)"

definition entryInsertIndex :: "CompositionSnapshot \<Rightarrow> ShownComposition \<Rightarrow> HandEntry \<Rightarrow> int" where
  "entryInsertIndex composition shown entry =
     or_else (targetOf (sh_cardInsertIndices shown) (he_key entry))
       (or_else (sh_insertIndex shown) (int (length (comp_cards composition))))"

definition compositionRow :: "CompositionSnapshot \<Rightarrow> ShownComposition \<Rightarrow> CompositionRowView" where
  "compositionRow composition shown =
     (let additionEntries = additionEntriesOf shown;
          reclaimByJokerIndex = last_by pr_jokerIndex (sh_reclaims shown)
      in \<lparr>row_additionsAtStart = filter (\<lambda>e. entryInsertIndex composition shown e = 0) additionEntries,
          row_previewCards = map (\<lambda>view. case reclaimByJokerIndex (int (ccv_index view)) of
              Some reclaim \<Rightarrow> he_card (pr_replacementEntry reclaim) | None \<Rightarrow> ccv_card view)
            (buildCompositionCardViews (comp_cards composition)),
          row_additionsAtEnd = filter (\<lambda>e. entryInsertIndex composition shown e \<noteq> 0) additionEntries,
          row_complete = isCompleteCompositionPreview composition (map he_card additionEntries)
            (reclaimReplacements (sh_reclaims shown))\<rparr>)"

section \<open>The points of the drafts\<close>

definition stagedDraftsOf :: "TurnActivitySnapshot option \<Rightarrow> DraftCompositionSnapshot list" where
  "stagedDraftsOf turnActivity =
     (case turnActivity of None \<Rightarrow> [] | Some activity \<Rightarrow> or_else (ta_draftCompositions activity) [])"

definition spectatorDraftsByTableIndex ::
  "TableCompositionView list \<Rightarrow> DraftCompositionSnapshot list \<Rightarrow> int \<Rightarrow> DraftPreview option" where
  "spectatorDraftsByTableIndex tableCompositions stagedDrafts =
     foldl (\<lambda>drafts draft. case draft_tableIndex draft of
          None \<Rightarrow> drafts
        | Some tableIndex \<Rightarrow> drafts(tableIndex \<mapsto>
            draftPreviewForComposition (last_by tv_tableIndex tableCompositions tableIndex) draft (draft_cards draft)))
       (\<lambda>_. None) stagedDrafts"

definition stagedNewDrafts :: "DraftCompositionSnapshot list \<Rightarrow> DraftCompositionSnapshot list" where
  "stagedNewDrafts stagedDrafts = filter (\<lambda>draft. draft_tableIndex draft = None) stagedDrafts"

fun sumPoints :: "int option list \<Rightarrow> int option" where
  "sumPoints [] = Some 0"
| "sumPoints (points # rest) =
     (case points of None \<Rightarrow> None | Some p \<Rightarrow> map_option (\<lambda>total. p + total) (sumPoints rest))"

definition additionPointTotal ::
  "(int \<Rightarrow> DraftPreview option) \<Rightarrow> TableCompositionView \<Rightarrow> int option list" where
  "additionPointTotal spectatorDrafts composition =
     (let spectatorDraft = spectatorDrafts (tv_tableIndex composition);
          stagedEntries = (if tv_stagedEntries composition \<noteq> [] then tv_stagedEntries composition
            else (case spectatorDraft of None \<Rightarrow> [] | Some d \<Rightarrow> pv_stagedEntries d));
          reclaims = (if tv_reclaims composition \<noteq> [] then tv_reclaims composition
            else (case spectatorDraft of None \<Rightarrow> [] | Some d \<Rightarrow> pv_reclaims d));
          additions = filter (\<lambda>entry. he_key entry \<notin> reclaimed_keys reclaims) stagedEntries;
          snapshot = tv_snapshot composition
      in if additions = [] \<and> reclaims = [] then []
         else [case (draftCompositionPreviewPointTotal snapshot (map he_card additions) (reclaimReplacements reclaims),
                     sumPoints (map (\<lambda>(jokerIndex, card'). jokerReclaimPointValue snapshot jokerIndex card')
                       (reclaimReplacements reclaims))) of
                 (Some previewPoints, Some reclaimPoints) \<Rightarrow>
                   Some (max 0 (previewPoints - comp_points snapshot) + reclaimPoints)
               | _ \<Rightarrow> None])"

definition visibleDraftPointTotals ::
  "TableCompositionView list \<Rightarrow> DraftedCompositionView list \<Rightarrow> TurnActivitySnapshot option \<Rightarrow> int option list" where
  "visibleDraftPointTotals tableCompositions newCompositions turnActivity =
     (let stagedDrafts = stagedDraftsOf turnActivity
      in map (\<lambda>d. draftCompositionPointTotal (draft_cards d) None) (stagedNewDrafts stagedDrafts) @
         map (\<lambda>c. draftCompositionPointTotal (ownCards c) None) newCompositions @
         concat (map (additionPointTotal (spectatorDraftsByTableIndex tableCompositions stagedDrafts)) tableCompositions))"

definition visibleDraftPointsTotal :: "int option list \<Rightarrow> int option" where
  "visibleDraftPointsTotal totals =
     (if list_all (\<lambda>points. points \<noteq> None) totals then Some (sum_list (map the totals)) else None)"

section \<open>Plans do not depend on the keys of the entries\<close>

text \<open>\<open>g\<close> gives the entries \<open>es\<close> other keys: cards and targets stay, different keys stay different.\<close>

definition rekeys ::
  "(HandEntry \<Rightarrow> HandEntry) \<Rightarrow> HandEntry list \<Rightarrow> (string \<times> int) list option \<Rightarrow> (string \<times> int) list option \<Rightarrow> bool" where
  "rekeys g es targets targets' \<longleftrightarrow>
     (\<forall>e \<in> set es. he_card (g e) = he_card e \<and> targetOf targets' (he_key (g e)) = targetOf targets (he_key e)) \<and>
     (\<forall>e \<in> set es. \<forall>e' \<in> set es. he_key (g e) = he_key (g e') \<longrightarrow> he_key e = he_key e') \<and>
     inj_on he_key (set es)"

definition relabel :: "(HandEntry \<Rightarrow> HandEntry) \<Rightarrow> PlannedJokerReclaim \<Rightarrow> PlannedJokerReclaim" where
  "relabel g r = r\<lparr>pr_replacementEntry := g (pr_replacementEntry r)\<rparr>"

lemma rekeys_sub: "rekeys g es T T' \<Longrightarrow> set es' \<subseteq> set es \<Longrightarrow> rekeys g es' T T'"
  unfolding rekeys_def using inj_on_subset by blast

lemma rekeys_card: "rekeys g es T T' \<Longrightarrow> e \<in> set es \<Longrightarrow> he_card (g e) = he_card e"
  by (simp add: rekeys_def)

lemma rekeys_target:
  "rekeys g es T T' \<Longrightarrow> e \<in> set es \<Longrightarrow> targetOf T' (he_key (g e)) = targetOf T (he_key e)"
  unfolding rekeys_def by blast

lemma explicit_rekeyed:
  "rekeys g es T T' \<Longrightarrow> explicitReclaims c T' used (map g es) = map (relabel g) (explicitReclaims c T used es)"
proof (induction es arbitrary: used)
  case (Cons e es)
  have "rekeys g es T T'" using rekeys_sub [OF Cons.prems] by auto
  from Cons.IH [OF this] show ?case
    using rekeys_card [OF Cons.prems, of e] rekeys_target [OF Cons.prems, of e]
    by (simp add: relabel_def split: option.split)
qed simp

lemma fillSet_rekeyed:
  "(\<forall>e \<in> set es. he_card (g e) = he_card e) \<Longrightarrow>
     fillSet rank suits n (map g es) = (case fillSet rank suits n es of (a, r, s) \<Rightarrow> (map g a, map g r, s))"
  by (induction es arbitrary: suits n) (simp_all add: Let_def split: option.split prod.split)

lemma fillSet_sub:
  "fillSet rank suits n es = (a, r, s) \<Longrightarrow> set r \<subseteq> set es"
  by (induction es arbitrary: suits n a r s)
    (simp, fastforce simp: Let_def split: if_splits option.splits prod.splits)

lemma matchOptions_rekeyed:
  "(\<forall>e \<in> set es. he_card (g e) = he_card e) \<Longrightarrow>
     plan_reclaims (matchOptions m (map g es)) = map (relabel g) (plan_reclaims (matchOptions m es))"
  by (induction es arbitrary: m) (simp_all add: Let_def relabel_def split: option.split prod.split)

lemma inferSet_rekeyed:
  assumes "\<forall>e \<in> set es. he_card (g e) = he_card e"
  shows "plan_reclaims (inferSetPlannedJokerReclaims c (map g es))
    = map (relabel g) (plan_reclaims (inferSetPlannedJokerReclaims c es))"
proof (cases "Option.bind (js_nth (naturals (comp_cards c)) 0) card_rank")
  case (Some rank)
  let ?s = "set (List.map_filter card_suit (naturals (comp_cards c)))"
    and ?n = "nat (max 0 (4 - int (length (comp_cards c))))"
  obtain a r s where f: "fillSet rank ?s ?n es = (a, r, s)" by (cases "fillSet rank ?s ?n es")
  then have "\<forall>e \<in> set r. he_card (g e) = he_card e" using assms fillSet_sub by blast
  with Some f fillSet_rekeyed [OF assms] matchOptions_rekeyed [of r g] show ?thesis
    by (simp add: inferSetPlannedJokerReclaims_def Let_def)
qed (simp add: inferSetPlannedJokerReclaims_def)

lemma target_key: "targetOf T k \<noteq> None \<longleftrightarrow> k \<in> fst ` set (or_else T [])"
  by (cases T) (simp_all add: targetOf_def map_of_eq_None_iff del: not_None_eq)

lemma play_order_rekeyed:
  assumes "rekeys g es T T'"
  shows "play_order T' (map g es) = map g (play_order T es)"
proof -
  have key: "he_key (g e) \<in> fst ` set (or_else T' []) \<longleftrightarrow> he_key e \<in> fst ` set (or_else T [])" if "e \<in> set es" for e
    using rekeys_target [OF assms that] by (simp add: target_key [symmetric])
  have "filter (\<lambda>e. he_key e \<in> fst ` set (or_else T' [])) (map g es)
      = map g (filter (\<lambda>e. he_key e \<in> fst ` set (or_else T [])) es)"
    "filter (\<lambda>e. he_key e \<notin> fst ` set (or_else T' [])) (map g es)
      = map g (filter (\<lambda>e. he_key e \<notin> fst ` set (or_else T [])) es)"
    using key by (simp_all add: filter_map comp_def cong: filter_cong)
  then show ?thesis by (simp add: play_order_def)
qed

lemma plan_rekeyed:
  assumes "rekeys g es T T'"
  shows "tp_reclaims (planTableJokerReclaims c (map g es) i T')
    = map (relabel g) (tp_reclaims (planTableJokerReclaims c es i T))"
proof -
  have "\<forall>e \<in> set (play_order T es). he_card (g e) = he_card e"
    using rekeys_card [OF assms] mset_eq_setD [OF mset_play_order] by blast
  then show ?thesis
    by (simp add: planTable_cases explicit_rekeyed [OF assms] play_order_rekeyed [OF assms] inferSet_rekeyed)
qed

section \<open>Groups\<close>

lemma update_map_snd:
  "AList.update k (h v) (map (apsnd h) m) = map (apsnd h) (AList.update k v m)"
  by (induction m) auto

lemma map_of_map_snd: "map_of (map (apsnd h) m) k = map_option h (map_of m k)"
  by (induction m) auto

lemma group_into_map:
  assumes "\<And>x. x \<in> set xs \<Longrightarrow> f' (g x) = f x"
  shows "group_into f' (map g xs) (map (apsnd (map g)) m) = map (apsnd (map g)) (group_into f xs m)"
  using assms
proof (induction xs arbitrary: m)
  case (Cons x xs)
  have "or_else (map_of (map (apsnd (map g)) m) k) [] = map g (or_else (map_of m k) [])" for k
    by (simp add: map_of_map_snd or_else_def split: option.split)
  then have "group_push (f' (g x)) (g x) (map (apsnd (map g)) m) = map (apsnd (map g)) (group_push (f x) x m)"
    using update_map_snd [of "f x" "map g" "or_else (map_of m (f x)) [] @ [x]" m] Cons.prems
    by (simp add: group_push_def)
  then show ?case using Cons by simp
qed simp

lemma group_by_map:
  "(\<And>x. x \<in> set xs \<Longrightarrow> f' (g x) = f x) \<Longrightarrow> group_by f' (map g xs) = map (apsnd (map g)) (group_by f xs)"
  using group_into_map [of xs f' g f "[]"] by (simp add: group_by_def)

text \<open>How the sides of a row come out of the groups.\<close>

definition sides_ok :: "('v \<Rightarrow> int) \<Rightarrow> (int \<times> 'v list) list \<Rightarrow> bool" where
  "sides_ok f m \<longleftrightarrow> distinct (map fst m) \<and> (\<forall>(k, vs) \<in> set m. \<forall>v \<in> set vs. f v = k)"

lemma sides_ok_group_by: "sides_ok f (group_by f xs)"
  using group_by_mem [of _ _ f xs] by (fastforce simp: sides_ok_def distinct_group_by)

lemma filter_concat_groups:
  "(\<forall>(k, vs) \<in> set m. \<forall>v \<in> set vs. f v = k) \<Longrightarrow>
     filter (\<lambda>v. P (f v)) (concat (map (\<lambda>(i, vs). h i vs) m))
       = concat (map (\<lambda>(i, vs). h i vs) (filter (\<lambda>(i, vs). P i) m))"
  if "\<And>i vs. set (h i vs) = set vs"
  using that by (induction m) (auto simp: filter_empty_conv filter_id_conv)

lemma groups_at_zero:
  "distinct (map fst m) \<Longrightarrow> filter (\<lambda>(i, vs). i = 0) m
     = (case map_of m (0::int) of None \<Rightarrow> [] | Some vs \<Rightarrow> [(0, vs)])"
proof (induction m)
  case (Cons p m)
  have "filter (\<lambda>(i, vs). i = 0) m = []" if "map_of m 0 = None"
    using that by (force simp: filter_empty_conv map_of_eq_None_iff)
  with Cons show ?case
    by (cases p) (auto simp: map_of_eq_None_iff [symmetric] split: option.split)
qed simp

lemma own_sides:
  assumes "sides_ok f m"
  shows "filter (\<lambda>e. f e = 0) (concat (map (\<lambda>(i, es). orderedAt i es) m)) = rev (or_else (map_of m 0) [])"
    and "filter (\<lambda>e. f e \<noteq> 0) (concat (map (\<lambda>(i, es). orderedAt i es) m))
      = concat (map snd (filter (\<lambda>(i, es). i \<noteq> 0) m))"
proof -
  have o: "set (orderedAt i es) = set es" for i es by (simp add: orderedAt_def)
  have m: "distinct (map fst m)" "\<forall>(k, vs) \<in> set m. \<forall>v \<in> set vs. f v = k" using assms by (simp_all add: sides_ok_def)
  note fc = filter_concat_groups [of orderedAt m f, OF o m(2)]
  show "filter (\<lambda>e. f e = 0) (concat (map (\<lambda>(i, es). orderedAt i es) m)) = rev (or_else (map_of m 0) [])"
    using fc [of "\<lambda>k. k = 0"] groups_at_zero [OF m(1)] by (simp add: orderedAt_def split: option.split)
  have "map (\<lambda>(i, es). orderedAt i es) (filter (\<lambda>(i, es). i \<noteq> 0) m) = map snd (filter (\<lambda>(i, es). i \<noteq> 0) m)"
    by (auto simp: orderedAt_def)
  with fc [of "\<lambda>k. k \<noteq> 0"] show "filter (\<lambda>e. f e \<noteq> 0) (concat (map (\<lambda>(i, es). orderedAt i es) m))
      = concat (map snd (filter (\<lambda>(i, es). i \<noteq> 0) m))" by simp
qed

lemma spectator_sides:
  assumes "sides_ok f m"
  shows "filter (\<lambda>e. f e = 0) (orderedAdditions m) = rev (or_else (map_of m 0) [])"
    and "filter (\<lambda>e. f e \<noteq> 0) (orderedAdditions m) = concat (map snd (filter (\<lambda>(i, es). i \<noteq> 0) m))"
proof -
  have zero: "\<forall>e \<in> set (or_else (map_of m 0) []). f e = 0"
    using assms by (cases "map_of m 0") (fastforce simp: sides_ok_def dest: map_of_SomeD)+
  have rest: "\<forall>e \<in> set (concat (map snd (filter (\<lambda>(i, es). i \<noteq> 0) m))). f e \<noteq> 0"
    using assms by (fastforce simp: sides_ok_def)
  show "filter (\<lambda>e. f e = 0) (orderedAdditions m) = rev (or_else (map_of m 0) [])"
    using zero rest by (simp add: orderedAdditions_def filter_id_conv filter_empty_conv)
  show "filter (\<lambda>e. f e \<noteq> 0) (orderedAdditions m) = concat (map snd (filter (\<lambda>(i, es). i \<noteq> 0) m))"
    using zero rest unfolding orderedAdditions_def filter_append
    by (simp only: filter_id_conv [THEN iffD2] filter_empty_conv [THEN iffD2] append_Nil set_rev not_not)
qed

section \<open>What the drafter and the others see\<close>

lemma aligned_lookup_from:
  assumes "distinct (map he_key es)" and "k < length es"
  shows "map_of (List.map_filter
       (\<lambda>(index, entry). map_option (\<lambda>value. (he_key entry, value)) (at index)) (List.enumerate n es)) (he_key (es ! k))
     = at (n + k)"
  using assms
proof (induction es arbitrary: n k)
  case (Cons e es)
  have fresh: "map_of (List.map_filter
       (\<lambda>(index, entry). map_option (\<lambda>value. (he_key entry, value)) (at index)) (List.enumerate n es)) (he_key e) = None"
    for n
    using Cons.prems(1)
    by (induction es arbitrary: n) (auto simp: map_filter_simps split: option.split)
  show ?case
  proof (cases k)
    case 0
    then show ?thesis using fresh [of "Suc n"] by (simp add: map_filter_simps split: option.split)
  next
    case (Suc j)
    then have "es ! j \<in> set es" using Cons.prems by simp
    then have "he_key (es ! j) \<noteq> he_key e" using Cons.prems(1) by (metis distinct.simps(2) image_eqI list.set_map list.simps(9))
    with Suc Cons.IH [of j "Suc n"] Cons.prems show ?thesis
      by (simp add: map_filter_simps split: option.split)
  qed
qed simp

lemma aligned_lookup:
  assumes "distinct (map he_key es)" and "k < length es"
  shows "map_of (alignedEntryIndexMap es placements field) (he_key (es ! k))
    = Option.bind placements (\<lambda>ps. Option.bind (js_nth ps (int k)) field)"
  using aligned_lookup_from [OF assms, of "\<lambda>i. Option.bind placements (\<lambda>ps. Option.bind (js_nth ps (int i)) field)" 0]
  by (simp add: alignedEntryIndexMap_def)

lemma snapshot_placement:
  assumes "k < length (dv_entries d)"
  shows "Option.bind (draft_cardPlacements (buildDraftCompositionSnapshot d))
      (\<lambda>ps. Option.bind (js_nth ps (int k)) place_insertIndex)
    = targetOf (dc_cardInsertIndices d) (he_key (dv_entries d ! k))"
    and "Option.bind (draft_cardPlacements (buildDraftCompositionSnapshot d))
      (\<lambda>ps. Option.bind (js_nth ps (int k)) place_reclaimJokerIndex)
    = targetOf (dc_reclaimTargets d) (he_key (dv_entries d ! k))"
proof -
  have "dv_entries d ! k \<in> set (dv_entries d)" using assms by simp
  with assms show "Option.bind (draft_cardPlacements (buildDraftCompositionSnapshot d))
      (\<lambda>ps. Option.bind (js_nth ps (int k)) place_insertIndex)
    = targetOf (dc_cardInsertIndices d) (he_key (dv_entries d ! k))"
    "Option.bind (draft_cardPlacements (buildDraftCompositionSnapshot d))
      (\<lambda>ps. Option.bind (js_nth ps (int k)) place_reclaimJokerIndex)
    = targetOf (dc_reclaimTargets d) (he_key (dv_entries d ! k))"
    by (auto simp: buildDraftCompositionSnapshot_def Let_def js_nth_of_nat list_ex_iff)
qed

text \<open>The entries the preview builds from the cards are the entries of the drafter under other keys.\<close>

lemma preview_rekeys:
  assumes "distinct (map he_key (dv_entries d))"
    and es': "es' = buildHandEntries (map he_card (dv_entries d))"
    and pl: "pl = draft_cardPlacements (buildDraftCompositionSnapshot d)"
  obtains g where "map g (dv_entries d) = es'"
    and "rekeys g (dv_entries d) (dc_reclaimTargets d) (Some (alignedEntryIndexMap es' pl place_reclaimJokerIndex))"
    and "rekeys g (dv_entries d) (dc_cardInsertIndices d) (Some (alignedEntryIndexMap es' pl place_insertIndex))"
proof -
  let ?es = "dv_entries d"
  define g where "g = (\<lambda>e. the (map_of (zip ?es es') e))"
  have len: "length es' = length ?es" by (simp add: es' buildHandEntries_def)
  have keys: "distinct (map he_key es')" by (simp add: es' build_keys_distinct)
  have "map he_card es' = map he_card ?es" by (simp add: es' buildHandEntries_def)
  then have cards: "he_card (es' ! k) = he_card (?es ! k)" if "k < length ?es" for k
    using that len by (metis nth_map)
  have nth: "g (?es ! k) = es' ! k" if "k < length ?es" for k
    using that len assms(1) by (simp add: g_def map_of_zip_nth distinct_map)
  have "map g ?es = es'" by (rule nth_equalityI) (simp_all add: len nth)
  have inj: "he_key (g (?es ! i)) = he_key (g (?es ! j)) \<longrightarrow> he_key (?es ! i) = he_key (?es ! j)"
    if "i < length ?es" "j < length ?es" for i j
    using that keys len by (auto simp: nth distinct_conv_nth)
  have "rekeys g ?es T (Some T')"
    if t: "\<And>k. k < length ?es \<Longrightarrow> map_of T' (he_key (es' ! k)) = targetOf T (he_key (?es ! k))" for T T'
    unfolding rekeys_def
  proof (intro conjI ballI impI)
    fix e assume "e \<in> set ?es"
    then obtain k where k: "k < length ?es" "?es ! k = e" by (auto simp: in_set_conv_nth)
    then show "he_card (g e) = he_card e" "targetOf (Some T') (he_key (g e)) = targetOf T (he_key e)"
      using nth [of k] cards [of k] t [of k] by (simp_all add: targetOf_def)
    fix e' assume "e' \<in> set ?es" and "he_key (g e) = he_key (g e')"
    then show "he_key e = he_key e'" using inj k by (metis in_set_conv_nth)
  next
    show "inj_on he_key (set ?es)" using assms(1) by (simp add: distinct_map)
  qed
  note r = this
  show thesis
    by (rule that [OF \<open>map g ?es = es'\<close> r r])
      (simp_all add: aligned_lookup [OF keys] len snapshot_placement pl)
qed

lemma plan_entries_subset:
  assumes "distinct (map he_key es)"
  shows "set (reclaim_entries (tp_reclaims (planTableJokerReclaims c es i T))) \<subseteq> set es"
proof -
  have o: "set (play_order T es) = set es" using mset_eq_setD [OF mset_play_order] .
  have "distinct (map he_key (play_order T es))"
    using assms by (metis mset_eq_imp_distinct_iff mset_map mset_play_order)
  from inferSet_entries(1) [OF this] show ?thesis
    using explicit_entries_subset by (auto simp: planTable_cases o)
qed

lemma last_by_relabel:
  "last_by pr_jokerIndex (map (relabel g) rs) i = map_option (relabel g) (last_by pr_jokerIndex rs i)"
proof -
  have "List.find (\<lambda>r. pr_jokerIndex r = i) (map (relabel g) rs)
      = map_option (relabel g) (List.find (\<lambda>r. pr_jokerIndex r = i) rs)" for rs
    by (induction rs) (simp_all add: relabel_def)
  then show ?thesis by (simp add: last_by_def rev_map)
qed

lemma unreclaimed_rekeyed:
  assumes "rekeys g es T T'" and "set (reclaim_entries rs) \<subseteq> set es"
  shows "filter (\<lambda>e. he_key e \<notin> reclaimed_keys (map (relabel g) rs)) (map g es)
    = map g (filter (\<lambda>e. he_key e \<notin> reclaimed_keys rs) es)"
proof -
  have "he_key (g e) \<in> reclaimed_keys (map (relabel g) rs) \<longleftrightarrow> he_key e \<in> reclaimed_keys rs" if e: "e \<in> set es" for e
  proof
    assume "he_key (g e) \<in> reclaimed_keys (map (relabel g) rs)"
    then obtain r where r: "r \<in> set rs" "he_key (g e) = he_key (g (pr_replacementEntry r))"
      by (auto simp: reclaimed_keys_def relabel_def)
    then have "pr_replacementEntry r \<in> set es" using assms(2) by (auto simp: reclaim_entries_def)
    with r assms(1) e have "he_key e = he_key (pr_replacementEntry r)" unfolding rekeys_def by blast
    with r(1) show "he_key e \<in> reclaimed_keys rs" by (auto simp: reclaimed_keys_def)
  next
    assume "he_key e \<in> reclaimed_keys rs"
    then obtain r where r: "r \<in> set rs" "he_key e = he_key (pr_replacementEntry r)"
      by (auto simp: reclaimed_keys_def)
    then have "pr_replacementEntry r \<in> set es" using assms(2) by (auto simp: reclaim_entries_def)
    with r assms(1) e have "e = pr_replacementEntry r" unfolding rekeys_def inj_on_def by blast
    with r(1) show "he_key (g e) \<in> reclaimed_keys (map (relabel g) rs)"
      by (auto simp: reclaimed_keys_def relabel_def)
  qed
  then show ?thesis by (simp add: filter_map comp_def cong: filter_cong)
qed

definition row_shown :: "CompositionRowView \<Rightarrow> CardSnapshot list \<times> CardSnapshot list \<times> CardSnapshot list" where
  "row_shown row = (map he_card (row_additionsAtStart row), row_previewCards row, map he_card (row_additionsAtEnd row))"

lemma in_groups: "map_of m k = Some vs \<Longrightarrow> set vs \<subseteq> set (concat (map snd m))"
  by (induction m) (auto split: if_splits)

text \<open>The row of a shown composition, from the groups of its additions.\<close>

lemma own_row:
  assumes "sh_reclaims sh = rs" and "sh_insertIndex sh = Some i" and "sh_cardInsertIndices sh = idx"
    and "gs = group_by (insertIndexOf idx i) add"
    and staged: "sh_stagedEntries sh = concat (map (\<lambda>(i, es). orderedAt i es) gs) @ reclaim_entries rs"
    and add: "\<forall>e \<in> set add. he_key e \<notin> reclaimed_keys rs"
  shows "row_shown (compositionRow c sh) =
    (map he_card (rev (or_else (map_of gs 0) [])),
     row_previewCards (compositionRow c sh),
     map he_card (concat (map snd (filter (\<lambda>(i, es). i \<noteq> 0) gs))))"
proof -
  have "set (concat (map (\<lambda>(i, es). orderedAt i es) gs)) = set (concat (map snd gs))"
    by (induction gs) (simp_all add: orderedAt_def split_beta)
  also have "\<dots> = set add" using mset_eq_setD [OF mset_group_by] by (simp add: assms(4))
  finally have "additionEntriesOf sh = concat (map (\<lambda>(i, es). orderedAt i es) gs)"
    using add by (simp add: additionEntriesOf_def staged assms(1) filter_id_conv reclaim_entries_def
        reclaimed_keys_def filter_empty_conv)
  moreover have "entryInsertIndex c sh = insertIndexOf idx i"
    by (simp add: fun_eq_iff entryInsertIndex_def insertIndexOf_def assms)
  moreover have "sides_ok (insertIndexOf idx i) gs" by (simp add: assms(4) sides_ok_group_by)
  ultimately show ?thesis
    by (simp add: row_shown_def compositionRow_def Let_def own_sides)
qed

lemma spectator_row:
  assumes "sh_reclaims sh = rs" and "sh_insertIndex sh = Some i" and "sh_cardInsertIndices sh = idx"
    and "gs = group_by (insertIndexOf idx i) add"
    and staged: "sh_stagedEntries sh = orderedAdditions gs"
    and add: "\<forall>e \<in> set add. he_key e \<notin> reclaimed_keys rs"
  shows "row_shown (compositionRow c sh) =
    (map he_card (rev (or_else (map_of gs 0) [])),
     row_previewCards (compositionRow c sh),
     map he_card (concat (map snd (filter (\<lambda>(i, es). i \<noteq> 0) gs))))"
proof -
  have sides: "sides_ok (insertIndexOf idx i) gs" by (simp add: assms(4) sides_ok_group_by)
  have "set (orderedAdditions gs) \<subseteq> set (concat (map snd gs))"
    by (cases "map_of gs 0") (auto simp: orderedAdditions_def dest: map_of_SomeD)
  also have "\<dots> = set add" using mset_eq_setD [OF mset_group_by] by (simp add: assms(4))
  finally have "additionEntriesOf sh = orderedAdditions gs"
    using add by (auto simp: additionEntriesOf_def staged assms(1) filter_id_conv)
  moreover have "entryInsertIndex c sh = insertIndexOf idx i"
    by (simp add: fun_eq_iff entryInsertIndex_def insertIndexOf_def assms)
  ultimately show ?thesis
    by (simp add: row_shown_def compositionRow_def Let_def spectator_sides [OF sides])
qed

text \<open>The plan of a draft on a composition and the groups of its additions, by the entries of the drafter.\<close>

definition draftIndex :: "CompositionSnapshot \<Rightarrow> DraftedCompositionView \<Rightarrow> int" where
  "draftIndex c d = or_else (dc_insertIndex d) (int (length (comp_cards c)))"

definition draftReclaims :: "CompositionSnapshot \<Rightarrow> DraftedCompositionView \<Rightarrow> PlannedJokerReclaim list" where
  "draftReclaims c d = tp_reclaims (planTableJokerReclaims c (dv_entries d) (draftIndex c d) (dc_reclaimTargets d))"

definition draftAdditions :: "CompositionSnapshot \<Rightarrow> DraftedCompositionView \<Rightarrow> HandEntry list" where
  "draftAdditions c d = filter (\<lambda>e. he_key e \<notin> reclaimed_keys (draftReclaims c d)) (dv_entries d)"

definition draftGroups :: "CompositionSnapshot \<Rightarrow> DraftedCompositionView \<Rightarrow> (int \<times> HandEntry list) list" where
  "draftGroups c d = group_by (insertIndexOf (dc_cardInsertIndices d) (draftIndex c d)) (draftAdditions c d)"

definition previewOf :: "TableCompositionView \<Rightarrow> DraftedCompositionView \<Rightarrow> DraftPreview" where
  "previewOf view d = draftPreviewForComposition (Some view) (buildDraftCompositionSnapshot d)
     (draft_cards (buildDraftCompositionSnapshot d))"

lemma preview_of_snapshot:
  assumes "distinct (map he_key (dv_entries d))" and c: "c = tv_snapshot view"
  obtains g idx where "\<forall>e \<in> set (dv_entries d). he_card (g e) = he_card e"
    and "previewOf view d = \<lparr>pv_stagedEntries = orderedAdditions (map (apsnd (map g)) (draftGroups c d)),
      pv_reclaims = map (relabel g) (draftReclaims c d), pv_insertIndex = Some (draftIndex c d),
      pv_cardInsertIndices = Some idx\<rparr>"
    and "group_by (insertIndexOf (Some idx) (draftIndex c d)) (map g (draftAdditions c d))
      = map (apsnd (map g)) (draftGroups c d)"
    and "\<forall>e \<in> set (map g (draftAdditions c d)). he_key e \<notin> reclaimed_keys (map (relabel g) (draftReclaims c d))"
proof -
  define pl es' where "pl = draft_cardPlacements (buildDraftCompositionSnapshot d)"
    and "es' = buildHandEntries (map he_card (dv_entries d))"
  obtain g where g: "map g (dv_entries d) = es'"
    "rekeys g (dv_entries d) (dc_reclaimTargets d) (Some (alignedEntryIndexMap es' pl place_reclaimJokerIndex))"
    "rekeys g (dv_entries d) (dc_cardInsertIndices d) (Some (alignedEntryIndexMap es' pl place_insertIndex))"
    using preview_rekeys [OF assms(1) es'_def pl_def] by metis
  define idx where "idx = alignedEntryIndexMap es' pl place_insertIndex"
  have rs: "tp_reclaims (planTableJokerReclaims c es' (draftIndex c d)
      (Some (alignedEntryIndexMap es' pl place_reclaimJokerIndex))) = map (relabel g) (draftReclaims c d)"
    using plan_rekeyed [OF g(2)] by (simp only: g(1) draftReclaims_def)
  have add: "filter (\<lambda>e. he_key e \<notin> reclaimed_keys (map (relabel g) (draftReclaims c d))) es'
      = map g (draftAdditions c d)"
    using unreclaimed_rekeyed [OF g(2) plan_entries_subset [OF assms(1)]]
    by (simp only: g(1) draftAdditions_def draftReclaims_def)
  have gs: "group_by (insertIndexOf (Some idx) (draftIndex c d)) (map g (draftAdditions c d))
      = map (apsnd (map g)) (draftGroups c d)"
    unfolding draftGroups_def
    by (rule group_by_map) (use rekeys_target [OF g(3)] in \<open>auto simp: insertIndexOf_def idx_def draftAdditions_def\<close>)
  have "(\<lambda>entry. or_else (map_of idx (he_key entry)) i) = insertIndexOf (Some idx) i" for i
    by (simp add: fun_eq_iff insertIndexOf_def targetOf_def)
  moreover have "draft_cards (buildDraftCompositionSnapshot d) = map he_card (dv_entries d)"
    "draft_insertIndex (buildDraftCompositionSnapshot d) = dc_insertIndex d"
    by (simp_all add: buildDraftCompositionSnapshot_def Let_def)
  ultimately have "previewOf view d = \<lparr>pv_stagedEntries = orderedAdditions (map (apsnd (map g)) (draftGroups c d)),
      pv_reclaims = map (relabel g) (draftReclaims c d), pv_insertIndex = Some (draftIndex c d),
      pv_cardInsertIndices = Some idx\<rparr>"
    using rs add gs
    by (simp add: previewOf_def draftPreviewForComposition_def Let_def es'_def [symmetric] pl_def [symmetric]
          idx_def [symmetric] planTable_keys c [symmetric] draftIndex_def [symmetric])
  then show thesis
    using that [of g idx] rekeys_card [OF g(2)] gs arg_cong [OF add, of set] by fastforce
qed

lemma group_cards:
  assumes "\<forall>e \<in> set (concat (map snd gs)). he_card (g e) = he_card e"
  shows "map he_card (rev (or_else (map_of (map (apsnd (map g)) gs) 0) [])) = map he_card (rev (or_else (map_of gs 0) []))"
    and "map he_card (concat (map snd (filter (\<lambda>(i, es). i \<noteq> 0) (map (apsnd (map g)) gs))))
      = map he_card (concat (map snd (filter (\<lambda>(i, es). i \<noteq> 0) gs)))"
proof -
  show "map he_card (rev (or_else (map_of (map (apsnd (map g)) gs) 0) [])) = map he_card (rev (or_else (map_of gs 0) []))"
  proof (cases "map_of gs 0")
    case (Some es)
    then have "\<forall>e \<in> set (rev es). he_card (g e) = he_card e" using assms in_groups [of gs 0] by auto
    then have "map (he_card \<circ> g) (rev es) = map he_card (rev es)" by simp
    with Some show ?thesis by (simp add: map_of_map_snd rev_map del: map_eq_conv)
  qed (simp add: map_of_map_snd)
  show "map he_card (concat (map snd (filter (\<lambda>(i, es). i \<noteq> 0) (map (apsnd (map g)) gs))))
      = map he_card (concat (map snd (filter (\<lambda>(i, es). i \<noteq> 0) gs)))"
    using assms by (induction gs) auto
qed

lemma preview_cards:
  assumes "sh_reclaims sh' = map (relabel g) (sh_reclaims sh)"
    and "\<forall>e \<in> set (reclaim_entries (sh_reclaims sh)). he_card (g e) = he_card e"
  shows "row_previewCards (compositionRow c sh') = row_previewCards (compositionRow c sh)"
proof -
  have "he_card (pr_replacementEntry (relabel g r)) = he_card (pr_replacementEntry r)"
    if "last_by pr_jokerIndex (sh_reclaims sh) k = Some r" for r k
    using assms(2) last_by_SomeD [OF that] by (auto simp: relabel_def reclaim_entries_def)
  then show ?thesis
    by (auto simp: compositionRow_def Let_def assms(1) last_by_relabel split: option.split)
qed

definition ownShown :: "CompositionSnapshot \<Rightarrow> DraftedCompositionView \<Rightarrow> ShownComposition" where
  "ownShown c d = \<lparr>sh_stagedEntries = concat (map (\<lambda>(i, es). orderedAt i es) (draftGroups c d))
       @ reclaim_entries (draftReclaims c d),
     sh_reclaims = draftReclaims c d, sh_insertIndex = Some (draftIndex c d),
     sh_cardInsertIndices = dc_cardInsertIndices d\<rparr>"

text \<open>What the other players compute for a draft whose snapshot they receive.\<close>

definition seenByOthers :: "TableCompositionView \<Rightarrow> DraftedCompositionView \<Rightarrow> ShownComposition" where
  "seenByOthers view d = shownComposition view (Some (previewOf view d))"

lemma seen_row:
  assumes "tv_stagedEntries view = []" and "distinct (map he_key (dv_entries d))" and c: "c = tv_snapshot view"
  shows "row_shown (compositionRow c (seenByOthers view d)) = row_shown (compositionRow c (ownShown c d))"
proof -
  let ?gs = "draftGroups c d" and ?rs = "draftReclaims c d"
  obtain g idx where card: "\<forall>e \<in> set (dv_entries d). he_card (g e) = he_card e"
    and p: "previewOf view d = \<lparr>pv_stagedEntries = orderedAdditions (map (apsnd (map g)) ?gs),
      pv_reclaims = map (relabel g) ?rs, pv_insertIndex = Some (draftIndex c d), pv_cardInsertIndices = Some idx\<rparr>"
    and gs: "group_by (insertIndexOf (Some idx) (draftIndex c d)) (map g (draftAdditions c d)) = map (apsnd (map g)) ?gs"
    and add: "\<forall>e \<in> set (map g (draftAdditions c d)). he_key e \<notin> reclaimed_keys (map (relabel g) ?rs)"
    using preview_of_snapshot [OF assms(2) c] by metis
  have "set (concat (map snd ?gs)) = set (draftAdditions c d)"
    using mset_eq_setD [OF mset_group_by] by (simp add: draftGroups_def)
  then have in_groups: "\<forall>e \<in> set (concat (map snd ?gs)). he_card (g e) = he_card e"
    using card by (simp add: draftAdditions_def)
  have "\<forall>e \<in> set (reclaim_entries ?rs). he_card (g e) = he_card e"
    using card plan_entries_subset [OF assms(2)] unfolding draftReclaims_def by blast
  then have "row_previewCards (compositionRow c (seenByOthers view d)) = row_previewCards (compositionRow c (ownShown c d))"
    by (intro preview_cards) (simp_all add: seenByOthers_def shownComposition_def assms(1) p ownShown_def)
  moreover have "row_shown (compositionRow c (seenByOthers view d)) =
      (map he_card (rev (or_else (map_of (map (apsnd (map g)) ?gs) 0) [])),
       row_previewCards (compositionRow c (seenByOthers view d)),
       map he_card (concat (map snd (filter (\<lambda>(i, es). i \<noteq> 0) (map (apsnd (map g)) ?gs)))))"
    by (rule spectator_row [OF _ _ _ gs [symmetric] _ add])
      (simp_all add: seenByOthers_def shownComposition_def assms(1) p)
  moreover have "row_shown (compositionRow c (ownShown c d)) =
      (map he_card (rev (or_else (map_of ?gs 0) [])), row_previewCards (compositionRow c (ownShown c d)),
       map he_card (concat (map snd (filter (\<lambda>(i, es). i \<noteq> 0) ?gs))))"
    by (rule own_row [OF _ _ _ draftGroups_def]) (auto simp: ownShown_def draftAdditions_def)
  ultimately show ?thesis by (simp only: group_cards [OF in_groups])
qed

lemma stage_shown:
  assumes "d = hd (buildDraftedCompositionViews [draft] entryByKey)" and c: "c = tv_snapshot view"
  shows "row_shown (compositionRow c (shownComposition (stageOnView entryByKey draft view) None))
    = row_shown (compositionRow c (ownShown c d))"
proof -
  have fields: "dc_insertIndex draft = dc_insertIndex d" "dc_cardInsertIndices draft = dc_cardInsertIndices d"
    "dc_reclaimTargets draft = dc_reclaimTargets d"
    "mapHandKeysToEntries (dc_handKeys draft) entryByKey = dv_entries d"
    by (simp_all add: assms(1) buildDraftedCompositionViews_def)
  have view: "stageOnView entryByKey draft view = view\<lparr>tv_stagedEntries := sh_stagedEntries (ownShown c d),
      tv_reclaims := draftReclaims c d, tv_insertIndex := draftIndex c d,
      tv_cardInsertIndices := dc_cardInsertIndices d\<rparr>"
    unfolding stageOnView_def Let_def fields c [symmetric] draftIndex_def [symmetric]
    by (simp add: ownShown_def orderAdditionEntries_def unreclaimed_def planTable_keys draftGroups_def
        draftAdditions_def draftReclaims_def)
  show ?thesis
  proof (cases "sh_stagedEntries (ownShown c d) = []")
    case False
    then show ?thesis by (simp add: shownComposition_def view) (simp add: ownShown_def)
  next
    case True
    then have "draftReclaims c d = []" by (simp add: ownShown_def reclaim_entries_def)
    with True show ?thesis
      by (simp add: shownComposition_def view row_shown_def compositionRow_def additionEntriesOf_def Let_def)
        (simp add: ownShown_def)
  qed
qed

text \<open>C13: The others see the draft of the player whose turn it is as the player sees it: on a table
  composition with a draft, the row built from the snapshot the player sends shows the same cards
  left of the composition, on the places of reclaimed jokers and right of it as the own row does.\<close>

theorem spectators_see_the_draft:
  assumes "tv_stagedEntries view = []"
    and "d = hd (buildDraftedCompositionViews [draft] entryByKey)" and "distinct (map he_key (dv_entries d))"
  shows "row_shown (compositionRow (tv_snapshot view) (seenByOthers view d))
    = row_shown (compositionRow (tv_snapshot view) (shownComposition (stageOnView entryByKey draft view) None))"
  using seen_row [OF assms(1,3) refl] stage_shown [OF assms(2) refl] by simp

theorem spectators_see_the_draft_witness:
  "row_shown (compositionRow joker_run (seenByOthers (initialView (0, joker_run)) (example_drafts ! 1)))
     = ([], [joker, heart 6, heart 7, heart 8, joker], [heart 10])"
proof -
  let ?view = "initialView (0, joker_run)"
  let ?draft = "\<lparr>dc_id = ''d2'', dc_handKeys = [''d'', ''e''], dc_tableIndex = Some 0, dc_insertIndex = None,
    dc_cardInsertIndices = None, dc_reclaimTargets = Some [(''d'', 2)]\<rparr>"
  let ?find = "entryByKeyOf [entry_of ''d'' (heart 7), entry_of ''e'' (heart 10)]"
  have "tv_stagedEntries ?view = []" by code_simp
  moreover have "example_drafts ! 1 = hd (buildDraftedCompositionViews [?draft] ?find)" by code_simp
  moreover have "distinct (map he_key (dv_entries (example_drafts ! 1)))" by code_simp
  ultimately have "row_shown (compositionRow (tv_snapshot ?view) (seenByOthers ?view (example_drafts ! 1)))
      = row_shown (compositionRow (tv_snapshot ?view) (shownComposition (stageOnView ?find ?draft ?view) None))"
    by (rule spectators_see_the_draft)
  moreover have "row_shown (compositionRow joker_run (shownComposition (stageOnView ?find ?draft ?view) None))
      = ([], [joker, heart 6, heart 7, heart 8, joker], [heart 10])" by code_simp
  moreover have "tv_snapshot ?view = joker_run" by (simp add: initialView_def)
  ultimately show ?thesis by simp
qed

section \<open>What is validated is what is shown\<close>

lemma card_views: "map (\<lambda>v. (ccv_index v, ccv_card v)) (buildCardViewsFrom counts xs) = xs"
proof (induction xs arbitrary: counts)
  case (Cons p xs)
  then show ?case by (cases p) (simp add: Let_def)
qed simp

lemma preview_replaces: "row_previewCards (compositionRow c sh) = replaceJokers (sh_reclaims sh) (comp_cards c)"
proof -
  have "map h (buildCompositionCardViews cs) = map (\<lambda>(i, cd). f i cd) (List.enumerate 0 cs)"
    if "\<And>v. h v = f (ccv_index v) (ccv_card v)" for h :: "CompositionCardView \<Rightarrow> CardSnapshot" and f cs
    using card_views [of "\<lambda>_. None" "List.enumerate 0 cs"] that
    by (metis (no_types, lifting) buildCompositionCardViews_def case_prod_conv list.map_comp map_eq_conv comp_apply)
  then show ?thesis by (simp add: compositionRow_def Let_def replaceJokers_def)
qed

text \<open>The additions are all at an end of the composition.\<close>

definition atEnds :: "CompositionSnapshot \<Rightarrow> DraftedCompositionView \<Rightarrow> bool" where
  "atEnds c d \<longleftrightarrow>
     (\<forall>e \<in> set (dv_entries d). insertIndexOf (dc_cardInsertIndices d) (draftIndex c d) e \<in> {0, int (length (comp_cards c))})"

lemma splice_ends [simp]:
  "splice_insert 0 ys xs = ys @ xs" "splice_insert (int (length xs)) ys xs = xs @ ys"
  by (simp_all add: splice_insert_def)

lemma splice_sides:
  assumes "distinct (map fst gs)" and "\<forall>(k, es) \<in> set gs. k = 0 \<or> k = int (length cs)"
  shows "foldl (\<lambda>cards (i, es). splice_insert i (map he_card (orderedAt i es)) cards) cs
      (sort_key (\<lambda>(i, _). - i) gs)
    = map he_card (rev (or_else (map_of gs 0) [])) @ cs @ map he_card (concat (map snd (filter (\<lambda>(i, es). i \<noteq> 0) gs)))"
proof (cases gs rule: remdups_adj.cases)
  case (2 g)
  obtain k es where "g = (k, es)" by (cases g)
  with 2 assms(2) show ?thesis by (cases "k = 0") (simp_all add: orderedAt_def)
next
  case (3 g g' rest)
  obtain k es k' es' where g: "g = (k, es)" "g' = (k', es')" by (cases g, cases g')
  have "rest = []"
  proof (cases rest)
    case (Cons g'' rest')
    with 3 g assms show ?thesis by (cases g'') auto
  qed
  with 3 g have gs: "gs = [(k, es), (k', es')]" by simp
  with assms consider "k = 0" "k' = int (length cs)" "cs \<noteq> []" | "k = int (length cs)" "k' = 0" "cs \<noteq> []" by auto
  then show ?thesis unfolding gs by cases (simp_all add: orderedAt_def)
qed simp

text \<open>C15: The cards the validation of a draft on a table composition looks at are the cards of the row as
  it is shown, in their order, as long as the additions are put to the ends of the composition, which
  is where the drop zones put them.\<close>

theorem validated_cards_are_shown:
  assumes "atEnds c d"
  shows "cardsAfterTableDraft c d None
    = (case row_shown (compositionRow c (ownShown c d)) of (left, middle, right) \<Rightarrow> left @ middle @ right)"
proof -
  have "row_shown (compositionRow c (ownShown c d)) =
      (map he_card (rev (or_else (map_of (draftGroups c d) 0) [])), row_previewCards (compositionRow c (ownShown c d)),
       map he_card (concat (map snd (filter (\<lambda>(i, es). i \<noteq> 0) (draftGroups c d)))))"
    by (rule own_row [OF _ _ _ draftGroups_def]) (auto simp: ownShown_def draftAdditions_def)
  moreover have "\<forall>(k, es) \<in> set (draftGroups c d). k = 0 \<or> k = int (length (comp_cards c))"
  proof clarify
    fix k es assume g: "(k, es) \<in> set (draftGroups c d)" and "k \<noteq> int (length (comp_cards c))"
    from g have "es \<noteq> []" unfolding draftGroups_def by (rule group_by_nonempty)
    then have "hd es \<in> set es" by simp
    with group_by_mem [OF g [unfolded draftGroups_def]]
    have "hd es \<in> set (dv_entries d)" "insertIndexOf (dc_cardInsertIndices d) (draftIndex c d) (hd es) = k"
      by (auto simp: draftAdditions_def)
    with assms \<open>k \<noteq> _\<close> show "k = 0" by (auto simp: atEnds_def)
  qed
  moreover have "length (comp_cards c) = length (replaceJokers (draftReclaims c d) (comp_cards c))"
    by (simp add: replaceJokers_def)
  moreover have "distinct (map fst (draftGroups c d))" by (simp add: draftGroups_def distinct_group_by)
  moreover have "row_previewCards (compositionRow c (ownShown c d)) = replaceJokers (draftReclaims c d) (comp_cards c)"
    by (simp add: preview_replaces ownShown_def)
  ultimately have "foldl (\<lambda>cards (i, es). splice_insert i (map he_card (orderedAt i es)) cards)
      (replaceJokers (draftReclaims c d) (comp_cards c)) (sort_key (\<lambda>(i, _). - i) (draftGroups c d))
    = (case row_shown (compositionRow c (ownShown c d)) of (left, middle, right) \<Rightarrow> left @ middle @ right)"
    using splice_sides [of "draftGroups c d" "replaceJokers (draftReclaims c d) (comp_cards c)"]
    by (simp only: prod.case)
  then show ?thesis
    by (simp add: cardsAfterTableDraft_def Let_def draftIndex_def [symmetric] draftReclaims_def [symmetric]
        unreclaimed_def planTable_keys draftAdditions_def [symmetric] draftGroups_def [symmetric])
qed

theorem validated_cards_are_shown_witness:
  "cardsAfterTableDraft joker_run (example_drafts ! 1) None
     = [] @ [joker, heart 6, heart 7, heart 8, joker] @ [heart 10]"
proof -
  have "atEnds joker_run (example_drafts ! 1)" by code_simp
  from validated_cards_are_shown [OF this]
  have "cardsAfterTableDraft joker_run (example_drafts ! 1) None
    = (case row_shown (compositionRow joker_run (ownShown joker_run (example_drafts ! 1))) of
         (left, middle, right) \<Rightarrow> left @ middle @ right)" .
  also have "row_shown (compositionRow joker_run (ownShown joker_run (example_drafts ! 1)))
      = ([], [joker, heart 6, heart 7, heart 8, joker], [heart 10])" by code_simp
  finally show ?thesis by simp
qed

section \<open>Keys of shown cards\<close>

lemma instance_keys:
  "(cd, k) \<in> set (draftCardInstancesFrom counts cards) \<Longrightarrow> \<exists>b n. k = key_at b n \<and> or_else (counts b) 0 \<le> n"
proof (induction cards arbitrary: counts)
  case (Cons c cards)
  let ?b = "draftCardKey c" and ?n = "or_else (counts (draftCardKey c)) 0"
  show ?case
  proof (cases "k = key_at ?b ?n")
    case False
    with Cons.prems have "(cd, k) \<in> set (draftCardInstancesFrom (counts(?b \<mapsto> ?n + 1)) cards)"
      by (auto simp: Let_def key_at_def)
    from Cons.IH [OF this] obtain b n
      where "k = key_at b n" "or_else ((counts(?b \<mapsto> ?n + 1)) b) 0 \<le> n" by blast
    then show ?thesis by (intro exI [of _ b] exI [of _ n]) (auto split: if_splits)
  qed blast
qed simp

lemma instances_distinct: "distinct (map snd (draftCardInstancesFrom counts cards))"
proof (induction cards arbitrary: counts)
  case (Cons c cards)
  let ?b = "draftCardKey c" and ?n = "or_else (counts (draftCardKey c)) 0"
  have "key_at ?b ?n \<notin> snd ` set (draftCardInstancesFrom (counts(?b \<mapsto> ?n + 1)) cards)"
    by (auto dest!: instance_keys simp: key_at_inj)
  with Cons.IH show ?case by (simp add: Let_def key_at_def)
qed simp

lemma instances_cards: "map fst (draftCardInstancesFrom counts cards) = cards"
  by (induction cards arbitrary: counts) (simp_all add: Let_def)

text \<open>The cards of a composition are numbered as the cards of a hand are.\<close>

lemma composition_keys_are_hand_keys:
  "map ccv_key (buildCardViewsFrom counts (List.enumerate n cards)) = map he_key (buildEntriesFrom counts i cards)"
proof (induction cards arbitrary: counts n i)
  case (Cons c cards)
  have "compositionCardKey c = handCardKey c"
    by (simp add: compositionCardKey_def handCardKey_def shown_or_def)
  with Cons.IH show ?case by (simp add: Let_def)
qed simp

text \<open>C39: The keys of the cards shown on the table are unique, among the cards of a draft and among
  those of a composition, also with equal cards, and every card is shown.\<close>

theorem shown_keys_distinct:
  "distinct (map snd (draftCardInstances cards)) \<and> map fst (draftCardInstances cards) = cards \<and>
   distinct (map ccv_key (buildCompositionCardViews cards)) \<and>
   map ccv_card (buildCompositionCardViews cards) = cards"
proof -
  have "map snd (map (\<lambda>v. (ccv_index v, ccv_card v)) (buildCompositionCardViews cards)) = cards"
    unfolding buildCompositionCardViews_def card_views by simp
  then have "map ccv_card (buildCompositionCardViews cards) = cards" by (simp add: comp_def)
  then show ?thesis
    using composition_keys_are_hand_keys [of "\<lambda>_. None" 0 cards 0] build_keys_distinct [of cards]
    by (simp add: draftCardInstances_def instances_distinct instances_cards buildCompositionCardViews_def
        buildHandEntries_def)
qed

end
