(* ===== verification/Results.thy ===== *)
theory Results
  imports SpectatorPreview BoardPlay "HOL-Library.Product_Lexorder"
begin

text \<open>
  The results of a round or a game (\<open>game-results-state.ts\<close>, \<open>game-results-view.tsx\<close>): what a score
  shows in each phase, the ranking, the gradual count of a number, and the timed reveal of the
  scores of the players, one after the other.
\<close>

section \<open>Scores\<close>

datatype ResultScorePhase = PreviousPhase | RoundPhase | AdjustedPhase

record ResultScore =
  rs_displayedTotal :: int
  rs_displayedGained :: int
  rs_hasAdjustment :: bool
  rs_isShowingOverHundred :: bool
  rs_isShowingAdjustment :: bool
  rs_unadjustedTotal :: int

definition resultScoreState :: "PlayerStateSnapshot \<Rightarrow> ResultScorePhase \<Rightarrow> ResultScore" where
  "resultScoreState player phase =
     (let unadjustedTotal = or_else (ps_unadjustedTotalPoints player) (ps_totalPoints player);
          previousTotal = max 0 (unadjustedTotal - ps_pointsGained player);
          hasAdjustment = (unadjustedTotal > 100 \<and> unadjustedTotal \<noteq> ps_totalPoints player)
      in \<lparr>rs_displayedTotal = (case phase of PreviousPhase \<Rightarrow> previousTotal | RoundPhase \<Rightarrow> unadjustedTotal
              | AdjustedPhase \<Rightarrow> ps_totalPoints player),
          rs_displayedGained = (if phase = PreviousPhase then 0 else ps_pointsGained player),
          rs_hasAdjustment = hasAdjustment,
          rs_isShowingOverHundred = (hasAdjustment \<and> phase = RoundPhase),
          rs_isShowingAdjustment = (hasAdjustment \<and> phase = AdjustedPhase),
          rs_unadjustedTotal = unadjustedTotal\<rparr>)"

section \<open>The ranking\<close>

record RankingRow =
  rr_rank :: int
  rr_player :: "PlayerSnapshot option"
  rr_playerState :: PlayerStateSnapshot
  rr_isRoundWinner :: bool

definition playerWithId :: "PlayerSnapshot list \<Rightarrow> string \<Rightarrow> PlayerSnapshot option" where
  "playerWithId players i = List.find (\<lambda>player. pl_playerId player = i) players"

definition seatOf :: "PlayerSnapshot list \<Rightarrow> PlayerStateSnapshot \<Rightarrow> int" where
  "seatOf players playerState =
     (case playerWithId players (ps_playerId playerState) of None \<Rightarrow> 0 | Some player \<Rightarrow> pl_seat player)"

text \<open>\<open>toSorted\<close> is stable and compares the points and, when they are equal, the seats.\<close>

definition rankingKey :: "PlayerSnapshot list \<Rightarrow> ResultScorePhase \<Rightarrow> PlayerStateSnapshot \<Rightarrow> int \<times> int" where
  "rankingKey players phase playerState =
     (rs_displayedTotal (resultScoreState playerState phase), seatOf players playerState)"

definition rankingRows :: "GameSnapshot \<Rightarrow> PlayerSnapshot list \<Rightarrow> ResultScorePhase \<Rightarrow> RankingRow list" where
  "rankingRows game players phase =
     (let roundWinnerPlayerId = map_option ps_playerId (js_nth (game_players game) (game_roundWinnerIndex game))
      in map (\<lambda>(index, playerState).
            \<lparr>rr_rank = int index + 1, rr_player = playerWithId players (ps_playerId playerState),
             rr_playerState = playerState,
             rr_isRoundWinner = (Some (ps_playerId playerState) = roundWinnerPlayerId)\<rparr>)
          (List.enumerate 0 (sort_key (rankingKey players phase) (game_players game))))"

section \<open>Counting a number gradually\<close>

text \<open>The effect of \<open>GradualScoreNumber\<close>: the variable of the interval, the displayed value and whether
  the interval was cleared; a cleared interval no longer ticks.\<close>

record GradualState =
  gr_currentValue :: int
  gr_displayedValue :: int
  gr_cleared :: bool

definition gradualStart :: "int \<Rightarrow> GradualState" where
  "gradualStart from = \<lparr>gr_currentValue = from, gr_displayedValue = from, gr_cleared = False\<rparr>"

definition gradualTick :: "int \<Rightarrow> int \<Rightarrow> GradualState \<Rightarrow> GradualState" where
  "gradualTick from value s =
     (if gr_cleared s then s
      else (let direction = (if from < value then 1 else -1);
                nextValue = gr_currentValue s + direction;
                hasReachedTarget = ((0 < direction \<and> value \<le> nextValue) \<or> (direction < 0 \<and> nextValue \<le> value));
                currentValue = (if hasReachedTarget then value else nextValue)
            in \<lparr>gr_currentValue = currentValue, gr_displayedValue = currentValue, gr_cleared = hasReachedTarget\<rparr>))"

section \<open>The reveal\<close>

datatype TimelinePhase = Shown ResultScorePhase | Counting | Adjusting

text \<open>The numbers a row shows in a phase: where the total counts from, and the score it shows.\<close>

definition shownScorePhase :: "TimelinePhase \<Rightarrow> ResultScorePhase" where
  "shownScorePhase phase = (case phase of Counting \<Rightarrow> RoundPhase | Adjusting \<Rightarrow> AdjustedPhase | Shown p \<Rightarrow> p)"

definition countsFrom :: "PlayerStateSnapshot \<Rightarrow> TimelinePhase \<Rightarrow> int" where
  "countsFrom player phase =
     rs_displayedTotal (resultScoreState player (if phase = Adjusting then RoundPhase else PreviousPhase))"

definition scoreTimeline :: "GameSnapshot \<Rightarrow> PlayerSnapshot list \<Rightarrow> (string \<times> bool) list" where
  "scoreTimeline game players =
     List.map_filter (\<lambda>row.
         let playerState = rr_playerState row;
             previous = rs_displayedTotal (resultScoreState playerState PreviousPhase);
             round' = rs_displayedTotal (resultScoreState playerState RoundPhase);
             adjusted = rs_displayedTotal (resultScoreState playerState AdjustedPhase)
         in if previous \<noteq> round' \<or> round' \<noteq> adjusted then Some (ps_playerId playerState, round' \<noteq> adjusted) else None)
       (rankingRows game players PreviousPhase)"

definition scoreValuesKey :: "PlayerStateSnapshot list \<Rightarrow> string" where
  "scoreValuesKey gamePlayers =
     concat (map (\<lambda>player. ps_playerId player @ '':'' @ js_show (ps_totalPoints player) @ '':''
        @ js_show (ps_pointsGained player) @ '':''
        @ (case ps_unadjustedTotalPoints player of None \<Rightarrow> [] | Some n \<Rightarrow> js_show n) @ ''|'') gamePlayers)"

definition show_bool :: "bool \<Rightarrow> string" where
  "show_bool b = (if b then ''true'' else ''false'')"

definition scoreRevealKey :: "GameSnapshot \<Rightarrow> bool \<Rightarrow> string" where
  "scoreRevealKey game shouldReduceMotion = js_show (game_round game) @ '':'' @ show_bool shouldReduceMotion"

definition scoreTimelineKey :: "GameSnapshot \<Rightarrow> bool \<Rightarrow> bool \<Rightarrow> string" where
  "scoreTimelineKey game shouldReduceMotion winnerTakeover =
     scoreRevealKey game shouldReduceMotion @ '':'' @ scoreValuesKey (game_players game) @ '':''
       @ (if winnerTakeover then ''paused'' else ''active'')"

type_synonym Phases = "(string \<times> TimelinePhase) list"

definition adjustedScorePhases :: "PlayerStateSnapshot list \<Rightarrow> Phases" where
  "adjustedScorePhases gamePlayers =
     foldl (\<lambda>phases player. AList.update (ps_playerId player) (Shown AdjustedPhase) phases) [] gamePlayers"

record ScoreRevealState =
  reveal_key :: string
  reveal_phases :: Phases
  reveal_hasReordered :: bool

definition freshReveal :: "string \<Rightarrow> ScoreRevealState" where
  "freshReveal key = \<lparr>reveal_key = key, reveal_phases = [], reveal_hasReordered = False\<rparr>"

text \<open>What a timer does when it fires.\<close>

datatype RevealAction = SetPhase string TimelinePhase | RevealAll

definition revealStep :: "GameSnapshot \<Rightarrow> string \<Rightarrow> RevealAction \<Rightarrow> ScoreRevealState \<Rightarrow> ScoreRevealState" where
  "revealStep game key action current =
     (case action of
        SetPhase scorePlayerId phase \<Rightarrow>
          \<lparr>reveal_key = key,
           reveal_phases = AList.update scorePlayerId phase (if reveal_key current = key then reveal_phases current else []),
           reveal_hasReordered = False\<rparr>
      | RevealAll \<Rightarrow>
          \<lparr>reveal_key = key, reveal_phases = adjustedScorePhases (game_players game), reveal_hasReordered = True\<rparr>)"

definition SCORE_REVEAL_DELAY_MS :: int where "SCORE_REVEAL_DELAY_MS = 700"
definition SCORE_REVEAL_STEP_MS :: int where "SCORE_REVEAL_STEP_MS = 1000"
definition SCORE_COUNT_DURATION_MS :: int where "SCORE_COUNT_DURATION_MS = 620"
definition SCORE_ADJUSTMENT_HOLD_MS :: int where "SCORE_ADJUSTMENT_HOLD_MS = 180"
definition SCORE_ADJUSTMENT_COUNT_DURATION_MS :: int where "SCORE_ADJUSTMENT_COUNT_DURATION_MS = 520"
definition SCORE_REVEAL_HANDOFF_MS :: int where "SCORE_REVEAL_HANDOFF_MS = 100"
definition RANKING_REORDER_DELAY_MS :: int where "RANKING_REORDER_DELAY_MS = 500"

definition revealTimers :: "int \<Rightarrow> string \<times> bool \<Rightarrow> (int \<times> RevealAction) list" where
  "revealTimers revealAt = (\<lambda>(scorePlayerId, hasAdjustment).
     let roundAt = revealAt + SCORE_COUNT_DURATION_MS;
         adjustingAt = roundAt + SCORE_ADJUSTMENT_HOLD_MS;
         adjustedAt = (if hasAdjustment then adjustingAt + SCORE_ADJUSTMENT_COUNT_DURATION_MS
           else revealAt + SCORE_COUNT_DURATION_MS + SCORE_ADJUSTMENT_HOLD_MS)
     in [(revealAt, SetPhase scorePlayerId Counting), (roundAt, SetPhase scorePlayerId (Shown RoundPhase))] @
        (if hasAdjustment then [(adjustingAt, SetPhase scorePlayerId Adjusting)] else []) @
        [(adjustedAt, SetPhase scorePlayerId (Shown AdjustedPhase))])"

definition adjustedAtOf :: "int \<Rightarrow> bool \<Rightarrow> int" where
  "adjustedAtOf revealAt hasAdjustment =
     revealAt + SCORE_COUNT_DURATION_MS + SCORE_ADJUSTMENT_HOLD_MS
       + (if hasAdjustment then SCORE_ADJUSTMENT_COUNT_DURATION_MS else 0)"

definition nextRevealAtOf :: "int \<Rightarrow> bool \<Rightarrow> int" where
  "nextRevealAtOf revealAt hasAdjustment =
     (if hasAdjustment then adjustedAtOf revealAt hasAdjustment + SCORE_REVEAL_HANDOFF_MS
      else revealAt + SCORE_REVEAL_STEP_MS)"

text \<open>The loop: the timers of the players and, at the end, the timer that reveals everything.\<close>

fun scheduleFrom :: "int \<Rightarrow> int \<Rightarrow> (string \<times> bool) list \<Rightarrow> (int \<times> RevealAction) list" where
  "scheduleFrom nextRevealAt finalScoreAt [] = [(finalScoreAt + RANKING_REORDER_DELAY_MS, RevealAll)]"
| "scheduleFrom nextRevealAt finalScoreAt ((scorePlayerId, hasAdjustment) # timeline) =
     revealTimers nextRevealAt (scorePlayerId, hasAdjustment) @
     scheduleFrom (nextRevealAtOf nextRevealAt hasAdjustment) (adjustedAtOf nextRevealAt hasAdjustment) timeline"

definition scheduleScoreReveal :: "GameSnapshot \<Rightarrow> PlayerSnapshot list \<Rightarrow> (int \<times> RevealAction) list" where
  "scheduleScoreReveal game players =
     scheduleFrom SCORE_REVEAL_DELAY_MS SCORE_REVEAL_DELAY_MS (scoreTimeline game players)"

text \<open>The timers that fired by time \<open>t\<close>, in the order they fire: by time, and by registration.\<close>

definition firedBy :: "int \<Rightarrow> (int \<times> RevealAction) list \<Rightarrow> RevealAction list" where
  "firedBy t timers = map snd (filter (\<lambda>(at, _). at \<le> t) (sort_key fst timers))"

definition revealAfter :: "GameSnapshot \<Rightarrow> PlayerSnapshot list \<Rightarrow> string \<Rightarrow> int \<Rightarrow> ScoreRevealState \<Rightarrow> ScoreRevealState" where
  "revealAfter game players key t initial =
     fold (revealStep game key) (firedBy t (scheduleScoreReveal game players)) initial"

text \<open>The state a render works with.\<close>

definition revealStateOf :: "GameSnapshot \<Rightarrow> bool \<Rightarrow> bool \<Rightarrow> ScoreRevealState \<Rightarrow> ScoreRevealState" where
  "revealStateOf game shouldReduceMotion winnerTakeover scoreReveal =
     (let key = scoreTimelineKey game shouldReduceMotion winnerTakeover
      in if winnerTakeover then freshReveal key
         else if shouldReduceMotion
           then \<lparr>reveal_key = key, reveal_phases = adjustedScorePhases (game_players game), reveal_hasReordered = True\<rparr>
         else if reveal_key scoreReveal = key then scoreReveal else freshReveal key)"

definition scorePhaseOf ::
  "bool \<Rightarrow> string set \<Rightarrow> ScoreRevealState \<Rightarrow> string \<Rightarrow> TimelinePhase" where
  "scorePhaseOf shouldReduceMotion scorePlayerIds revealState i =
     (if shouldReduceMotion then Shown AdjustedPhase
      else if i \<in> scorePlayerIds then or_else (map_of (reveal_phases revealState) i) (Shown PreviousPhase)
      else Shown AdjustedPhase)"

definition visibleRows :: "GameSnapshot \<Rightarrow> PlayerSnapshot list \<Rightarrow> bool \<Rightarrow> ScoreRevealState \<Rightarrow> RankingRow list" where
  "visibleRows game players shouldReduceMotion revealState =
     rankingRows game players
       (if shouldReduceMotion \<or> reveal_hasReordered revealState then AdjustedPhase else PreviousPhase)"

definition keyedCards :: "CardSnapshot list \<Rightarrow> (CardSnapshot \<times> string) list" where
  "keyedCards cards = draftCardInstances cards"

section \<open>The winner and the texts\<close>

definition conclusionKind :: "RoomSnapshot option \<Rightarrow> ConclusionKind option" where
  "conclusionKind room = map_option concl_kind (Option.bind room room_conclusion)"

definition winnerOf :: "RoomSnapshot option \<Rightarrow> GameSnapshot \<Rightarrow> PlayerSnapshot list \<Rightarrow> PlayerSnapshot option" where
  "winnerOf room game players =
     (let winnerId = or_option (Option.bind (Option.bind room room_conclusion) concl_winnerPlayerId)
            (map_option ps_playerId (js_nth (game_players game) (game_roundWinnerIndex game)))
      in List.find (\<lambda>player. Some (pl_playerId player) = winnerId) players)"

definition isGameOver :: "RoomSnapshot option \<Rightarrow> bool" where
  "isGameOver room \<longleftrightarrow> map_option room_phase room = Some ''game_over''"

definition resultTitle :: "RoomSnapshot option \<Rightarrow> string" where
  "resultTitle room =
     (if conclusionKind room = Some TechnicalAbort then ''game_aborted''
      else if conclusionKind room = Some MutualEnd then ''game_ended''
      else if isGameOver room then ''game_finished'' else ''round_complete'')"

text \<open>The second component is the name in the text; \<open>None\<close> is the text for an unknown player.\<close>

definition resultDescription ::
  "RoomSnapshot option \<Rightarrow> PlayerSnapshot option \<Rightarrow> string \<times> string option" where
  "resultDescription room winner =
     (if conclusionKind room = Some TechnicalAbort then (''ended_reported_problem'', None)
      else if conclusionKind room = Some MutualEnd then (''ended_by_agreement_description'', None)
      else if conclusionKind room = Some ForfeitEnd then (''wins_by_forfeit'', map_option pl_name winner)
      else if isGameOver room then (''wins_game'', map_option pl_name winner)
      else (''won_round'', map_option pl_name winner))"

definition resultBadge :: "RoomSnapshot option \<Rightarrow> string" where
  "resultBadge room =
     (if conclusionKind room = Some TechnicalAbort then ''aborted''
      else if conclusionKind room = Some MutualEnd then ''no_winner''
      else if isGameOver room then ''final'' else ''complete'')"

definition winnerTakeoverKey ::
  "RoomSnapshot option \<Rightarrow> GameSnapshot \<Rightarrow> PlayerSnapshot option \<Rightarrow> string option" where
  "winnerTakeoverKey room game winner =
     (case winner of
        None \<Rightarrow> None
      | Some w \<Rightarrow>
          (if isGameOver room
           then Some ((case room of None \<Rightarrow> ''game'' | Some r \<Rightarrow> room_code r) @ '':'' @ js_show (game_round game)
             @ '':'' @ pl_playerId w)
           else None))"

definition winnerTakeover :: "string option \<Rightarrow> string option \<Rightarrow> bool" where
  "winnerTakeover takeoverKey dismissedKey \<longleftrightarrow> takeoverKey \<noteq> None \<and> takeoverKey \<noteq> dismissedKey"

text \<open>The effect that celebrates a won round: whether it fires, and the new value of the ref.\<close>

definition celebrateRound ::
  "RoomSnapshot option \<Rightarrow> GameSnapshot \<Rightarrow> bool \<Rightarrow> PlayerSnapshot option \<Rightarrow> string \<Rightarrow> string option \<Rightarrow>
     bool \<times> string option" where
  "celebrateRound room game shouldReduceMotion winner playerId celebratedRound =
     (let key = scoreRevealKey game shouldReduceMotion;
          isWinner = (map_option pl_playerId winner = Some playerId)
      in if isGameOver room \<or> \<not> isWinner \<or> celebratedRound = Some key then (False, celebratedRound)
         else (True, Some key))"

section \<open>The ranking is by points\<close>

lemma ranking_states:
  "map rr_playerState (rankingRows game players phase) = sort_key (rankingKey players phase) (game_players game)"
  by (simp add: rankingRows_def Let_def comp_def split_beta)

lemma ranks_upto: "map (\<lambda>i. int i + 1) [0..<n] = [1..int n]"
  by (induction n) (simp_all add: upto_rec2)

text \<open>The final ranking lists every player once, numbered from 1, the fewer points the better, and at
  equal points by seat.\<close>

theorem ranking_by_points:
  "mset (map rr_playerState (rankingRows game players AdjustedPhase)) = mset (game_players game) \<and>
   map rr_rank (rankingRows game players AdjustedPhase) = [1..int (length (game_players game))] \<and>
   sorted (map (\<lambda>row. (ps_totalPoints (rr_playerState row), seatOf players (rr_playerState row)))
     (rankingRows game players AdjustedPhase))"
proof (intro conjI)
  show "mset (map rr_playerState (rankingRows game players AdjustedPhase)) = mset (game_players game)"
    by (simp only: ranking_states mset_sort)
  have "map rr_rank (rankingRows game players AdjustedPhase)
      = map (\<lambda>i. int i + 1) (map fst (List.enumerate 0 (sort_key (rankingKey players AdjustedPhase) (game_players game))))"
    by (simp add: rankingRows_def Let_def comp_def split_beta del: map_fst_enumerate)
  also have "\<dots> = [1..int (length (game_players game))]" by (simp add: ranks_upto)
  finally show "map rr_rank (rankingRows game players AdjustedPhase) = [1..int (length (game_players game))]" .
  have "map (\<lambda>row. (ps_totalPoints (rr_playerState row), seatOf players (rr_playerState row)))
      (rankingRows game players AdjustedPhase)
    = map (rankingKey players AdjustedPhase) (map rr_playerState (rankingRows game players AdjustedPhase))"
    by (simp add: rankingKey_def resultScoreState_def Let_def)
  then show "sorted (map (\<lambda>row. (ps_totalPoints (rr_playerState row), seatOf players (rr_playerState row)))
     (rankingRows game players AdjustedPhase))"
    by (simp only: ranking_states sorted_sort_key)
qed

section \<open>Counting ends at the value\<close>

lemma gradual_cleared: "gr_cleared s \<Longrightarrow> gradualTick from value s = s"
  by (simp add: gradualTick_def)

lemma gradual_up:
  "from < value \<Longrightarrow> n < nat (value - from) \<Longrightarrow>
     (gradualTick from value ^^ n) (gradualStart from)
       = \<lparr>gr_currentValue = from + int n, gr_displayedValue = from + int n, gr_cleared = False\<rparr>"
  by (induction n) (auto simp: gradualStart_def gradualTick_def Let_def)

lemma gradual_down:
  "value < from \<Longrightarrow> n < nat (from - value) \<Longrightarrow>
     (gradualTick from value ^^ n) (gradualStart from)
       = \<lparr>gr_currentValue = from - int n, gr_displayedValue = from - int n, gr_cleared = False\<rparr>"
  by (induction n) (auto simp: gradualStart_def gradualTick_def Let_def)

text \<open>The interval that counts a score runs exactly as many ticks as the numbers are apart, moves by
  one each time, and stops at the value; a cleared interval keeps showing it.\<close>

theorem gradual_count_ends:
  assumes "from \<noteq> value" and "d = nat \<bar>value - from\<bar>"
  shows "(\<forall>n < d. \<not> gr_cleared ((gradualTick from value ^^ n) (gradualStart from)) \<and>
      \<bar>value - gr_displayedValue ((gradualTick from value ^^ n) (gradualStart from))\<bar> = int (d - n)) \<and>
    (\<forall>m. gr_cleared ((gradualTick from value ^^ (d + m)) (gradualStart from)) \<and>
      gr_displayedValue ((gradualTick from value ^^ (d + m)) (gradualStart from)) = value)"
proof
  have below: "(gradualTick from value ^^ n) (gradualStart from) =
      (let v = (if from < value then from + int n else from - int n)
       in \<lparr>gr_currentValue = v, gr_displayedValue = v, gr_cleared = False\<rparr>)" if "n < d" for n
    using that assms gradual_up [of "from" "value" n] gradual_down [of "value" "from" n] by (auto simp: Let_def)
  show "\<forall>n < d. \<not> gr_cleared ((gradualTick from value ^^ n) (gradualStart from)) \<and>
      \<bar>value - gr_displayedValue ((gradualTick from value ^^ n) (gradualStart from))\<bar> = int (d - n)"
    using assms by (auto simp: below Let_def of_nat_diff)
  have "0 < d" using assms by simp
  then obtain k where k: "d = Suc k" using gr0_conv_Suc by blast
  have at_end: "(gradualTick from value ^^ d) (gradualStart from)
      = \<lparr>gr_currentValue = value, gr_displayedValue = value, gr_cleared = True\<rparr>"
  proof -
    have "int k + 1 = \<bar>value - from\<bar>" using assms(2) k by simp
    then show ?thesis using below [of k] by (auto simp: k gradualTick_def Let_def)
  qed
  have "(gradualTick from value ^^ (d + m)) (gradualStart from)
      = \<lparr>gr_currentValue = value, gr_displayedValue = value, gr_cleared = True\<rparr>" for m
    by (induction m) (simp_all add: at_end gradual_cleared)
  then show "\<forall>m. gr_cleared ((gradualTick from value ^^ (d + m)) (gradualStart from)) \<and>
      gr_displayedValue ((gradualTick from value ^^ (d + m)) (gradualStart from)) = value" by simp
qed

theorem gradual_count_ends_witness:
  "gr_displayedValue ((gradualTick 12 9 ^^ 3) (gradualStart 12)) = 9 \<and>
   \<not> gr_cleared ((gradualTick 12 9 ^^ 2) (gradualStart 12))"
proof -
  have d: "(12::int) \<noteq> 9" "3 = nat \<bar>9 - (12::int)\<bar>" by simp_all
  show ?thesis using gradual_count_ends [OF d] by (metis add.right_neutral less_add_one numeral_2_eq_2 numeral_3_eq_3 lessI)
qed

section \<open>The scores are revealed one after the other\<close>

definition moving :: "ScoreRevealState \<Rightarrow> string \<Rightarrow> bool" where
  "moving s i \<longleftrightarrow> map_of (reveal_phases s) i \<in> {Some Counting, Some (Shown RoundPhase), Some Adjusting}"

definition settled :: "string \<Rightarrow> ScoreRevealState \<Rightarrow> bool" where
  "settled key s \<longleftrightarrow> reveal_key s = key \<and> (\<forall>i. \<not> moving s i)"

definition one_moving :: "ScoreRevealState \<Rightarrow> bool" where
  "one_moving s \<longleftrightarrow> (\<forall>i j. moving s i \<and> moving s j \<longrightarrow> i = j)"

lemma set_phase_moving:
  "moving (revealStep game (reveal_key s) (SetPhase i phase) s) j
     \<longleftrightarrow> (if j = i then phase \<in> {Counting, Shown RoundPhase, Adjusting} else moving s j)"
  by (simp add: moving_def revealStep_def update_conv)

lemma set_phase_key [simp]: "reveal_key (revealStep game key action s) = key"
  by (simp add: revealStep_def split: RevealAction.split)

text \<open>The timers of one player move only that player, and leave it settled.\<close>

lemma player_timers:
  assumes "settled key s"
  shows "one_moving (fold (revealStep game key) (take n (map snd (revealTimers a p))) s)"
    and "settled key (fold (revealStep game key) (map snd (revealTimers a p)) s)"
proof -
  have m: "\<not> moving (revealStep game key (SetPhase i phase) s') j" if "\<not> moving s' j" "j \<noteq> i" "reveal_key s' = key"
    for s' i j phase
    using that set_phase_moving [of game s' i phase j] by simp
  have others: "\<not> moving (fold (revealStep game key) xs s') j \<and> reveal_key (fold (revealStep game key) xs s') = key"
    if "\<forall>x \<in> set xs. \<exists>phase. x = SetPhase (fst p) phase" "\<not> moving s' j" "j \<noteq> fst p" "reveal_key s' = key" for xs s' j
    using that
  proof (induction xs arbitrary: s')
    case (Cons x xs)
    then obtain phase where "x = SetPhase (fst p) phase" by auto
    with Cons m [of s' j "fst p" phase] show ?case by simp
  qed simp
  have acts: "\<forall>x \<in> set (map snd (revealTimers a p)). \<exists>phase. x = SetPhase (fst p) phase"
    by (cases p) (auto simp: revealTimers_def Let_def)
  have s: "reveal_key s = key" "\<not> moving s j" for j using assms by (simp_all add: settled_def)
  have still: "\<not> moving (fold (revealStep game key) (take n (map snd (revealTimers a p))) s) j" if "j \<noteq> fst p" for j n
    using others [OF _ s(2) that s(1)] acts set_take_subset by (metis subsetD)
  then show "one_moving (fold (revealStep game key) (take n (map snd (revealTimers a p))) s)"
    unfolding one_moving_def by metis
  obtain xs where xs: "map snd (revealTimers a p) = xs @ [SetPhase (fst p) (Shown AdjustedPhase)]"
    by (cases p) (auto simp: revealTimers_def Let_def)
  have "reveal_key (fold (revealStep game key) xs s) = key"
    by (cases xs rule: rev_cases) (simp_all add: s)
  then have own: "\<not> moving (fold (revealStep game key) (map snd (revealTimers a p)) s) (fst p)"
    using set_phase_moving [of game "fold (revealStep game key) xs s" "fst p" "Shown AdjustedPhase" "fst p"]
    by (simp add: xs)
  have rest: "\<not> moving (fold (revealStep game key) (map snd (revealTimers a p)) s) j" if "j \<noteq> fst p" for j
    using still [OF that, of "length (map snd (revealTimers a p))"] by (simp only: take_all [OF order_refl] not_False_eq_True)
  have "\<not> moving (fold (revealStep game key) (map snd (revealTimers a p)) s) j" for j
    by (cases "j = fst p") (simp only: own not_False_eq_True, rule rest)
  moreover have "reveal_key (fold (revealStep game key) (map snd (revealTimers a p)) s) = key" by (simp add: xs)
  ultimately show "settled key (fold (revealStep game key) (map snd (revealTimers a p)) s)"
    unfolding settled_def by blast
qed

lemma adjusted_phases: "map_of (adjustedScorePhases players) i \<in> {None, Some (Shown AdjustedPhase)}"
proof -
  have "map_of (foldl (\<lambda>phases player. AList.update (ps_playerId player) (Shown AdjustedPhase) phases) ph players) i
      \<in> {map_of ph i, Some (Shown AdjustedPhase)}" for ph
  proof (induction players arbitrary: ph)
    case (Cons player players)
    from Cons.IH [of "AList.update (ps_playerId player) (Shown AdjustedPhase) ph"] show ?case
      by (auto simp: update_conv)
  qed simp
  from this [of "[]"] show ?thesis by (simp add: adjustedScorePhases_def)
qed

lemma schedule_prefix:
  assumes "settled key s"
  shows "one_moving (fold (revealStep game key) (take n (map snd (scheduleFrom a b timeline))) s)"
  using assms
proof (induction timeline arbitrary: s n a b)
  case Nil
  have "\<not> moving (revealStep game key RevealAll s) i" for i
    using adjusted_phases [of "game_players game" i] by (auto simp: moving_def revealStep_def)
  with Nil show ?case by (cases n) (auto simp: one_moving_def settled_def)
next
  case (Cons p timeline)
  let ?ts = "map snd (revealTimers a p)"
  obtain i h where p: "p = (i, h)" by (cases p)
  show ?case
  proof (cases "n \<le> length ?ts")
    case True
    with player_timers(1) [OF Cons.prems, of game n a p] show ?thesis by (simp add: p)
  next
    case False
    with Cons.IH [OF player_timers(2) [OF Cons.prems]] show ?thesis by (simp add: p)
  qed
qed

lemma timers_sorted:
  "b \<le> a \<Longrightarrow> sorted (map fst (scheduleFrom a b timeline)) \<and> (\<forall>x \<in> set (scheduleFrom a b timeline). b \<le> fst x)"
proof (induction timeline arbitrary: a b)
  case Nil
  then show ?case by (simp add: RANKING_REORDER_DELAY_MS_def)
next
  case (Cons p timeline)
  obtain i h where p: "p = (i, h)" by (cases p)
  have next_after: "adjustedAtOf a h \<le> nextRevealAtOf a h"
    by (simp add: adjustedAtOf_def nextRevealAtOf_def SCORE_REVEAL_STEP_MS_def SCORE_COUNT_DURATION_MS_def
        SCORE_ADJUSTMENT_HOLD_MS_def SCORE_REVEAL_HANDOFF_MS_def)
  have "sorted (map fst (revealTimers a p)) \<and> (\<forall>x \<in> set (revealTimers a p). a \<le> fst x \<and> fst x \<le> adjustedAtOf a h)"
    by (simp add: p revealTimers_def Let_def adjustedAtOf_def SCORE_COUNT_DURATION_MS_def
        SCORE_ADJUSTMENT_HOLD_MS_def SCORE_ADJUSTMENT_COUNT_DURATION_MS_def)
  moreover have "a \<le> adjustedAtOf a h"
    by (simp add: adjustedAtOf_def SCORE_COUNT_DURATION_MS_def SCORE_ADJUSTMENT_HOLD_MS_def
        SCORE_ADJUSTMENT_COUNT_DURATION_MS_def)
  ultimately show ?case
    using Cons.IH [OF next_after] Cons.prems by (fastforce simp: p sorted_append)
qed

lemma fired_prefix:
  assumes "sorted (map fst ts)"
  shows "\<exists>n. firedBy t ts = take n (map snd ts)"
proof -
  have "\<exists>n. filter (\<lambda>(at, _). at \<le> t) ts = take n ts"
    using assms
  proof (induction ts)
    case (Cons x ts)
    then obtain n where n: "filter (\<lambda>(at, _). at \<le> t) ts = take n ts" by auto
    show ?case
    proof (cases "fst x \<le> t")
      case True
      then have "filter (\<lambda>(at, _). at \<le> t) (x # ts) = take (Suc n) (x # ts)" using n by (cases x) simp
      then show ?thesis by blast
    next
      case False
      then have "filter (\<lambda>(at, _). at \<le> t) (x # ts) = take 0 (x # ts)"
        using Cons.prems by (cases x) (fastforce simp: filter_empty_conv)
      then show ?thesis by blast
    qed
  qed simp
  then show ?thesis by (auto simp: firedBy_def sort_key_id_if_sorted [OF assms] take_map)
qed

lemma schedule_ends:
  "\<exists>ts t. scheduleFrom a b timeline = ts @ [(t, RevealAll)] \<and> (\<forall>x \<in> set ts. \<exists>i phase. snd x = SetPhase i phase)"
proof (induction timeline arbitrary: a b)
  case (Cons p timeline)
  obtain i h where p: "p = (i, h)" by (cases p)
  from Cons.IH [of "nextRevealAtOf a h" "adjustedAtOf a h"] obtain ts t
    where ts: "scheduleFrom (nextRevealAtOf a h) (adjustedAtOf a h) timeline = ts @ [(t, RevealAll)]"
      "\<forall>x \<in> set ts. \<exists>i phase. snd x = SetPhase i phase" by blast
  have "\<forall>x \<in> set (revealTimers a p). \<exists>i phase. snd x = SetPhase i phase"
    by (simp add: p revealTimers_def Let_def)
  with ts show ?case
    by (intro exI [of _ "revealTimers a p @ ts"] exI [of _ t]) (auto simp: p)
qed simp

lemma set_phases_not_reordered:
  "\<forall>a \<in> set acts. \<exists>i phase. a = SetPhase i phase \<Longrightarrow> \<not> reveal_hasReordered s \<Longrightarrow>
     \<not> reveal_hasReordered (fold (revealStep game key) acts s)"
proof (induction acts arbitrary: s)
  case (Cons a as)
  then obtain i phase where "a = SetPhase i phase" by auto
  with Cons show ?case by (simp add: revealStep_def)
qed simp

definition revealEnd :: "GameSnapshot \<Rightarrow> PlayerSnapshot list \<Rightarrow> int" where
  "revealEnd game players = fst (last (scheduleScoreReveal game players))"

text \<open>At every moment of the reveal the score of at most one player is moving; the ranking is reordered
  exactly from the end of the schedule on, and then every score is the final one.\<close>

theorem scores_revealed_one_by_one:
  assumes "s = revealAfter game players key t (freshReveal key)"
  shows "(moving s i \<and> moving s j \<longrightarrow> i = j) \<and>
    (reveal_hasReordered s \<longleftrightarrow> revealEnd game players \<le> t) \<and>
    (reveal_hasReordered s \<longrightarrow> reveal_phases s = adjustedScorePhases (game_players game))"
proof -
  let ?ts = "scheduleScoreReveal game players"
  have sorted: "sorted (map fst ?ts)" by (simp add: scheduleScoreReveal_def timers_sorted)
  have "settled key (freshReveal key)" by (simp add: settled_def freshReveal_def moving_def)
  with fired_prefix [OF sorted, of t] have "one_moving s"
    unfolding assms revealAfter_def scheduleScoreReveal_def by (metis schedule_prefix)
  moreover obtain ts e where ts: "?ts = ts @ [(e, RevealAll)]" "\<forall>x \<in> set ts. \<exists>i phase. snd x = SetPhase i phase"
    using schedule_ends unfolding scheduleScoreReveal_def by blast
  have end': "revealEnd game players = e" by (simp add: revealEnd_def ts)
  have fired: "firedBy t ?ts = map snd (filter (\<lambda>(at, _). at \<le> t) ts) @ (if e \<le> t then [RevealAll] else [])"
    using sort_key_id_if_sorted [OF sorted] by (simp add: firedBy_def ts(1) del: sort_key_simps)
  have "\<forall>a \<in> set (map snd (filter (\<lambda>(at, _). at \<le> t) ts)). \<exists>i phase. a = SetPhase i phase" using ts(2) by auto
  then have "\<not> reveal_hasReordered (fold (revealStep game key) (map snd (filter (\<lambda>(at, _). at \<le> t) ts)) (freshReveal key))"
    by (rule set_phases_not_reordered) (simp add: freshReveal_def)
  then have "(reveal_hasReordered s \<longleftrightarrow> e \<le> t) \<and> (e \<le> t \<longrightarrow> reveal_phases s = adjustedScorePhases (game_players game))"
    by (simp add: assms revealAfter_def fired) (simp add: revealStep_def)
  ultimately show ?thesis by (simp add: end' one_moving_def)
qed

definition example_results :: GameSnapshot where
  "example_results = (the (bp_game example_board))
     \<lparr>game_players := [\<lparr>ps_playerId = ''ann'', ps_handCount = 0, ps_hand = None, ps_totalPoints = 50,
          ps_pointsGained = 30, ps_unadjustedTotalPoints = Some 110, ps_hasOpened = True, ps_forfeited = False\<rparr>,
        \<lparr>ps_playerId = ''bob'', ps_handCount = 0, ps_hand = None, ps_totalPoints = 40,
          ps_pointsGained = 10, ps_unadjustedTotalPoints = None, ps_hasOpened = True, ps_forfeited = False\<rparr>]\<rparr>"

theorem scores_revealed_one_by_one_witness:
  "moving (revealAfter example_results [] ''k'' 1400 (freshReveal ''k'')) ''bob'' \<and>
   \<not> reveal_hasReordered (revealAfter example_results [] ''k'' 1400 (freshReveal ''k'')) \<and>
   reveal_phases (revealAfter example_results [] ''k'' 4000 (freshReveal ''k''))
     = [(''ann'', Shown AdjustedPhase), (''bob'', Shown AdjustedPhase)]"
proof -
  have e: "revealEnd example_results [] = 3520" by code_simp
  have "reveal_hasReordered (revealAfter example_results [] ''k'' 4000 (freshReveal ''k''))"
    using scores_revealed_one_by_one [OF refl, of example_results "[]" "''k''" 4000] e by simp
  then have "reveal_phases (revealAfter example_results [] ''k'' 4000 (freshReveal ''k''))
      = adjustedScorePhases (game_players example_results)"
    using scores_revealed_one_by_one [OF refl, of example_results "[]" "''k''" 4000] by simp
  moreover have "adjustedScorePhases (game_players example_results)
      = [(''ann'', Shown AdjustedPhase), (''bob'', Shown AdjustedPhase)]" by code_simp
  moreover have "moving (revealAfter example_results [] ''k'' 1400 (freshReveal ''k'')) ''bob''" by code_simp
  ultimately show ?thesis
    using scores_revealed_one_by_one [OF refl, of example_results "[]" "''k''" 1400] e by simp
qed

end
