(* ===== verification/CardTransfer.thy ===== *)
theory CardTransfer
  imports BoardRender
begin

text \<open>
  Which movement of a card to animate between two snapshots of the game (\<open>card-transfer-state.ts\<close>).
\<close>

text \<open>\<open>FACE_DOWN_CARD\<close> is the empty object: a card of which nothing is known.\<close>

definition FACE_DOWN_CARD :: CardSnapshot where
  "FACE_DOWN_CARD = \<lparr>card_rank = None, card_suit = None, card_isJoker = False\<rparr>"

datatype TransferSource = FromDeck | FromDiscard | FromPlayer
datatype TransferTarget = ToDiscard | ToPlayer

record CardTransfer =
  ct_actorPlayerId :: string
  ct_card :: CardSnapshot
  ct_faceDown :: bool
  ct_source :: TransferSource
  ct_target :: TransferTarget

record CompletedCompositionCollection =
  cc_actorPlayerId :: string
  cc_collectedCards :: "CardSnapshot list"
  cc_discardCard :: CardSnapshot
  cc_previousTopDiscard :: "CardSnapshot option"

fun cardListsEqual :: "CardSnapshot list \<Rightarrow> CardSnapshot list \<Rightarrow> bool" where
  "cardListsEqual [] [] = True"
| "cardListsEqual (l # left) (r # right) = (cardsEqual l r \<and> cardListsEqual left right)"
| "cardListsEqual left right = False"

definition playerHandCount :: "GameSnapshot \<Rightarrow> string \<Rightarrow> int option" where
  "playerHandCount game i =
     map_option ps_handCount (List.find (\<lambda>player. ps_playerId player = i) (game_players game))"

definition sameTurn :: "GameSnapshot \<Rightarrow> GameSnapshot \<Rightarrow> bool" where
  "sameTurn previous current \<longleftrightarrow>
     game_round previous = game_round current \<and>
     turn_number (game_turn previous) = turn_number (game_turn current) \<and>
     turn_playerId (game_turn previous) = turn_playerId (game_turn current)"

text \<open>With the difference of the lengths as a natural number: below 2 the result is \<open>None\<close> either way.\<close>

definition inferCompletedCompositionCollection ::
  "GameSnapshot \<Rightarrow> GameSnapshot \<Rightarrow> CompletedCompositionCollection option" where
  "inferCompletedCompositionCollection previous current =
     (let addedCardCount = length (game_discardPile current) - length (game_discardPile previous)
      in case (turn_playerId (game_turn previous), game_discardPile current) of
           (Some actorPlayerId, discardCard # _) \<Rightarrow>
             (if actorPlayerId = [] \<or> addedCardCount \<le> 1 then None
              else if \<not> cardListsEqual (drop addedCardCount (game_discardPile current)) (game_discardPile previous)
                then None
              else Some \<lparr>cc_actorPlayerId = actorPlayerId,
                cc_collectedCards = drop 1 (take addedCardCount (game_discardPile current)),
                cc_discardCard = discardCard, cc_previousTopDiscard = js_nth (game_discardPile previous) 0\<rparr>)
         | _ \<Rightarrow> None)"

text \<open>The conditions of a draw by another player.\<close>

definition drewCard :: "GameSnapshot \<Rightarrow> GameSnapshot \<Rightarrow> string \<Rightarrow> string \<Rightarrow> bool" where
  "drewCard previous current viewerPlayerId currentActorId \<longleftrightarrow>
     currentActorId \<noteq> [] \<and> currentActorId \<noteq> viewerPlayerId \<and> sameTurn previous current \<and>
     \<not> turn_hasDrawn (game_turn previous) \<and> turn_hasDrawn (game_turn current) \<and>
     playerHandCount current currentActorId = Some (or_else (playerHandCount previous currentActorId) 0 + 1)"

definition drawSourceOf :: "GameSnapshot \<Rightarrow> GameSnapshot \<Rightarrow> DrawSource" where
  "drawSourceOf previous current =
     or_else (Option.bind (game_turnActivity current) ta_drawSource)
       (if game_drawPileCount current < game_drawPileCount previous then DrawDeck else DrawDiscard)"

definition placedTransfer :: "GameSnapshot \<Rightarrow> GameSnapshot \<Rightarrow> string \<Rightarrow> CardTransfer option" where
  "placedTransfer previous current viewerPlayerId =
     (case (turn_playerId (game_turn previous), js_nth (game_discardPile current) 0) of
        (Some previousActorId, Some placedDiscard) \<Rightarrow>
          (if previousActorId \<noteq> [] \<and> previousActorId \<noteq> viewerPlayerId \<and> \<not> sameTurn previous current \<and>
              length (game_discardPile current) > length (game_discardPile previous)
           then Some \<lparr>ct_actorPlayerId = previousActorId, ct_card = placedDiscard, ct_faceDown = False,
             ct_source = FromPlayer, ct_target = ToDiscard\<rparr>
           else None)
      | _ \<Rightarrow> None)"

definition inferCardTransfer :: "GameSnapshot \<Rightarrow> GameSnapshot \<Rightarrow> string \<Rightarrow> CardTransfer option" where
  "inferCardTransfer previous current viewerPlayerId =
     (case turn_playerId (game_turn current) of
        Some currentActorId \<Rightarrow>
          (if drewCard previous current viewerPlayerId currentActorId
           then (if drawSourceOf previous current = DrawDiscard
             then map_option (\<lambda>card'. \<lparr>ct_actorPlayerId = currentActorId, ct_card = card', ct_faceDown = False,
                    ct_source = FromDiscard, ct_target = ToPlayer\<rparr>) (js_nth (game_discardPile previous) 0)
             else Some \<lparr>ct_actorPlayerId = currentActorId, ct_card = FACE_DOWN_CARD, ct_faceDown = True,
                    ct_source = FromDeck, ct_target = ToPlayer\<rparr>)
           else placedTransfer previous current viewerPlayerId)
      | None \<Rightarrow> placedTransfer previous current viewerPlayerId)"

section \<open>Properties\<close>

text \<open>C32: A transfer never shows what the viewer may not see, and never the viewer's own move: a card from
  the deck is face down and blank, an open card lay on top of the discard pile before or lies there
  now, and the acting player is another one.\<close>

theorem transfers_hide_cards:
  "case inferCardTransfer previous current viewerPlayerId of
     None \<Rightarrow> True
   | Some t \<Rightarrow>
       ct_actorPlayerId t \<noteq> viewerPlayerId \<and>
       (ct_faceDown t = (ct_source t = FromDeck)) \<and>
       (if ct_faceDown t then ct_card t = FACE_DOWN_CARD
        else ct_card t \<in> set (take 1 (game_discardPile previous) @ take 1 (game_discardPile current)))"
proof -
  have top: "cd \<in> set (take 1 pile)" if "js_nth pile 0 = Some cd" for pile and cd :: CardSnapshot
    using that by (cases pile) (auto simp: js_nth_def)
  then show ?thesis
    by (auto simp: inferCardTransfer_def placedTransfer_def drewCard_def split: option.splits)
qed

lemma cardListsEqual_iff: "cardListsEqual xs ys \<longleftrightarrow> list_all2 cardsEqual xs ys"
  by (induction xs ys rule: cardListsEqual.induct) auto

text \<open>A collection of completed compositions is reported exactly when the discard pile is the former
  one with the discarded card on top and at least one further card in between, and it names them.\<close>

theorem collection_explains_pile:
  "inferCompletedCompositionCollection previous current = Some c \<longleftrightarrow>
     turn_playerId (game_turn previous) = Some (cc_actorPlayerId c) \<and> cc_actorPlayerId c \<noteq> [] \<and>
     cc_collectedCards c \<noteq> [] \<and> cc_previousTopDiscard c = js_nth (game_discardPile previous) 0 \<and>
     (\<exists>rest. game_discardPile current = cc_discardCard c # cc_collectedCards c @ rest \<and>
        list_all2 cardsEqual rest (game_discardPile previous))"
    (is "?l = ?r")
proof
  assume ?l
  then obtain top pile k where top: "game_discardPile current = top # pile"
    and k: "length (game_discardPile current) - length (game_discardPile previous) = Suc k" and "0 < k"
    and eq: "cardListsEqual (drop k pile) (game_discardPile previous)"
    and c: "turn_playerId (game_turn previous) = Some (cc_actorPlayerId c)" "cc_actorPlayerId c \<noteq> []"
      "cc_previousTopDiscard c = js_nth (game_discardPile previous) 0" "cc_discardCard c = top"
      "cc_collectedCards c = take k pile"
    by (auto simp: inferCompletedCompositionCollection_def Let_def not_le Suc_less_eq2 numeral_2_eq_2
        split: option.splits list.splits if_splits)
  from k top \<open>0 < k\<close> have "pile \<noteq> []" by auto
  with \<open>0 < k\<close> top eq c show ?r
    by (auto simp: cardListsEqual_iff intro!: exI [of _ "drop k pile"])
next
  assume ?r
  then obtain rest where pile: "game_discardPile current = cc_discardCard c # cc_collectedCards c @ rest"
    and rest: "list_all2 cardsEqual rest (game_discardPile previous)" by blast
  with \<open>?r\<close> list_all2_lengthD [OF rest] show ?l
    by (auto simp: inferCompletedCompositionCollection_def Let_def cardListsEqual_iff)
qed

end
