(* ===== verification/DealChoice.thy ===== *)
theory DealChoice
  imports GameTypes JsText HandEntries Machine
begin

text \<open>
  The panel with which the chooser cuts the deck and picks the way of dealing
  (\<open>deal-choice-panel.tsx\<close>): the initial tap order, the cut, the two steps, reordering by drag and
  drop, and the request it sends.
\<close>

definition GAME_DECK_CARD_COUNT :: int where "GAME_DECK_CARD_COUNT = 108"
definition DECK_VISUAL_CARD_COUNT :: int where "DECK_VISUAL_CARD_COUNT = 18"

datatype DealMode = RoundRobin | Tap
datatype DealStep = CutStep | DealStep

definition activeIndexes :: "PlayerSnapshot list \<Rightarrow> int list" where
  "activeIndexes players =
     List.map_filter (\<lambda>(index, player). if pl_forfeited player then None else Some (int index))
       (List.enumerate 0 players)"

definition defaultTapOrder :: "PlayerSnapshot list \<Rightarrow> PendingDealChoiceSnapshot \<Rightarrow> int list" where
  "defaultTapOrder players pendingDealChoice =
     (let active = activeIndexes players
      in case indexOf active (pdc_dealerIndex pendingDealChoice) of
           None \<Rightarrow> active
         | Some dealerPosition \<Rightarrow>
             map (\<lambda>offset. active ! ((dealerPosition + offset + 1) mod length active)) [0..<length active])"

definition dealPlayerPrefix :: string where "dealPlayerPrefix = ''deal-player-''"

definition dealPlayerId :: "int \<Rightarrow> string" where
  "dealPlayerId playerIndex = dealPlayerPrefix @ js_show playerIndex"

text \<open>\<open>text.replace(pattern, '')\<close>: the first occurrence goes.\<close>

fun without_first :: "string \<Rightarrow> string \<Rightarrow> string" where
  "without_first pattern [] = []"
| "without_first pattern (c # cs) =
     (if startsWith (c # cs) pattern then drop (length pattern) (c # cs) else c # without_first pattern cs)"

definition playerIndexFromDealId :: "string \<Rightarrow> int option" where
  "playerIndexFromDealId i = js_Number (without_first dealPlayerPrefix i)"

text \<open>\<open>Number.parseInt(text, 10)\<close>: \<open>None\<close> is \<open>NaN\<close>.\<close>

definition js_parseInt :: "string \<Rightarrow> int option" where
  "js_parseInt s =
     (case take_sign (dropWhile is_js_space s) of
        (negative, t) \<Rightarrow>
          (case take_digits 0 0 t of
             (v, k, rest) \<Rightarrow> if k = 0 then None else Some (if negative then - int v else int v)))"

definition clampCutSize :: "string \<Rightarrow> int \<Rightarrow> int" where
  "clampCutSize rawCutSize maxCutSize =
     (case js_parseInt rawCutSize of None \<Rightarrow> 0 | Some parsed \<Rightarrow> min (max parsed 0) maxCutSize)"

text \<open>\<open>Math.round(c / 108 * 18)\<close> for the whole numbers \<open>c\<close> of the deck, as \<open>\<lfloor>c / 6 + 1 / 2\<rfloor>\<close>.\<close>

definition deckVisualizationLayerCounts :: "int \<Rightarrow> int \<times> int" where
  "deckVisualizationLayerCounts cutSize =
     (let normalizedCutSize = min (max cutSize 0) GAME_DECK_CARD_COUNT
      in if normalizedCutSize = 0 then (0, DECK_VISUAL_CARD_COUNT)
         else (let lifted = max 1 ((normalizedCutSize * DECK_VISUAL_CARD_COUNT * 2 + GAME_DECK_CARD_COUNT)
                     div (GAME_DECK_CARD_COUNT * 2))
               in (lifted, DECK_VISUAL_CARD_COUNT - lifted)))"

text \<open>The pile, the place in the pile and whether a drawn card is the top one of it.\<close>

definition deckCardPlace :: "int \<Rightarrow> int \<Rightarrow> bool \<times> int \<times> bool" where
  "deckCardPlace cutSize index =
     (case deckVisualizationLayerCounts cutSize of
        (lifted, remaining) \<Rightarrow>
          (let isLifted = (remaining \<le> index);
               stackIndex = (if isLifted then index - remaining else index);
               stackSize = (if isLifted then lifted else remaining)
           in (isLifted, stackIndex, stackIndex = stackSize - 1)))"

text \<open>\<open>texts.join(separator)\<close>.\<close>

fun join_with :: "string \<Rightarrow> string list \<Rightarrow> string" where
  "join_with separator [] = []"
| "join_with separator [t] = t"
| "join_with separator (t # ts) = t @ separator @ join_with separator ts"

definition dealChoiceKey :: "PlayerSnapshot list \<Rightarrow> PendingDealChoiceSnapshot \<Rightarrow> string" where
  "dealChoiceKey players pending =
     js_show (pdc_dealerIndex pending) @ '':'' @ js_show (pdc_chooserIndex pending) @ '':'' @
     join_with '','' (map (\<lambda>player. pl_playerId player @ '':'' @ (if pl_forfeited player then ''true'' else ''false'')) players)"

section \<open>The panel\<close>

record DealPanel =
  dp_dealStep :: DealStep
  dp_dealMode :: DealMode
  dp_cutSize :: string
  dp_tapOrder :: "int list"
  dp_sent :: "DealingChoiceRequest list"

definition initialPanel :: "PlayerSnapshot list \<Rightarrow> PendingDealChoiceSnapshot \<Rightarrow> DealPanel" where
  "initialPanel players pending =
     \<lparr>dp_dealStep = CutStep, dp_dealMode = RoundRobin, dp_cutSize = ''0'',
      dp_tapOrder = defaultTapOrder players pending, dp_sent = []\<rparr>"

definition maxCutSizeOf :: "PlayerSnapshot list \<Rightarrow> int" where
  "maxCutSizeOf players =
     max 0 (GAME_DECK_CARD_COUNT - int (length (filter (\<lambda>player. \<not> pl_forfeited player) players)) * 12)"

definition handleTapOrderDragEnd ::
  "(int list \<Rightarrow> nat \<Rightarrow> nat \<Rightarrow> int list) \<Rightarrow> string \<Rightarrow> string option \<Rightarrow> DealPanel \<Rightarrow> DealPanel" where
  "handleTapOrderDragEnd arrayMove activeId overId panel =
     (case overId of
        None \<Rightarrow> panel
      | Some over \<Rightarrow>
          (if activeId = over then panel
           else (case (Option.bind (playerIndexFromDealId activeId) (indexOf (dp_tapOrder panel)),
                       Option.bind (playerIndexFromDealId over) (indexOf (dp_tapOrder panel))) of
                   (Some oldIndex, Some newIndex) \<Rightarrow>
                     panel\<lparr>dp_tapOrder := arrayMove (dp_tapOrder panel) oldIndex newIndex\<rparr>
                 | _ \<Rightarrow> panel)))"

definition handleChooseDealing :: "PlayerSnapshot list \<Rightarrow> DealPanel \<Rightarrow> DealPanel" where
  "handleChooseDealing players panel =
     (let cut = clampCutSize (dp_cutSize panel) (maxCutSizeOf players);
          choice = (if dp_dealMode panel = Tap
            then \<lparr>deal_dealType = ''tap'', deal_cutSize = cut, deal_order = Some (dp_tapOrder panel)\<rparr>
            else \<lparr>deal_dealType = ''round_robin'', deal_cutSize = cut, deal_order = None\<rparr>)
      in panel\<lparr>dp_sent := dp_sent panel @ [choice]\<rparr>)"

datatype DealEvent =
    CutChanged string
  | ModeChosen string
  | TapDragEnd string "string option"
  | BackPressed
  | ContinuePressed

text \<open>
  Only the chooser is shown the controls: the slider in the first step, the modes and the order in
  the second.
\<close>

definition panel_enabled :: "bool \<Rightarrow> DealEvent \<Rightarrow> DealPanel \<Rightarrow> bool" where
  "panel_enabled isDealChooser e panel \<longleftrightarrow> isDealChooser \<and>
     (case e of
        CutChanged raw \<Rightarrow> dp_dealStep panel = CutStep
      | ModeChosen mode \<Rightarrow> dp_dealStep panel = DealStep
      | TapDragEnd a o' \<Rightarrow> dp_dealStep panel = DealStep \<and> dp_dealMode panel = Tap
      | BackPressed \<Rightarrow> dp_dealStep panel = DealStep
      | ContinuePressed \<Rightarrow> True)"

fun panel_handle ::
  "(int list \<Rightarrow> nat \<Rightarrow> nat \<Rightarrow> int list) \<Rightarrow> PlayerSnapshot list \<Rightarrow> DealEvent \<Rightarrow> DealPanel \<Rightarrow> DealPanel" where
  "panel_handle arrayMove players (CutChanged raw) panel = panel\<lparr>dp_cutSize := raw\<rparr>"
| "panel_handle arrayMove players (ModeChosen mode) panel =
     (if mode = ''round_robin'' then panel\<lparr>dp_dealMode := RoundRobin\<rparr>
      else if mode = ''tap'' then panel\<lparr>dp_dealMode := Tap\<rparr> else panel)"
| "panel_handle arrayMove players (TapDragEnd activeId overId) panel =
     handleTapOrderDragEnd arrayMove activeId overId panel"
| "panel_handle arrayMove players BackPressed panel = panel\<lparr>dp_dealStep := CutStep\<rparr>"
| "panel_handle arrayMove players ContinuePressed panel =
     (if dp_dealStep panel = CutStep then panel\<lparr>dp_dealStep := DealStep\<rparr>
      else handleChooseDealing players panel)"

section \<open>The default order\<close>

lemma rotate_map: "xs \<noteq> [] \<Longrightarrow> map (\<lambda>i. xs ! ((k + i + 1) mod length xs)) [0..<length xs] = rotate (k + 1) xs"
  by (rule nth_equalityI) (simp_all add: nth_rotate ac_simps del: rotate_Suc)

lemma defaultTapOrder_rotate:
  "\<exists>n. defaultTapOrder players pending = rotate n (activeIndexes players)"
proof (cases "indexOf (activeIndexes players) (pdc_dealerIndex pending)")
  case None
  then show ?thesis by (intro exI [of _ 0]) (simp add: defaultTapOrder_def Let_def)
next
  case (Some k)
  then have "activeIndexes players \<noteq> []" by (auto simp: indexOf_def)
  from rotate_map [OF this, of k] Some show ?thesis
    by (intro exI [of _ "k + 1"]) (simp add: defaultTapOrder_def Let_def)
qed

lemma last_rotate_Suc: "k < length xs \<Longrightarrow> last (rotate (k + 1) xs) = xs ! k"
  by (cases "xs = []") (simp_all add: last_conv_nth nth_rotate add.commute del: rotate_Suc)

lemma distinct_activeIndexes: "distinct (activeIndexes players)"
proof -
  have "sorted_wrt (<) (List.map_filter (\<lambda>(i, p). if pl_forfeited p then None else Some (int i)) (List.enumerate n ps)) \<and>
      (\<forall>x \<in> set (List.map_filter (\<lambda>(i, p). if pl_forfeited p then None else Some (int i)) (List.enumerate n ps)). int n \<le> x)"
    for n and ps :: "PlayerSnapshot list"
    by (induction ps arbitrary: n) (auto simp: map_filter_simps, fastforce+)
  then show ?thesis by (auto simp: activeIndexes_def strict_sorted_iff)
qed

text \<open>The default tap order is the active players in table order, rotated so that the dealer, when
  playing, comes last; every active player is named once.\<close>

theorem dealer_comes_last:
  assumes "pdc_dealerIndex pending \<in> set (activeIndexes players)"
  shows "(\<exists>n. defaultTapOrder players pending = rotate n (activeIndexes players)) \<and>
    last (defaultTapOrder players pending) = pdc_dealerIndex pending \<and>
    distinct (defaultTapOrder players pending)"
proof -
  from assms obtain k where k: "indexOf (activeIndexes players) (pdc_dealerIndex pending) = Some k"
    by (metis indexOf_None_iff option.exhaust)
  from indexOf_SomeD [OF k] have "k < length (activeIndexes players)"
      and at: "activeIndexes players ! k = pdc_dealerIndex pending" and "activeIndexes players \<noteq> []"
    by auto
  moreover from this(3) k have "defaultTapOrder players pending = rotate (k + 1) (activeIndexes players)"
    using rotate_map [of "activeIndexes players" k] by (simp add: defaultTapOrder_def Let_def)
  ultimately show ?thesis
    using last_rotate_Suc [of k "activeIndexes players"] distinct_activeIndexes by (auto simp del: rotate_Suc)
qed

definition seated :: "string \<Rightarrow> bool \<Rightarrow> PlayerSnapshot" where
  "seated i gone =
     \<lparr>pl_playerId = i, pl_userId = None, pl_sessionId = None, pl_name = i, pl_imageUrl = None,
      pl_connected = True, pl_seat = 0, pl_isHost = False, pl_canReconnect = False,
      pl_forfeited = gone, pl_activeEmote = None\<rparr>"

definition four_seats :: "PlayerSnapshot list" where
  "four_seats = [seated ''a'' False, seated ''b'' False, seated ''c'' True, seated ''d'' False]"

definition b_deals :: PendingDealChoiceSnapshot where
  "b_deals = \<lparr>pdc_dealerIndex = 1, pdc_chooserIndex = 0, pdc_chooserPlayerId = ''a''\<rparr>"

theorem dealer_comes_last_witness:
  "defaultTapOrder four_seats b_deals = [3, 0, 1] \<and> last (defaultTapOrder four_seats b_deals) = 1"
proof
  have "pdc_dealerIndex b_deals \<in> set (activeIndexes four_seats)" by code_simp
  from dealer_comes_last [OF this] show "last (defaultTapOrder four_seats b_deals) = 1"
    by (simp add: b_deals_def)
qed code_simp

section \<open>The requests sent\<close>

lemma mset_rotate: "mset (rotate n xs) = mset xs"
  by (metis append_take_drop_id mset_append rotate_drop_take union_commute)

lemma js_parseInt_show:
  assumes "0 \<le> n"
  shows "js_parseInt (js_show n) = Some n"
proof -
  obtain c cs where s: "show_nat (nat n) = c # cs" by (cases "show_nat (nat n)") auto
  then obtain d where d: "digit_val c = Some d" using show_nat_digits [of c "nat n"] by auto
  then have "\<not> is_js_space c" using digit_not_space by blast
  moreover obtain k where "k > 0" "take_digits 0 0 (show_nat (nat n)) = (nat n, k, [])"
    using take_digits_show_nat by blast
  ultimately show ?thesis
    using assms digits_head [OF d] by (simp add: js_parseInt_def js_show_def s)
qed

lemma clampCutSize_bounds: "0 \<le> m \<Longrightarrow> 0 \<le> clampCutSize raw m \<and> clampCutSize raw m \<le> m"
  by (auto simp: clampCutSize_def split: option.split)

lemma clampCutSize_show: "0 \<le> n \<Longrightarrow> n \<le> m \<Longrightarrow> clampCutSize (js_show n) m = n"
  by (simp add: clampCutSize_def js_parseInt_show)

definition request_ok :: "PlayerSnapshot list \<Rightarrow> DealingChoiceRequest \<Rightarrow> bool" where
  "request_ok players r \<longleftrightarrow>
     0 \<le> deal_cutSize r \<and> deal_cutSize r \<le> maxCutSizeOf players \<and>
     (case deal_order r of
        None \<Rightarrow> deal_dealType r = ''round_robin''
      | Some order \<Rightarrow> deal_dealType r = ''tap'' \<and> mset order = mset (activeIndexes players))"

definition panel_ok :: "PlayerSnapshot list \<Rightarrow> DealPanel \<Rightarrow> bool" where
  "panel_ok players s \<longleftrightarrow>
     mset (dp_tapOrder s) = mset (activeIndexes players) \<and> (\<forall>r \<in> set (dp_sent s). request_ok players r)"

lemma drag_keeps_players:
  "array_move am \<Longrightarrow> mset (dp_tapOrder (handleTapOrderDragEnd am a over s)) = mset (dp_tapOrder s)"
  by (auto simp: handleTapOrderDragEnd_def bind_eq_Some_conv split: option.splits
      dest!: indexOf_SomeD intro: array_move.move_items)

lemma drag_sent [simp]: "dp_sent (handleTapOrderDragEnd am a over s) = dp_sent s"
  by (auto simp: handleTapOrderDragEnd_def split: option.splits)

lemma maxCutSizeOf_nonneg: "0 \<le> maxCutSizeOf players"
  by (simp add: maxCutSizeOf_def)

lemma panel_ok_choose: "panel_ok players s \<Longrightarrow> panel_ok players (handleChooseDealing players s)"
  using clampCutSize_bounds [OF maxCutSizeOf_nonneg]
  by (auto simp: panel_ok_def handleChooseDealing_def request_ok_def Let_def)

lemma panel_ok_handle:
  "array_move am \<Longrightarrow> panel_ok players s \<Longrightarrow> panel_ok players (panel_handle am players e s)"
  by (cases e) (auto simp: panel_ok_choose, auto simp: panel_ok_def drag_keeps_players)

lemma panel_ok_initial: "panel_ok players (initialPanel players pending)"
  using defaultTapOrder_rotate [of players pending]
  by (auto simp: panel_ok_def initialPanel_def mset_rotate)

lemma panel_ok_invariant:
  "array_move am \<Longrightarrow> invariant (\<lambda>s. \<exists>pending. s = initialPanel players pending)
     (guarded_step (panel_enabled c) (panel_handle am players)) (panel_ok players)"
  by unfold_locales (auto simp: guarded_step_def panel_ok_initial panel_ok_handle)

interpretation panel: invariant "\<lambda>s. \<exists>pending. s = initialPanel players pending"
  "guarded_step (panel_enabled c) (panel_handle moveItem players)" "panel_ok players" for c players
  by (rule panel_ok_invariant [OF moved.array_move_axioms])

text \<open>Whatever the chooser does, every request the panel sends cuts within the deck that is left after
  dealing and, for a tap deal, names every active player exactly once and no other.\<close>

theorem deal_choice_valid:
  assumes "array_move am"
    and "reach (guarded_step (panel_enabled c) (panel_handle am players)) (initialPanel players pending) s"
    and "r \<in> set (dp_sent s)"
  shows "0 \<le> deal_cutSize r \<and> deal_cutSize r \<le> maxCutSizeOf players \<and>
    (case deal_order r of
       None \<Rightarrow> deal_dealType r = ''round_robin''
     | Some order \<Rightarrow> deal_dealType r = ''tap'' \<and> distinct order \<and> set order = set (activeIndexes players))"
proof -
  from invariant.run_inv [OF panel_ok_invariant [OF assms(1)] _ assms(2)] have "panel_ok players s"
    by blast
  with assms(3) have "request_ok players r" by (simp add: panel_ok_def)
  then show ?thesis
    using distinct_activeIndexes [of players]
    by (auto simp: request_ok_def split: option.splits dest: mset_eq_imp_distinct_iff mset_eq_setD)
qed

definition tap_run :: "DealEvent list" where
  "tap_run = [CutChanged ''999'', ContinuePressed, ModeChosen ''tap'',
     TapDragEnd ''deal-player-1'' (Some ''deal-player-3''), ContinuePressed]"

definition tap_sent :: DealingChoiceRequest where
  "tap_sent = \<lparr>deal_dealType = ''tap'', deal_cutSize = 72, deal_order = Some [1, 3, 0]\<rparr>"

theorem deal_choice_valid_witness:
  "map_option dp_sent (run (panel_enabled True) (panel_handle moveItem four_seats) tap_run
     (initialPanel four_seats b_deals)) = Some [tap_sent] \<and>
   0 \<le> deal_cutSize tap_sent \<and> deal_cutSize tap_sent \<le> maxCutSizeOf four_seats"
proof -
  have sent: "map_option dp_sent (run (panel_enabled True) (panel_handle moveItem four_seats) tap_run
     (initialPanel four_seats b_deals)) = Some [tap_sent]" by code_simp
  then obtain s where s: "run (panel_enabled True) (panel_handle moveItem four_seats) tap_run
     (initialPanel four_seats b_deals) = Some s" and r: "tap_sent \<in> set (dp_sent s)" by auto
  from sent deal_choice_valid [OF moved.array_move_axioms run_reach [OF s] r] show ?thesis by blast
qed

end
