(* ===== verification/Tutorial.thy ===== *)
theory Tutorial
  imports BoardPlay
begin

text \<open>
  The tutorial (\<open>game-onboarding.tsx\<close>): the practice game, the stages, and the practice game played on
  the board of \<open>BoardController\<close>, whose calls the tutorial answers itself; then the provider that
  opens the tutorial and records that it was completed.
\<close>

section \<open>The practice game\<close>

definition TUTORIAL_PLAYER_ID :: string where "TUTORIAL_PLAYER_ID = ''tutorial-player''"

definition TUTORIAL_DRAW_CARD :: CardSnapshot where "TUTORIAL_DRAW_CARD = natural 7 3"

datatype TutorialStage = IntroStage | OrientationStage | DrawStage | ComposeStage | DiscardStage | CompleteStage

definition TUTORIAL_STAGES :: "TutorialStage list" where
  "TUTORIAL_STAGES = [IntroStage, OrientationStage, DrawStage, ComposeStage, DiscardStage, CompleteStage]"

definition ORIENTATION_HAND_CARDS_SELECTOR :: string where
  "ORIENTATION_HAND_CARDS_SELECTOR =
     ''[data-onboarding-target=\"hand\"] [data-onboarding-target=\"hand-cards\"]''"

definition ORIENTATION_PILES_SELECTOR :: string where
  "ORIENTATION_PILES_SELECTOR =
     ''[data-card-motion-source=\"deck\"],[data-card-motion-source=\"discard\"]''"

definition ORIENTATION_COMPOSITION_SELECTOR :: string where
  "ORIENTATION_COMPOSITION_SELECTOR = ''[data-onboarding-target=\"table\"]''"

definition COMPOSE_HAND_CARD_SELECTORS :: "string list" where
  "COMPOSE_HAND_CARD_SELECTORS =
     map (\<lambda>rank. ''[data-onboarding-target=\"hand\"] [data-card-rank=\"'' @ js_show rank @
            ''\"][data-card-suit=\"3\"]'') [5, 6, 7]"

fun selectorsForStage :: "TutorialStage \<Rightarrow> bool \<Rightarrow> string list" where
  "selectorsForStage OrientationStage isDrawingCard =
     [ORIENTATION_HAND_CARDS_SELECTOR, ORIENTATION_PILES_SELECTOR, ORIENTATION_COMPOSITION_SELECTOR]"
| "selectorsForStage DrawStage isDrawingCard =
     (if isDrawingCard
      then [''[data-card-motion-source=\"deck\"]'', ''[data-onboarding-target=\"hand\"]'']
      else [''[data-card-motion-source=\"deck\"]''])"
| "selectorsForStage ComposeStage isDrawingCard =
     COMPOSE_HAND_CARD_SELECTORS @ [''[data-onboarding-target=\"new-composition\"]'']"
| "selectorsForStage DiscardStage isDrawingCard =
     [''[data-onboarding-target=\"hand\"] [data-card-rank=\"12\"][data-card-suit=\"0\"]'',
      ''[data-card-motion-source=\"discard\"]'']"
| "selectorsForStage _ isDrawingCard = []"

definition tutorialPlayer :: "string \<Rightarrow> int \<Rightarrow> int \<Rightarrow> PlayerStateSnapshot" where
  "tutorialPlayer i handCount points =
     \<lparr>ps_playerId = i, ps_handCount = handCount, ps_hand = None, ps_totalPoints = points,
      ps_pointsGained = points, ps_unadjustedTotalPoints = None, ps_hasOpened = True,
      ps_forfeited = False\<rparr>"

definition createTutorialGame :: GameSnapshot where
  "createTutorialGame =
     \<lparr>game_gameMode = Some QuickMode, game_phase = 1, game_round = 1, game_dealerIndex = 1,
      game_roundWinnerIndex = -1,
      game_turn = \<lparr>turn_number = 3, turn_playerIndex = 0, turn_playerId = Some TUTORIAL_PLAYER_ID,
        turn_hasDrawn = False, turn_mustUseDiscardDraw = False\<rparr>,
      game_players = [tutorialPlayer TUTORIAL_PLAYER_ID 3 0, tutorialPlayer ''tutorial-opponent'' 7 18],
      game_hand = [natural 5 3, natural 6 3, natural 12 0],
      game_drawPileCount = 18,
      game_discardPile = [natural 4 1, natural 11 2],
      game_activeCompositions =
        [\<lparr>comp_type = ''set'', comp_cards = [natural 9 0, natural 9 1, natural 9 2],
          comp_jokerRepresentations = None, comp_points = 27, comp_complete = False\<rparr>],
      game_turnActivity = None\<rparr>"

definition removeCards :: "CardSnapshot list \<Rightarrow> CardSnapshot list \<Rightarrow> CardSnapshot list" where
  "removeCards hand cards =
     fold (\<lambda>card nextHand.
       case findIndex (\<lambda>candidate. cardsEqual candidate card) nextHand of
         Some index \<Rightarrow> remove_at index nextHand
       | None \<Rightarrow> nextHand) cards hand"

definition compositionPoints :: "CardSnapshot list \<Rightarrow> int" where
  "compositionPoints cards =
     foldl (\<lambda>total card. total + (if card_isJoker card then 20 else min (or_else (card_rank card) 0) 10))
       0 cards"

definition isTutorialRun :: "CardSnapshot list \<Rightarrow> bool" where
  "isTutorialRun cards \<longleftrightarrow>
     length cards = 3 \<and>
     list_all (\<lambda>rank. list_ex (\<lambda>card. \<not> card_isJoker card \<and> card_rank card = Some rank \<and>
        card_suit card = Some 3) cards) [5, 6, 7]"

definition isTutorialDraftComplete :: "DraftCompositionSnapshot list \<Rightarrow> bool" where
  "isTutorialDraftComplete drafts \<longleftrightarrow>
     length drafts = 1 \<and> draft_tableIndex (hd drafts) = None \<and> isTutorialRun (draft_cards (hd drafts))"

definition draftRanks :: "DraftCompositionSnapshot \<Rightarrow> int list" where
  "draftRanks draft =
     remdups (List.map_filter (\<lambda>card.
       if \<not> card_isJoker card \<and> card_suit card = Some 3
       then (case card_rank card of Some rank \<Rightarrow> if rank \<in> {5, 6, 7} then Some rank else None | None \<Rightarrow> None)
       else None) (draft_cards draft))"

definition tutorialDraftProgress :: "DraftCompositionSnapshot list \<Rightarrow> nat" where
  "tutorialDraftProgress drafts =
     foldl (\<lambda>maxProgress draft.
       if draft_tableIndex draft \<noteq> None then maxProgress
       else max maxProgress (length (draftRanks draft))) 0 drafts"

section \<open>The tutorial on the board\<close>

text \<open>
  \<open>tut_completions\<close> counts the calls of \<open>onComplete\<close>; \<open>tut_board\<close> is the state of the board the
  tutorial renders.
\<close>

record Tutorial =
  tut_stage :: TutorialStage
  tut_game :: GameSnapshot
  tut_compositionProgress :: nat
  tut_isDrawingCard :: bool
  tut_completions :: nat
  tut_board :: BoardState

definition initialTutorial :: "HandOrders \<Rightarrow> Tutorial" where
  "initialTutorial orders =
     \<lparr>tut_stage = IntroStage, tut_game = createTutorialGame, tut_compositionProgress = 0,
      tut_isDrawingCard = False, tut_completions = 0, tut_board = initialBoard orders\<rparr>"

definition canCompose :: "Tutorial \<Rightarrow> bool" where
  "canCompose t \<longleftrightarrow> tut_stage t = ComposeStage \<or> tut_stage t = DiscardStage"

definition tutorialProps :: "Tutorial \<Rightarrow> BoardProps" where
  "tutorialProps t =
     (let game = tut_game t
      in \<lparr>bp_game = Some game, bp_roomCode = Some ''TUTORIAL'', bp_playerId = TUTORIAL_PLAYER_ID,
          bp_turnState =
            \<lparr>bt_canDrawDeck = (tut_stage t = DrawStage \<and> \<not> turn_hasDrawn (game_turn game)),
             bt_canDrawDiscard = False,
             bt_canDiscard = (canCompose t \<and> turn_hasDrawn (game_turn game)),
             bt_isMyTurn = True, bt_turnPlayerName = ''Alex''\<rparr>,
          bp_topDiscardCard = js_nth (game_discardPile game) 0,
          bp_draftSyncEnabled = False, bp_guided = True\<rparr>)"

definition continueTutorial :: "Tutorial \<Rightarrow> Tutorial" where
  "continueTutorial t =
     (if tut_stage t = CompleteStage then t\<lparr>tut_completions := tut_completions t + 1\<rparr>
      else t\<lparr>tut_stage := (if tut_stage t = IntroStage then OrientationStage else DrawStage)\<rparr>)"

definition withHandCount :: "CardSnapshot list \<Rightarrow> PlayerStateSnapshot list \<Rightarrow> PlayerStateSnapshot list" where
  "withHandCount hand players =
     map (\<lambda>player. if ps_playerId player = TUTORIAL_PLAYER_ID
                    then player\<lparr>ps_handCount := int (length hand)\<rparr> else player) players"

definition drawnGame :: "GameSnapshot \<Rightarrow> GameSnapshot" where
  "drawnGame current =
     (if turn_hasDrawn (game_turn current) then current
      else (let nextHand = game_hand current @ [TUTORIAL_DRAW_CARD]
            in current\<lparr>game_hand := nextHand,
                 game_drawPileCount := game_drawPileCount current - 1,
                 game_turn := (game_turn current)\<lparr>turn_hasDrawn := True\<rparr>,
                 game_players := withHandCount nextHand (game_players current)\<rparr>))"

definition drawFromDeck :: "Tutorial \<Rightarrow> Tutorial" where
  "drawFromDeck t = t\<lparr>tut_game := drawnGame (tut_game t)\<rparr>"

definition playedGame :: "TablePlayRequest \<Rightarrow> CardSnapshot \<Rightarrow> GameSnapshot \<Rightarrow> GameSnapshot" where
  "playedGame play discardedCard current =
     (let playedCards = concat (map reqc_cards (play_compositions play));
          remainingHand = removeCards (removeCards (game_hand current) playedCards) [discardedCard]
      in current\<lparr>game_hand := remainingHand,
           game_discardPile := discardedCard # game_discardPile current,
           game_activeCompositions := game_activeCompositions current @
             map (\<lambda>composition. \<lparr>comp_type = ''run'', comp_cards = reqc_cards composition,
                comp_jokerRepresentations = None, comp_points = compositionPoints (reqc_cards composition),
                comp_complete = False\<rparr>) (play_compositions play),
           game_players := withHandCount remainingHand (game_players current)\<rparr>)"

text \<open>\<open>stage\<close> is the stage of the render the callback belongs to; the first component is \<open>ok\<close>.\<close>

definition playTableAndDiscard ::
  "TutorialStage \<Rightarrow> TablePlayRequest \<Rightarrow> CardSnapshot \<Rightarrow> Tutorial \<Rightarrow> bool \<times> Tutorial" where
  "playTableAndDiscard stage play discardedCard t =
     (if stage = DiscardStage \<and> length (play_compositions play) = 1 \<and> play_additions play = [] \<and>
         play_reclaims play = [] \<and>
         isTutorialRun (case js_nth (play_compositions play) 0 of Some c \<Rightarrow> reqc_cards c | None \<Rightarrow> []) \<and>
         cardsEqual discardedCard (natural 12 0)
      then (True, t\<lparr>tut_game := playedGame play discardedCard (tut_game t), tut_stage := CompleteStage\<rparr>)
      else (False, t))"

definition onDraftStateChange :: "DraftCompositionSnapshot list \<Rightarrow> bool \<Rightarrow> Tutorial \<Rightarrow> Tutorial" where
  "onDraftStateChange draftCompositions isDraggingCard t =
     (let isComplete = isTutorialDraftComplete draftCompositions
      in t\<lparr>tut_compositionProgress := tutorialDraftProgress draftCompositions,
           tut_stage :=
             (if tut_stage t = ComposeStage \<and> isComplete \<and> \<not> isDraggingCard then DiscardStage
              else if tut_stage t = DiscardStage \<and> \<not> isComplete then ComposeStage
              else tut_stage t)\<rparr>)"

text \<open>
  The calls of the board, and the answers of the two plays, which settle before the next event.
  \<open>p\<close> and \<open>stage\<close> are those of the render.
\<close>

fun tutorialCall :: "BoardProps \<Rightarrow> TutorialStage \<Rightarrow> BoardEffect \<Rightarrow> Tutorial \<Rightarrow> Tutorial" where
  "tutorialCall p stage DrawFromDeckCall t = drawFromDeck t"
| "tutorialCall p stage (DrawDragStateCall isDragging) t = t\<lparr>tut_isDrawingCard := isDragging\<rparr>"
| "tutorialCall p stage DrawSettledCall t =
     (if tut_stage t = DrawStage then t\<lparr>tut_stage := ComposeStage\<rparr> else t)"
| "tutorialCall p stage (DraftStateCall hasDrafts canSubmit drafts isDraggingCard) t =
     onDraftStateChange drafts isDraggingCard t"
| "tutorialCall p stage (PlayTableCall play) t =
     t\<lparr>tut_board := submitAnswered p (Some False) (tut_board t)\<rparr>"
| "tutorialCall p stage (PlayTableAndDiscardCall play cardIndex discarded) t =
     (case playTableAndDiscard stage play discarded t of
        (ok, t') \<Rightarrow> t'\<lparr>tut_board := discardAnswered (Some ok) (tut_board t')\<rparr>)"
| "tutorialCall p stage _ t = t"

datatype TutorialEvent = ContinuePressed | OnBoard BoardEvent

definition tutorial_handle ::
  "(HandEntry list \<Rightarrow> nat \<Rightarrow> nat \<Rightarrow> HandEntry list) \<Rightarrow> (string list \<Rightarrow> nat \<Rightarrow> nat \<Rightarrow> string list) \<Rightarrow>
     TutorialEvent \<Rightarrow> Tutorial \<Rightarrow> Tutorial" where
  "tutorial_handle moveEntry moveKey event t =
     (case event of
        ContinuePressed \<Rightarrow> continueTutorial t
      | OnBoard e \<Rightarrow>
          (let p = tutorialProps t;
               b = boardHandle moveEntry moveKey p e (tut_board t)
           in fold (tutorialCall p (tut_stage t)) (drop (length (bd_effects (tut_board t))) (bd_effects b))
                (t\<lparr>tut_board := b\<rparr>)))"

text \<open>
  The button shows in three stages. One card is dragged at a time, a pile only where drawing is
  allowed; the answers are the tutorial's own.
\<close>

definition tutorial_enabled :: "TutorialEvent \<Rightarrow> Tutorial \<Rightarrow> bool" where
  "tutorial_enabled event t \<longleftrightarrow>
     (case event of
        ContinuePressed \<Rightarrow> tut_stage t \<in> {IntroStage, OrientationStage, CompleteStage}
      | OnBoard (DragStart ev) \<Rightarrow>
          bd_activeDrag (tut_board t) = None \<and>
          (ev_drawSource ev = Some ''deck'' \<longrightarrow> bt_canDrawDeck (bp_turnState (tutorialProps t))) \<and>
          (ev_drawSource ev = Some ''discard'' \<longrightarrow> bt_canDrawDiscard (bp_turnState (tutorialProps t)))
      | OnBoard (SubmitAnswer answer) \<Rightarrow> False
      | OnBoard (DiscardAnswer answer) \<Rightarrow> False
      | OnBoard _ \<Rightarrow> True)"

section \<open>Opening and recording\<close>

record Onboarding =
  ob_completedInSession :: bool
  ob_replayRequested :: bool
  ob_isCompleting :: bool
  ob_requests :: nat
  ob_recorded :: nat
  ob_errors :: nat

definition initialOnboarding :: Onboarding where
  "initialOnboarding =
     \<lparr>ob_completedInSession = False, ob_replayRequested = False, ob_isCompleting = False,
      ob_requests = 0, ob_recorded = 0, ob_errors = 0\<rparr>"

definition mustComplete :: "int option \<Rightarrow> int option \<Rightarrow> Onboarding \<Rightarrow> bool" where
  "mustComplete completedVersion requiredVersion s \<longleftrightarrow>
     (case (completedVersion, requiredVersion) of
        (Some completed, Some required) \<Rightarrow> completed < required \<and> \<not> ob_completedInSession s
      | _ \<Rightarrow> False)"

definition tutorialOpen :: "int option \<Rightarrow> int option \<Rightarrow> Onboarding \<Rightarrow> bool" where
  "tutorialOpen completedVersion requiredVersion s \<longleftrightarrow>
     mustComplete completedVersion requiredVersion s \<or> ob_replayRequested s"

definition startTutorial :: "Onboarding \<Rightarrow> Onboarding" where
  "startTutorial s = s\<lparr>ob_isCompleting := False, ob_replayRequested := True\<rparr>"

text \<open>\<open>completeTutorial\<close> up to the awaited request, counted in \<open>ob_requests\<close>, and its two ends.\<close>

definition completeTutorial :: "int option \<Rightarrow> int option \<Rightarrow> Onboarding \<Rightarrow> Onboarding" where
  "completeTutorial completedVersion requiredVersion s =
     (if \<not> mustComplete completedVersion requiredVersion s then s\<lparr>ob_replayRequested := False\<rparr>
      else if ob_isCompleting s then s
      else s\<lparr>ob_isCompleting := True, ob_requests := ob_requests s + 1\<rparr>)"

definition completionRecorded :: "Onboarding \<Rightarrow> Onboarding" where
  "completionRecorded s =
     s\<lparr>ob_completedInSession := True, ob_replayRequested := False, ob_isCompleting := False,
       ob_requests := ob_requests s - 1, ob_recorded := ob_recorded s + 1\<rparr>"

definition completionFailed :: "Onboarding \<Rightarrow> Onboarding" where
  "completionFailed s =
     s\<lparr>ob_isCompleting := False, ob_requests := ob_requests s - 1, ob_errors := ob_errors s + 1\<rparr>"

datatype OnboardingEvent = TutorialRequested | DonePressed | RequestSucceeded | RequestFailed

fun onboarding_handle ::
  "int option \<Rightarrow> int option \<Rightarrow> OnboardingEvent \<Rightarrow> Onboarding \<Rightarrow> Onboarding" where
  "onboarding_handle cv rv TutorialRequested s = startTutorial s"
| "onboarding_handle cv rv DonePressed s = completeTutorial cv rv s"
| "onboarding_handle cv rv RequestSucceeded s = completionRecorded s"
| "onboarding_handle cv rv RequestFailed s = completionFailed s"

text \<open>The rest of the page is inert while the tutorial is open; its button is disabled while completing.\<close>

fun onboarding_enabled :: "int option \<Rightarrow> int option \<Rightarrow> OnboardingEvent \<Rightarrow> Onboarding \<Rightarrow> bool" where
  "onboarding_enabled cv rv TutorialRequested s = (\<not> tutorialOpen cv rv s)"
| "onboarding_enabled cv rv DonePressed s = (tutorialOpen cv rv s \<and> \<not> ob_isCompleting s)"
| "onboarding_enabled cv rv RequestSucceeded s = (0 < ob_requests s)"
| "onboarding_enabled cv rv RequestFailed s = (0 < ob_requests s)"

section \<open>The effects of an event\<close>

fun drawing :: "ActiveDrag option \<Rightarrow> bool" where
  "drawing (Some (DrawDrag source cd entries order)) = True"
| "drawing _ = False"

text \<open>What does not move the practice game: neither a draw nor a play with a discard.\<close>

definition calm :: "BoardEffect set" where
  "calm = {e. case e of Sound x \<Rightarrow> True | PlayTableCall play \<Rightarrow> True | DiscardCardCall i cd \<Rightarrow> True
     | DraftStateCall a b c d \<Rightarrow> True | _ \<Rightarrow> False}"

interpretation calm: harmless_effects calm
  by unfold_locales (simp_all add: calm_def)

lemma markReordered_drawing [simp]: "drawing (markReordered d) = drawing d"
  by (cases d rule: drag_cases) (simp_all add: markReordered_def)

lemma drawing_overDraw [simp]: "bd_activeDrag (dragOverDraw me p ev order s) = bd_activeDrag s"
  by (simp add: dragOverDraw_def Let_def split: option.split)

lemma drawing_over: "drawing (bd_activeDrag (handleDragOver me mk p ev s)) = drawing (bd_activeDrag s)"
proof (cases "bd_activeDrag s" rule: drag_cases)
  case (Hand k order ds mv)
  from over_drag [OF this, of me mk p ev] show ?thesis using Hand by auto
qed (simp_all add: handleDragOver_def)

lemma discard_drag [simp]: "bd_activeDrag (discardDropped p ev s) = bd_activeDrag s"
  by (simp add: discardDropped_def Let_def split: option.split)

lemma newId_drag [simp]: "bd_activeDrag (updateWithNewId p f s) = bd_activeDrag s"
  by (simp add: updateWithNewId_def)

lemma finish_drag [simp]: "bd_activeDrag (finishReturningHandKey p es k s) = bd_activeDrag s"
  by (simp add: finishReturningHandKey_def Let_def commitDrafts_def)

lemma drag_if: "bd_activeDrag a = d \<Longrightarrow> bd_activeDrag b = d \<Longrightarrow> bd_activeDrag (if c then a else b) = d"
  by simp

lemma drag_option:
  "bd_activeDrag a = d \<Longrightarrow> (\<And>x. bd_activeDrag (f x) = d) \<Longrightarrow>
     bd_activeDrag (case o' of None \<Rightarrow> a | Some x \<Rightarrow> f x) = d"
  by (cases o') simp_all

lemma drag_prod: "(\<And>a b. bd_activeDrag (f a b) = d) \<Longrightarrow> bd_activeDrag (case x of (a, b) \<Rightarrow> f a b) = d"
  by (cases x) simp

lemmas drag_branches = drag_if drag_option drag_prod

lemma drop_drag: "bd_activeDrag (dropOnZone me mk p ev ds re over s) = bd_activeDrag s"
  unfolding dropOnZone_def Let_def dropReordered_def
  by (intro drag_branches) simp_all

lemma end_drag: "bd_activeDrag (handleDragEnd me mk p ev s) = None"
  by (cases "bd_activeDrag s" rule: drag_cases)
    (auto simp: handleDragEnd_def Let_def drop_drag restored(3) split: option.split)

lemma cancel_drag: "bd_activeDrag (handleDragCancel p s) = None"
  by (cases "bd_activeDrag s" rule: drag_cases) (auto simp: handleDragCancel_def Let_def restored(3))

text \<open>What an event does: nothing to the practice game, a draw that starts or ends, or one play with a discard.\<close>

definition board_outcome :: "BoardState \<Rightarrow> BoardState \<Rightarrow> bool" where
  "board_outcome s s' \<longleftrightarrow>
     sends calm s s' \<and> drawing (bd_activeDrag s') = drawing (bd_activeDrag s) \<or>
     \<not> drawing (bd_activeDrag s) \<and> drawing (bd_activeDrag s') \<and>
       (\<exists>x. bd_effects s' = bd_effects s @ [Sound x, DrawDragStateCall True, DrawFromDeckCall]) \<or>
     drawing (bd_activeDrag s) \<and> \<not> drawing (bd_activeDrag s') \<and>
       bd_effects s' = bd_effects s @ [DrawDragStateCall False, DrawSettledCall] \<or>
     \<not> drawing (bd_activeDrag s) \<and> \<not> drawing (bd_activeDrag s') \<and>
       (\<exists>play i cd. bd_effects s' = bd_effects s @ [PlayTableAndDiscardCall play i cd])"

lemma outcome_calm:
  "sends calm s s' \<Longrightarrow> drawing (bd_activeDrag s') = drawing (bd_activeDrag s) \<Longrightarrow> board_outcome s s'"
  by (simp add: board_outcome_def)

lemma discard_effects:
  "sends calm s (discardDropped p ev s) \<or>
     (\<exists>play i cd. bd_effects (discardDropped p ev s) = bd_effects s @ [PlayTableAndDiscardCall play i cd])"
  by (cases "holds (ev_activeId ev) (draftCompositionsOf p s)"; cases "ev_isVirtual ev"; cases "ev_cardIndex ev";
      cases "draftedViewsOf p s = []"; cases "rdv_allEntryByKey (resolutionOf p s) (ev_activeId ev)")
    (auto simp: discardDropped_def Let_def sends_same calm.sends_sound sends_emit calm_def split: option.split)

lemma outcome_end_hand:
  assumes "bd_activeDrag s = Some (HandDrag k order ds mv)"
  shows "board_outcome s (handleDragEnd me mk p ev s)"
proof (cases "ev_overId ev = Some ''discard-pile'' \<and>
    \<not> sends calm s (discardDropped p ev (s\<lparr>bd_lastDragOverTarget := None, bd_activeDrag := None\<rparr>))")
  case True
  let ?s = "s\<lparr>bd_lastDragOverTarget := None, bd_activeDrag := None\<rparr>"
  from True have "handleDragEnd me mk p ev s = discardDropped p ev ?s"
    using assms by (simp add: handleDragEnd_def dropOnZone_def Let_def)
  moreover have "\<exists>play i cd. bd_effects (discardDropped p ev ?s) = bd_effects s @ [PlayTableAndDiscardCall play i cd]"
    using discard_effects [of ?s p ev] True sends_from [of ?s s calm] by auto
  ultimately show ?thesis using assms by (simp add: board_outcome_def)
next
  case False
  then have "sends calm s (handleDragEnd me mk p ev s)"
    using assms by (intro calm.sends_end) auto
  then show ?thesis using assms by (simp add: outcome_calm end_drag)
qed

lemma outcome_start:
  assumes "bd_activeDrag s = None" and "ev_drawSource ev \<noteq> Some ''discard''" and "bp_guided p"
  shows "board_outcome s (handleDragStart p ev s)"
  using assms
  by (cases "ev_drawSource ev = Some ''deck''")
    (auto simp: handleDragStart_def Let_def board_outcome_def sends_def calm_def emit_def)

lemma outcome_end:
  assumes "bp_guided p"
  shows "board_outcome s (handleDragEnd me mk p ev s)"
proof (cases "bd_activeDrag s" rule: drag_cases)
  case None
  then show ?thesis by (simp add: outcome_calm sends_same handleDragEnd_def Let_def)
next
  case (Draw source cd entries order)
  then have "bd_effects (handleDragEnd me mk p ev s) = bd_effects s @ [DrawDragStateCall False, DrawSettledCall]"
    using assms by (simp add: handleDragEnd_def Let_def emit_def)
  with Draw show ?thesis by (simp add: board_outcome_def end_drag)
next
  case (Hand k order ds mv)
  then show ?thesis by (rule outcome_end_hand)
qed

lemma outcome_cancel:
  assumes "bp_guided p"
  shows "board_outcome s (handleDragCancel p s)"
proof (cases "bd_activeDrag s" rule: drag_cases)
  case None
  then show ?thesis by (simp add: outcome_calm sends_same handleDragCancel_def Let_def)
next
  case (Draw source cd entries order)
  then have "bd_effects (handleDragCancel p s) = bd_effects s @ [DrawDragStateCall False, DrawSettledCall]"
    using assms by (simp add: handleDragCancel_def Let_def emit_def)
  with Draw show ?thesis by (simp add: board_outcome_def cancel_drag)
next
  case (Hand k order ds mv)
  then have "sends calm s (handleDragCancel p s)" by (intro calm.sends_cancel) simp
  with Hand show ?thesis by (simp add: outcome_calm cancel_drag)
qed

lemma reset_drag [simp]: "bd_activeDrag (resetDraftCompositions p sync s) = bd_activeDrag s"
  by (simp add: resetDraftCompositions_def Let_def commitDrafts_def split: option.split)

lemma outcome_event:
  assumes "tutorial_enabled (OnBoard e) t"
  shows "board_outcome (tut_board t) (boardHandle me mk (tutorialProps t) e (tut_board t))"
proof -
  let ?p = "tutorialProps t"
  have guided: "bp_guided ?p" and sync: "\<not> bp_draftSyncEnabled ?p" and pile: "\<not> bt_canDrawDiscard (bp_turnState ?p)"
    by (simp_all add: tutorialProps_def Let_def)
  show ?thesis
  proof (cases e)
    case (DragStart ev)
    with assms pile show ?thesis by (auto simp: tutorial_enabled_def intro!: outcome_start guided)
  next
    case (DragOver ev)
    then show ?thesis by (simp add: outcome_calm calm.sends_over drawing_over)
  next
    case SubmitDrafts
    then show ?thesis
      by (auto intro!: outcome_calm simp: submitDraftCompositions_def sends_emit sends_same calm_def)
  qed (use assms in \<open>simp_all add: tutorial_enabled_def outcome_end outcome_cancel guided outcome_calm
         sends_reset syncTurnDrafts_def sync sends_same\<close>)
qed

lemma draw_starts:
  assumes "tutorial_enabled (OnBoard e) t" and "\<not> drawing (bd_activeDrag (tut_board t))"
    and "drawing (bd_activeDrag (boardHandle me mk (tutorialProps t) e (tut_board t)))"
  shows "tut_stage t = DrawStage"
proof (cases e)
  case (DragStart ev)
  with assms show ?thesis
    by (cases "ev_drawSource ev = Some ''deck''")
      (auto simp: tutorial_enabled_def tutorialProps_def Let_def handleDragStart_def split: if_splits)
next
  case SubmitDrafts
  with assms show ?thesis by (simp add: submitDraftCompositions_def split: if_splits)
qed (use assms in \<open>simp_all add: tutorial_enabled_def drawing_over end_drag cancel_drag syncTurnDrafts_def
       split: if_splits\<close>)

section \<open>The stages and the practice game\<close>

definition finishedGame :: "CardSnapshot list \<Rightarrow> GameSnapshot" where
  "finishedGame cards =
     playedGame \<lparr>play_compositions = [\<lparr>reqc_cards = cards\<rparr>], play_additions = [], play_reclaims = []\<rparr>
       (natural 12 0) (drawnGame createTutorialGame)"

definition stage_ok :: "TutorialStage \<Rightarrow> bool \<Rightarrow> GameSnapshot \<Rightarrow> bool" where
  "stage_ok stage d game \<longleftrightarrow>
     (case stage of
        DrawStage \<Rightarrow> game = (if d then drawnGame createTutorialGame else createTutorialGame)
      | ComposeStage \<Rightarrow> \<not> d \<and> game = drawnGame createTutorialGame
      | DiscardStage \<Rightarrow> \<not> d \<and> game = drawnGame createTutorialGame
      | CompleteStage \<Rightarrow> \<not> d \<and> (\<exists>cards. isTutorialRun cards \<and> game = finishedGame cards)
      | _ \<Rightarrow> \<not> d \<and> game = createTutorialGame)"

definition tutorial_ok :: "Tutorial \<Rightarrow> bool" where
  "tutorial_ok t \<longleftrightarrow> tut_isDrawingCard t = drawing (bd_activeDrag (tut_board t)) \<and>
     stage_ok (tut_stage t) (drawing (bd_activeDrag (tut_board t))) (tut_game t)"

lemma submitAnswered_drag [simp]: "bd_activeDrag (submitAnswered p a s) = bd_activeDrag s"
  by (simp add: submitAnswered_def)

lemma discardAnswered_drag [simp]: "bd_activeDrag (discardAnswered a s) = bd_activeDrag s"
  by (simp add: discardAnswered_def)

lemma calm_call:
  "eff \<in> calm \<Longrightarrow> tutorial_ok t \<Longrightarrow> tutorial_ok (tutorialCall p stage eff t)"
  by (cases eff) (auto simp: calm_def tutorial_ok_def onDraftStateChange_def Let_def stage_ok_def)

lemma calm_calls:
  "set es \<subseteq> calm \<Longrightarrow> tutorial_ok t \<Longrightarrow> tutorial_ok (fold (tutorialCall p stage) es t)"
  by (induction es arbitrary: t) (simp_all add: calm_call)

lemma accepted_play:
  assumes "playTableAndDiscard stage play cd t = (True, t')"
  shows "stage = DiscardStage \<and> (\<exists>cards. isTutorialRun cards \<and>
    t' = t\<lparr>tut_game := playedGame \<lparr>play_compositions = [\<lparr>reqc_cards = cards\<rparr>], play_additions = [],
      play_reclaims = []\<rparr> (natural 12 0) (tut_game t), tut_stage := CompleteStage\<rparr>)"
proof -
  from assms have c: "stage = DiscardStage" "length (play_compositions play) = 1" "play_additions play = []"
      "play_reclaims play = []" "cd = natural 12 0"
      "isTutorialRun (case js_nth (play_compositions play) 0 of Some c \<Rightarrow> reqc_cards c | None \<Rightarrow> [])"
      and t': "t' = t\<lparr>tut_game := playedGame play cd (tut_game t), tut_stage := CompleteStage\<rparr>"
    by (auto simp: playTableAndDiscard_def split: if_splits)
  then obtain c where "play_compositions play = [c]" by (auto simp: length_Suc_conv)
  with c t' show ?thesis
    by (intro conjI exI [of _ "reqc_cards c"]) (simp_all add: js_nth_def playedGame_def)
qed

lemma tutorial_ok_play:
  assumes "tutorial_ok t" and "stage = tut_stage t"
  shows "tutorial_ok (tutorialCall p stage (PlayTableAndDiscardCall play i cd) t)"
proof (cases "playTableAndDiscard stage play cd t")
  case (Pair ok t')
  show ?thesis
  proof (cases ok)
    case True
    with accepted_play [of stage play cd t t'] Pair assms show ?thesis
      by (auto simp: tutorial_ok_def stage_ok_def finishedGame_def)
  next
    case False
    with Pair have "t' = t" by (auto simp: playTableAndDiscard_def split: if_splits)
    with False Pair assms show ?thesis by (simp add: tutorial_ok_def)
  qed
qed

lemma stage_ok_draw:
  "stage_ok DrawStage False g \<Longrightarrow> stage_ok DrawStage True (drawnGame g)"
  by (simp add: stage_ok_def)

lemma tutorial_ok_board:
  assumes "tutorial_ok t" and "tutorial_enabled (OnBoard e) t"
  shows "tutorial_ok (tutorial_handle me mk (OnBoard e) t)"
proof -
  let ?p = "tutorialProps t" and ?s = "tut_board t"
  let ?b = "boardHandle me mk ?p e ?s"
  note start = draw_starts [OF assms(2), of me mk]
  from outcome_event [OF assms(2), of me mk] show ?thesis
    unfolding board_outcome_def
  proof (elim disjE conjE exE)
    assume "sends calm ?s ?b" and d: "drawing (bd_activeDrag ?b) = drawing (bd_activeDrag ?s)"
    then obtain es where "bd_effects ?b = bd_effects ?s @ es" and "set es \<subseteq> calm" by (auto simp: sends_def)
    moreover from assms(1) d have "tutorial_ok (t\<lparr>tut_board := ?b\<rparr>)" by (simp add: tutorial_ok_def)
    ultimately show ?thesis by (simp add: tutorial_handle_def Let_def calm_calls)
  next
    fix x
    assume "\<not> drawing (bd_activeDrag ?s)" and "drawing (bd_activeDrag ?b)"
      and "bd_effects ?b = bd_effects ?s @ [Sound x, DrawDragStateCall True, DrawFromDeckCall]"
    with start assms(1) show ?thesis
      by (simp add: tutorial_handle_def Let_def tutorial_ok_def drawFromDeck_def stage_ok_draw)
  next
    assume "drawing (bd_activeDrag ?s)" and "\<not> drawing (bd_activeDrag ?b)"
      and "bd_effects ?b = bd_effects ?s @ [DrawDragStateCall False, DrawSettledCall]"
    with assms(1) show ?thesis
      by (auto simp: tutorial_handle_def Let_def tutorial_ok_def stage_ok_def split: TutorialStage.splits)
  next
    fix play i cd
    assume "\<not> drawing (bd_activeDrag ?s)" and "\<not> drawing (bd_activeDrag ?b)"
      and "bd_effects ?b = bd_effects ?s @ [PlayTableAndDiscardCall play i cd]"
    moreover from this assms(1) have "tutorial_ok (t\<lparr>tut_board := ?b\<rparr>)" by (simp add: tutorial_ok_def)
    ultimately show ?thesis
      using tutorial_ok_play [of "t\<lparr>tut_board := ?b\<rparr>" "tut_stage t"]
      by (simp add: tutorial_handle_def Let_def del: tutorialCall.simps)
  qed
qed

lemma tutorial_ok_continue:
  "tutorial_ok t \<Longrightarrow> tutorial_enabled ContinuePressed t \<Longrightarrow> tutorial_ok (tutorial_handle me mk ContinuePressed t)"
  by (auto simp: tutorial_ok_def tutorial_handle_def tutorial_enabled_def continueTutorial_def stage_ok_def)

interpretation tutorial: invariant "\<lambda>t. \<exists>orders. t = initialTutorial orders"
  "guarded_step tutorial_enabled (tutorial_handle me mk)" tutorial_ok for me mk
proof
  fix t assume "\<exists>orders. t = initialTutorial orders"
  then show "tutorial_ok t"
    by (auto simp: tutorial_ok_def stage_ok_def initialTutorial_def initialBoard_def)
next
  fix t t' assume "tutorial_ok t" and "guarded_step tutorial_enabled (tutorial_handle me mk) t t'"
  then obtain e where "tutorial_enabled e t" and "t' = tutorial_handle me mk e t" by (auto simp: guarded_step_def)
  then show "tutorial_ok t'"
    using \<open>tutorial_ok t\<close> by (cases e) (simp_all add: tutorial_ok_board tutorial_ok_continue)
qed

definition tutorialRuns :: "CardSnapshot list list" where
  "tutorialRuns =
     [[natural 5 3, natural 6 3, natural 7 3], [natural 5 3, natural 7 3, natural 6 3],
      [natural 6 3, natural 5 3, natural 7 3], [natural 6 3, natural 7 3, natural 5 3],
      [natural 7 3, natural 5 3, natural 6 3], [natural 7 3, natural 6 3, natural 5 3]]"

lemma tutorial_runs:
  assumes "isTutorialRun cards"
  shows "cards \<in> set tutorialRuns"
proof -
  have card_eq: "\<not> card_isJoker c \<and> card_rank c = Some r \<and> card_suit c = Some 3 \<longleftrightarrow> c = natural r 3" for c r
    by (auto simp: natural_def)
  from assms obtain x y z where cards: "cards = [x, y, z]"
    by (auto simp: isTutorialRun_def numeral_3_eq_3 length_Suc_conv)
  with assms have "x = natural 5 3 \<or> y = natural 5 3 \<or> z = natural 5 3"
      "x = natural 6 3 \<or> y = natural 6 3 \<or> z = natural 6 3"
      "x = natural 7 3 \<or> y = natural 7 3 \<or> z = natural 7 3"
    by (simp_all add: isTutorialRun_def card_eq)
  moreover have "natural 5 3 \<noteq> natural 6 3" "natural 5 3 \<noteq> natural 7 3" "natural 6 3 \<noteq> natural 7 3"
    by (simp_all add: natural_def)
  ultimately show ?thesis unfolding cards tutorialRuns_def
    by (elim disjE) (simp_all only: list.set insert_iff simp_thms)
qed

lemma tutorial_run_items: "isTutorialRun cards \<Longrightarrow> mset cards = {#natural 5 3, natural 6 3, natural 7 3#}"
  by (drule tutorial_runs) (auto simp: tutorialRuns_def)

definition cardsInPlay :: "GameSnapshot \<Rightarrow> CardSnapshot list" where
  "cardsInPlay g = game_hand g @ game_discardPile g @ concat (map comp_cards (game_activeCompositions g))"

definition finished_ok :: "CardSnapshot list \<Rightarrow> bool" where
  "finished_ok cards \<longleftrightarrow>
     (let g = finishedGame cards in
      game_hand g = [] \<and> game_discardPile g = natural 12 0 # game_discardPile createTutorialGame \<and>
      turn_hasDrawn (game_turn g) \<and> game_drawPileCount g = 17 \<and>
      game_activeCompositions g = game_activeCompositions createTutorialGame @
        [\<lparr>comp_type = ''run'', comp_cards = cards, comp_jokerRepresentations = None,
          comp_points = 18, comp_complete = False\<rparr>] \<and>
      isValidDraftComposition cards (Some ''run'') \<and> draftCompositionPointTotal cards (Some ''run'') = Some 18)"

lemma finished_runs: "list_all finished_ok tutorialRuns"
  by code_simp

lemma finished_game: "isTutorialRun cards \<Longrightarrow> finished_ok cards"
  using tutorial_runs finished_runs by (auto simp: list_all_iff)

text \<open>C16: However the practice game is played on the board, it stays a game of cards: one card is drawn and
  no other card appears or vanishes; in the stages of composing and discarding the hand holds the
  three cards of the run and the queen; and at the end the hand is empty, the queen lies on the
  discard pile and the table holds the run, which the rules accept at the points the tutorial shows.\<close>

theorem practice_game_is_fair:
  assumes "reach (guarded_step tutorial_enabled (tutorial_handle me mk)) (initialTutorial orders) t"
  shows "mset (cardsInPlay (tut_game t)) = mset (cardsInPlay createTutorialGame) +
      (if turn_hasDrawn (game_turn (tut_game t)) then {#TUTORIAL_DRAW_CARD#} else {#}) \<and>
    game_drawPileCount (tut_game t) = 18 - of_bool (turn_hasDrawn (game_turn (tut_game t))) \<and>
    (canCompose t \<longrightarrow> game_hand (tut_game t) = [natural 5 3, natural 6 3, natural 12 0, natural 7 3]) \<and>
    (tut_stage t = CompleteStage \<longrightarrow> game_hand (tut_game t) = [] \<and>
       (\<exists>cards. game_activeCompositions (tut_game t) = game_activeCompositions createTutorialGame @
            [\<lparr>comp_type = ''run'', comp_cards = cards, comp_jokerRepresentations = None,
              comp_points = 18, comp_complete = False\<rparr>] \<and>
          isValidDraftComposition cards (Some ''run'') \<and>
          draftCompositionPointTotal cards (Some ''run'') = Some 18))"
proof -
  have "tutorial_ok t" using tutorial.run_inv [OF _ assms] by blast
  then have ok: "stage_ok (tut_stage t) (drawing (bd_activeDrag (tut_board t))) (tut_game t)"
    by (simp add: tutorial_ok_def)
  then consider (dealt) "tut_game t = createTutorialGame" "\<not> canCompose t" "tut_stage t \<noteq> CompleteStage"
    | (drawn) "tut_game t = drawnGame createTutorialGame" "tut_stage t \<noteq> CompleteStage"
    | (finished) cards where "isTutorialRun cards" "tut_game t = finishedGame cards" "tut_stage t = CompleteStage"
    by (auto simp: stage_ok_def canCompose_def split: TutorialStage.splits if_splits)
  then show ?thesis
  proof cases
    case dealt
    then show ?thesis by (simp add: createTutorialGame_def)
  next
    case drawn
    then show ?thesis
      by (simp add: createTutorialGame_def drawnGame_def cardsInPlay_def TUTORIAL_DRAW_CARD_def Let_def)
  next
    case finished
    from finished_game [OF finished(1)] tutorial_run_items [OF finished(1)] finished(2,3) show ?thesis
      by (simp add: finished_ok_def Let_def cardsInPlay_def createTutorialGame_def TUTORIAL_DRAW_CARD_def
          canCompose_def)
  qed
qed

definition pull :: "string \<Rightarrow> string option \<Rightarrow> string option \<Rightarrow> int option \<Rightarrow> DragEvent" where
  "pull key over source index = \<lparr>ev_activeId = key, ev_overId = over, ev_drawSource = source,
     ev_cardIndex = index, ev_isVirtual = False\<rparr>"

definition drag_card :: "string \<Rightarrow> int \<Rightarrow> string \<Rightarrow> TutorialEvent list" where
  "drag_card key index over = [OnBoard (DragStart (pull key None None (Some index))),
     OnBoard (DragEnd (pull key (Some over) None (Some index)))]"

definition tutorial_moves :: "TutorialEvent list" where
  "tutorial_moves =
     [ContinuePressed, ContinuePressed,
      OnBoard (DragStart (pull ''draw-deck'' None (Some ''deck'') None)),
      OnBoard (DragEnd (pull ''draw-deck'' (Some HAND_DROP_ID) (Some ''deck'') None))] @
     drag_card ''7-3-1'' 3 NEW_COMPOSITION_DROP_ID @ drag_card ''5-3-1'' 0 ''7-3-1'' @
     drag_card ''6-3-1'' 1 ''7-3-1'' @ drag_card ''12-0-1'' 2 ''discard-pile''"

theorem practice_game_is_fair_witness:
  "\<exists>t. run tutorial_enabled (tutorial_handle moveItem moveItem) tutorial_moves (initialTutorial []) = Some t \<and>
     tut_stage t = CompleteStage \<and> game_hand (tut_game t) = []"
proof -
  have "map_option tut_stage (run tutorial_enabled (tutorial_handle moveItem moveItem) tutorial_moves
     (initialTutorial [])) = Some CompleteStage" by code_simp
  then obtain t where t: "run tutorial_enabled (tutorial_handle moveItem moveItem) tutorial_moves
     (initialTutorial []) = Some t" and stage: "tut_stage t = CompleteStage" by auto
  from practice_game_is_fair [OF run_reach [OF t]] t stage show ?thesis by blast
qed

section \<open>The record of the completion\<close>

definition onboarding_ok :: "int option \<Rightarrow> int option \<Rightarrow> Onboarding \<Rightarrow> bool" where
  "onboarding_ok cv rv s \<longleftrightarrow>
     ob_requests s = of_bool (ob_isCompleting s) \<and> (ob_isCompleting s \<longrightarrow> mustComplete cv rv s) \<and>
     (ob_completedInSession s \<longleftrightarrow> 0 < ob_recorded s) \<and> ob_recorded s \<le> 1"

interpretation onboarding: invariant "\<lambda>s. s = initialOnboarding"
  "guarded_step (onboarding_enabled cv rv) (onboarding_handle cv rv)" "onboarding_ok cv rv" for cv rv
proof
  show "onboarding_ok cv rv s" if "s = initialOnboarding" for s
    using that by (simp add: onboarding_ok_def initialOnboarding_def)
next
  fix s s' assume ok: "onboarding_ok cv rv s"
    and "guarded_step (onboarding_enabled cv rv) (onboarding_handle cv rv) s s'"
  then obtain e where "onboarding_enabled cv rv e s" and "s' = onboarding_handle cv rv e s"
    by (auto simp: guarded_step_def)
  with ok show "onboarding_ok cv rv s'"
    by (cases e) (auto simp: onboarding_ok_def startTutorial_def completeTutorial_def completionRecorded_def
        completionFailed_def mustComplete_def tutorialOpen_def split: option.splits)
qed

text \<open>C30: A player who must complete the tutorial cannot leave it before the server has recorded the
  completion: at most one request is under way, it is recorded at most once, and a closed tutorial
  means that it was recorded.\<close>

theorem required_tutorial_stays_open:
  assumes "reach (guarded_step (onboarding_enabled cv rv) (onboarding_handle cv rv)) initialOnboarding s"
    and "mustComplete cv rv initialOnboarding"
  shows "ob_requests s \<le> 1 \<and> ob_recorded s \<le> 1 \<and> (\<not> tutorialOpen cv rv s \<longrightarrow> ob_recorded s = 1)"
  using onboarding.run_inv [OF refl assms(1)] assms(2)
  by (auto simp: onboarding_ok_def mustComplete_def tutorialOpen_def initialOnboarding_def split: option.splits)

definition completion_run :: "OnboardingEvent list" where
  "completion_run = [DonePressed, RequestFailed, DonePressed, RequestSucceeded]"

theorem required_tutorial_stays_open_witness:
  "\<exists>s. run (onboarding_enabled (Some 1) (Some 2)) (onboarding_handle (Some 1) (Some 2)) completion_run
     initialOnboarding = Some s \<and> \<not> tutorialOpen (Some 1) (Some 2) s \<and> ob_errors s = 1 \<and> ob_recorded s = 1"
proof -
  have "map_option (\<lambda>s. (tutorialOpen (Some 1) (Some 2) s, ob_errors s))
     (run (onboarding_enabled (Some 1) (Some 2)) (onboarding_handle (Some 1) (Some 2)) completion_run
       initialOnboarding) = Some (False, 1)" by code_simp
  then obtain s where s: "run (onboarding_enabled (Some 1) (Some 2)) (onboarding_handle (Some 1) (Some 2))
      completion_run initialOnboarding = Some s" and closed: "\<not> tutorialOpen (Some 1) (Some 2) s" "ob_errors s = 1"
    by auto
  have "mustComplete (Some 1) (Some 2) initialOnboarding" by code_simp
  from required_tutorial_stays_open [OF run_reach [OF s] this] s closed show ?thesis by blast
qed

end
