(* ===== verification/GamePage.thy ===== *)
theory GamePage
  imports CardTransfer BoardPlay LobbyReducer
begin

text \<open>
  The game page (\<open>routes/protected-home.tsx\<close>, with \<open>game-view-helpers.ts\<close> and \<open>lib/room-code.ts\<close>):
  what it derives from the lobby state, which view it shows, the hook that holds back the results
  while a completed composition is collected, and the invitation in the address.
\<close>

section \<open>Derived values\<close>

definition ROOM_CODE_LENGTH :: nat where "ROOM_CODE_LENGTH = 6"

definition isCompleteRoomCode :: "string \<Rightarrow> bool" where
  "isCompleteRoomCode roomCode \<longleftrightarrow> length (js_trim roomCode) = ROOM_CODE_LENGTH"

definition playerById :: "PlayerSnapshot list \<Rightarrow> string option \<Rightarrow> PlayerSnapshot option" where
  "playerById players playerId = List.find (\<lambda>player. Some (pl_playerId player) = playerId) players"

text \<open>\<open>waiting\<close> is the translated text of \<open>m.waiting()\<close>.\<close>

definition playerName :: "string \<Rightarrow> PlayerSnapshot list \<Rightarrow> string option \<Rightarrow> string" where
  "playerName waiting players playerId =
     (case List.find (\<lambda>player. Some (pl_playerId player) = playerId) players of
        Some player \<Rightarrow> pl_name player | None \<Rightarrow> waiting)"

definition playersForResults :: "RoomSnapshot option \<Rightarrow> RoomSnapshot option \<Rightarrow> PlayerSnapshot list" where
  "playersForResults resultRoom liveRoom =
     (case resultRoom of
        None \<Rightarrow> []
      | Some result_room \<Rightarrow>
          (case liveRoom of
             Some live \<Rightarrow> if room_code live = room_code result_room then room_players live else room_players result_room
           | None \<Rightarrow> room_players result_room))"

definition pagePlayers :: "LobbyState \<Rightarrow> PlayerSnapshot list" where
  "pagePlayers state = (case ls_room state of Some r \<Rightarrow> room_players r | None \<Rightarrow> [])"

definition activePlayers :: "LobbyState \<Rightarrow> PlayerSnapshot list" where
  "activePlayers state = filter (\<lambda>player. \<not> pl_forfeited player) (pagePlayers state)"

definition connectedPlayers :: "LobbyState \<Rightarrow> nat" where
  "connectedPlayers state = length (filter pl_connected (activePlayers state))"

definition pagePhase :: "LobbyState \<Rightarrow> string" where
  "pagePhase state = (case ls_room state of Some r \<Rightarrow> room_phase r | None \<Rightarrow> ''lobby'')"

definition isLobbyPhase :: "LobbyState \<Rightarrow> bool" where
  "isLobbyPhase state \<longleftrightarrow> ls_room state = None \<or> pagePhase state = ''lobby''"

definition isGameInProgress :: "LobbyState \<Rightarrow> bool" where
  "isGameInProgress state \<longleftrightarrow> pagePhase state = ''in_progress''"

definition isHost :: "LobbyState \<Rightarrow> bool" where
  "isHost state =
     (case List.find (\<lambda>player. pl_playerId player = ls_playerId state) (pagePlayers state) of
        Some player \<Rightarrow> pl_isHost player | None \<Rightarrow> False)"

definition pendingDealChoiceOf :: "LobbyState \<Rightarrow> PendingDealChoiceSnapshot option" where
  "pendingDealChoiceOf state = Option.bind (ls_room state) room_pendingDealChoice"

definition dealChooser :: "LobbyState \<Rightarrow> PlayerSnapshot option" where
  "dealChooser state =
     List.find (\<lambda>player. Some (pl_playerId player)
        = map_option pdc_chooserPlayerId (pendingDealChoiceOf state)) (pagePlayers state)"

definition isDealChooser :: "LobbyState \<Rightarrow> bool" where
  "isDealChooser state \<longleftrightarrow>
     map_option pdc_chooserPlayerId (pendingDealChoiceOf state) = Some (ls_playerId state)"

definition allPlayersConnected :: "LobbyState \<Rightarrow> bool" where
  "allPlayersConnected state \<longleftrightarrow> activePlayers state \<noteq> [] \<and> list_all pl_connected (activePlayers state)"

definition canCreateRoom :: "LobbyState \<Rightarrow> bool" where
  "canCreateRoom state \<longleftrightarrow> ls_connectionStatus state = Connected \<and> ls_room state = None"

definition canJoinRoom :: "string \<Rightarrow> LobbyState \<Rightarrow> bool" where
  "canJoinRoom roomCode state \<longleftrightarrow>
     ls_connectionStatus state = Connected \<and> ls_room state = None \<and> isCompleteRoomCode roomCode"

definition canLeaveRoom :: "LobbyState \<Rightarrow> bool" where
  "canLeaveRoom state \<longleftrightarrow> ls_room state \<noteq> None \<and> pagePhase state = ''lobby''"

definition canStartGame :: "LobbyState \<Rightarrow> bool" where
  "canStartGame state \<longleftrightarrow>
     ls_room state \<noteq> None \<and> isHost state \<and> 2 \<le> length (pagePlayers state) \<and>
     allPlayersConnected state \<and> pendingDealChoiceOf state = None"

definition isMyTurn :: "LobbyState \<Rightarrow> bool" where
  "isMyTurn state \<longleftrightarrow> isGameInProgress state \<and>
     Option.bind (ls_game state) (\<lambda>g. turn_playerId (game_turn g)) = Some (ls_playerId state)"

definition canDraw :: "LobbyState \<Rightarrow> bool" where
  "canDraw state \<longleftrightarrow> isGameInProgress state \<and> ls_game state \<noteq> None \<and> isMyTurn state \<and>
     \<not> (case ls_game state of Some g \<Rightarrow> turn_hasDrawn (game_turn g) | None \<Rightarrow> False)"

definition canDrawDeck :: "LobbyState \<Rightarrow> bool" where
  "canDrawDeck state \<longleftrightarrow> canDraw state \<and>
     \<not> (case ls_game state of Some g \<Rightarrow> turn_mustUseDiscardDraw (game_turn g) | None \<Rightarrow> False) \<and>
     0 < (case ls_game state of Some g \<Rightarrow> game_drawPileCount g | None \<Rightarrow> 0)"

definition topDiscardCardOf :: "LobbyState \<Rightarrow> CardSnapshot option" where
  "topDiscardCardOf state = Option.bind (ls_game state) (\<lambda>g. js_nth (game_discardPile g) 0)"

definition canDrawDiscard :: "LobbyState \<Rightarrow> bool" where
  "canDrawDiscard state \<longleftrightarrow> canDraw state \<and> topDiscardCardOf state \<noteq> None"

definition canDiscard :: "LobbyState \<Rightarrow> bool" where
  "canDiscard state \<longleftrightarrow> ls_game state \<noteq> None \<and> isMyTurn state \<and>
     (case ls_game state of Some g \<Rightarrow> turn_hasDrawn (game_turn g) | None \<Rightarrow> False)"

definition isResultsPhase :: "LobbyState \<Rightarrow> bool" where
  "isResultsPhase state \<longleftrightarrow> pagePhase state = ''round_over'' \<or> pagePhase state = ''game_over''"

definition resultGameOf :: "LobbyState \<Rightarrow> GameSnapshot option" where
  "resultGameOf state =
     (if isResultsPhase state then ls_game state else map_option done_game (ls_completedGame state))"

definition resultRoomOf :: "LobbyState \<Rightarrow> RoomSnapshot option" where
  "resultRoomOf state =
     (if isResultsPhase state \<and> resultGameOf state \<noteq> None then ls_room state
      else map_option done_room (ls_completedGame state))"

definition pageBoardProps :: "string \<Rightarrow> LobbyState \<Rightarrow> BoardProps" where
  "pageBoardProps waiting state =
     \<lparr>bp_game = ls_game state, bp_roomCode = map_option room_code (ls_room state),
      bp_playerId = ls_playerId state,
      bp_turnState =
        \<lparr>bt_canDrawDeck = canDrawDeck state, bt_canDrawDiscard = canDrawDiscard state,
         bt_canDiscard = canDiscard state, bt_isMyTurn = isMyTurn state,
         bt_turnPlayerName = playerName waiting (pagePlayers state)
           (Option.bind (ls_game state) (\<lambda>g. turn_playerId (game_turn g)))\<rparr>,
      bp_topDiscardCard = topDiscardCardOf state, bp_draftSyncEnabled = True, bp_guided = False\<rparr>"

datatype DiscardAttempt = DiscardRefused | DiscardForwarded int CardSnapshot

definition handleDiscardCard :: "LobbyState \<Rightarrow> int \<Rightarrow> CardSnapshot \<Rightarrow> DiscardAttempt" where
  "handleDiscardCard state cardIndex cd =
     (if \<not> canDiscard state then DiscardRefused else DiscardForwarded cardIndex cd)"

section \<open>Results held back\<close>

record RoundResultsSnapshot =
  rr_room :: "RoomSnapshot option"
  rr_game :: GameSnapshot

record RoundResultsTransition =
  tr_currentGame :: "GameSnapshot option"
  tr_resultRoom :: "RoomSnapshot option"
  tr_resultGame :: "GameSnapshot option"
  tr_visibleResults :: "RoundResultsSnapshot option"
  tr_pendingResults :: "RoundResultsSnapshot option"
  tr_transitionId :: nat

definition resultsFor ::
  "RoomSnapshot option \<Rightarrow> GameSnapshot option \<Rightarrow> RoundResultsSnapshot option" where
  "resultsFor resultRoom resultGame = map_option (\<lambda>g. \<lparr>rr_room = resultRoom, rr_game = g\<rparr>) resultGame"

definition initialTransition ::
  "RoomSnapshot option \<Rightarrow> GameSnapshot option \<Rightarrow> GameSnapshot option \<Rightarrow> RoundResultsTransition" where
  "initialTransition resultRoom resultGame currentGame =
     \<lparr>tr_currentGame = currentGame, tr_resultRoom = resultRoom, tr_resultGame = resultGame,
      tr_visibleResults = resultsFor resultRoom resultGame, tr_pendingResults = None, tr_transitionId = 0\<rparr>"

definition collectionBetween ::
  "GameSnapshot option \<Rightarrow> GameSnapshot option \<Rightarrow> GameSnapshot option \<Rightarrow>
     CompletedCompositionCollection option" where
  "collectionBetween resultGame before now =
     (case (resultGame, before, now) of
        (Some _, Some previous, Some current) \<Rightarrow> inferCompletedCompositionCollection previous current
      | _ \<Rightarrow> None)"

definition nextTransition ::
  "RoomSnapshot option \<Rightarrow> GameSnapshot option \<Rightarrow> GameSnapshot option \<Rightarrow> RoundResultsTransition \<Rightarrow>
     RoundResultsTransition" where
  "nextTransition resultRoom resultGame currentGame transition =
     (let nextResults = resultsFor resultRoom resultGame;
          completedCollection = collectionBetween resultGame (tr_currentGame transition) currentGame;
          shouldDeferResults = (completedCollection \<noteq> None \<or> tr_pendingResults transition \<noteq> None)
      in \<lparr>tr_currentGame = currentGame, tr_resultRoom = resultRoom, tr_resultGame = resultGame,
          tr_visibleResults = (if shouldDeferResults then None else nextResults),
          tr_pendingResults = (if shouldDeferResults then nextResults else None),
          tr_transitionId = (if completedCollection \<noteq> None then tr_transitionId transition + 1
                             else tr_transitionId transition)\<rparr>)"

definition pendingTransitionId :: "RoundResultsTransition \<Rightarrow> nat option" where
  "pendingTransitionId transition =
     (if tr_pendingResults transition \<noteq> None then Some (tr_transitionId transition) else None)"

definition COMPLETED_COLLECTION_DURATION_MS :: int where "COMPLETED_COLLECTION_DURATION_MS = 520"
definition COMPLETED_DISCARD_DURATION_MS :: int where "COMPLETED_DISCARD_DURATION_MS = 360"

definition revealDelay :: "bool \<Rightarrow> int" where
  "revealDelay reduceMotion =
     (if reduceMotion then 280 else COMPLETED_COLLECTION_DURATION_MS + COMPLETED_DISCARD_DURATION_MS + 40)"

text \<open>The update of the timer of the transition \<open>pendingId\<close>.\<close>

definition revealPending :: "nat \<Rightarrow> RoundResultsTransition \<Rightarrow> RoundResultsTransition" where
  "revealPending pendingId current =
     (if tr_transitionId current = pendingId \<and> tr_pendingResults current \<noteq> None
      then current\<lparr>tr_visibleResults := tr_pendingResults current, tr_pendingResults := None\<rparr>
      else current)"

text \<open>
  The hook: the stored transition, the value its effect last ran for, and the timer the effect set
  (its transition and its delay).
\<close>

record ResultsHook =
  rh_transition :: RoundResultsTransition
  rh_effectFor :: "nat option"
  rh_timer :: "(nat \<times> int) option"

definition runEffect :: "bool \<Rightarrow> ResultsHook \<Rightarrow> ResultsHook" where
  "runEffect reduceMotion h =
     (let pendingId = pendingTransitionId (rh_transition h)
      in if pendingId = rh_effectFor h then h
         else h\<lparr>rh_effectFor := pendingId,
                rh_timer := map_option (\<lambda>i. (i, revealDelay reduceMotion)) pendingId\<rparr>)"

definition mountResults :: "LobbyState \<Rightarrow> ResultsHook" where
  "mountResults state =
     \<lparr>rh_transition = initialTransition (resultRoomOf state) (resultGameOf state) (ls_game state),
      rh_effectFor = None, rh_timer = None\<rparr>"

text \<open>
  A render with a lobby state. The code compares the snapshots by reference: \<open>changed\<close> says whether
  one of the three is another object, and may be false only when all are equal.
\<close>

datatype ResultsEvent = Rendered bool bool LobbyState | RevealTimerFires bool

definition sameResults :: "LobbyState \<Rightarrow> RoundResultsTransition \<Rightarrow> bool" where
  "sameResults state transition \<longleftrightarrow>
     tr_currentGame transition = ls_game state \<and> tr_resultRoom transition = resultRoomOf state \<and>
     tr_resultGame transition = resultGameOf state"

fun results_enabled :: "ResultsEvent \<Rightarrow> ResultsHook \<Rightarrow> bool" where
  "results_enabled (Rendered reduceMotion changed state) h =
     (changed \<or> sameResults state (rh_transition h))"
| "results_enabled (RevealTimerFires reduceMotion) h = (rh_timer h \<noteq> None)"

fun results_handle :: "ResultsEvent \<Rightarrow> ResultsHook \<Rightarrow> ResultsHook" where
  "results_handle (Rendered reduceMotion changed state) h =
     (if changed
      then runEffect reduceMotion (h\<lparr>rh_transition :=
             nextTransition (resultRoomOf state) (resultGameOf state) (ls_game state) (rh_transition h)\<rparr>)
      else runEffect reduceMotion h)"
| "results_handle (RevealTimerFires reduceMotion) h =
     (case rh_timer h of
        None \<Rightarrow> h
      | Some (i, delay) \<Rightarrow>
          runEffect reduceMotion (h\<lparr>rh_timer := None, rh_transition := revealPending i (rh_transition h)\<rparr>))"

section \<open>The view\<close>

datatype PageView = LoadingView | ResultsPageView RoundResultsSnapshot | LobbyView | BoardView

definition pageView :: "LobbyState \<Rightarrow> RoundResultsSnapshot option \<Rightarrow> PageView" where
  "pageView state visibleRoundResults =
     (if isGameRouteSnapshotResolving state then LoadingView
      else (case visibleRoundResults of
              Some results \<Rightarrow> ResultsPageView results
            | None \<Rightarrow> if isLobbyPhase state then LobbyView else BoardView))"

section \<open>The invitation in the address\<close>

record PageInput =
  pg_search :: "string option"
  pg_autoJoinAttempted :: "string option"
  pg_roomCode :: string
  pg_joins :: "string list"

definition initialInput :: "string option \<Rightarrow> PageInput" where
  "initialInput search =
     \<lparr>pg_search = search, pg_autoJoinAttempted = None, pg_roomCode = or_else search [], pg_joins = []\<rparr>"

definition autoJoin :: "LobbyState \<Rightarrow> PageInput \<Rightarrow> PageInput" where
  "autoJoin state s =
     (case pg_search s of
        None \<Rightarrow> s
      | Some inviteRoomCode \<Rightarrow>
          (if ls_connectionStatus state \<noteq> Connected \<or> ls_room state \<noteq> None \<or> inviteRoomCode = [] \<or>
              pg_autoJoinAttempted s = Some inviteRoomCode
           then s
           else s\<lparr>pg_autoJoinAttempted := Some inviteRoomCode, pg_roomCode := [],
                  pg_joins := pg_joins s @ [inviteRoomCode], pg_search := None\<rparr>))"

definition clearSearch :: "LobbyState \<Rightarrow> PageInput \<Rightarrow> PageInput" where
  "clearSearch state s =
     (if pg_search s \<noteq> None \<and> pg_search s \<noteq> Some [] \<and> ls_room state \<noteq> None
      then s\<lparr>pg_search := None\<rparr> else s)"

text \<open>\<open>toUpperCase\<close> follows the Unicode tables of the runtime.\<close>

definition handleRoomCodeChange :: "(string \<Rightarrow> string) \<Rightarrow> string \<Rightarrow> PageInput \<Rightarrow> PageInput" where
  "handleRoomCodeChange toUpperCase nextRoomCode s =
     (let normalizedRoomCode = toUpperCase (js_trim nextRoomCode)
      in s\<lparr>pg_autoJoinAttempted :=
             (if Some normalizedRoomCode \<noteq> pg_autoJoinAttempted s then None else pg_autoJoinAttempted s),
           pg_roomCode := normalizedRoomCode\<rparr>)"

definition handleLeaveRoom :: "PageInput \<Rightarrow> PageInput" where
  "handleLeaveRoom s = s\<lparr>pg_autoJoinAttempted := None, pg_roomCode := []\<rparr>"

section \<open>Results come, and are current\<close>

definition results_ok :: "ResultsHook \<Rightarrow> bool" where
  "results_ok h \<longleftrightarrow>
     (let t = rh_transition h; results = resultsFor (tr_resultRoom t) (tr_resultGame t) in
      (tr_pendingResults t = None \<and> tr_visibleResults t = results \<or>
       tr_visibleResults t = None \<and> tr_pendingResults t = results) \<and>
      rh_effectFor h = pendingTransitionId t \<and> map_option fst (rh_timer h) = pendingTransitionId t \<and>
      (\<forall>i delay. rh_timer h = Some (i, delay) \<longrightarrow> delay \<le> 920))"

lemma revealDelay_le: "revealDelay reduceMotion \<le> 920"
  by (simp add: revealDelay_def COMPLETED_COLLECTION_DURATION_MS_def COMPLETED_DISCARD_DURATION_MS_def)

text \<open>A new transition, whatever it is, with a timer that still belongs to the old one.\<close>

lemma results_ok_effect:
  assumes "let results = resultsFor (tr_resultRoom t) (tr_resultGame t) in
      tr_pendingResults t = None \<and> tr_visibleResults t = results \<or>
      tr_visibleResults t = None \<and> tr_pendingResults t = results"
    and "map_option fst (rh_timer h) = rh_effectFor h \<or> pendingTransitionId t = None \<and> rh_effectFor h \<noteq> None"
    and "\<forall>i delay. rh_timer h = Some (i, delay) \<longrightarrow> delay \<le> 920"
  shows "results_ok (runEffect reduceMotion (h\<lparr>rh_transition := t\<rparr>))"
  using assms revealDelay_le [of reduceMotion]
  by (auto simp: results_ok_def runEffect_def Let_def option.map_comp comp_def option.map_ident)

lemma results_ok_render:
  assumes "results_ok h"
  shows "results_ok (results_handle (Rendered reduceMotion changed state) h)"
proof (cases changed)
  case True
  have "results_ok (runEffect reduceMotion (h\<lparr>rh_transition :=
      nextTransition (resultRoomOf state) (resultGameOf state) (ls_game state) (rh_transition h)\<rparr>))"
    using assms by (intro results_ok_effect) (auto simp: results_ok_def nextTransition_def Let_def)
  with True show ?thesis by simp
next
  case False
  with assms show ?thesis by (simp add: runEffect_def results_ok_def Let_def)
qed

lemma reveal_shows:
  assumes "results_ok h" and "rh_timer h = Some (i, delay)"
  shows "tr_visibleResults (revealPending i (rh_transition h))
      = resultsFor (tr_resultRoom (rh_transition h)) (tr_resultGame (rh_transition h))"
    and "tr_pendingResults (revealPending i (rh_transition h)) = None"
    and "tr_resultRoom (revealPending i (rh_transition h)) = tr_resultRoom (rh_transition h)"
    and "tr_resultGame (revealPending i (rh_transition h)) = tr_resultGame (rh_transition h)"
  using assms by (auto simp: results_ok_def revealPending_def pendingTransitionId_def Let_def split: if_splits)

lemma results_ok_timer:
  assumes "results_ok h"
  shows "results_ok (results_handle (RevealTimerFires reduceMotion) h)"
proof (cases "rh_timer h")
  case (Some timer)
  then obtain i delay where timer: "rh_timer h = Some (i, delay)" by (cases timer) simp
  note shown = reveal_shows [OF assms timer]
  have "rh_effectFor h = Some i" using assms timer by (simp add: results_ok_def Let_def)
  then have "results_ok (runEffect reduceMotion
      (h\<lparr>rh_timer := None\<rparr>\<lparr>rh_transition := revealPending i (rh_transition h)\<rparr>))"
    by (intro results_ok_effect) (simp_all add: shown pendingTransitionId_def)
  then show ?thesis by (simp add: timer)
qed (use assms in simp)

interpretation results: invariant "\<lambda>h. \<exists>state. h = mountResults state"
  "guarded_step results_enabled results_handle" results_ok
proof
  fix h assume "\<exists>state. h = mountResults state"
  then show "results_ok h"
    by (auto simp: mountResults_def initialTransition_def results_ok_def pendingTransitionId_def Let_def)
next
  fix h h' assume "results_ok h" and "guarded_step results_enabled results_handle h h'"
  then obtain e where "h' = results_handle e h" by (auto simp: guarded_step_def)
  then show "results_ok h'"
    using \<open>results_ok h\<close> results_ok_render results_ok_timer by (cases e) blast+
qed


definition closing_game :: "CardSnapshot list \<Rightarrow> GameSnapshot" where
  "closing_game pile =
     \<lparr>game_gameMode = None, game_phase = 1, game_round = 1, game_dealerIndex = 0, game_roundWinnerIndex = 0,
      game_turn = \<lparr>turn_number = 9, turn_playerIndex = 0, turn_playerId = Some ''ann'',
        turn_hasDrawn = True, turn_mustUseDiscardDraw = False\<rparr>,
      game_players = [], game_hand = [], game_drawPileCount = 10, game_discardPile = pile,
      game_activeCompositions = [], game_turnActivity = None\<rparr>"

definition round_state :: "string \<Rightarrow> CardSnapshot list \<Rightarrow> LobbyState" where
  "round_state phase pile = initialState
     \<lparr>ls_connectionStatus := Connected, ls_playerId := ''ann'',
      ls_room := Some \<lparr>room_code = ''ABCDEF'', room_phase = phase, room_gameMode = None,
        room_hostPlayerId = ''ann'', room_dealerIndex = None, room_pendingDealChoice = None,
        room_endProposal = None, room_conclusion = None, room_spectatorCount = None, room_players = []\<rparr>,
      ls_game := Some (closing_game pile)\<rparr>"

definition last_pile :: "CardSnapshot list" where
  "last_pile = [heart 2, heart 7, heart 8, heart 9, heart 3]"



section \<open>Out of turn\<close>

text \<open>What spends no card.\<close>

definition unspending :: "BoardEffect set" where
  "unspending = {e. sent_cards e = []}"

interpretation unspending: harmless_effects unspending
  by unfold_locales (simp_all add: unspending_def)

text \<open>A zone takes a card only while it is enabled; the discard pile is while a card may be discarded.\<close>

definition zone_enabled :: "BoardProps \<Rightarrow> BoardEvent \<Rightarrow> bool" where
  "zone_enabled p e \<longleftrightarrow>
     (case e of
        DragEnd ev \<Rightarrow> ev_overId ev = Some ''discard-pile'' \<longrightarrow> bt_canDiscard (bp_turnState p)
      | _ \<Rightarrow> True)"

lemma board_without_turn:
  assumes "\<not> bt_canDiscard (bp_turnState p)" and "zone_enabled p e"
  shows "sends unspending s (boardHandle me mk p e s)"
proof (cases e)
  case (DragStart ev)
  have "sends unspending s (handleDragStart p ev s)"
    unfolding handleDragStart_def Let_def
    by (intro sends_cases sends_emit) (auto simp: sends_same unspending_def)
  with DragStart show ?thesis by simp
next
  case (DragEnd ev)
  have "sends unspending s (handleDragEnd me mk p ev s)"
    by (rule unspending.sends_end) (use assms DragEnd in \<open>auto simp: zone_enabled_def unspending_def\<close>)
  with DragEnd show ?thesis by simp
next
  case DragCancel
  have "sends unspending s (handleDragCancel p s)"
    by (rule unspending.sends_cancel) (simp add: unspending_def)
  with DragCancel show ?thesis by simp
next
  case SubmitDrafts
  with assms(1) show ?thesis
    by (simp add: submitDraftCompositions_def canSubmitTablePlay_def canSubmitViews_def sends_same)
qed (simp_all add: unspending.sends_over sends_reset submitAnswered_def discardAnswered_def syncTurnDrafts_def
       sends_emit sends_same unspending.sound_in)

text \<open>C10: On the page of a player who has not drawn, or whose turn it is not, nothing done on the board
  spends a card: no play and no discard reaches the server, whatever the board remembers.\<close>

theorem out_of_turn_nothing_is_spent:
  assumes "isMyTurn state \<longrightarrow> (\<exists>g. ls_game state = Some g \<and> \<not> turn_hasDrawn (game_turn g))"
    and "zone_enabled (pageBoardProps waiting state) e"
    and "bd_effects (boardHandle me mk (pageBoardProps waiting state) e s) = bd_effects s @ es"
    and "eff \<in> set es"
  shows "sent_cards eff = []"
proof -
  have "\<not> bt_canDiscard (bp_turnState (pageBoardProps waiting state))"
    using assms(1) by (auto simp: pageBoardProps_def canDiscard_def)
  from board_without_turn [OF this assms(2), of s me mk] assms(3,4) show ?thesis
    by (auto simp: sends_def unspending_def)
qed

theorem out_of_turn_nothing_is_spent_witness:
  "\<exists>eff. bd_effects (boardHandle moveItem moveItem (pageBoardProps [] (round_state ''round_over'' last_pile))
       (DragStart (drag_event ''7-0-1'' None)) (initialBoard [])) = bd_effects (initialBoard []) @ [eff] \<and>
     sent_cards eff = []"
proof -
  let ?state = "round_state ''round_over'' last_pile"
  have sent: "bd_effects (boardHandle moveItem moveItem (pageBoardProps [] ?state)
       (DragStart (drag_event ''7-0-1'' None)) (initialBoard [])) = bd_effects (initialBoard []) @ [Sound ''card-pickup'']"
    by code_simp
  have turn: "\<not> isMyTurn ?state" by code_simp
  have "sent_cards (Sound ''card-pickup'') = []"
    by (rule out_of_turn_nothing_is_spent [OF _ _ sent]) (simp_all add: turn zone_enabled_def)
  with sent show ?thesis by blast
qed

section \<open>The view and what it allows\<close>

lemma view_of_board: "pageView state visible = BoardView \<Longrightarrow>
    \<exists>r g. ls_room state = Some r \<and> room_phase r \<noteq> ''lobby'' \<and> ls_game state = Some g"
  by (auto simp: pageView_def isGameRouteSnapshotResolving_def isLobbyPhase_def pagePhase_def
      split: if_splits option.splits)

end
