(* ===== verification/Calendar.thy ===== *)
theory Calendar
  imports JsText
begin

text \<open>
  The calendar of the analytics page (\<open>lib/admin-analytics-date.ts\<close>): dates as texts
  \<open>YYYY-MM-DD\<close>, the periods around a date and the moves between periods. The code uses UTC midnights
  only, so a \<open>Date\<close> is its day number since 1970, \<open>None\<close> for an invalid date; the arithmetic of
  \<open>Date\<close> is that of the language standard.
\<close>

section \<open>Dates of the language\<close>

definition leap :: "int \<Rightarrow> bool" where
  "leap y \<longleftrightarrow> y mod 4 = 0 \<and> y mod 100 \<noteq> 0 \<or> y mod 400 = 0"

definition dayFromYear :: "int \<Rightarrow> int" where
  "dayFromYear y = 365 * (y - 1970) + (y - 1969) div 4 - (y - 1901) div 100 + (y - 1601) div 400"

definition yearFromDay :: "int \<Rightarrow> int" where
  "yearFromDay d =
     (let y = d * 400 div 146097 + 1970
      in if dayFromYear (y + 1) \<le> d then y + 1 else if dayFromYear y \<le> d then y else y - 1)"

text \<open>The day of the year on which a month starts, counted from 0; 12 stands for the end of the year.\<close>

definition monthStart :: "bool \<Rightarrow> nat \<Rightarrow> int" where
  "monthStart isLeap m =
     [0, 31, 59, 90, 120, 151, 181, 212, 243, 273, 304, 334, 365] ! m + (if isLeap \<and> 2 \<le> m then 1 else 0)"

definition dayInYear :: "int \<Rightarrow> int" where
  "dayInYear d = d - dayFromYear (yearFromDay d)"

definition monthFromDay :: "int \<Rightarrow> nat" where
  "monthFromDay d =
     length (filter (\<lambda>m. monthStart (leap (yearFromDay d)) m \<le> dayInYear d) [1..<12])"

definition dateFromDay :: "int \<Rightarrow> int" where
  "dateFromDay d = dayInYear d - monthStart (leap (yearFromDay d)) (monthFromDay d) + 1"

definition weekDay :: "int \<Rightarrow> int" where
  "weekDay d = (d + 4) mod 7"

definition makeDay :: "int \<Rightarrow> int \<Rightarrow> int \<Rightarrow> int" where
  "makeDay year month date =
     (let y = year + month div 12 in dayFromYear y + monthStart (leap y) (nat (month mod 12)) + date - 1)"

text \<open>Outside of a hundred million days around 1970 a date is invalid.\<close>

definition timeClip :: "int \<Rightarrow> int option" where
  "timeClip d = (if \<bar>d\<bar> \<le> 100000000 then Some d else None)"

definition dateUTC :: "int \<Rightarrow> int \<Rightarrow> int \<Rightarrow> int option" where
  "dateUTC year month date =
     timeClip (makeDay (if 0 \<le> year \<and> year \<le> 99 then 1900 + year else year) month date)"

fun padded :: "nat \<Rightarrow> nat \<Rightarrow> string" where
  "padded 0 n = []"
| "padded (Suc k) n = padded k (n div 10) @ [digit_char (n mod 10)]"

datatype CalendarError = InvalidCalendarDate | InvalidTimeValue

definition isoYear :: "int \<Rightarrow> string" where
  "isoYear y =
     (if 0 \<le> y \<and> y \<le> 9999 then padded 4 (nat y)
      else (if y < 0 then ''-'' else ''+'') @ padded 6 (nat \<bar>y\<bar>))"

text \<open>\<open>toISOString().slice(0, 10)\<close>; the time of the day follows the date and matters only when cut off.\<close>

definition formatCalendarDate :: "int option \<Rightarrow> CalendarError + string" where
  "formatCalendarDate value =
     (case value of
        None \<Rightarrow> Inl InvalidTimeValue
      | Some d \<Rightarrow> Inr (take 10 (isoYear (yearFromDay d) @ ''-'' @ padded 2 (monthFromDay d + 1) @ ''-'' @
          padded 2 (nat (dateFromDay d)))))"

definition allDigits :: "string \<Rightarrow> bool" where
  "allDigits s \<longleftrightarrow> list_all (\<lambda>c. digit_val c \<noteq> None) s"

definition number :: "string \<Rightarrow> int" where
  "number s = int (fst (take_digits 0 0 s))"

definition matchesCalendarDate :: "string \<Rightarrow> bool" where
  "matchesCalendarDate value \<longleftrightarrow>
     length value = 10 \<and> allDigits (take 4 value) \<and> value ! 4 = CHR ''-'' \<and>
     allDigits (take 2 (drop 5 value)) \<and> value ! 7 = CHR ''-'' \<and> allDigits (drop 8 value)"

definition parseCalendarDate :: "string \<Rightarrow> CalendarError + int" where
  "parseCalendarDate value =
     (if \<not> matchesCalendarDate value then Inl InvalidCalendarDate
      else (let date = dateUTC (number (take 4 value)) (number (take 2 (drop 5 value)) - 1)
                  (number (drop 8 value))
            in case formatCalendarDate date of
                 Inl e \<Rightarrow> Inl e
               | Inr text \<Rightarrow>
                   (case date of
                      Some d \<Rightarrow> if text \<noteq> value then Inl InvalidCalendarDate else Inr d
                    | None \<Rightarrow> Inl InvalidTimeValue)))"

section \<open>Periods\<close>

datatype AnalyticsPeriod = CustomPeriod | WeekPeriod | MonthPeriod | YearPeriod

record AnalyticsDateRange =
  range_from :: string
  range_to :: string

definition bind_result :: "'e + 'a \<Rightarrow> ('a \<Rightarrow> 'e + 'b) \<Rightarrow> 'e + 'b" where
  "bind_result r f = (case r of Inl e \<Rightarrow> Inl e | Inr x \<Rightarrow> f x)"

text \<open>A shift is a whole number here, so the test for whole numbers never fails.\<close>

definition shiftCalendarDate :: "string \<Rightarrow> int \<Rightarrow> CalendarError + string" where
  "shiftCalendarDate value days =
     bind_result (parseCalendarDate value)
       (\<lambda>d. formatCalendarDate
          (timeClip (makeDay (yearFromDay d) (int (monthFromDay d)) (dateFromDay d + days))))"

definition daysSinceMonday :: "int \<Rightarrow> int" where
  "daysSinceMonday d = (weekDay d + 6) mod 7"

definition rangeOf :: "CalendarError + string \<Rightarrow> CalendarError + string \<Rightarrow> CalendarError + AnalyticsDateRange" where
  "rangeOf from to =
     bind_result from (\<lambda>f. bind_result to (\<lambda>t. Inr \<lparr>range_from = f, range_to = t\<rparr>))"

text \<open>The year is printed without padding.\<close>

definition analyticsPeriodRange :: "AnalyticsPeriod \<Rightarrow> string \<Rightarrow> CalendarError + AnalyticsDateRange" where
  "analyticsPeriodRange period anchor =
     bind_result (parseCalendarDate anchor) (\<lambda>d.
       let year = yearFromDay d; month = int (monthFromDay d) in
       if period = WeekPeriod then
         bind_result (shiftCalendarDate anchor (- daysSinceMonday d))
           (\<lambda>from. rangeOf (Inr from) (shiftCalendarDate from 6))
       else if period = MonthPeriod then
         rangeOf (formatCalendarDate (dateUTC year month 1)) (formatCalendarDate (dateUTC year (month + 1) 0))
       else Inr \<lparr>range_from = js_show year @ ''-01-01'', range_to = js_show year @ ''-12-31''\<rparr>)"

definition calendarDaysBetween :: "string \<Rightarrow> string \<Rightarrow> CalendarError + int" where
  "calendarDaysBetween from to =
     bind_result (parseCalendarDate to) (\<lambda>t. bind_result (parseCalendarDate from) (\<lambda>f. Inr (t - f)))"

definition shiftAnalyticsPeriod ::
  "AnalyticsDateRange \<Rightarrow> AnalyticsPeriod \<Rightarrow> int \<Rightarrow> CalendarError + AnalyticsDateRange" where
  "shiftAnalyticsPeriod shown period amount =
     (if period = WeekPeriod then
        bind_result (shiftCalendarDate (range_from shown) (amount * 7)) (analyticsPeriodRange WeekPeriod)
      else bind_result (parseCalendarDate (range_from shown)) (\<lambda>from.
        if period = MonthPeriod then
          bind_result (formatCalendarDate (dateUTC (yearFromDay from) (int (monthFromDay from) + amount) 1))
            (analyticsPeriodRange MonthPeriod)
        else if period = YearPeriod then
          analyticsPeriodRange YearPeriod (js_show (yearFromDay from + amount) @ ''-01-01'')
        else bind_result (calendarDaysBetween (range_from shown) (range_to shown)) (\<lambda>days.
          rangeOf (shiftCalendarDate (range_from shown) (amount * (days + 1)))
            (shiftCalendarDate (range_to shown) (amount * (days + 1))))))"

section \<open>Years\<close>

lemma div_succ:
  assumes k: "0 < (k::int)"
  shows "(n + 1) div k = n div k + of_bool ((n + 1) mod k = 0)"
proof -
  define r where "r = n mod k"
  have r: "0 \<le> r" "r < k" using k by (simp_all add: r_def)
  have n: "n + 1 = (r + 1) + n div k * k" by (simp add: r_def)
  have "(n + 1) div k = n div k + (r + 1) div k" using k by (subst n) simp
  moreover have "(n + 1) mod k = (r + 1) mod k" by (subst n) simp
  ultimately show ?thesis using k r
    by (cases "r + 1 = k") (simp_all add: div_pos_pos_trivial mod_pos_pos_trivial)
qed

lemma dayFromYear_succ: "dayFromYear (y + 1) = dayFromYear y + 365 + of_bool (leap y)"
proof -
  have "(y - 1968) mod 4 = y mod 4" using mod_mult_self1 [of "y - 1968" 492 4] by simp
  then have 4: "(y - 1968) div 4 = (y - 1969) div 4 + of_bool (y mod 4 = 0)"
    using div_succ [of 4 "y - 1969"] by simp
  have "(y - 1900) mod 100 = y mod 100" using mod_mult_self1 [of "y - 1900" 19 100] by simp
  then have 100: "(y - 1900) div 100 = (y - 1901) div 100 + of_bool (y mod 100 = 0)"
    using div_succ [of 100 "y - 1901"] by simp
  have "(y - 1600) mod 400 = y mod 400" using mod_mult_self1 [of "y - 1600" 4 400] by simp
  then have 400: "(y - 1600) div 400 = (y - 1601) div 400 + of_bool (y mod 400 = 0)"
    using div_succ [of 400 "y - 1601"] by simp
  have "(100::int) dvd y \<longrightarrow> 4 dvd y" "(400::int) dvd y \<longrightarrow> 100 dvd y"
    by (auto intro: dvd_trans [of 4 100] dvd_trans [of 100 400])
  then have "y mod 100 = 0 \<longrightarrow> y mod 4 = 0" "y mod 400 = 0 \<longrightarrow> y mod 100 = 0"
    by (simp_all only: mod_eq_0_iff_dvd)
  then have "of_bool (leap y) = (of_bool (y mod 4 = 0) - of_bool (y mod 100 = 0) + of_bool (y mod 400 = 0) :: int)"
    unfolding leap_def by (cases "y mod 4 = 0"; cases "y mod 100 = 0"; cases "y mod 400 = 0") simp_all
  moreover have "y + 1 - 1970 = y - 1970 + 1" "y + 1 - 1969 = y - 1968" "y + 1 - 1901 = y - 1900"
      "y + 1 - 1601 = y - 1600" by simp_all
  ultimately show ?thesis unfolding dayFromYear_def 4 [symmetric] by (simp only: 4 100 400 distrib_left)
qed

lemma dayFromYear_plus: "dayFromYear y + 365 * int n \<le> dayFromYear (y + int n)"
proof (induction n)
  case (Suc n)
  have "dayFromYear (y + int n) + 365 \<le> dayFromYear (y + int n + 1)" by (simp add: dayFromYear_succ)
  with Suc show ?case by (simp add: algebra_simps)
qed simp

lemma dayFromYear_less: "y < z \<Longrightarrow> dayFromYear (y + 1) \<le> dayFromYear z"
  using dayFromYear_plus [of "y + 1" "nat (z - y - 1)"] by simp

lemma div_bounds: "0 < (k::int) \<Longrightarrow> k * (n div k) \<le> n \<and> n < k * (n div k) + k"
  by (metis div_mult_mod_eq mult.commute pos_mod_bound pos_mod_sign add_left_mono add_0_right
      less_add_same_cancel1 le_add_same_cancel1 add_strict_left_mono)

lemma year_estimate:
  fixes a b c z :: int
  assumes "4 * a \<le> z - 1969" "z - 1969 < 4 * a + 4" "100 * b \<le> z - 1901" "z - 1901 < 100 * b + 100"
    "400 * c \<le> z - 1601" "z - 1601 < 400 * c + 400"
  shows "400 * (365 * (z - 1970) + a - b + c) \<le> 146097 * (z - 1970) + 589"
    and "146097 * (z - 1970) - 506 \<le> 400 * (365 * (z - 1970) + a - b + c)"
  using assms by (simp_all add: algebra_simps)

lemma dayFromYear_near:
  "400 * dayFromYear z \<le> 146097 * (z - 1970) + 589" "146097 * (z - 1970) - 506 \<le> 400 * dayFromYear z"
proof -
  have "4 * ((z - 1969) div 4) \<le> z - 1969 \<and> z - 1969 < 4 * ((z - 1969) div 4) + 4"
    and "100 * ((z - 1901) div 100) \<le> z - 1901 \<and> z - 1901 < 100 * ((z - 1901) div 100) + 100"
    and "400 * ((z - 1601) div 400) \<le> z - 1601 \<and> z - 1601 < 400 * ((z - 1601) div 400) + 400"
    by (rule div_bounds, simp)+
  then show "400 * dayFromYear z \<le> 146097 * (z - 1970) + 589"
      "146097 * (z - 1970) - 506 \<le> 400 * dayFromYear z"
    unfolding dayFromYear_def by (blast intro: year_estimate)+
qed

lemma year_contains:
  "dayFromYear (yearFromDay d) \<le> d \<and> d < dayFromYear (yearFromDay d + 1)"
proof -
  define y where "y = d * 400 div 146097 + 1970"
  have y: "146097 * (y - 1970) \<le> d * 400" "d * 400 < 146097 * (y - 1970) + 146097"
    using div_bounds [of 146097 "d * 400"] by (simp_all add: y_def)
  have low: "dayFromYear (y - 1) \<le> d" and high: "d < dayFromYear (y + 2)"
    using y dayFromYear_near(1) [of "y - 1"] dayFromYear_near(2) [of "y + 2"] by (simp_all add: algebra_simps)
  have two: "y + 1 + 1 = y + 2" and one: "y - 1 + 1 = y" by simp_all
  have eq: "yearFromDay d = (if dayFromYear (y + 1) \<le> d then y + 1 else if dayFromYear y \<le> d then y else y - 1)"
    unfolding yearFromDay_def y_def Let_def by (rule refl)
  show ?thesis
    by (cases "dayFromYear (y + 1) \<le> d"; cases "dayFromYear y \<le> d")
      (simp_all only: eq if_True if_False simp_thms two one low high [folded not_le] not_le [symmetric])
qed

lemma year_unique: "dayFromYear y \<le> d \<Longrightarrow> d < dayFromYear (y + 1) \<Longrightarrow> yearFromDay d = y"
  using year_contains [of d] dayFromYear_less [of y "yearFromDay d"] dayFromYear_less [of "yearFromDay d" y]
  by (metis less_le_trans linorder_neqE_linordered_idom not_le order_le_less_trans)

section \<open>Months\<close>

lemma dayInYear_bounds: "0 \<le> dayInYear d" "dayInYear d < 365 + of_bool (leap (yearFromDay d))"
  using year_contains [of d] by (simp_all add: dayInYear_def dayFromYear_succ)

lemma month_cases: "m < 12 \<Longrightarrow> m = 0 \<or> m = 1 \<or> m = 2 \<or> m = 3 \<or> m = 4 \<or> m = 5 \<or> m = 6 \<or> m = 7 \<or>
    m = 8 \<or> m = 9 \<or> m = 10 \<or> m = (11::nat)"
  by presburger

lemma monthStart_strict: "m < 12 \<Longrightarrow> monthStart l m + 28 \<le> monthStart l (Suc m)"
  by (drule month_cases) (elim disjE; simp add: monthStart_def)

text \<open>The month is the one whose days contain the day.\<close>

lemma month_contains:
  assumes "0 \<le> x" and "x < monthStart l 12"
    and m: "m = length (filter (\<lambda>m. monthStart l m \<le> x) [1..<12])"
  shows "m < 12 \<and> monthStart l m \<le> x \<and> x < monthStart l (Suc m)"
proof -
  have up: "[1..<12] = [1, 2, 3, 4, 5, 6, 7, 8, 9, 10, 11::nat]" by (simp add: upt_rec)
  show ?thesis using assms(1,2) unfolding m up
    by (cases l) (auto simp: monthStart_def split: if_splits)
qed

lemma month_unique:
  assumes "m < 12" "monthStart l m \<le> x" "x < monthStart l (Suc m)"
  shows "length (filter (\<lambda>m. monthStart l m \<le> x) [1..<12]) = m"
proof -
  have up: "[1..<12] = [1, 2, 3, 4, 5, 6, 7, 8, 9, 10, 11::nat]" by (simp add: upt_rec)
  from month_cases [OF assms(1)] show ?thesis using assms(2,3) unfolding up
    by (cases l) (elim disjE; simp add: monthStart_def)+
qed

lemma monthStart_12: "monthStart l 12 = 365 + of_bool l"
  by (simp add: monthStart_def)

lemma month_of_day:
  "monthFromDay d < 12" "1 \<le> dateFromDay d" "dateFromDay d \<le> 31"
  "monthStart (leap (yearFromDay d)) (monthFromDay d) \<le> dayInYear d"
  "dayInYear d < monthStart (leap (yearFromDay d)) (Suc (monthFromDay d))"
proof -
  let ?l = "leap (yearFromDay d)"
  from month_contains [OF dayInYear_bounds(1) _ refl, of d ?l] dayInYear_bounds(2) [of d]
  have m: "monthFromDay d < 12 \<and> monthStart ?l (monthFromDay d) \<le> dayInYear d \<and>
      dayInYear d < monthStart ?l (Suc (monthFromDay d))"
    by (simp add: monthStart_12 monthFromDay_def)
  have "m < 12 \<Longrightarrow> monthStart l (Suc m) \<le> monthStart l m + 31" for m l
    by (drule month_cases) (elim disjE; simp add: monthStart_def)
  from this [of "monthFromDay d" ?l] m show "monthFromDay d < 12" "1 \<le> dateFromDay d" "dateFromDay d \<le> 31"
    "monthStart ?l (monthFromDay d) \<le> dayInYear d" "dayInYear d < monthStart ?l (Suc (monthFromDay d))"
    by (auto simp: dateFromDay_def)
qed

lemma makeDay_day: "makeDay (yearFromDay d) (int (monthFromDay d)) (dateFromDay d + n) = d + n"
  using month_of_day(1) [of d] by (simp add: makeDay_def dateFromDay_def dayInYear_def Let_def)

text \<open>A day given by its year, month and date has them.\<close>

lemma day_of_makeDay:
  assumes m: "m < 12" and date: "1 \<le> date" "date \<le> monthStart (leap y) (Suc m) - monthStart (leap y) m"
  shows "yearFromDay (makeDay y (int m) date) = y" "monthFromDay (makeDay y (int m) date) = m"
    "dateFromDay (makeDay y (int m) date) = date"
proof -
  let ?d = "makeDay y (int m) date"
  have d: "?d = dayFromYear y + monthStart (leap y) m + date - 1" using m by (simp add: makeDay_def Let_def)
  have mono: "k \<le> n \<Longrightarrow> n \<le> 12 \<Longrightarrow> monthStart l k \<le> monthStart l n" for k n l
  proof (induction n)
    case (Suc n)
    show ?case
    proof (cases "k = Suc n")
      case False
      with Suc have "monthStart l k \<le> monthStart l n" by simp
      with monthStart_strict [of n l] Suc.prems show ?thesis by simp
    qed simp
  qed simp
  have "0 \<le> monthStart (leap y) m" using mono [of 0 m "leap y"] m by (simp add: monthStart_def)
  moreover have "monthStart (leap y) (Suc m) \<le> 365 + of_bool (leap y)"
    using mono [of "Suc m" 12 "leap y"] m by (simp add: monthStart_12)
  ultimately show y: "yearFromDay ?d = y"
    using date by (intro year_unique) (simp_all add: d dayFromYear_succ)
  have x: "dayInYear ?d = monthStart (leap y) m + date - 1" unfolding dayInYear_def y by (simp add: d)
  show "monthFromDay ?d = m"
    using date month_unique [OF m, of "leap y" "dayInYear ?d"] by (simp add: monthFromDay_def y x)
  then show "dateFromDay ?d = date" by (simp add: dateFromDay_def y x)
qed

section \<open>Printing and parsing\<close>

definition isoDate :: "int \<Rightarrow> string" where
  "isoDate d = padded 4 (nat (yearFromDay d)) @ ''-'' @ padded 2 (monthFromDay d + 1) @ ''-'' @
     padded 2 (nat (dateFromDay d))"

lemma length_padded [simp]: "length (padded k n) = k"
  by (induction k arbitrary: n) simp_all

lemma padded_digits [simp]: "allDigits (padded k n)"
  by (induction k arbitrary: n) (simp_all add: allDigits_def)

lemma take_digits_padded:
  "n < 10 ^ k \<Longrightarrow> take_digits v j (padded k n) = (v * 10 ^ k + n, j + k, [])"
proof (induction k arbitrary: n)
  case (Suc k)
  have "\<forall>c \<in> set (padded k (n div 10)). digit_val c \<noteq> None"
    using padded_digits [of k "n div 10"] by (simp add: allDigits_def list_all_iff)
  moreover have "n div 10 < 10 ^ k" using Suc.prems by (simp add: less_mult_imp_div_less mult.commute)
  ultimately show ?case using Suc.IH by (simp add: take_digits_append algebra_simps)
qed simp

lemma number_padded [simp]: "n < 10 ^ k \<Longrightarrow> number (padded k n) = int n"
  by (simp add: number_def take_digits_padded)

lemma show_padded: "10 ^ k \<le> n \<Longrightarrow> n < 10 ^ Suc k \<Longrightarrow> show_nat n = padded (Suc k) n"
proof (induction k arbitrary: n)
  case 0
  then show ?case by (simp add: show_nat.simps [of n])
next
  case (Suc k)
  then have "10 ^ k \<le> n div 10" "n div 10 < 10 ^ Suc k" by simp_all
  have "10 * 1 \<le> 10 * (10::nat) ^ k" by (intro mult_left_mono) simp_all
  moreover have "10 * 10 ^ k \<le> n" using Suc.prems(1) by simp
  ultimately have "\<not> n < 10" by linarith
  with Suc.IH [OF \<open>10 ^ k \<le> n div 10\<close> \<open>n div 10 < 10 ^ Suc k\<close>] show ?case by (simp add: show_nat.simps [of n])
qed

definition dated :: "int \<Rightarrow> bool" where
  "dated d \<longleftrightarrow> 100 \<le> yearFromDay d \<and> yearFromDay d \<le> 9999"

lemma dated_clip: "dated d \<Longrightarrow> timeClip d = Some d"
  using year_contains [of d] dayFromYear_near(2) [of "yearFromDay d"]
    dayFromYear_near(1) [of "yearFromDay d + 1"]
  by (auto simp: dated_def timeClip_def)

lemma dated_iff: "dated d \<longleftrightarrow> dayFromYear 100 \<le> d \<and> d < dayFromYear 10000"
proof
  assume "dated d"
  then have "100 \<le> yearFromDay d" "yearFromDay d + 1 \<le> 10000" by (simp_all add: dated_def)
  then have "dayFromYear 100 \<le> dayFromYear (yearFromDay d)" "dayFromYear (yearFromDay d + 1) \<le> dayFromYear 10000"
    using dayFromYear_plus [of 100 "nat (yearFromDay d - 100)"]
      dayFromYear_plus [of "yearFromDay d + 1" "nat (9999 - yearFromDay d)"] by simp_all
  with year_contains [of d] show "dayFromYear 100 \<le> d \<and> d < dayFromYear 10000" by linarith
next
  assume d: "dayFromYear 100 \<le> d \<and> d < dayFromYear 10000"
  have "\<not> yearFromDay d < 100" using dayFromYear_less [of "yearFromDay d" 100] year_contains [of d] d by linarith
  moreover have "\<not> 9999 < yearFromDay d"
    using dayFromYear_less [of 9999 "yearFromDay d"] year_contains [of d] d by auto
  ultimately show "dated d" by (simp add: dated_def)
qed

lemma format_dated:
  assumes "dated d"
  shows "formatCalendarDate (Some d) = Inr (isoDate d)"
  using assms by (simp add: formatCalendarDate_def isoYear_def isoDate_def dated_def)

lemma isoDate_parts:
  "length (isoDate d) = 10" "take 4 (isoDate d) = padded 4 (nat (yearFromDay d))" "isoDate d ! 4 = CHR ''-''"
  "take 2 (drop 5 (isoDate d)) = padded 2 (monthFromDay d + 1)" "isoDate d ! 7 = CHR ''-''"
  "drop 8 (isoDate d) = padded 2 (nat (dateFromDay d))"
  by (simp_all add: isoDate_def nth_append)

lemma parse_isoDate:
  assumes "dated d"
  shows "parseCalendarDate (isoDate d) = Inr d"
proof -
  have y: "number (padded 4 (nat (yearFromDay d))) = yearFromDay d"
    using assms by (subst number_padded) (auto simp: dated_def)
  have m: "number (padded 2 (monthFromDay d + 1)) - 1 = int (monthFromDay d)"
    using month_of_day(1) [of d] by (subst number_padded) simp_all
  have t: "number (padded 2 (nat (dateFromDay d))) = dateFromDay d"
    using month_of_day(2,3) [of d] by (subst number_padded) simp_all
  have "dateUTC (yearFromDay d) (int (monthFromDay d)) (dateFromDay d) = Some d"
    using assms makeDay_day [of d 0] dated_clip [OF assms] by (simp add: dateUTC_def dated_def)
  then show ?thesis
    by (simp add: parseCalendarDate_def matchesCalendarDate_def isoDate_parts y m [simplified] t Let_def format_dated [OF assms])
qed

lemma shift_isoDate:
  assumes "dated d" and "dated (d + n)"
  shows "shiftCalendarDate (isoDate d) n = Inr (isoDate (d + n))"
  by (simp add: shiftCalendarDate_def parse_isoDate [OF assms(1)] bind_result_def makeDay_day
      dated_clip [OF assms(2)] format_dated [OF assms(2)])

section \<open>The periods around a date\<close>

lemma parsed_iso: "parseCalendarDate anchor = Inr d \<Longrightarrow> dated d \<Longrightarrow> anchor = isoDate d"
  by (auto simp: parseCalendarDate_def Let_def format_dated split: if_splits sum.splits option.splits)

lemma daysSinceMonday_eq: "daysSinceMonday d = (d + 3) mod 7"
proof -
  have "daysSinceMonday d = ((d + 3) + 1 * 7) mod 7"
    by (simp add: daysSinceMonday_def weekDay_def mod_simps add.commute)
  then show ?thesis by (simp only: mod_mult_self1)
qed

lemma monday: "daysSinceMonday (d - daysSinceMonday d) = 0" "daysSinceMonday (d + 7) = daysSinceMonday d"
proof -
  have "(d - daysSinceMonday d) + 3 = (d + 3) div 7 * 7" using div_mult_mod_eq [of "d + 3" 7]
    by (simp add: daysSinceMonday_eq algebra_simps)
  then show "daysSinceMonday (d - daysSinceMonday d) = 0" by (simp add: daysSinceMonday_eq [of "d - daysSinceMonday d"])
  have "d + 7 + 3 = (d + 3) + 1 * 7" by simp
  then show "daysSinceMonday (d + 7) = daysSinceMonday d"
    unfolding daysSinceMonday_eq by (simp only: mod_mult_self1)
qed

lemma daysSinceMonday_bounds: "0 \<le> daysSinceMonday d" "daysSinceMonday d \<le> 6"
  using pos_mod_bound [of 7 "d + 3"] by (simp_all add: daysSinceMonday_eq)

lemma week_range:
  assumes "dated d" "dated (d - daysSinceMonday d)" "dated (d - daysSinceMonday d + 6)"
  shows "analyticsPeriodRange WeekPeriod (isoDate d) =
    Inr \<lparr>range_from = isoDate (d - daysSinceMonday d), range_to = isoDate (d - daysSinceMonday d + 6)\<rparr>"
  using shift_isoDate [of d "- daysSinceMonday d"] shift_isoDate [of "d - daysSinceMonday d" 6] assms
  by (simp add: analyticsPeriodRange_def parse_isoDate rangeOf_def bind_result_def Let_def)

definition monthEnd :: "int \<Rightarrow> int" where
  "monthEnd d = dayFromYear (yearFromDay d) + monthStart (leap (yearFromDay d)) (Suc (monthFromDay d)) - 1"

lemma makeDay_next:
  "m < 12 \<Longrightarrow> makeDay y (int m + 1) date = dayFromYear y + monthStart (leap y) (Suc m) + date - 1"
proof (cases "m = 11")
  case True
  then show ?thesis by (simp add: makeDay_def Let_def dayFromYear_succ monthStart_def)
next
  case False
  assume "m < 12"
  with False have "(int m + 1) div 12 = 0" "(int m + 1) mod 12 = int (Suc m)"
    by (simp_all add: div_pos_pos_trivial mod_pos_pos_trivial)
  then show ?thesis by (simp only: makeDay_def Let_def nat_int add_0_right)
qed

lemma month_bounds: "d - dateFromDay d + 1 \<le> d" "d \<le> monthEnd d"
  using month_of_day [of d] by (simp_all add: monthEnd_def dayInYear_def)

lemma month_range:
  assumes "dated d" "dated (d - dateFromDay d + 1)" "dated (monthEnd d)"
  shows "analyticsPeriodRange MonthPeriod (isoDate d) =
    Inr \<lparr>range_from = isoDate (d - dateFromDay d + 1), range_to = isoDate (monthEnd d)\<rparr>"
proof -
  have "dateUTC (yearFromDay d) (int (monthFromDay d)) 1 = Some (d - dateFromDay d + 1)"
  proof -
    have "makeDay (yearFromDay d) (int (monthFromDay d)) 1 = d - dateFromDay d + 1"
      using makeDay_day [of d "1 - dateFromDay d"] by simp
    with assms(1) dated_clip [OF assms(2)] show ?thesis by (simp add: dateUTC_def dated_def)
  qed
  moreover have "dateUTC (yearFromDay d) (int (monthFromDay d) + 1) 0 = Some (monthEnd d)"
    using assms(1) makeDay_next [OF month_of_day(1) [of d], of "yearFromDay d" 0] dated_clip [OF assms(3)]
    by (simp add: dateUTC_def dated_def monthEnd_def)
  ultimately show ?thesis
    by (simp add: analyticsPeriodRange_def parse_isoDate [OF assms(1)] format_dated [OF assms(2)]
        format_dated [OF assms(3)] rangeOf_def bind_result_def Let_def)
qed

text \<open>The day after the end of a month starts the next one.\<close>

lemma month_after: "dateFromDay (monthEnd d + 1) = 1"
proof -
  let ?y = "yearFromDay d" and ?m = "monthFromDay d"
  have next_day: "monthEnd d + 1 = makeDay ?y (int ?m + 1) 1"
    using makeDay_next [OF month_of_day(1) [of d], of ?y 1] by (simp add: monthEnd_def)
  show ?thesis
  proof (cases "?m = 11")
    case True
    then have "makeDay ?y (int ?m + 1) 1 = makeDay (?y + 1) (int 0) 1" by (simp add: makeDay_def)
    with next_day show ?thesis using day_of_makeDay(3) [of 0 1 "?y + 1"] by (simp add: monthStart_def)
  next
    case False
    then have "Suc ?m < 12" using month_of_day(1) [of d] by simp
    with next_day show ?thesis
      using day_of_makeDay(3) [of "Suc ?m" 1 ?y] monthStart_strict [of "Suc ?m" "leap ?y"]
      by (simp add: add.commute)
  qed
qed

lemma first_of_year:
  "yearFromDay (dayFromYear y) = y" "monthFromDay (dayFromYear y) = 0" "dateFromDay (dayFromYear y) = 1"
  using day_of_makeDay [of 0 1 y] by (simp_all add: makeDay_def monthStart_def)

lemma last_of_year:
  "yearFromDay (dayFromYear (y + 1) - 1) = y" "monthFromDay (dayFromYear (y + 1) - 1) = 11"
  "dateFromDay (dayFromYear (y + 1) - 1) = 31"
proof -
  have "makeDay y (int 11) 31 = dayFromYear (y + 1) - 1"
    by (simp add: makeDay_def monthStart_def dayFromYear_succ)
  with day_of_makeDay [of 11 31 y] show "yearFromDay (dayFromYear (y + 1) - 1) = y"
      "monthFromDay (dayFromYear (y + 1) - 1) = 11" "dateFromDay (dayFromYear (y + 1) - 1) = 31"
    by (simp_all add: monthStart_def)
qed

lemma show_year:
  assumes "1000 \<le> y" "y \<le> 9999"
  shows "js_show y = padded 4 (nat y)"
proof -
  have "Suc 3 = 4" "(10::nat) ^ 3 = 1000" "(10::nat) ^ 4 = 10000" by simp_all
  then have "show_nat (nat y) = padded 4 (nat y)"
    using show_padded [of 3 "nat y"] assms by (simp only: nat_less_iff le_nat_iff)
  then show ?thesis using assms by (simp add: js_show_def)
qed

lemma year_texts:
  assumes "1000 \<le> y" "y \<le> 9999"
  shows "js_show y @ ''-01-01'' = isoDate (dayFromYear y)"
    and "js_show y @ ''-12-31'' = isoDate (dayFromYear (y + 1) - 1)"
  using show_year [OF assms]
  by (simp_all add: isoDate_def first_of_year last_of_year numeral_2_eq_2 digit_char_def digits_def)

lemma year_range:
  assumes "dated d" "1000 \<le> yearFromDay d"
  shows "analyticsPeriodRange YearPeriod (isoDate d) =
    Inr \<lparr>range_from = isoDate (dayFromYear (yearFromDay d)),
         range_to = isoDate (dayFromYear (yearFromDay d + 1) - 1)\<rparr>"
  using assms year_texts [of "yearFromDay d"]
  by (simp add: analyticsPeriodRange_def parse_isoDate bind_result_def Let_def dated_def)

definition ordinary :: "int \<Rightarrow> bool" where
  "ordinary d \<longleftrightarrow> 1000 \<le> yearFromDay d \<and> yearFromDay d \<le> 9997"

lemma dated_near: "ordinary d \<Longrightarrow> d - 400 \<le> n \<Longrightarrow> n \<le> d + 400 \<Longrightarrow> dated n"
proof -
  assume "ordinary d" and n: "d - 400 \<le> n" "n \<le> d + 400"
  then have "dayFromYear 1000 \<le> dayFromYear (yearFromDay d)"
      "dayFromYear (yearFromDay d + 1) \<le> dayFromYear 9998"
    using dayFromYear_plus [of 1000 "nat (yearFromDay d - 1000)"]
      dayFromYear_plus [of "yearFromDay d + 1" "nat (9997 - yearFromDay d)"] by (simp_all add: ordinary_def)
  moreover have "dayFromYear 100 + 400 \<le> dayFromYear 1000" "dayFromYear 9998 + 400 \<le> dayFromYear 10000"
    by (simp_all add: dayFromYear_def)
  ultimately show ?thesis using n year_contains [of d] unfolding dated_iff by linarith
qed

lemma monthEnd_near: "monthEnd d \<le> d + 31"
proof -
  have "m < 12 \<Longrightarrow> monthStart l (Suc m) \<le> monthStart l m + 31" for m l
    by (drule month_cases) (elim disjE; simp add: monthStart_def)
  from this [OF month_of_day(1) [of d], of "leap (yearFromDay d)"] month_of_day(4) [of d] show ?thesis
    by (simp add: monthEnd_def dayInYear_def)
qed

lemma year_near: "d - 366 \<le> dayFromYear (yearFromDay d)" "dayFromYear (yearFromDay d + 1) \<le> d + 366"
  using year_contains [of d] by (cases "leap (yearFromDay d)"; simp add: dayFromYear_succ)+

lemma week_periods:
  assumes "ordinary d" and f: "f = d - daysSinceMonday d"
  shows "analyticsPeriodRange WeekPeriod (isoDate d) = Inr \<lparr>range_from = isoDate f, range_to = isoDate (f + 6)\<rparr>"
    and "shiftAnalyticsPeriod \<lparr>range_from = isoDate f, range_to = isoDate (f + 6)\<rparr> WeekPeriod 1 =
      Inr \<lparr>range_from = isoDate (f + 7), range_to = isoDate (f + 13)\<rparr>"
proof -
  have near: "dated n" if "d - 6 \<le> n" "n \<le> d + 13" for n using dated_near [OF assms(1)] that by simp
  note w = daysSinceMonday_bounds [of d]
  show "analyticsPeriodRange WeekPeriod (isoDate d) = Inr \<lparr>range_from = isoDate f, range_to = isoDate (f + 6)\<rparr>"
    unfolding f by (rule week_range) (use w in \<open>auto intro: near\<close>)
  have "shiftCalendarDate (isoDate f) 7 = Inr (isoDate (f + 7))"
    by (rule shift_isoDate) (use w f in \<open>auto intro: near\<close>)
  moreover have monday7: "daysSinceMonday (f + 7) = 0" using monday(1) [of d] monday(2) [of f] f by simp
  have "dated (f + 7)" "dated (f + 13)" by (use w f in \<open>auto intro: near\<close>)
  then have "analyticsPeriodRange WeekPeriod (isoDate (f + 7)) =
      Inr \<lparr>range_from = isoDate (f + 7), range_to = isoDate (f + 13)\<rparr>"
    using week_range [of "f + 7"] by (simp add: monday7 add.commute)
  ultimately show "shiftAnalyticsPeriod \<lparr>range_from = isoDate f, range_to = isoDate (f + 6)\<rparr> WeekPeriod 1 =
      Inr \<lparr>range_from = isoDate (f + 7), range_to = isoDate (f + 13)\<rparr>"
    by (simp add: shiftAnalyticsPeriod_def bind_result_def)
qed

lemma month_periods:
  assumes "ordinary d" and f: "f = d - dateFromDay d + 1"
  shows "analyticsPeriodRange MonthPeriod (isoDate d) =
      Inr \<lparr>range_from = isoDate f, range_to = isoDate (monthEnd d)\<rparr>"
    and "shiftAnalyticsPeriod \<lparr>range_from = isoDate f, range_to = isoDate (monthEnd d)\<rparr> MonthPeriod 1 =
      Inr \<lparr>range_from = isoDate (monthEnd d + 1), range_to = isoDate (monthEnd (monthEnd d + 1))\<rparr>"
proof -
  let ?n = "monthEnd d + 1"
  have near: "dated n" if "d - 31 \<le> n" "n \<le> d + 70" for n using dated_near [OF assms(1)] that by simp
  note b = month_of_day [of d] month_bounds [of d] monthEnd_near [of d] month_bounds [of ?n] monthEnd_near [of ?n]
  show "analyticsPeriodRange MonthPeriod (isoDate d) =
      Inr \<lparr>range_from = isoDate f, range_to = isoDate (monthEnd d)\<rparr>"
    unfolding f by (rule month_range) (use b in \<open>auto intro: near\<close>)
  have fm: "f = makeDay (yearFromDay d) (int (monthFromDay d)) 1"
    using makeDay_day [of d "1 - dateFromDay d"] f by simp
  have one: "1 \<le> monthStart (leap (yearFromDay d)) (Suc (monthFromDay d)) - monthStart (leap (yearFromDay d)) (monthFromDay d)"
    using b(4,5) by simp
  have ym: "yearFromDay f = yearFromDay d" "monthFromDay f = monthFromDay d"
    unfolding fm using day_of_makeDay [OF b(1) _ one] by simp_all
  have df: "dated f" and dn: "dated ?n" by (use b f in \<open>auto intro: near\<close>)
  have "dateUTC (yearFromDay f) (int (monthFromDay f) + 1) 1 = Some ?n"
    using makeDay_next [OF b(1), of "yearFromDay d" 1] dated_clip [OF dn] df
    by (simp add: dateUTC_def ym dated_def monthEnd_def)
  moreover have "dated (monthEnd ?n)" by (use b in \<open>auto intro: near\<close>)
  then have "analyticsPeriodRange MonthPeriod (isoDate ?n) =
      Inr \<lparr>range_from = isoDate ?n, range_to = isoDate (monthEnd ?n)\<rparr>"
    using month_range [of ?n] dn by (simp add: month_after)
  ultimately show "shiftAnalyticsPeriod \<lparr>range_from = isoDate f, range_to = isoDate (monthEnd d)\<rparr> MonthPeriod 1 =
      Inr \<lparr>range_from = isoDate ?n, range_to = isoDate (monthEnd ?n)\<rparr>"
    by (simp add: shiftAnalyticsPeriod_def bind_result_def parse_isoDate [OF df] format_dated [OF dn])
qed

lemma year_periods:
  assumes "ordinary d" and f: "f = dayFromYear (yearFromDay d)" and t: "t = dayFromYear (yearFromDay d + 1) - 1"
  shows "analyticsPeriodRange YearPeriod (isoDate d) = Inr \<lparr>range_from = isoDate f, range_to = isoDate t\<rparr>"
    and "shiftAnalyticsPeriod \<lparr>range_from = isoDate f, range_to = isoDate t\<rparr> YearPeriod 1 =
      Inr \<lparr>range_from = isoDate (t + 1), range_to = isoDate (dayFromYear (yearFromDay d + 2) - 1)\<rparr>"
proof -
  have near: "dated n" if "d - 366 \<le> n" "n \<le> d + 366" for n using dated_near [OF assms(1)] that by simp
  show "analyticsPeriodRange YearPeriod (isoDate d) = Inr \<lparr>range_from = isoDate f, range_to = isoDate t\<rparr>"
    unfolding f t by (rule year_range) (use assms(1) near in \<open>auto simp: ordinary_def\<close>)
  have df: "dated f" and dn: "dated (t + 1)"
    using year_near [of d] year_contains [of d] f t by (auto intro!: near)
  have "js_show (yearFromDay f + 1) @ ''-01-01'' = isoDate (t + 1)"
    using year_texts(1) [of "yearFromDay d + 1"] assms(1) by (simp add: f t first_of_year ordinary_def)
  moreover have "yearFromDay (t + 1) = yearFromDay d + 1" by (simp add: t first_of_year)
  ultimately show "shiftAnalyticsPeriod \<lparr>range_from = isoDate f, range_to = isoDate t\<rparr> YearPeriod 1 =
      Inr \<lparr>range_from = isoDate (t + 1), range_to = isoDate (dayFromYear (yearFromDay d + 2) - 1)\<rparr>"
    using year_range [OF dn] assms(1)
    by (simp add: shiftAnalyticsPeriod_def bind_result_def parse_isoDate [OF df] ordinary_def t add.commute)
qed

text \<open>The period around a date starts on or before it and ends on or after it, both ends being dates
  the code accepts, and moving the period forward gives the period that starts on the day after.\<close>

theorem next_period_follows:
  assumes "parseCalendarDate anchor = Inr d" and "ordinary d" and "period \<noteq> CustomPeriod"
  shows "\<exists>f t t'. analyticsPeriodRange period anchor = Inr \<lparr>range_from = isoDate f, range_to = isoDate t\<rparr> \<and>
    parseCalendarDate (isoDate f) = Inr f \<and> parseCalendarDate (isoDate t) = Inr t \<and> f \<le> d \<and> d \<le> t \<and>
    shiftAnalyticsPeriod \<lparr>range_from = isoDate f, range_to = isoDate t\<rparr> period 1
      = Inr \<lparr>range_from = isoDate (t + 1), range_to = isoDate t'\<rparr> \<and> t < t'"
proof -
  have near: "dated n" if "d - 366 \<le> n" "n \<le> d + 366" for n using dated_near [OF assms(2)] that by simp
  have anchor: "anchor = isoDate d" by (rule parsed_iso [OF assms(1)]) (simp add: near)
  show ?thesis
  proof (cases period)
    case WeekPeriod
    define f where "f = d - daysSinceMonday d"
    have "dated f" "dated (f + 6)" using daysSinceMonday_bounds [of d] by (auto simp: f_def intro: near)
    moreover have "f \<le> d" "d \<le> f + 6" using daysSinceMonday_bounds [of d] by (simp_all add: f_def)
    ultimately show ?thesis using week_periods [OF assms(2) f_def] WeekPeriod
      by - (rule exI [of _ f], rule exI [of _ "f + 6"], rule exI [of _ "f + 13"], simp add: anchor parse_isoDate add.commute)
  next
    case MonthPeriod
    let ?f = "d - dateFromDay d + 1" and ?t = "monthEnd d"
    have "dated ?f" "dated ?t" using month_of_day [of d] month_bounds [of d] monthEnd_near [of d]
      by (auto intro: near)
    moreover have "?t < monthEnd (?t + 1)" using month_bounds(2) [of "?t + 1"] by simp
    ultimately show ?thesis using month_periods [OF assms(2) refl] MonthPeriod month_bounds [of d]
      by - (rule exI [of _ ?f], rule exI [of _ ?t], rule exI [of _ "monthEnd (?t + 1)"], simp add: anchor parse_isoDate)
  next
    case YearPeriod
    let ?f = "dayFromYear (yearFromDay d)" and ?t = "dayFromYear (yearFromDay d + 1) - 1"
    let ?u = "dayFromYear (yearFromDay d + 2) - 1"
    have "dated ?f" "dated ?t" using year_near [of d] year_contains [of d] by (auto intro!: near)
    moreover have "?t < ?u" using dayFromYear_less [of "yearFromDay d + 1" "yearFromDay d + 2"]
      dayFromYear_succ [of "yearFromDay d + 1"] by (simp add: add.commute)
    ultimately show ?thesis using year_periods [OF assms(2) refl refl] YearPeriod year_contains [of d]
      by - (rule exI [of _ ?f], rule exI [of _ ?t], rule exI [of _ ?u], simp add: anchor parse_isoDate)
  qed (use assms(3) in simp)
qed

theorem next_period_follows_witness:
  "\<exists>f t t'. analyticsPeriodRange MonthPeriod ''2024-02-12'' = Inr \<lparr>range_from = isoDate f, range_to = isoDate t\<rparr> \<and>
    isoDate t = ''2024-02-29'' \<and>
    shiftAnalyticsPeriod \<lparr>range_from = isoDate f, range_to = isoDate t\<rparr> MonthPeriod 1
      = Inr \<lparr>range_from = isoDate (t + 1), range_to = isoDate t'\<rparr>"
proof -
  have "parseCalendarDate ''2024-02-12'' = Inr 19765" and ordinary: "ordinary 19765"
    and anchor: "''2024-02-12'' = isoDate 19765" and "isoDate (monthEnd 19765) = ''2024-02-29''" by code_simp+
  moreover have "analyticsPeriodRange MonthPeriod ''2024-02-12'' =
      Inr \<lparr>range_from = isoDate (19765 - dateFromDay 19765 + 1), range_to = isoDate (monthEnd 19765)\<rparr>"
    unfolding anchor by (rule month_periods(1) [OF ordinary refl])
  ultimately obtain f t t' where "analyticsPeriodRange MonthPeriod ''2024-02-12'' =
        Inr \<lparr>range_from = isoDate f, range_to = isoDate t\<rparr>" and "isoDate t = ''2024-02-29''"
      and "shiftAnalyticsPeriod \<lparr>range_from = isoDate f, range_to = isoDate t\<rparr> MonthPeriod 1
        = Inr \<lparr>range_from = isoDate (t + 1), range_to = isoDate t'\<rparr>"
    using next_period_follows [of "''2024-02-12''" 19765 MonthPeriod] by force
  then show ?thesis by blast
qed

text \<open>A year before 1000 is a date the code accepts, but the year period around it is printed without
  padding, so its ends are no dates of the code.\<close>

lemma early_year_is_not_padded:
  "parseCalendarDate ''0500-05-05'' = Inr (-536782)"
  "analyticsPeriodRange YearPeriod ''0500-05-05'' = Inr \<lparr>range_from = ''500-01-01'', range_to = ''500-12-31''\<rparr>"
  "parseCalendarDate ''500-01-01'' = Inl InvalidCalendarDate"
  by code_simp+

end
