(* ===== verification/Social.thy ===== *)
theory Social
  imports GameTypes JsText Machine "HOL-Library.Sorting_Algorithms"
begin

text \<open>
  The lists of other people: the friends in the sidebar (\<open>social/friends-list.tsx\<close>) and the
  notifications (\<open>social/notifications-dropdown.tsx\<close>). Both keep the set of ids with an action under way.
\<close>

section \<open>Actions under way\<close>

text \<open>\<open>ac_pending\<close> is the set in the state of the component; \<open>ac_running\<close> are the calls of the
  asynchronous handlers that have not ended, each with the id it added and what it still awaits.\<close>

record 'a Actions =
  ac_pending :: "string set"
  ac_running :: "(string \<times> 'a) list"

definition noActions :: "'a Actions" where
  "noActions = \<lparr>ac_pending = {}, ac_running = []\<rparr>"

definition beginAction :: "string \<Rightarrow> 'a \<Rightarrow> 'a Actions \<Rightarrow> 'a Actions" where
  "beginAction target a s = s\<lparr>ac_pending := insert target (ac_pending s), ac_running := ac_running s @ [(target, a)]\<rparr>"

definition continueAction :: "nat \<Rightarrow> 'a \<Rightarrow> 'a Actions \<Rightarrow> 'a Actions" where
  "continueAction n a s = s\<lparr>ac_running := (ac_running s)[n := (fst (ac_running s ! n), a)]\<rparr>"

definition endAction :: "nat \<Rightarrow> 'a Actions \<Rightarrow> 'a Actions" where
  "endAction n s =
     s\<lparr>ac_pending := ac_pending s - {fst (ac_running s ! n)},
       ac_running := take n (ac_running s) @ drop (Suc n) (ac_running s)\<rparr>"

definition exclusive :: "'a Actions \<Rightarrow> bool" where
  "exclusive s \<longleftrightarrow> ac_pending s = fst ` set (ac_running s) \<and> distinct (map fst (ac_running s))"

lemma exclusive_none [simp]: "exclusive noActions"
  by (simp add: exclusive_def noActions_def)

lemma exclusive_begin: "exclusive s \<Longrightarrow> target \<notin> ac_pending s \<Longrightarrow> exclusive (beginAction target a s)"
  by (auto simp: exclusive_def beginAction_def)

lemma exclusive_continue: "exclusive s \<Longrightarrow> n < length (ac_running s) \<Longrightarrow> exclusive (continueAction n a s)"
proof -
  assume s: "exclusive s" and n: "n < length (ac_running s)"
  then have "map fst (ac_running (continueAction n a s)) = map fst (ac_running s)"
    by (simp add: continueAction_def map_update) (metis list_update_id nth_map)
  moreover from this have "fst ` set (ac_running (continueAction n a s)) = fst ` set (ac_running s)"
    by (metis list.set_map)
  ultimately show ?thesis using s by (simp add: exclusive_def) (simp add: continueAction_def)
qed

lemma exclusive_end: "exclusive s \<Longrightarrow> n < length (ac_running s) \<Longrightarrow> exclusive (endAction n s)"
proof -
  assume s: "exclusive s" and n: "n < length (ac_running s)"
  have "ac_running s = take n (ac_running s) @ ac_running s ! n # drop (Suc n) (ac_running s)"
    using n by (rule id_take_nth_drop)
  then obtain xs x ys where r: "ac_running s = xs @ x # ys" "take n (ac_running s) = xs"
      "ac_running s ! n = x" "drop (Suc n) (ac_running s) = ys" by metis
  then have "endAction n s = s\<lparr>ac_pending := ac_pending s - {fst x}, ac_running := xs @ ys\<rparr>"
    by (simp add: endAction_def)
  moreover have "fst x \<notin> fst ` set (xs @ ys)" using s r(1) by (simp add: exclusive_def image_Un)
  ultimately show ?thesis using s r(1) by (simp add: exclusive_def image_Un)
qed

section \<open>Friends\<close>

text \<open>\<open>Date.parse\<close> leaves every text but the standard form to the browser: a parameter \<open>time\<close> gives the
  milliseconds of a text, \<open>None\<close> for \<open>NaN\<close>.\<close>

definition formatGameDuration :: "(string \<Rightarrow> int option) \<Rightarrow> string \<Rightarrow> int \<Rightarrow> string" where
  "formatGameDuration time startedAt now =
     (let totalMinutes = (case time startedAt of Some startedAtMs \<Rightarrow> max 0 ((now - startedAtMs) div 60000) | None \<Rightarrow> 0);
          hours = totalMinutes div 60;
          minutes = totalMinutes mod 60
      in if 0 < hours then js_show hours @ ''h '' @ js_show minutes @ ''m'' else js_show minutes @ ''m'')"

record FriendsProps =
  fl_friends :: "SocialUser list"
  fl_canInvite :: bool
  fl_canSpectate :: bool
  fl_unavailableUserIds :: "string list"
  fl_onInvite :: bool
  fl_onSpectate :: bool
  fl_onUnfriend :: bool

text \<open>\<open>localeCompare\<close> is an order of the host: the parameter \<open>names\<close>.\<close>

definition friendOrder :: "string comparator \<Rightarrow> SocialUser comparator" where
  "friendOrder names =
     key (\<lambda>f. (su_activeGameStartedAt f = None, \<not> su_online f, su_name f))
       (prod_lex comparator_bool (prod_lex comparator_bool names))"

definition sortedFriends :: "string comparator \<Rightarrow> FriendsProps \<Rightarrow> SocialUser list" where
  "sortedFriends names p = Sorting_Algorithms.sort (friendOrder names) (fl_friends p)"

datatype FriendAction = InviteFriend | UnfriendFriend | SpectateFriend | AwaitNavigation

datatype FriendEffect =
  FriendCall FriendAction string | SuccessToast FriendAction | FailureToast | CloseMobileSidebar | NavigateHome

record FriendsPanel =
  fp_actions :: "FriendAction Actions"
  fp_effects :: "FriendEffect list"

definition initialFriendsPanel :: FriendsPanel where
  "initialFriendsPanel = \<lparr>fp_actions = noActions, fp_effects = []\<rparr>"

definition inviteEnabled :: "FriendsProps \<Rightarrow> SocialUser \<Rightarrow> bool" where
  "inviteEnabled p friend \<longleftrightarrow>
     fl_onInvite p \<and> fl_canInvite p \<and> su_online friend \<and> su_activeGameStartedAt friend = None \<and>
     su_id friend \<notin> set (fl_unavailableUserIds p)"

text \<open>An item of the menu of a friend is shown and not disabled.\<close>

fun itemEnabled :: "FriendsProps \<Rightarrow> FriendsPanel \<Rightarrow> FriendAction \<Rightarrow> SocialUser \<Rightarrow> bool" where
  "itemEnabled p s InviteFriend friend \<longleftrightarrow> inviteEnabled p friend \<and> su_id friend \<notin> ac_pending (fp_actions s)"
| "itemEnabled p s SpectateFriend friend \<longleftrightarrow>
     su_activeGameStartedAt friend \<noteq> None \<and> fl_onSpectate p \<and> fl_canSpectate p \<and>
     su_id friend \<notin> ac_pending (fp_actions s)"
| "itemEnabled p s UnfriendFriend friend \<longleftrightarrow> fl_onUnfriend p \<and> su_id friend \<notin> ac_pending (fp_actions s)"
| "itemEnabled p s AwaitNavigation friend \<longleftrightarrow> False"

definition callFriend :: "FriendAction \<Rightarrow> SocialUser \<Rightarrow> FriendsPanel \<Rightarrow> FriendsPanel" where
  "callFriend action friend s =
     s\<lparr>fp_actions := beginAction (su_id friend) action (fp_actions s),
       fp_effects := fp_effects s @ [FriendCall action (su_id friend)]\<rparr>"

definition invite :: "FriendsProps \<Rightarrow> SocialUser \<Rightarrow> FriendsPanel \<Rightarrow> FriendsPanel" where
  "invite p friend s = (if \<not> fl_onInvite p then s else callFriend InviteFriend friend s)"

definition unfriend :: "FriendsProps \<Rightarrow> SocialUser \<Rightarrow> FriendsPanel \<Rightarrow> FriendsPanel" where
  "unfriend p friend s = (if \<not> fl_onUnfriend p then s else callFriend UnfriendFriend friend s)"

definition spectate :: "FriendsProps \<Rightarrow> SocialUser \<Rightarrow> FriendsPanel \<Rightarrow> FriendsPanel" where
  "spectate p friend s =
     (if \<not> fl_onSpectate p \<or> su_activeGameStartedAt friend = None then s else callFriend SpectateFriend friend s)"

definition finishFriend :: "nat \<Rightarrow> FriendEffect list \<Rightarrow> FriendsPanel \<Rightarrow> FriendsPanel" where
  "finishFriend n effects s =
     s\<lparr>fp_actions := endAction n (fp_actions s), fp_effects := fp_effects s @ effects\<rparr>"

text \<open>What a handler does when the call or the navigation it awaits succeeds or fails.\<close>

definition friendSettled :: "nat \<Rightarrow> bool \<Rightarrow> FriendsPanel \<Rightarrow> FriendsPanel" where
  "friendSettled n success s =
     (if \<not> success then finishFriend n [FailureToast] s
      else (case snd (ac_running (fp_actions s) ! n) of
              SpectateFriend \<Rightarrow>
                s\<lparr>fp_actions := continueAction n AwaitNavigation (fp_actions s),
                  fp_effects := fp_effects s @ [CloseMobileSidebar, NavigateHome]\<rparr>
            | AwaitNavigation \<Rightarrow> finishFriend n [] s
            | action \<Rightarrow> finishFriend n [SuccessToast action] s))"

datatype FriendEvent = ClickItem FriendsProps FriendAction SocialUser | FriendSettles nat bool

fun friends_enabled :: "FriendEvent \<Rightarrow> FriendsPanel \<Rightarrow> bool" where
  "friends_enabled (ClickItem p action friend) s \<longleftrightarrow> friend \<in> set (fl_friends p) \<and> itemEnabled p s action friend"
| "friends_enabled (FriendSettles n success) s \<longleftrightarrow> n < length (ac_running (fp_actions s))"

fun friends_handle :: "FriendEvent \<Rightarrow> FriendsPanel \<Rightarrow> FriendsPanel" where
  "friends_handle (ClickItem p InviteFriend friend) s = invite p friend s"
| "friends_handle (ClickItem p UnfriendFriend friend) s = unfriend p friend s"
| "friends_handle (ClickItem p SpectateFriend friend) s = spectate p friend s"
| "friends_handle (ClickItem p AwaitNavigation friend) s = s"
| "friends_handle (FriendSettles n success) s = friendSettled n success s"

lemma friends_sorted: "Sorting_Algorithms.sorted (friendOrder names) (sortedFriends names p)"
  by (simp add: sortedFriends_def)

lemma friendOrder_not_greater:
  "compare (friendOrder names) a b \<noteq> Greater \<Longrightarrow>
     (su_activeGameStartedAt b \<noteq> None \<longrightarrow> su_activeGameStartedAt a \<noteq> None) \<and>
     ((su_activeGameStartedAt a = None) = (su_activeGameStartedAt b = None) \<longrightarrow>
        (su_online b \<longrightarrow> su_online a) \<and>
        (su_online a = su_online b \<longrightarrow> compare names (su_name a) (su_name b) \<noteq> Greater))"
  by (cases "su_activeGameStartedAt a = None"; cases "su_activeGameStartedAt b = None";
      cases "su_online a"; cases "su_online b")
    (auto simp: friendOrder_def compare_prod_lex_apply compare_comparator_bool simp del: comparator_bool_def)

lemma friends_ok_handle:
  assumes "exclusive (fp_actions s)" and "friends_enabled e s"
  shows "exclusive (fp_actions (friends_handle e s))"
proof (cases e)
  case (ClickItem p action friend)
  then show ?thesis using assms
    by (cases action)
      (auto simp: invite_def unfriend_def spectate_def callFriend_def intro: exclusive_begin)
next
  case (FriendSettles n success)
  then show ?thesis using assms
    by (auto simp: friendSettled_def finishFriend_def split: FriendAction.split
        intro: exclusive_end exclusive_continue)
qed

interpretation friends: invariant "\<lambda>s. s = initialFriendsPanel" "guarded_step friends_enabled friends_handle"
  "\<lambda>s. exclusive (fp_actions s)"
  by unfold_locales (auto simp: guarded_step_def initialFriendsPanel_def intro: friends_ok_handle)

text \<open>Every friend is listed once: friends in a game come first, then those online, equal ones by name,
  and two friends whom the order does not tell apart keep the order of the snapshot.\<close>

theorem friends_listed_by_activity:
  "mset (sortedFriends names p) = mset (fl_friends p) \<and>
   sorted_wrt (\<lambda>a b. (su_activeGameStartedAt b \<noteq> None \<longrightarrow> su_activeGameStartedAt a \<noteq> None) \<and>
       ((su_activeGameStartedAt a = None) = (su_activeGameStartedAt b = None) \<longrightarrow>
          (su_online b \<longrightarrow> su_online a) \<and>
          (su_online a = su_online b \<longrightarrow> compare names (su_name a) (su_name b) \<noteq> Greater)))
     (sortedFriends names p) \<and>
   filter (\<lambda>b. compare (friendOrder names) a b = Equiv) (sortedFriends names p) =
     filter (\<lambda>b. compare (friendOrder names) a b = Equiv) (fl_friends p)"
proof -
  have "sorted_wrt (\<lambda>a b. compare (friendOrder names) a b \<noteq> Greater) xs"
    if "Sorting_Algorithms.sorted (friendOrder names) xs" for xs
    using that by (induction rule: Sorting_Algorithms.sorted_induct) auto
  from this [OF friends_sorted] have "sorted_wrt (\<lambda>a b. compare (friendOrder names) a b \<noteq> Greater) (sortedFriends names p)" .
  then have "sorted_wrt (\<lambda>a b. (su_activeGameStartedAt b \<noteq> None \<longrightarrow> su_activeGameStartedAt a \<noteq> None) \<and>
       ((su_activeGameStartedAt a = None) = (su_activeGameStartedAt b = None) \<longrightarrow>
          (su_online b \<longrightarrow> su_online a) \<and>
          (su_online a = su_online b \<longrightarrow> compare names (su_name a) (su_name b) \<noteq> Greater)))
     (sortedFriends names p)"
    by (rule sorted_wrt_mono_rel [rotated]) (rule friendOrder_not_greater)
  then show ?thesis by (simp add: sortedFriends_def Sorting_Algorithms.stable_sort)
qed

text \<open>However the menus are used and the calls settle, at most one call or navigation per friend is under
  way, and the items of a friend are blocked exactly while there is one.\<close>

theorem one_action_per_friend:
  assumes "reach (guarded_step friends_enabled friends_handle) initialFriendsPanel s"
  shows "distinct (map fst (ac_running (fp_actions s))) \<and>
    (itemEnabled p s action friend \<longrightarrow> su_id friend \<notin> fst ` set (ac_running (fp_actions s))) \<and>
    (fl_onUnfriend p \<longrightarrow>
       (itemEnabled p s UnfriendFriend friend \<longleftrightarrow> su_id friend \<notin> fst ` set (ac_running (fp_actions s))))"
proof -
  have "exclusive (fp_actions s)" using friends.run_inv [OF _ assms] by blast
  then show ?thesis by (cases action) (simp_all add: exclusive_def)
qed

definition all_allowed :: "SocialUser list \<Rightarrow> FriendsProps" where
  "all_allowed friends = \<lparr>fl_friends = friends, fl_canInvite = True, fl_canSpectate = True, fl_unavailableUserIds = [],
     fl_onInvite = True, fl_onSpectate = True, fl_onUnfriend = True\<rparr>"

definition sample_friend :: "string \<Rightarrow> string option \<Rightarrow> SocialUser" where
  "sample_friend name game =
     \<lparr>su_id = name, su_name = name, su_imageUrl = None, su_online = True, su_activeGameStartedAt = game\<rparr>"

definition friends_run :: "FriendEvent list" where
  "friends_run =
     (let p = all_allowed [sample_friend ''Ann'' None, sample_friend ''Bob'' (Some ''t0'')]
      in [ClickItem p InviteFriend (sample_friend ''Ann'' None),
          ClickItem p SpectateFriend (sample_friend ''Bob'' (Some ''t0'')), FriendSettles 0 True, FriendSettles 0 True])"

theorem one_action_per_friend_witness:
  "\<exists>s. run friends_enabled friends_handle friends_run initialFriendsPanel = Some s \<and>
     ac_running (fp_actions s) = [(''Bob'', AwaitNavigation)] \<and>
     \<not> itemEnabled (all_allowed []) s UnfriendFriend (sample_friend ''Bob'' (Some ''t0''))"
proof -
  have "map_option (\<lambda>s. ac_running (fp_actions s)) (run friends_enabled friends_handle friends_run initialFriendsPanel)
      = Some [(''Bob'', AwaitNavigation)]" by code_simp
  then obtain s where s: "run friends_enabled friends_handle friends_run initialFriendsPanel = Some s"
      and r: "ac_running (fp_actions s) = [(''Bob'', AwaitNavigation)]" by auto
  with one_action_per_friend [OF run_reach [OF s], of "all_allowed []" UnfriendFriend "sample_friend ''Bob'' (Some ''t0'')"]
  show ?thesis by (auto simp: all_allowed_def sample_friend_def)
qed

section \<open>Notifications\<close>

datatype Answered = RequestAnswered bool | InviteAnswered bool | AwaitHome

datatype NotificationEffect =
  RespondFriendRequestCall string bool | RespondGameInviteCall string bool | GoHome | AnsweredToast | NotAnsweredToast

text \<open>\<open>np_clock\<close> is the time of the host, \<open>np_timer\<close> the time at which the timer of the last effect is due,
  and \<open>np_effectDue\<close> tells that a render changed what the effect depends on and the effect has not run yet.\<close>

record NotificationPanel =
  np_requests :: "FriendRequest list"
  np_invites :: "GameInvite list"
  np_currentTime :: int
  np_clock :: int
  np_timer :: "int option"
  np_effectDue :: bool
  np_actions :: "Answered Actions"
  np_effects :: "NotificationEffect list"

definition mountNotifications :: "SocialState \<Rightarrow> int \<Rightarrow> NotificationPanel" where
  "mountNotifications social now =
     \<lparr>np_requests = social_incomingFriendRequests social, np_invites = social_gameInvites social,
      np_currentTime = now, np_clock = now, np_timer = None, np_effectDue = True,
      np_actions = noActions, np_effects = []\<rparr>"

definition liveAt :: "(string \<Rightarrow> int option) \<Rightarrow> int \<Rightarrow> GameInvite \<Rightarrow> bool" where
  "liveAt time t gi \<longleftrightarrow> (case time (gi_expiresAt gi) of Some expiry \<Rightarrow> t < expiry | None \<Rightarrow> False)"

definition gameInvites :: "(string \<Rightarrow> int option) \<Rightarrow> NotificationPanel \<Rightarrow> GameInvite list" where
  "gameInvites time s = filter (liveAt time (np_currentTime s)) (np_invites s)"

definition notificationCount :: "(string \<Rightarrow> int option) \<Rightarrow> NotificationPanel \<Rightarrow> nat" where
  "notificationCount time s = length (np_requests s) + length (gameInvites time s)"

definition badgeText :: "nat \<Rightarrow> string option" where
  "badgeText n = (if 0 < n then Some (if 9 < n then ''9+'' else js_show (int n)) else None)"

definition earlier :: "(string \<Rightarrow> int option) \<Rightarrow> int \<Rightarrow> GameInvite \<Rightarrow> int option \<Rightarrow> int option" where
  "earlier time now gi earliest =
     (case time (gi_expiresAt gi) of
        None \<Rightarrow> earliest
      | Some expiry \<Rightarrow>
          (if expiry \<le> now then earliest
           else (case earliest of None \<Rightarrow> Some expiry | Some e \<Rightarrow> if expiry < e then Some expiry else earliest)))"

definition nextExpiry :: "(string \<Rightarrow> int option) \<Rightarrow> int \<Rightarrow> GameInvite list \<Rightarrow> int option" where
  "nextExpiry time now invites = fold (earlier time now) invites None"

text \<open>The effect: the timer of the effect before is cleared, a new one is set for the next expiry.\<close>

definition expiryEffect :: "(string \<Rightarrow> int option) \<Rightarrow> NotificationPanel \<Rightarrow> NotificationPanel" where
  "expiryEffect time s =
     (let now = np_clock s in
      s\<lparr>np_timer := map_option (\<lambda>expiry. now + max 0 (expiry - now + 1)) (nextExpiry time now (np_invites s)),
        np_effectDue := False\<rparr>)"

definition expiryTimer :: "NotificationPanel \<Rightarrow> NotificationPanel" where
  "expiryTimer s =
     s\<lparr>np_currentTime := np_clock s, np_timer := None,
       np_effectDue := np_effectDue s \<or> np_clock s \<noteq> np_currentTime s\<rparr>"

definition answer :: "string \<Rightarrow> Answered \<Rightarrow> NotificationEffect \<Rightarrow> NotificationPanel \<Rightarrow> NotificationPanel" where
  "answer target kind call s =
     s\<lparr>np_actions := beginAction target kind (np_actions s), np_effects := np_effects s @ [call]\<rparr>"

definition finishAnswer :: "nat \<Rightarrow> NotificationEffect \<Rightarrow> NotificationPanel \<Rightarrow> NotificationPanel" where
  "finishAnswer n toast s = s\<lparr>np_actions := endAction n (np_actions s), np_effects := np_effects s @ [toast]\<rparr>"

text \<open>Accepting an invitation also awaits the navigation to the game.\<close>

definition answerSettled :: "nat \<Rightarrow> bool \<Rightarrow> NotificationPanel \<Rightarrow> NotificationPanel" where
  "answerSettled n success s =
     (if \<not> success then finishAnswer n NotAnsweredToast s
      else if snd (ac_running (np_actions s) ! n) = InviteAnswered True then
        s\<lparr>np_actions := continueAction n AwaitHome (np_actions s), np_effects := np_effects s @ [GoHome]\<rparr>
      else finishAnswer n AnsweredToast s)"

datatype NotificationEvent =
  SocialArrives SocialState | ClockMoves int | EffectRuns | TimerFires
| AnswerRequest FriendRequest bool | AnswerInvite GameInvite bool | AnswerSettles nat bool

fun notifications_enabled :: "(string \<Rightarrow> int option) \<Rightarrow> NotificationEvent \<Rightarrow> NotificationPanel \<Rightarrow> bool" where
  "notifications_enabled time (SocialArrives social) s \<longleftrightarrow> True"
| "notifications_enabled time (ClockMoves t) s \<longleftrightarrow> np_clock s \<le> t"
| "notifications_enabled time EffectRuns s \<longleftrightarrow> np_effectDue s"
| "notifications_enabled time TimerFires s \<longleftrightarrow> (case np_timer s of Some due \<Rightarrow> due \<le> np_clock s | None \<Rightarrow> False)"
| "notifications_enabled time (AnswerRequest req accept) s \<longleftrightarrow>
     req \<in> set (np_requests s) \<and> fr_id req \<notin> ac_pending (np_actions s)"
| "notifications_enabled time (AnswerInvite gi accept) s \<longleftrightarrow>
     gi \<in> set (gameInvites time s) \<and> gi_id gi \<notin> ac_pending (np_actions s)"
| "notifications_enabled time (AnswerSettles n success) s \<longleftrightarrow> n < length (ac_running (np_actions s))"

fun notifications_handle :: "(string \<Rightarrow> int option) \<Rightarrow> NotificationEvent \<Rightarrow> NotificationPanel \<Rightarrow> NotificationPanel" where
  "notifications_handle time (SocialArrives social) s =
     s\<lparr>np_requests := social_incomingFriendRequests social, np_invites := social_gameInvites social,
       np_effectDue := True\<rparr>"
| "notifications_handle time (ClockMoves t) s = s\<lparr>np_clock := t\<rparr>"
| "notifications_handle time EffectRuns s = expiryEffect time s"
| "notifications_handle time TimerFires s = expiryTimer s"
| "notifications_handle time (AnswerRequest req accept) s =
     answer (fr_id req) (RequestAnswered accept) (RespondFriendRequestCall (fr_id req) accept) s"
| "notifications_handle time (AnswerInvite gi accept) s =
     answer (gi_id gi) (InviteAnswered accept) (RespondGameInviteCall (gi_id gi) accept) s"
| "notifications_handle time (AnswerSettles n success) s = answerSettled n success s"

lemma earlier_bound:
  "fold (earlier time now) invites earliest = Some m \<Longrightarrow>
     (earliest = Some m \<or> now < m) \<and>
     (\<forall>e. earliest = Some e \<longrightarrow> m \<le> e) \<and>
     (\<forall>gi \<in> set invites. \<forall>e. time (gi_expiresAt gi) = Some e \<longrightarrow> now < e \<longrightarrow> m \<le> e)"
proof (induction invites arbitrary: earliest)
  case (Cons gi invites)
  from Cons.IH [of "earlier time now gi earliest"] Cons.prems show ?case
    by (auto simp: earlier_def split: option.splits if_splits)
qed simp

lemma earlier_Some: "\<exists>m. fold (earlier time now) invites (Some e) = Some m"
proof (induction invites arbitrary: e)
  case (Cons gi invites)
  have "\<exists>e'. earlier time now gi (Some e) = Some e'" by (simp add: earlier_def split: option.split)
  then show ?case using Cons.IH by auto
qed simp

lemma nextExpiry_bound:
  assumes "nextExpiry time now invites = Some m"
  shows "now < m" and "gi \<in> set invites \<Longrightarrow> time (gi_expiresAt gi) = Some e \<Longrightarrow> now < e \<Longrightarrow> m \<le> e"
  using earlier_bound [of time now invites None m] assms by (auto simp: nextExpiry_def)

lemma earlier_None:
  "fold (earlier time now) invites None = None \<Longrightarrow> gi \<in> set invites \<Longrightarrow> time (gi_expiresAt gi) = Some e \<Longrightarrow> e \<le> now"
proof (induction invites)
  case (Cons a invites)
  have none: "earlier time now a None = None"
    using Cons.prems(1) by (cases "earlier time now a None") (simp_all, metis earlier_Some option.distinct(1))
  with Cons show ?case by (auto simp: earlier_def [of time now a] split: if_splits)
qed simp

lemma nextExpiry_exists:
  assumes "gi \<in> set invites" "time (gi_expiresAt gi) = Some e" "now < e"
  obtains m where "nextExpiry time now invites = Some m" "m \<le> e"
proof (cases "nextExpiry time now invites")
  case None
  then show ?thesis using earlier_None [of time now invites gi e] assms by (simp add: nextExpiry_def)
next
  case (Some m)
  then show ?thesis using that nextExpiry_bound(2) assms by blast
qed

definition notifications_ok :: "(string \<Rightarrow> int option) \<Rightarrow> NotificationPanel \<Rightarrow> bool" where
  "notifications_ok time s \<longleftrightarrow>
     exclusive (np_actions s) \<and> np_currentTime s \<le> np_clock s \<and>
     (\<not> np_effectDue s \<longrightarrow> (\<exists>T. np_currentTime s \<le> T \<and> T \<le> np_clock s \<and>
        np_timer s = map_option (\<lambda>expiry. expiry + 1) (nextExpiry time T (np_invites s))))"

lemma notifications_ok_timer:
  assumes "notifications_ok time s" "notifications_enabled time TimerFires s"
  shows "notifications_ok time (expiryTimer s)"
proof -
  have "np_effectDue s \<or> np_clock s \<noteq> np_currentTime s"
    using assms by (auto simp: notifications_ok_def dest!: nextExpiry_bound(1) sym [of "Some _"] split: option.splits)
  then show ?thesis using assms(1) by (simp add: notifications_ok_def expiryTimer_def)
qed

lemma notifications_ok_effect: "notifications_ok time s \<Longrightarrow> notifications_ok time (expiryEffect time s)"
  unfolding notifications_ok_def expiryEffect_def Let_def
  by (auto intro!: exI [of _ "np_clock s"] option.map_cong0 simp: max_def dest!: nextExpiry_bound(1) [rotated]
      simp del: option.map_cong0 split: option.splits)

lemma notifications_ok_handle:
  assumes "notifications_ok time s" and "notifications_enabled time e s"
  shows "notifications_ok time (notifications_handle time e s)"
proof (cases e)
  case (AnswerSettles n success)
  then show ?thesis using assms
    by (auto simp: notifications_ok_def answerSettled_def finishAnswer_def intro: exclusive_end exclusive_continue)
next
  case (ClockMoves t)
  with assms show ?thesis by (force simp: notifications_ok_def)
qed (use assms notifications_ok_timer notifications_ok_effect in
      \<open>auto simp: notifications_ok_def answer_def intro: exclusive_begin\<close>)

lemma notifications_ok_mount: "notifications_ok time (mountNotifications social now)"
  by (simp add: notifications_ok_def mountNotifications_def)

interpretation notifications: invariant "\<lambda>s. \<exists>social now. s = mountNotifications social now"
  "guarded_step (notifications_enabled time) (notifications_handle time)" "notifications_ok time" for time
  by unfold_locales
    (auto simp: guarded_step_def notifications_ok_mount intro: notifications_ok_handle)

text \<open>C27: While an invitation that has not expired is shown and the effect has run, a timer is set that is due
  at most a millisecond after it expires; and once that timer fires, whatever time it then is, no
  invitation that has expired by then is shown.\<close>

theorem invitations_disappear:
  assumes "reach (guarded_step (notifications_enabled time) (notifications_handle time)) (mountNotifications social now) s"
    and "\<not> np_effectDue s" and "gi \<in> set (gameInvites time s)" and "liveAt time (np_clock s) gi"
  shows "\<exists>due e. np_timer s = Some due \<and> time (gi_expiresAt gi) = Some e \<and> due \<le> e + 1 \<and>
    (\<forall>t. due \<le> t \<and> np_clock s \<le> t \<longrightarrow>
       notifications_enabled time TimerFires (notifications_handle time (ClockMoves t) s) \<and>
       (\<forall>g \<in> set (gameInvites time (notifications_handle time TimerFires (notifications_handle time (ClockMoves t) s))).
          liveAt time t g))"
proof -
  have "notifications_ok time s" using notifications.run_inv [OF _ assms(1)] by blast
  then obtain T where T: "T \<le> np_clock s"
      "np_timer s = map_option (\<lambda>expiry. expiry + 1) (nextExpiry time T (np_invites s))"
    using assms(2) by (auto simp: notifications_ok_def)
  obtain e where e: "time (gi_expiresAt gi) = Some e" "np_clock s < e"
    using assms(4) by (auto simp: liveAt_def split: option.splits)
  have "gi \<in> set (np_invites s)" using assms(3) by (simp add: gameInvites_def)
  then obtain m where "nextExpiry time T (np_invites s) = Some m" "m \<le> e"
    by (rule nextExpiry_exists [of gi _ time e T]) (use e T in auto)
  then show ?thesis using T(2) e(1) by (simp add: expiryTimer_def gameInvites_def)
qed

definition clock_text :: "string \<Rightarrow> int option" where
  "clock_text s = (if s = ''t60'' then Some 60 else if s = ''t90'' then Some 90 else None)"

definition sample_invite :: "string \<Rightarrow> string \<Rightarrow> GameInvite" where
  "sample_invite target expiresAt =
     \<lparr>gi_id = target,
      gi_user = \<lparr>su_id = ''u'', su_name = ''Ann'', su_imageUrl = None, su_online = True, su_activeGameStartedAt = None\<rparr>,
      gi_roomCode = ''ABCD'', gi_createdAt = ''t0'', gi_expiresAt = expiresAt\<rparr>"

definition sample_social :: "GameInvite list \<Rightarrow> SocialState" where
  "sample_social invites =
     \<lparr>social_userId = ''me'', social_friends = [], social_incomingFriendRequests = [],
      social_outgoingFriendRequestUserIds = [], social_gameInvites = invites\<rparr>"

definition arrived :: NotificationPanel where
  "arrived = (mountNotifications (sample_social [sample_invite ''a'' ''t90'', sample_invite ''b'' ''t60'']) 0)
     \<lparr>np_clock := 20, np_timer := Some 61, np_effectDue := False\<rparr>"

lemma arrived_run:
  "run (notifications_enabled clock_text) (notifications_handle clock_text) [ClockMoves 20, EffectRuns]
     (mountNotifications (sample_social [sample_invite ''a'' ''t90'', sample_invite ''b'' ''t60'']) 0) = Some arrived"
  by code_simp

theorem invitations_disappear_witness:
  "np_timer arrived = Some 61 \<and> notifications_enabled clock_text TimerFires (notifications_handle clock_text (ClockMoves 75) arrived) \<and>
   list_all (liveAt clock_text 75) (gameInvites clock_text (notifications_handle clock_text TimerFires
      (notifications_handle clock_text (ClockMoves 75) arrived)))"
proof -
  have "\<not> np_effectDue arrived" "sample_invite ''b'' ''t60'' \<in> set (gameInvites clock_text arrived)"
      "liveAt clock_text (np_clock arrived) (sample_invite ''b'' ''t60'')" "np_timer arrived = Some 61" "np_clock arrived = 20"
    by code_simp+
  with invitations_disappear [OF run_reach [OF arrived_run]] show ?thesis by (fastforce simp: list_all_iff)
qed

text \<open>An invitation that expires between the mount and the effect after its arrival is shown, but the effect
  sets no timer for it: it stays until the list of invitations changes.\<close>

lemma expired_invitation_stays:
  assumes "gi \<in> set (gameInvites time s)" "np_timer s = None" "\<not> np_effectDue s"
    and "run (notifications_enabled time) (notifications_handle time) es s = Some s'"
    and "\<forall>social. SocialArrives social \<notin> set es"
  shows "gi \<in> set (gameInvites time s')"
  using assms
proof (induction es arbitrary: s)
  case (Cons e es)
  show ?case
    by (rule Cons.IH [of "notifications_handle time e s"]; use Cons.prems in \<open>cases e\<close>)
      (auto simp: gameInvites_def answer_def answerSettled_def finishAnswer_def split: if_splits)
qed simp

lemma expired_invitation_arises:
  "map_option (\<lambda>s. (map gi_id (gameInvites clock_text s), np_timer s, np_effectDue s, np_clock s))
     (run (notifications_enabled clock_text) (notifications_handle clock_text)
        [EffectRuns, ClockMoves 70, SocialArrives (sample_social [sample_invite ''b'' ''t60'']), EffectRuns]
        (mountNotifications (sample_social []) 0)) = Some ([''b''], None, False, 70)"
  by code_simp

end
