(* ===== verification/Leaderboard.thy ===== *)
theory Leaderboard
  imports JsText "HOL-Library.AList" "HOL-Library.Sublist"
begin

text \<open>
  The ranking of the players: the pages loaded so far as one list (\<open>lib/leaderboard-pages.ts\<close>), the
  parameters of a page (\<open>lib/leaderboard.ts\<close>), playing times (\<open>lib/format-playtime.ts\<close>) and the page
  that shows the list and asks for more (\<open>routes/leaderboard-page.tsx\<close>).
\<close>

datatype LeaderboardMetric = Elo | Wins | Games | Playtime | Rounds | Points
datatype LeaderboardScope = FriendsScope | GlobalScope

definition LEADERBOARD_PAGE_SIZE :: int where "LEADERBOARD_PAGE_SIZE = 50"

record LeaderboardPlayer =
  lp_tier :: "string option"
  lp_rank :: int
  lp_score :: int
  lp_playerId :: string
  lp_name :: string
  lp_imageUrl :: string
  lp_wins :: int
  lp_gamesPlayed :: int
  lp_roundsWon :: int
  lp_pointsInflicted :: int
  lp_totalPlaytimeSeconds :: int

record LeaderboardPage =
  pg_reset :: bool
  pg_metric :: LeaderboardMetric
  pg_scope :: LeaderboardScope
  pg_players :: "LeaderboardPlayer list"
  pg_nextCursor :: "string option"
  pg_placement :: "LeaderboardPlayer option"

section \<open>The visible list\<close>

fun findLastIndex :: "('a \<Rightarrow> bool) \<Rightarrow> 'a list \<Rightarrow> int" where
  "findLastIndex P [] = -1"
| "findLastIndex P (x # xs) =
     (let i = findLastIndex P xs in if 0 \<le> i then i + 1 else if P x then 0 else -1)"

text \<open>\<open>new Map(entries)\<close>: a key keeps the place of its first entry and gets the value of its last.\<close>

definition mapOfEntries :: "('k \<times> 'v) list \<Rightarrow> ('k \<times> 'v) list" where
  "mapOfEntries entries = fold (\<lambda>(k, v). AList.update k v) entries []"

record VisibleLeaderboard =
  vl_players :: "LeaderboardPlayer list"
  vl_placement :: "LeaderboardPlayer option"
  vl_resetIndex :: int

definition currentPages :: "LeaderboardPage list \<Rightarrow> LeaderboardPage list" where
  "currentPages pages = drop (nat (max 0 (findLastIndex pg_reset pages))) pages"

definition visibleLeaderboard :: "LeaderboardPage list \<Rightarrow> VisibleLeaderboard" where
  "visibleLeaderboard pages =
     \<lparr>vl_players = map snd (mapOfEntries (map (\<lambda>player. (lp_playerId player, player))
        (concat (map pg_players (currentPages pages))))),
      vl_placement = (case currentPages pages of [] \<Rightarrow> None | page # _ \<Rightarrow> pg_placement page),
      vl_resetIndex = findLastIndex pg_reset pages\<rparr>"

section \<open>Texts\<close>

text \<open>The two messages are generated texts: \<open>hoursMinutes\<close> and \<open>onlyMinutes\<close>.\<close>

definition formatPlaytime :: "(int \<Rightarrow> int \<Rightarrow> string) \<Rightarrow> (int \<Rightarrow> string) \<Rightarrow> int \<Rightarrow> string" where
  "formatPlaytime hoursMinutes onlyMinutes totalSeconds =
     (let totalMinutes = totalSeconds div 60;
          hours = totalMinutes div 60;
          minutes = totalMinutes mod 60
      in if 0 < hours then hoursMinutes hours minutes else onlyMinutes totalMinutes)"

definition formatScore ::
  "(int \<Rightarrow> int \<Rightarrow> string) \<Rightarrow> (int \<Rightarrow> string) \<Rightarrow> (int \<Rightarrow> string) \<Rightarrow> LeaderboardMetric \<Rightarrow> int \<Rightarrow> string" where
  "formatScore hoursMinutes onlyMinutes formatNumber metric score =
     (if metric = Playtime then formatPlaytime hoursMinutes onlyMinutes score else formatNumber score)"

definition tierNames :: "string list" where
  "tierNames = [''bronze'', ''silver'', ''gold'', ''platinum'', ''diamond'', ''master'', ''grandmaster'']"

text \<open>The badge beside a rating: a tier the client does not know is shown as the server sent it.\<close>

definition tierBadge :: "(string \<Rightarrow> string) \<Rightarrow> LeaderboardMetric \<Rightarrow> LeaderboardPlayer \<Rightarrow> string option" where
  "tierBadge label metric player =
     (if metric \<noteq> Elo then None
      else (case lp_tier player of
              None \<Rightarrow> None
            | Some tier \<Rightarrow> if tier = [] then None else Some (if tier \<in> set tierNames then label tier else tier)))"

datatype BadgeVariant = DefaultBadge | SecondaryBadge | OutlineBadge

definition rankBadge :: "int \<Rightarrow> BadgeVariant" where
  "rankBadge rank = (if rank = 1 then DefaultBadge else if rank \<le> 3 then SecondaryBadge else OutlineBadge)"

definition leaderboardSearch :: "LeaderboardMetric \<Rightarrow> LeaderboardScope \<Rightarrow> string option \<Rightarrow> (string \<times> string) list" where
  "leaderboardSearch metric scope cursor =
     [(''limit'', js_show LEADERBOARD_PAGE_SIZE),
      (''metric'', (case metric of Elo \<Rightarrow> ''elo'' | Wins \<Rightarrow> ''wins'' | Games \<Rightarrow> ''games'' | Playtime \<Rightarrow> ''playtime''
         | Rounds \<Rightarrow> ''rounds'' | Points \<Rightarrow> ''points'')),
      (''scope'', (case scope of FriendsScope \<Rightarrow> ''friends'' | GlobalScope \<Rightarrow> ''global''))] @
     (case cursor of None \<Rightarrow> [] | Some c \<Rightarrow> if c = [] then [] else [(''cursor'', c)])"

section \<open>The page\<close>

text \<open>What the query library tells of the pages of one ranking, and the rows the virtual list shows.\<close>

record RankingQuery =
  rq_pages :: "LeaderboardPage list"
  rq_hasNextPage :: bool
  rq_isFetchingNextPage :: bool
  rq_isFetchNextPageError :: bool

definition nextPageParam :: "LeaderboardPage \<Rightarrow> string option" where
  "nextPageParam lastPage = pg_nextCursor lastPage"

definition fetchesNextPage :: "RankingQuery \<Rightarrow> int option \<Rightarrow> bool" where
  "fetchesNextPage q lastVirtualRow \<longleftrightarrow>
     (case lastVirtualRow of
        None \<Rightarrow> False
      | Some index \<Rightarrow>
          int (length (vl_players (visibleLeaderboard (rq_pages q)))) - 8 \<le> index \<and> rq_hasNextPage q \<and>
          \<not> rq_isFetchingNextPage q \<and> \<not> rq_isFetchNextPageError q)"

definition isPlacementVisible :: "VisibleLeaderboard \<Rightarrow> nat list \<Rightarrow> bool" where
  "isPlacementVisible v virtualRows \<longleftrightarrow>
     (case vl_placement v of
        None \<Rightarrow> False
      | Some placement \<Rightarrow>
          list_ex (\<lambda>i. i < length (vl_players v) \<and> lp_playerId (vl_players v ! i) = lp_playerId placement) virtualRows)"

definition showsPlacement :: "VisibleLeaderboard \<Rightarrow> nat list \<Rightarrow> bool" where
  "showsPlacement v virtualRows \<longleftrightarrow> vl_placement v \<noteq> None \<and> \<not> isPlacementVisible v virtualRows"

definition scrollsToTop :: "VisibleLeaderboard \<Rightarrow> bool" where
  "scrollsToTop v \<longleftrightarrow> 0 \<le> vl_resetIndex v"

datatype PageContent = PendingContent | ErrorContent | EmptyContent | TableContent

definition pageContent :: "bool \<Rightarrow> bool \<Rightarrow> VisibleLeaderboard \<Rightarrow> PageContent" where
  "pageContent isPending isError v =
     (if isPending then PendingContent
      else if isError \<and> vl_players v = [] then ErrorContent
      else if vl_players v = [] then EmptyContent else TableContent)"

section \<open>Maps made of entries\<close>

lemma mapOfEntries_snoc: "mapOfEntries (xs @ [(k, v)]) = AList.update k v (mapOfEntries xs)"
  by (simp add: mapOfEntries_def)

lemma map_of_mapOfEntries: "map_of (mapOfEntries xs) k = map_of (rev xs) k"
  by (induction xs rule: rev_induct) (auto simp: mapOfEntries_snoc update_conv, simp add: mapOfEntries_def)

lemma keys_mapOfEntries_append: "prefix (map fst (mapOfEntries xs)) (map fst (mapOfEntries (xs @ ys)))"
proof (induction ys rule: rev_induct)
  case (snoc y ys)
  then show ?case
    by (cases y) (auto simp: mapOfEntries_snoc append_assoc [symmetric] update_keys simp del: append_assoc)
qed simp

lemma distinct_mapOfEntries: "distinct (map fst (mapOfEntries xs))"
  by (induction xs rule: rev_induct) (auto simp: mapOfEntries_snoc distinct_update, simp add: mapOfEntries_def)

lemma mapOfEntries_value:
  "(k, v) \<in> set (mapOfEntries xs) \<longleftrightarrow> map_of (rev xs) k = Some v"
  using map_of_eq_Some_iff [OF distinct_mapOfEntries [of xs]] by (simp add: map_of_mapOfEntries)

section \<open>Pages\<close>

lemma findLastIndex_bounds: "-1 \<le> findLastIndex P xs \<and> findLastIndex P xs < int (length xs)"
  by (induction xs) (auto simp: Let_def)

lemma findLastIndex_snoc:
  "findLastIndex P (xs @ [x]) = (if P x then int (length xs) else findLastIndex P xs)"
  by (induction xs) (auto simp: Let_def)

lemma currentPages_reset: "pg_reset page \<Longrightarrow> currentPages (pages @ [page]) = [page]"
  by (simp add: currentPages_def findLastIndex_snoc)

lemma currentPages_more: "\<not> pg_reset page \<Longrightarrow> pages \<noteq> [] \<Longrightarrow> currentPages (pages @ [page]) = currentPages pages @ [page]"
  using findLastIndex_bounds [of pg_reset pages]
  by (cases "pages = []") (auto simp: currentPages_def findLastIndex_snoc max_def nat_le_iff zless_nat_eq_int_zless)

lemma currentPages_Nil: "currentPages pages = [] \<longleftrightarrow> pages = []"
proof -
  have "pages \<noteq> [] \<longrightarrow> nat (max 0 (findLastIndex pg_reset pages)) < length pages"
    using findLastIndex_bounds [of pg_reset pages] by (simp add: max_def zless_nat_eq_int_zless nat_less_iff)
  then show ?thesis unfolding currentPages_def drop_eq_Nil by (cases "pages = []") simp_all
qed

lemma currentPages_single: "currentPages [page] = [page]"
  by (simp add: currentPages_def)

lemma currentPages_suffix: "suffix (currentPages pages) pages"
  by (simp add: currentPages_def suffix_drop)

abbreviation rows :: "LeaderboardPage list \<Rightarrow> LeaderboardPlayer list" where
  "rows pages \<equiv> concat (map pg_players (currentPages pages))"

lemma entries_keyed: "(k, v) \<in> set (mapOfEntries (map (\<lambda>x. (f x, x)) xs)) \<Longrightarrow> k = f v \<and> v \<in> set xs"
  by (auto simp: mapOfEntries_value dest!: map_of_SomeD)

lemma ids_of_visible:
  "map lp_playerId (vl_players (visibleLeaderboard pages)) =
     map fst (mapOfEntries (map (\<lambda>player. (lp_playerId player, player)) (rows pages)))"
  by (auto simp: visibleLeaderboard_def dest: entries_keyed)

lemma newest_row:
  "player \<in> set (vl_players (visibleLeaderboard pages)) \<longleftrightarrow>
     List.find (\<lambda>x. lp_playerId x = lp_playerId player) (rev (rows pages)) = Some player"
proof -
  have keyed: "map_of (map (\<lambda>x. (f x, x)) xs) k = List.find (\<lambda>x. f x = k) xs" for f :: "'a \<Rightarrow> 'k" and xs k
    by (induction xs) auto
  have second: "player \<in> snd ` E \<longleftrightarrow> (lp_playerId player, player) \<in> E"
    if "\<And>k v. (k, v) \<in> E \<Longrightarrow> k = lp_playerId v" for E
    using that by force
  have "player \<in> set (vl_players (visibleLeaderboard pages)) \<longleftrightarrow>
      (lp_playerId player, player) \<in> set (mapOfEntries (map (\<lambda>player. (lp_playerId player, player)) (rows pages)))"
    unfolding visibleLeaderboard_def by (simp, rule second) (blast dest: entries_keyed)
  then show ?thesis by (simp add: mapOfEntries_value rev_map keyed)
qed

text \<open>C40: The ranking lists every player of the pages since the last restart once, with the newest of the
  rows loaded for them. A further page leaves the players listed so far in their places and only adds
  players behind them, with the placement unchanged; a restart replaces players and placement.\<close>

theorem ranking_grows_or_restarts:
  "distinct (map lp_playerId (vl_players (visibleLeaderboard pages))) \<and>
   (player \<in> set (vl_players (visibleLeaderboard pages)) \<longleftrightarrow>
      List.find (\<lambda>x. lp_playerId x = lp_playerId player) (rev (rows pages)) = Some player) \<and>
   (if pg_reset page then
      rows (pages @ [page]) = pg_players page \<and>
      vl_placement (visibleLeaderboard (pages @ [page])) = pg_placement page \<and>
      scrollsToTop (visibleLeaderboard (pages @ [page]))
    else
      prefix (map lp_playerId (vl_players (visibleLeaderboard pages)))
        (map lp_playerId (vl_players (visibleLeaderboard (pages @ [page])))) \<and>
      vl_resetIndex (visibleLeaderboard (pages @ [page])) = vl_resetIndex (visibleLeaderboard pages) \<and>
      vl_placement (visibleLeaderboard (pages @ [page])) =
        (if pages = [] then pg_placement page else vl_placement (visibleLeaderboard pages)))"
proof (cases "pg_reset page")
  case True
  then show ?thesis
    using distinct_mapOfEntries newest_row [of player pages]
    by (simp add: ids_of_visible currentPages_reset visibleLeaderboard_def [of "pages @ [page]"]
        scrollsToTop_def findLastIndex_snoc)
next
  case False
  have "prefix (map lp_playerId (vl_players (visibleLeaderboard pages)))
      (map lp_playerId (vl_players (visibleLeaderboard (pages @ [page]))))"
    using False keys_mapOfEntries_append currentPages_Nil [of pages]
    by (cases "pages = []") (simp_all add: ids_of_visible currentPages_more mapOfEntries_def [of "[]"])
  moreover have "vl_placement (visibleLeaderboard (pages @ [page])) =
      (if pages = [] then pg_placement page else vl_placement (visibleLeaderboard pages))"
    using False currentPages_Nil [of pages]
    by (cases "pages = []") (auto simp: visibleLeaderboard_def currentPages_more currentPages_single split: list.split)
  moreover have "vl_resetIndex (visibleLeaderboard (pages @ [page])) = vl_resetIndex (visibleLeaderboard pages)"
    using False by (simp add: visibleLeaderboard_def findLastIndex_snoc)
  moreover have "distinct (map lp_playerId (vl_players (visibleLeaderboard pages)))"
    by (simp add: ids_of_visible distinct_mapOfEntries)
  ultimately show ?thesis using False newest_row [of player pages] by simp
qed

text \<open>The hours and minutes of a playing time are those of its whole minutes.\<close>

lemma playtime_minutes:
  "0 \<le> totalSeconds \<Longrightarrow>
     formatPlaytime (\<lambda>h m. js_show (60 * h + m)) js_show totalSeconds = js_show (totalSeconds div 60)"
  by (simp add: formatPlaytime_def Let_def)

end
