(* ===== verification/HandOrderStore.thy ===== *)
theory HandOrderStore
  imports BoardRender
begin

text \<open>
  The hand orders kept over a reload of the page (\<open>game-hand-order-store.ts\<close>): the state read from the
  storage when the module is loaded, and the state written when an order changes. Reading and using the
  orders of the running page is in \<open>BoardRender\<close>.
\<close>

text \<open>The values of \<open>JSON.parse\<close>. An object has its keys once, as the parser leaves them.\<close>

datatype Json =
  JsonNull | JsonBool bool | JsonNumber int | JsonString string | JsonArray "Json list"
| JsonObject "(string \<times> Json) list"

definition STORAGE_KEY :: string where "STORAGE_KEY = ''compositions.game-hand-order:v1''"

fun truthy :: "Json \<Rightarrow> bool" where
  "truthy JsonNull \<longleftrightarrow> False"
| "truthy (JsonBool b) \<longleftrightarrow> b"
| "truthy (JsonNumber n) \<longleftrightarrow> n \<noteq> 0"
| "truthy (JsonString s) \<longleftrightarrow> s \<noteq> []"
| "truthy (JsonArray xs) \<longleftrightarrow> True"
| "truthy (JsonObject entries) \<longleftrightarrow> True"

text \<open>\<open>typeof value === "object"\<close>, which holds of \<open>null\<close>.\<close>

fun isObjectType :: "Json \<Rightarrow> bool" where
  "isObjectType JsonNull \<longleftrightarrow> True"
| "isObjectType (JsonArray xs) \<longleftrightarrow> True"
| "isObjectType (JsonObject entries) \<longleftrightarrow> True"
| "isObjectType _ \<longleftrightarrow> False"

text \<open>\<open>Object.entries(value)\<close>, \<open>None\<close> where it throws. The keys of an array are its indices.\<close>

fun objectEntries :: "Json \<Rightarrow> (string \<times> Json) list option" where
  "objectEntries JsonNull = None"
| "objectEntries (JsonArray xs) = Some (map (\<lambda>(i, x). (js_show (int i), x)) (List.enumerate 0 xs))"
| "objectEntries (JsonObject entries) = Some entries"
| "objectEntries _ = Some []"

text \<open>\<open>parsed.orders\<close>; an array or a value that is no object has none.\<close>

fun ordersField :: "Json \<Rightarrow> Json option" where
  "ordersField (JsonObject entries) = map_of entries ''orders''"
| "ordersField _ = None"

text \<open>The elements of an order are not checked to be texts, so the state read has values of any kind.\<close>

definition ordersOf :: "Json \<Rightarrow> (string \<times> Json list) list" where
  "ordersOf parsed =
     (if \<not> truthy parsed \<or> \<not> isObjectType parsed then []
      else (case ordersField parsed of
              None \<Rightarrow> []
            | Some orders \<Rightarrow>
                if \<not> isObjectType orders then []
                else (case objectEntries orders of
                        None \<Rightarrow> []
                      | Some entries \<Rightarrow>
                          List.map_filter (\<lambda>(k, v). case v of JsonArray xs \<Rightarrow> Some (k, xs) | _ \<Rightarrow> None) entries)))"

text \<open>\<open>parse\<close> is \<open>JSON.parse\<close>, \<open>None\<close> where it throws; \<open>stored\<close> is what \<open>getItem\<close> gives.\<close>

definition readInitialState :: "(string \<Rightarrow> Json option) \<Rightarrow> string option \<Rightarrow> (string \<times> Json list) list" where
  "readInitialState parse stored =
     (case stored of
        None \<Rightarrow> []
      | Some text \<Rightarrow>
          (if text = [] then []
           else (case parse text of None \<Rightarrow> [] | Some parsed \<Rightarrow> ordersOf parsed)))"

definition stateJson :: "HandOrders \<Rightarrow> Json" where
  "stateJson orders =
     JsonObject [(''orders'', JsonObject (map (\<lambda>(k, order). (k, JsonArray (map JsonString order))) orders))]"

text \<open>The storage after an order was set: \<open>setItem\<close> of the text of the new state.\<close>

definition persistState :: "(Json \<Rightarrow> string) \<Rightarrow> HandOrders \<Rightarrow> string option" where
  "persistState stringify state = Some (stringify (stateJson state))"

definition storedAfter :: "(Json \<Rightarrow> string) \<Rightarrow> string option \<Rightarrow> HandOrders \<times> HandOrders option \<Rightarrow> string option" where
  "storedAfter stringify stored result =
     (case snd result of None \<Rightarrow> stored | Some nextState \<Rightarrow> persistState stringify nextState)"

text \<open>The state of the store and the storage after orders were set one after the other.\<close>

fun setOrders ::
  "(Json \<Rightarrow> string) \<Rightarrow> (string option \<times> string list) list \<Rightarrow> HandOrders \<times> string option \<Rightarrow> HandOrders \<times> string option" where
  "setOrders stringify [] state = state"
| "setOrders stringify ((scopeKey, order) # changes) state =
     (let result = setPersistedHandOrder (fst state) scopeKey order
      in setOrders stringify changes (fst result, storedAfter stringify (snd state) result))"

lemma ordersOf_stateJson: "ordersOf (stateJson orders) = map (\<lambda>(k, order). (k, map JsonString order)) orders"
  by (induction orders) (auto simp: ordersOf_def stateJson_def List.map_filter_def)

lemma set_writes_state:
  "(case snd (setPersistedHandOrder orders scopeKey order) of
      None \<Rightarrow> fst (setPersistedHandOrder orders scopeKey order) = orders
    | Some written \<Rightarrow> written = fst (setPersistedHandOrder orders scopeKey order))"
  by (simp add: setPersistedHandOrder_def Let_def split: option.split)

definition stored_matches :: "(Json \<Rightarrow> string) \<Rightarrow> HandOrders \<Rightarrow> string option \<Rightarrow> bool" where
  "stored_matches stringify orders stored \<longleftrightarrow>
     orders = [] \<and> stored = None \<or> stored = Some (stringify (stateJson orders))"

lemma stored_matches_set:
  "stored_matches stringify (fst state) (snd state) \<Longrightarrow>
     stored_matches stringify (fst (setOrders stringify changes state)) (snd (setOrders stringify changes state))"
proof (induction stringify changes state rule: setOrders.induct)
  case (2 stringify scopeKey order changes state)
  show ?case unfolding setOrders.simps Let_def
    by (rule "2.IH" [OF refl])
      (use "2.prems" set_writes_state [of "fst state" scopeKey order] in
        \<open>auto simp: stored_matches_def storedAfter_def persistState_def split: option.splits\<close>)
qed simp

text \<open>The order last set for a scope.\<close>

fun lastOrder :: "string \<Rightarrow> (string option \<times> string list) list \<Rightarrow> string list \<Rightarrow> string list" where
  "lastOrder k [] order = order"
| "lastOrder k ((scopeKey, order') # changes) order =
     lastOrder k changes (if scopeKey = Some k then order' else order)"

lemma order_after_set:
  "k \<noteq> [] \<Longrightarrow>
     or_else (map_of (fst (setPersistedHandOrder orders scopeKey order)) k) [] =
       (if scopeKey = Some k then order else or_else (map_of orders k) [])"
  using persisted_same [of orders k order] persisted_other [of k _ orders order]
  by (cases scopeKey) (auto simp: usePersistedHandOrder_def setPersistedHandOrder_def [of _ None])

lemma order_after_changes:
  "k \<noteq> [] \<Longrightarrow>
     or_else (map_of (fst (setOrders stringify changes state)) k) [] =
       lastOrder k changes (or_else (map_of (fst state) k) [])"
  by (induction stringify changes state rule: setOrders.induct) (simp_all add: Let_def order_after_set)

text \<open>C25: A reload keeps the hand orders: whatever orders were set, the state read back from the storage is
  the state of the store, and it has for every scope the order last set for it, as long as parsing the
  written text gives what was written.\<close>

theorem orders_survive_reload:
  assumes "setOrders stringify changes ([], None) = (orders, stored)"
    and "parse (stringify (stateJson orders)) = Some (stateJson orders)" and "stringify (stateJson orders) \<noteq> []"
    and "k \<noteq> []"
  shows "readInitialState parse stored = map (\<lambda>(k, order). (k, map JsonString order)) orders \<and>
    or_else (map_of (readInitialState parse stored) k) [] = map JsonString (lastOrder k changes [])"
proof -
  from stored_matches_set [of stringify "([], None)" changes] assms(1)
  have "stored_matches stringify orders stored" by (simp add: stored_matches_def)
  then have read: "readInitialState parse stored = map (\<lambda>(k, order). (k, map JsonString order)) orders"
    using assms(2,3) by (auto simp: stored_matches_def readInitialState_def ordersOf_stateJson)
  moreover have "or_else (map_of (map (\<lambda>(k, order). (k, map JsonString order)) orders) k) [] =
      map JsonString (or_else (map_of orders k) [])"
    by (simp add: map_of_map) (cases "map_of orders k"; simp)
  ultimately show ?thesis
    using order_after_changes [OF assms(4), of stringify changes "([], None)"] assms(1) by simp
qed

text \<open>A printing of the values, for the example below.\<close>

fun printed :: "Json \<Rightarrow> string" where
  "printed JsonNull = ''null''"
| "printed (JsonBool b) = (if b then ''true'' else ''false'')"
| "printed (JsonNumber n) = js_show n"
| "printed (JsonString s) = CHR 0x22 # s @ [CHR 0x22]"
| "printed (JsonArray xs) = ''['' @ concat (map (\<lambda>x. printed x @ '','') xs) @ '']''"
| "printed (JsonObject entries) =
     CHR 0x7B # concat (map (\<lambda>(k, v). CHR 0x22 # k @ [CHR 0x22] @ '':'' @ printed v @ '','') entries) @ [CHR 0x7D]"

definition sampleChanges :: "(string option \<times> string list) list" where
  "sampleChanges = [(Some ''R1'', [''a'', ''b'']), (Some ''R2'', [''c'']), (None, [''d'']), (Some ''R1'', [''b'', ''a''])]"

definition sampleOrders :: HandOrders where
  "sampleOrders = [(''R1'', [''b'', ''a'']), (''R2'', [''c''])]"

theorem orders_survive_reload_witness:
  "readInitialState (\<lambda>text. if text = printed (stateJson sampleOrders) then Some (stateJson sampleOrders) else None)
     (Some (printed (stateJson sampleOrders)))
   = [(''R1'', [JsonString ''b'', JsonString ''a'']), (''R2'', [JsonString ''c''])]"
proof -
  have "setOrders printed sampleChanges ([], None) = (sampleOrders, Some (printed (stateJson sampleOrders)))"
    by code_simp
  from orders_survive_reload [OF this, of "\<lambda>text. if text = printed (stateJson sampleOrders)
      then Some (stateJson sampleOrders) else None" "''R1''"]
  show ?thesis by (simp add: stateJson_def) (simp add: sampleOrders_def)
qed

end
