(* ===== verification/Flights.thy ===== *)
theory Flights
  imports GamePage Complex_Main
begin

text \<open>
  The animations that play the moves of cards: the flight of one card between a pile and a player
  (\<open>card-transfer-animation.tsx\<close>) and the collection of completed compositions
  (\<open>completed-composition-animation.tsx\<close>). Positions are measured by the browser and are data of the
  events; the arithmetic on them is exact here.
\<close>

section \<open>Positions\<close>

record Bounds =
  bd_height :: rat
  bd_left :: rat
  bd_top :: rat
  bd_width :: rat

definition anchorCenter :: "Bounds \<Rightarrow> rat \<times> rat" where
  "anchorCenter bounds = (bd_left bounds + bd_width bounds / 2, bd_top bounds + bd_height bounds / 2)"

text \<open>What the code reads of the board: the elements of the players, the piles, the card on the discard
  pile, and for every completed composition its cards.\<close>

record BoardDom =
  dom_players :: "(string \<times> Bounds) list"
  dom_deck :: "Bounds option"
  dom_discard :: "Bounds option"
  dom_discardCard :: "Bounds option"
  dom_completed :: "(Bounds \<times> CardSnapshot) list list"

definition findPlayerAnchor :: "BoardDom \<Rightarrow> string \<Rightarrow> Bounds option" where
  "findPlayerAnchor board i = map_option snd (List.find (\<lambda>(j, _). j = i) (dom_players board))"


section \<open>The flight of a card\<close>


definition CARD_TRANSFER_DURATION_MS :: int where "CARD_TRANSFER_DURATION_MS = 420"

text \<open>A frame: the offset if given, the opacity, and the translation, scale and rotation of its transform.\<close>

record MotionFrame =
  fr_offset :: "rat option"
  fr_opacity :: rat
  fr_x :: rat
  fr_y :: rat
  fr_scale :: rat
  fr_rotate :: rat
























section \<open>The collection of completed compositions\<close>

datatype SequenceStage = CollectStage | DiscardStage

record CollectionSequence = CompletedCompositionCollection +
  sq_cards :: "(Bounds \<times> CardSnapshot) list"
  sq_discardSource :: Bounds
  sq_id :: int
  sq_stage :: SequenceStage
  sq_target :: Bounds

definition targetCardBounds :: "Bounds \<Rightarrow> nat \<Rightarrow> Bounds" where
  "targetCardBounds target cardIndex =
     (let stackOffset = of_nat (min cardIndex 5) * (3 / 4)
      in target\<lparr>bd_left := bd_left target + stackOffset, bd_top := bd_top target - stackOffset\<rparr>)"

definition cardBoundsAtAnchor :: "Bounds \<Rightarrow> Bounds \<Rightarrow> Bounds" where
  "cardBoundsAtAnchor anchor cd =
     cd\<lparr>bd_left := bd_left anchor + (bd_width anchor - bd_width cd) / 2,
        bd_top := bd_top anchor + (bd_height anchor - bd_height cd) / 2\<rparr>"

definition translationTo :: "Bounds \<Rightarrow> Bounds \<Rightarrow> rat \<times> rat" where
  "translationTo source target =
     (bd_left target + (bd_width target - bd_width source) / 2 - bd_left source,
      bd_top target + (bd_height target - bd_height source) / 2 - bd_top source)"

definition buildCompletedCardCollectionKeyframes :: "Bounds \<Rightarrow> Bounds \<Rightarrow> MotionFrame list" where
  "buildCompletedCardCollectionKeyframes source target =
     (let (translateX, translateY) = translationTo source target;
          targetScale = min (bd_width target / bd_width source) (bd_height target / bd_height source)
      in [\<lparr>fr_offset = None, fr_opacity = 1, fr_x = 0, fr_y = 0, fr_scale = 1, fr_rotate = 0\<rparr>,
          \<lparr>fr_offset = Some (22 / 100), fr_opacity = 1, fr_x = 0, fr_y = -16, fr_scale = 1025 / 1000, fr_rotate = -1\<rparr>,
          \<lparr>fr_offset = None, fr_opacity = 1, fr_x = translateX, fr_y = translateY, fr_scale = targetScale, fr_rotate = 1\<rparr>])"

text \<open>The animation of the discarded card, without the reduced variant.\<close>

definition discardKeyframes :: "CollectionSequence \<Rightarrow> string \<Rightarrow> MotionFrame list" where
  "discardKeyframes sequence viewerPlayerId =
     (let (translateX, translateY) = translationTo (sq_discardSource sequence) (sq_target sequence)
      in if cc_actorPlayerId sequence = viewerPlayerId
         then [\<lparr>fr_offset = None, fr_opacity = 0, fr_x = 0, fr_y = 0, fr_scale = 96 / 100, fr_rotate = 0\<rparr>,
               \<lparr>fr_offset = None, fr_opacity = 1, fr_x = 0, fr_y = 0, fr_scale = 1, fr_rotate = 0\<rparr>]
         else [\<lparr>fr_offset = None, fr_opacity = 35 / 100, fr_x = 0, fr_y = 0, fr_scale = 34 / 100, fr_rotate = -2\<rparr>,
               \<lparr>fr_offset = None, fr_opacity = 1, fr_x = translateX, fr_y = translateY, fr_scale = 1, fr_rotate = 0\<rparr>])"

text \<open>What is drawn over the page: bounds, card and layer. \<open>None\<close> is the frame of an empty pile.\<close>

definition flyingCards :: "CollectionSequence \<Rightarrow> string \<Rightarrow> (Bounds \<times> CardSnapshot option \<times> int) list" where
  "flyingCards sequence viewerPlayerId =
     (let collectedAtTarget = (sq_stage sequence = DiscardStage);
          discardBounds = (if cc_actorPlayerId sequence = viewerPlayerId then sq_target sequence else sq_discardSource sequence)
      in (sq_target sequence, cc_previousTopDiscard sequence, 60) #
         map (\<lambda>(index, bounds, cd).
            (if collectedAtTarget then targetCardBounds (sq_target sequence) index else bounds, Some cd, 61 + int index))
           (List.enumerate 0 (sq_cards sequence)) @
         (if collectedAtTarget then [(discardBounds, Some (cc_discardCard sequence), 80)] else []))"

text \<open>\<open>cl_clock\<close> is the time of the host; \<open>cl_animation\<close> the stage whose animations run and the time they
  finish; \<open>cl_startedAt\<close> the time the sequence on the page started.\<close>

record CollectionState =
  cl_previousGame :: "GameSnapshot option"
  cl_completed :: "(Bounds \<times> CardSnapshot) list list"
  cl_nextSequenceId :: int
  cl_sequence :: "CollectionSequence option"
  cl_animation :: "(SequenceStage \<times> int) option"
  cl_clock :: int
  cl_startedAt :: int

definition initialCollection :: "int \<Rightarrow> CollectionState" where
  "initialCollection now = \<lparr>cl_previousGame = None, cl_completed = [], cl_nextSequenceId = 0, cl_sequence = None,
     cl_animation = None, cl_clock = now, cl_startedAt = now\<rparr>"

definition stageDuration :: "bool \<Rightarrow> SequenceStage \<Rightarrow> int" where
  "stageDuration reducedMotion stage =
     (if reducedMotion then 120
      else case stage of CollectStage \<Rightarrow> COMPLETED_COLLECTION_DURATION_MS | DiscardStage \<Rightarrow> COMPLETED_DISCARD_DURATION_MS)"

definition sequenceOf ::
  "CompletedCompositionCollection \<Rightarrow> BoardDom \<Rightarrow> (Bounds \<times> CardSnapshot) list \<Rightarrow> string \<Rightarrow> int \<Rightarrow> CollectionSequence option" where
  "sequenceOf collection board cachedCards viewerPlayerId i =
     (case dom_discardCard board of
        None \<Rightarrow> None
      | Some target \<Rightarrow>
          (if length cachedCards \<noteq> length (cc_collectedCards collection) then None
           else Some (let playerAnchor = findPlayerAnchor board (cc_actorPlayerId collection);
                          discardSource = (if cc_actorPlayerId collection = viewerPlayerId then target
                            else case playerAnchor of None \<Rightarrow> target | Some anchor \<Rightarrow> cardBoundsAtAnchor anchor target)
                      in \<lparr>cc_actorPlayerId = cc_actorPlayerId collection, cc_collectedCards = cc_collectedCards collection,
                          cc_discardCard = cc_discardCard collection, cc_previousTopDiscard = cc_previousTopDiscard collection,
                          sq_cards = cachedCards, sq_discardSource = discardSource, sq_id = i, sq_stage = CollectStage,
                          sq_target = target\<rparr>)))"

text \<open>The effect of a commit with a new snapshot: it may set a sequence, whose animations start at once, and
  it remembers the completed compositions on the board for the next one.\<close>

definition collectionSnapshot ::
  "bool \<Rightarrow> GameSnapshot option \<Rightarrow> BoardDom option \<Rightarrow> string \<Rightarrow> CollectionState \<Rightarrow> CollectionState" where
  "collectionSnapshot reducedMotion game board viewerPlayerId s =
     (let s1 = s\<lparr>cl_previousGame := game\<rparr>
      in case board of
           None \<Rightarrow> s1
         | Some dm \<Rightarrow>
             (let s2 = s1\<lparr>cl_completed := dom_completed dm\<rparr>;
                  started = (case (cl_previousGame s, game, cl_sequence s) of
                    (Some previous, Some current, None) \<Rightarrow>
                      Option.bind (inferCompletedCompositionCollection previous current)
                        (\<lambda>collection. sequenceOf collection dm (concat (cl_completed s)) viewerPlayerId (cl_nextSequenceId s))
                  | _ \<Rightarrow> None)
              in case started of
                   None \<Rightarrow> s2
                 | Some sequence \<Rightarrow>
                     s2\<lparr>cl_nextSequenceId := cl_nextSequenceId s + 1, cl_sequence := Some sequence,
                       cl_animation := Some (CollectStage, cl_clock s + stageDuration reducedMotion CollectStage),
                       cl_startedAt := cl_clock s\<rparr>))"

text \<open>The animations of a stage have finished; the effect of the commit that follows sees the same snapshot
  twice, which is no collection, and remembers the board again.\<close>

definition stageFinished :: "bool \<Rightarrow> BoardDom option \<Rightarrow> CollectionState \<Rightarrow> CollectionState" where
  "stageFinished reducedMotion board s =
     (let s1 = (case board of None \<Rightarrow> s | Some dm \<Rightarrow> s\<lparr>cl_completed := dom_completed dm\<rparr>)
      in case (cl_sequence s, cl_animation s) of
           (Some sequence, Some (CollectStage, _)) \<Rightarrow>
             s1\<lparr>cl_sequence := Some (sequence\<lparr>sq_stage := DiscardStage\<rparr>),
                cl_animation := Some (DiscardStage, cl_clock s + stageDuration reducedMotion DiscardStage)\<rparr>
         | (Some sequence, Some (DiscardStage, _)) \<Rightarrow> s1\<lparr>cl_sequence := None, cl_animation := None\<rparr>
         | _ \<Rightarrow> s)"

datatype CollectionEvent =
  CollectionSnapshot "GameSnapshot option" "BoardDom option" | StageFinishes "BoardDom option" | TimePasses int

text \<open>The browser runs the callback of a finished animation at most \<open>lag\<close> milliseconds late.\<close>

fun collection_enabled :: "int \<Rightarrow> CollectionEvent \<Rightarrow> CollectionState \<Rightarrow> bool" where
  "collection_enabled lag (CollectionSnapshot game board) s \<longleftrightarrow> True"
| "collection_enabled lag (StageFinishes board) s \<longleftrightarrow>
     (case cl_animation s of None \<Rightarrow> False | Some (_, endsAt) \<Rightarrow> endsAt \<le> cl_clock s)"
| "collection_enabled lag (TimePasses now) s \<longleftrightarrow>
     cl_clock s \<le> now \<and> (case cl_animation s of None \<Rightarrow> True | Some (_, endsAt) \<Rightarrow> now \<le> endsAt + lag)"

fun collection_handle :: "bool \<Rightarrow> string \<Rightarrow> CollectionEvent \<Rightarrow> CollectionState \<Rightarrow> CollectionState" where
  "collection_handle reducedMotion viewer (CollectionSnapshot game board) s =
     collectionSnapshot reducedMotion game board viewer s"
| "collection_handle reducedMotion viewer (StageFinishes board) s = stageFinished reducedMotion board s"
| "collection_handle reducedMotion viewer (TimePasses now) s = s\<lparr>cl_clock := now\<rparr>"

definition collection_ok :: "bool \<Rightarrow> int \<Rightarrow> CollectionState \<Rightarrow> bool" where
  "collection_ok r lag s \<longleftrightarrow>
     (case (cl_sequence s, cl_animation s) of
        (None, None) \<Rightarrow> True
      | (Some sequence, Some (stage, endsAt)) \<Rightarrow>
          stage = sq_stage sequence \<and> cl_startedAt s \<le> cl_clock s \<and> cl_clock s \<le> endsAt + lag \<and>
          sq_id sequence < cl_nextSequenceId s \<and>
          endsAt \<le> cl_startedAt s + stageDuration r CollectStage +
            (if stage = CollectStage then 0 else lag + stageDuration r DiscardStage)
      | _ \<Rightarrow> False)"

lemma sequenceOf_fresh:
  "sequenceOf collection board cachedCards viewer i = Some q \<Longrightarrow> sq_stage q = CollectStage \<and> sq_id q = i"
  by (auto simp: sequenceOf_def Let_def split: option.splits if_splits)

lemma stageDuration_pos: "0 < stageDuration r stage"
  by (simp add: stageDuration_def COMPLETED_COLLECTION_DURATION_MS_def COMPLETED_DISCARD_DURATION_MS_def split: SequenceStage.split)

lemma collection_ok_snapshot:
  assumes "0 \<le> lag" and "collection_ok r lag s"
  shows "collection_ok r lag (collectionSnapshot r game board viewer s)"
  using assms stageDuration_pos [of r CollectStage]
  by (auto simp: collection_ok_def collectionSnapshot_def Let_def dest!: sequenceOf_fresh
      split: option.splits bind_splits)

lemma collection_ok_finished:
  assumes "0 \<le> lag" and "collection_ok r lag s"
  shows "collection_ok r lag (stageFinished r board s)"
  using assms stageDuration_pos [of r DiscardStage]
  by (auto simp: collection_ok_def stageFinished_def Let_def split: option.splits SequenceStage.splits)

lemma collection_ok_handle:
  assumes "0 \<le> lag" and "collection_ok r lag s" and "collection_enabled lag e s"
  shows "collection_ok r lag (collection_handle r viewer e s)"
proof (cases e)
  case (TimePasses now)
  with assms show ?thesis by (auto simp: collection_ok_def split: option.splits)
qed (use assms in \<open>simp_all add: collection_ok_snapshot collection_ok_finished\<close>)

lemma collection_ok_initial: "collection_ok r lag (initialCollection now)"
  by (simp add: collection_ok_def initialCollection_def)

lemma collection_invariant:
  "0 \<le> lag \<Longrightarrow> invariant (\<lambda>s. \<exists>now. s = initialCollection now)
     (guarded_step (collection_enabled lag) (collection_handle r viewer)) (collection_ok r lag)"
  by unfold_locales
    (auto simp: guarded_step_def collection_ok_handle collection_ok_initial)

interpretation collection: invariant "\<lambda>s. \<exists>now. s = initialCollection now"
  "guarded_step (collection_enabled 20) (collection_handle r viewer)" "collection_ok r 20" for r viewer
  by (rule collection_invariant) simp

text \<open>A sequence on the page stays until its own animations have finished, whatever snapshots come.\<close>

lemma sequence_not_interrupted:
  "cl_sequence s = Some q \<Longrightarrow> cl_sequence (collectionSnapshot r game board viewer s) = Some q"
  by (simp add: collectionSnapshot_def Let_def split: option.split)





text \<open>The layers of what is drawn: the discarded card lies above the collected ones exactly when there are at
  most nineteen of them.\<close>

lemma discard_on_top_iff:
  assumes "sq_stage q = DiscardStage" and layers: "layers = map (snd \<circ> snd) (flyingCards q viewer)"
  shows "(\<forall>layer \<in> set (butlast layers). layer < last layers) \<longleftrightarrow> length (sq_cards q) \<le> 19"
proof -
  let ?n = "length (sq_cards q)"
  have "layers = 60 # map ((\<lambda>i. 61 + int i) \<circ> fst) (List.enumerate 0 (sq_cards q)) @ [80]"
    using assms(1) by (simp add: layers flyingCards_def Let_def split_beta comp_def)
  then have "layers = 60 # map (\<lambda>i. 61 + int i) [0..<?n] @ [80]" by (simp flip: map_map)
  then have "(\<forall>layer \<in> set (butlast layers). layer < last layers) \<longleftrightarrow> (\<forall>i < ?n. i < 19)"
    by (auto simp: butlast_append)
  also have "\<dots> \<longleftrightarrow> ?n \<le> 19" by (cases "?n \<le> 19") (auto intro!: exI [of _ 19])
  finally show ?thesis .
qed

text \<open>The last frame of a collected card puts its middle on the middle of the pile.\<close>

lemma collected_card_lands:
  "let frame = last (buildCompletedCardCollectionKeyframes source target)
   in (fst (anchorCenter source) + fr_x frame, snd (anchorCenter source) + fr_y frame) = anchorCenter target"
  by (simp add: buildCompletedCardCollectionKeyframes_def translationTo_def anchorCenter_def field_simps)

end
