(* ===== verification/DateRange.thy ===== *)
theory DateRange
  imports Calendar Machine Complex_Main
begin

text \<open>
  The dashboard of the analytics (\<open>routes/admin-analytics-dashboard.tsx\<close>): the picker of the range of
  dates over the functions of \<open>Calendar\<close>, the corners of the stacked bars and the texts of durations.
\<close>

section \<open>Numbered periods\<close>

text \<open>An abstract view of the calendar: the weeks, the months and the years are numbered, and a period with
  number \<open>k\<close> ends on the day before period \<open>k + 1\<close> starts.\<close>

definition periodFirst :: "AnalyticsPeriod \<Rightarrow> int \<Rightarrow> int" where
  "periodFirst period k =
     (if period = WeekPeriod then 7 * k - 3
      else if period = MonthPeriod then makeDay (k div 12) (k mod 12) 1
      else dayFromYear k)"

definition periodLast :: "AnalyticsPeriod \<Rightarrow> int \<Rightarrow> int" where
  "periodLast period k = periodFirst period (k + 1) - 1"

definition periodOf :: "AnalyticsPeriod \<Rightarrow> int \<Rightarrow> int" where
  "periodOf period d =
     (if period = WeekPeriod then (d + 3) div 7
      else if period = MonthPeriod then 12 * yearFromDay d + int (monthFromDay d)
      else yearFromDay d)"

definition isoRange :: "int \<Rightarrow> int \<Rightarrow> AnalyticsDateRange" where
  "isoRange f t = \<lparr>range_from = isoDate f, range_to = isoDate t\<rparr>"

definition numberedRange :: "AnalyticsPeriod \<Rightarrow> int \<Rightarrow> AnalyticsDateRange" where
  "numberedRange period k = isoRange (periodFirst period k) (periodLast period k)"

lemma makeDay_carry: "makeDay (k div 12) (k mod 12 + a) 1 = periodFirst MonthPeriod (k + a)"
proof -
  have e: "k + a = (k mod 12 + a) + k div 12 * 12" by (simp add: add.assoc [symmetric])
  have "(k + a) div 12 = k div 12 + (k mod 12 + a) div 12" by (subst e) (rule div_mult_self1, simp)
  then show ?thesis by (simp add: periodFirst_def makeDay_def Let_def mod_simps)
qed

lemma month_first:
  "yearFromDay (periodFirst MonthPeriod k) = k div 12"
  "int (monthFromDay (periodFirst MonthPeriod k)) = k mod 12"
proof -
  have m: "nat (k mod 12) < 12" and i: "int (nat (k mod 12)) = k mod 12" by simp_all
  have "1 \<le> monthStart (leap (k div 12)) (Suc (nat (k mod 12))) - monthStart (leap (k div 12)) (nat (k mod 12))"
    using monthStart_strict [OF m, of "leap (k div 12)"] by simp
  from day_of_makeDay(1,2) [OF m order_refl this] i show
    "yearFromDay (periodFirst MonthPeriod k) = k div 12"
    "int (monthFromDay (periodFirst MonthPeriod k)) = k mod 12"
    by (simp_all add: periodFirst_def)
qed

lemma month_period:
  "periodFirst MonthPeriod (periodOf MonthPeriod d) = d - dateFromDay d + 1"
  "periodLast MonthPeriod (periodOf MonthPeriod d) = monthEnd d"
proof -
  let ?m = "int (monthFromDay d)"
  have "?m < 12" using month_of_day(1) [of d] by simp
  then have k: "periodOf MonthPeriod d div 12 = yearFromDay d" "periodOf MonthPeriod d mod 12 = ?m"
    by (simp_all add: periodOf_def)
  show "periodFirst MonthPeriod (periodOf MonthPeriod d) = d - dateFromDay d + 1"
    using makeDay_day [of d "1 - dateFromDay d"] by (simp add: periodFirst_def k)
  show "periodLast MonthPeriod (periodOf MonthPeriod d) = monthEnd d"
    using makeDay_carry [of "periodOf MonthPeriod d" 1] makeDay_next [OF month_of_day(1) [of d], of "yearFromDay d" 1]
    by (simp add: periodLast_def k monthEnd_def)
qed

lemma week_period:
  "periodFirst WeekPeriod (periodOf WeekPeriod d) = d - daysSinceMonday d"
  "periodLast WeekPeriod (periodOf WeekPeriod d) = d - daysSinceMonday d + 6"
proof -
  have "7 * ((d + 3) div 7) = d + 3 - (d + 3) mod 7" by (simp add: minus_mod_eq_mult_div)
  then show "periodFirst WeekPeriod (periodOf WeekPeriod d) = d - daysSinceMonday d"
      "periodLast WeekPeriod (periodOf WeekPeriod d) = d - daysSinceMonday d + 6"
    by (simp_all add: periodFirst_def periodLast_def periodOf_def daysSinceMonday_eq algebra_simps)
qed

lemma year_period:
  "periodFirst YearPeriod k = dayFromYear k" "periodLast YearPeriod k = dayFromYear (k + 1) - 1"
  "periodOf YearPeriod d = yearFromDay d"
  by (simp_all add: periodFirst_def periodLast_def periodOf_def)

lemma month_length: "monthEnd d \<le> d - dateFromDay d + 31"
proof -
  have "m < 12 \<Longrightarrow> monthStart l (Suc m) \<le> monthStart l m + 31" for m l
    by (drule month_cases) (elim disjE; simp add: monthStart_def)
  from this [OF month_of_day(1) [of d], of "leap (yearFromDay d)"] show ?thesis
    by (simp add: monthEnd_def dateFromDay_def dayInYear_def)
qed

text \<open>A day lies in its own period, and no period is longer than 366 days.\<close>

lemma period_contains:
  assumes "period \<noteq> CustomPeriod"
  shows "periodFirst period (periodOf period d) \<le> d" "d \<le> periodLast period (periodOf period d)"
    "periodLast period (periodOf period d) \<le> periodFirst period (periodOf period d) + 365"
  using assms daysSinceMonday_bounds [of d] month_bounds [of d] month_length [of d] year_near [of d] year_contains [of d]
  by (cases period; simp add: week_period month_period year_period dayFromYear_succ split: if_splits)+

lemma periodOf_first:
  assumes "period \<noteq> CustomPeriod"
  shows "periodOf period (periodFirst period k) = k"
proof (cases period)
  case WeekPeriod
  then show ?thesis by (simp add: periodOf_def periodFirst_def)
next
  case MonthPeriod
  then show ?thesis by (simp add: periodOf_def month_first)
qed (use assms in \<open>simp_all add: year_period first_of_year\<close>)

lemma period_length:
  assumes "period \<noteq> CustomPeriod"
  shows "periodFirst period k \<le> periodLast period k" "periodLast period k \<le> periodFirst period k + 365"
  using period_contains [OF assms, of "periodFirst period k"] by (simp_all add: periodOf_first [OF assms])

text \<open>The functions of the calendar compute the numbered periods.\<close>

lemma range_of_day:
  assumes "ordinary d" and "period \<noteq> CustomPeriod"
  shows "analyticsPeriodRange period (isoDate d) = Inr (numberedRange period (periodOf period d))"
proof -
  have near: "dated n" if "d - 366 \<le> n" "n \<le> d + 366" for n using dated_near [OF assms(1)] that by simp
  note bounds = daysSinceMonday_bounds [of d] month_of_day(2,3) [of d] month_bounds [of d] monthEnd_near [of d]
  show ?thesis
  proof (cases period)
    case WeekPeriod
    with bounds show ?thesis
      by (simp add: numberedRange_def isoRange_def week_period week_range near)
  next
    case MonthPeriod
    with bounds show ?thesis
      by (simp add: numberedRange_def isoRange_def month_period month_range near)
  next
    case YearPeriod
    with assms(1) show ?thesis
      by (simp add: numberedRange_def isoRange_def year_period year_range near ordinary_def)
  qed (use assms in simp)
qed

lemma dated_self: "ordinary d \<Longrightarrow> dated d"
  by (simp add: dated_def ordinary_def)

lemma shift_numbered:
  assumes p: "period \<noteq> CustomPeriod" and start: "ordinary (periodFirst period k)"
    and to: "ordinary (periodFirst period (k + a))"
  shows "shiftAnalyticsPeriod (numberedRange period k) period a = Inr (numberedRange period (k + a))"
proof -
  have d: "dated (periodFirst period k)" "dated (periodFirst period (k + a))" using start to by (simp_all add: dated_self)
  have r: "analyticsPeriodRange period (isoDate (periodFirst period (k + a))) = Inr (numberedRange period (k + a))"
    using range_of_day [OF to p] by (simp add: periodOf_first [OF p])
  show ?thesis
  proof (cases period)
    case WeekPeriod
    have "periodFirst WeekPeriod k + a * 7 = periodFirst WeekPeriod (k + a)" by (simp add: periodFirst_def)
    with WeekPeriod d r show ?thesis
      using shift_isoDate [of "periodFirst WeekPeriod k" "a * 7"]
      by (simp add: shiftAnalyticsPeriod_def numberedRange_def [of _ k] isoRange_def bind_result_def)
  next
    case MonthPeriod
    have "\<not> (0 \<le> k div 12 \<and> k div 12 \<le> 99)"
      using d(1) by (simp add: dated_def MonthPeriod month_first)
    then have "dateUTC (k div 12) (k mod 12 + a) 1 = Some (periodFirst MonthPeriod (k + a))"
      using d(2) by (auto simp: dateUTC_def makeDay_carry MonthPeriod dated_clip)
    with MonthPeriod d r show ?thesis
      by (simp add: shiftAnalyticsPeriod_def numberedRange_def [of _ k] isoRange_def bind_result_def parse_isoDate
          month_first format_dated)
  next
    case YearPeriod
    have "js_show (k + a) @ ''-01-01'' = isoDate (periodFirst YearPeriod (k + a))"
      using to by (simp add: year_texts(1) year_period YearPeriod ordinary_def first_of_year)
    with YearPeriod d r show ?thesis
      by (simp add: shiftAnalyticsPeriod_def numberedRange_def [of _ k] isoRange_def bind_result_def parse_isoDate
          year_period first_of_year)
  qed (use p in simp)
qed

lemma shift_custom:
  assumes "dated f" "dated t" "dated (f + a * (t - f + 1))" "dated (t + a * (t - f + 1))"
  shows "shiftAnalyticsPeriod (isoRange f t) CustomPeriod a
    = Inr (isoRange (f + a * (t - f + 1)) (t + a * (t - f + 1)))"
  using assms shift_isoDate [of f "a * (t - f + 1)"] shift_isoDate [of t "a * (t - f + 1)"]
  by (simp add: shiftAnalyticsPeriod_def isoRange_def bind_result_def parse_isoDate calendarDaysBetween_def rangeOf_def)

section \<open>The picker\<close>

text \<open>A \<open>Date\<close> at local midnight is the number of its day; \<open>None\<close> is an invalid date. \<open>parseISO\<close> and
  \<open>format\<close> belong to a library and are parameters.\<close>

record DatePicker =
  pk_open :: bool
  pk_period :: AnalyticsPeriod
  pk_draft :: "int option \<times> int option option"
  pk_rangeStart :: "int option"
  pk_month :: "int option"
  pk_value :: AnalyticsDateRange

definition datesOf :: "(string \<Rightarrow> int option) \<Rightarrow> AnalyticsDateRange \<Rightarrow> int option \<times> int option option" where
  "datesOf parse r = (parse (range_from r), Some (parse (range_to r)))"

definition initialPicker :: "(string \<Rightarrow> int option) \<Rightarrow> AnalyticsDateRange \<Rightarrow> DatePicker" where
  "initialPicker parse r = \<lparr>pk_open = False, pk_period = MonthPeriod, pk_draft = datesOf parse r, pk_rangeStart = None,
     pk_month = parse (range_from r), pk_value = r\<rparr>"

definition applyRange ::
  "(string \<Rightarrow> int option) \<Rightarrow> AnalyticsDateRange \<Rightarrow> AnalyticsPeriod \<Rightarrow> DatePicker \<Rightarrow> DatePicker" where
  "applyRange parse nextRange nextPeriod s =
     s\<lparr>pk_period := nextPeriod, pk_draft := datesOf parse nextRange, pk_rangeStart := None,
       pk_month := parse (range_from nextRange), pk_value := nextRange\<rparr>"

text \<open>A call of the calendar that throws leaves the handler before anything is set.\<close>

definition applyResult ::
  "(string \<Rightarrow> int option) \<Rightarrow> CalendarError + AnalyticsDateRange \<Rightarrow> AnalyticsPeriod \<Rightarrow> DatePicker \<Rightarrow> DatePicker" where
  "applyResult parse result nextPeriod s =
     (case result of Inl _ \<Rightarrow> s | Inr nextRange \<Rightarrow> applyRange parse nextRange nextPeriod s)"

definition applyPreset :: "(string \<Rightarrow> int option) \<Rightarrow> string \<Rightarrow> AnalyticsPeriod \<Rightarrow> DatePicker \<Rightarrow> DatePicker" where
  "applyPreset parse todayValue nextPeriod s =
     applyResult parse (analyticsPeriodRange nextPeriod todayValue) nextPeriod s"

definition selectDay ::
  "(string \<Rightarrow> int option) \<Rightarrow> (int \<Rightarrow> string) \<Rightarrow> int \<Rightarrow> bool \<Rightarrow> DatePicker \<Rightarrow> DatePicker" where
  "selectDay parse format day disabled s =
     (if disabled then s
      else case pk_rangeStart s of
        None \<Rightarrow> s\<lparr>pk_period := CustomPeriod, pk_draft := (Some day, None), pk_rangeStart := Some day\<rparr>
      | Some rangeStart \<Rightarrow>
          (let from = (if day < rangeStart then day else rangeStart);
               to = (if day < rangeStart then rangeStart else day)
           in if 365 < to - from then s\<lparr>pk_draft := (Some day, None), pk_rangeStart := Some day\<rparr>
              else applyRange parse \<lparr>range_from = format from, range_to = format to\<rparr> CustomPeriod s))"

definition movePeriod :: "(string \<Rightarrow> int option) \<Rightarrow> int \<Rightarrow> DatePicker \<Rightarrow> DatePicker" where
  "movePeriod parse amount s =
     applyResult parse (shiftAnalyticsPeriod (pk_value s) (pk_period s) amount) (pk_period s) s"

definition openChange :: "(string \<Rightarrow> int option) \<Rightarrow> bool \<Rightarrow> DatePicker \<Rightarrow> DatePicker" where
  "openChange parse nextOpen s =
     (let s1 = s\<lparr>pk_open := nextOpen\<rparr>
      in if nextOpen
         then s1\<lparr>pk_draft := datesOf parse (pk_value s), pk_rangeStart := None, pk_month := parse (range_from (pk_value s))\<rparr>
         else s1)"

definition presetChange :: "(string \<Rightarrow> int option) \<Rightarrow> string \<Rightarrow> AnalyticsPeriod list \<Rightarrow> DatePicker \<Rightarrow> DatePicker" where
  "presetChange parse todayValue nextValue s =
     (case nextValue of
        [] \<Rightarrow> s
      | nextPeriod # _ \<Rightarrow> if nextPeriod \<noteq> CustomPeriod then applyPreset parse todayValue nextPeriod s else s)"

datatype PickerEvent =
  OpenChange bool | PresetChange int "AnalyticsPeriod list" | DayClick int bool | MonthChange "int option" | Arrow int

text \<open>Days far from the ends of the calendar. The clock of the host, the days clicked and the range the arrows
  start from are restricted to them.\<close>

definition central :: "int \<Rightarrow> bool" where
  "central d \<longleftrightarrow> 1002 \<le> yearFromDay d \<and> yearFromDay d \<le> 9995"

definition central_text :: "string \<Rightarrow> bool" where
  "central_text value = (case parseCalendarDate value of Inl _ \<Rightarrow> False | Inr d \<Rightarrow> central d)"

fun picker_enabled :: "PickerEvent \<Rightarrow> DatePicker \<Rightarrow> bool" where
  "picker_enabled (OpenChange nextOpen) s \<longleftrightarrow> True"
| "picker_enabled (PresetChange today nextValue) s \<longleftrightarrow> pk_open s \<and> central today"
| "picker_enabled (DayClick day disabled) s \<longleftrightarrow> pk_open s \<and> central day"
| "picker_enabled (MonthChange value) s \<longleftrightarrow> pk_open s"
| "picker_enabled (Arrow amount) s \<longleftrightarrow> (amount = 1 \<or> amount = -1) \<and> central_text (range_from (pk_value s))"

fun picker_handle :: "(string \<Rightarrow> int option) \<Rightarrow> (int \<Rightarrow> string) \<Rightarrow> PickerEvent \<Rightarrow> DatePicker \<Rightarrow> DatePicker" where
  "picker_handle parse format (OpenChange nextOpen) s = openChange parse nextOpen s"
| "picker_handle parse format (PresetChange today nextValue) s = presetChange parse (isoDate today) nextValue s"
| "picker_handle parse format (DayClick day disabled) s = selectDay parse format day disabled s"
| "picker_handle parse format (MonthChange value) s = s\<lparr>pk_month := value\<rparr>"
| "picker_handle parse format (Arrow amount) s = movePeriod parse amount s"

lemma ordinary_iff: "ordinary d \<longleftrightarrow> dayFromYear 1000 \<le> d \<and> d < dayFromYear 9998"
proof
  assume "ordinary d"
  then have "dayFromYear 1000 \<le> dayFromYear (yearFromDay d)" "dayFromYear (yearFromDay d + 1) \<le> dayFromYear 9998"
    using dayFromYear_plus [of 1000 "nat (yearFromDay d - 1000)"]
      dayFromYear_plus [of "yearFromDay d + 1" "nat (9997 - yearFromDay d)"] by (simp_all add: ordinary_def)
  with year_contains [of d] show "dayFromYear 1000 \<le> d \<and> d < dayFromYear 9998" by linarith
next
  assume d: "dayFromYear 1000 \<le> d \<and> d < dayFromYear 9998"
  have "\<not> yearFromDay d < 1000" "\<not> 9997 < yearFromDay d"
    using d year_contains [of d] dayFromYear_less [of "yearFromDay d" 1000] dayFromYear_less [of 9997 "yearFromDay d"]
    by auto
  then show "ordinary d" by (simp add: ordinary_def)
qed

lemma central_near:
  assumes "central d" and "d - 366 \<le> n" "n \<le> d + 366"
  shows "ordinary n"
proof -
  have "dayFromYear 1002 \<le> dayFromYear (yearFromDay d)" "dayFromYear (yearFromDay d + 1) \<le> dayFromYear 9996"
    using assms(1) dayFromYear_plus [of 1002 "nat (yearFromDay d - 1002)"]
      dayFromYear_plus [of "yearFromDay d + 1" "nat (9995 - yearFromDay d)"] by (simp_all add: central_def)
  moreover have "dayFromYear 1000 + 366 \<le> dayFromYear 1002" "dayFromYear 9996 + 366 < dayFromYear 9998"
    by (simp_all add: dayFromYear_def)
  ultimately show ?thesis using assms(2,3) year_contains [of d] unfolding ordinary_iff by linarith
qed

text \<open>The range shown: at most 366 days; a whole period unless the period is custom; and while the second day
  of a custom range is awaited the calendar shows the first.\<close>

definition short_range :: "AnalyticsDateRange \<Rightarrow> bool" where
  "short_range r \<longleftrightarrow> (\<exists>f t. r = isoRange f t \<and> dated f \<and> dated t \<and> f \<le> t \<and> t \<le> f + 365)"

definition picker_ok :: "(string \<Rightarrow> int option) \<Rightarrow> DatePicker \<Rightarrow> bool" where
  "picker_ok parse s \<longleftrightarrow>
     short_range (pk_value s) \<and>
     (pk_period s \<noteq> CustomPeriod \<longrightarrow> (\<exists>k. pk_value s = numberedRange (pk_period s) k \<and> ordinary (periodFirst (pk_period s) k))) \<and>
     (case pk_rangeStart s of
        None \<Rightarrow> pk_draft s = datesOf parse (pk_value s)
      | Some d \<Rightarrow> pk_period s = CustomPeriod \<and> pk_draft s = (Some d, None) \<and> ordinary d)"

lemma ordinary_range: "ordinary f \<Longrightarrow> f \<le> t \<Longrightarrow> t \<le> f + 365 \<Longrightarrow> short_range (isoRange f t)"
  using dated_near [of f f] dated_near [of f t] unfolding short_range_def by (intro exI [of _ f] exI [of _ t]) auto

lemma apply_numbered:
  assumes "period \<noteq> CustomPeriod" and "ordinary (periodFirst period k)"
  shows "picker_ok parse (applyRange parse (numberedRange period k) period s)"
  using assms ordinary_range [OF assms(2) period_length [OF assms(1)]]
  by (auto simp: picker_ok_def applyRange_def numberedRange_def)

lemma range_central:
  assumes "central d" and p: "period \<noteq> CustomPeriod"
  shows "analyticsPeriodRange period (isoDate d) = Inr (numberedRange period (periodOf period d))"
    and "ordinary (periodFirst period (periodOf period d))"
  using range_of_day [OF central_near [OF assms(1)] p, of d] central_near [OF assms(1)] period_contains [OF p, of d]
  by auto

text \<open>A step of the arrows from a central range.\<close>

lemma isoDate_inj: "dated d \<Longrightarrow> dated e \<Longrightarrow> isoDate d = isoDate e \<Longrightarrow> d = e"
  by (metis Inr_inject parse_isoDate)

lemma central_from: "dated f \<Longrightarrow> central_text (range_from (isoRange f t)) = central f"
  by (simp add: central_text_def isoRange_def parse_isoDate)

lemma period_step:
  assumes "period \<noteq> CustomPeriod" and "a = 1 \<or> a = -1"
  shows "periodFirst period k - 366 \<le> periodFirst period (k + a) \<and> periodFirst period (k + a) \<le> periodFirst period k + 366"
  using assms(2) period_length [OF assms(1), of k] period_length [OF assms(1), of "k - 1"] by (auto simp: periodLast_def)

definition beside :: "int \<Rightarrow> int \<Rightarrow> int \<Rightarrow> int \<Rightarrow> int \<Rightarrow> bool" where
  "beside amount f t f' t' \<longleftrightarrow> (if amount = 1 then f' = t + 1 else t' = f - 1)"

lemma numbered_beside:
  "a = 1 \<or> a = -1 \<Longrightarrow>
     beside a (periodFirst period k) (periodLast period k) (periodFirst period (k + a)) (periodLast period (k + a))"
  by (auto simp: beside_def periodLast_def)

lemma arrow_period:
  assumes p: "period \<noteq> CustomPeriod" and a: "a = 1 \<or> a = -1" and c: "central (periodFirst period k)"
  shows "shiftAnalyticsPeriod (numberedRange period k) period a = Inr (numberedRange period (k + a))"
    and "shiftAnalyticsPeriod (numberedRange period (k + a)) period (- a) = Inr (numberedRange period k)"
    and "ordinary (periodFirst period (k + a))"
proof -
  have o: "ordinary (periodFirst period k)" "ordinary (periodFirst period (k + a))"
    using central_near [OF c] period_step [OF p a, of k] by auto
  show "shiftAnalyticsPeriod (numberedRange period k) period a = Inr (numberedRange period (k + a))"
    by (rule shift_numbered [OF p o])
  show "shiftAnalyticsPeriod (numberedRange period (k + a)) period (- a) = Inr (numberedRange period k)"
    using shift_numbered [OF p o(2), of "- a"] o(1) by simp
  show "ordinary (periodFirst period (k + a))" by (rule o(2))
qed

lemma arrow_custom:
  assumes a: "a = 1 \<or> a = -1" and c: "central f" and t: "f \<le> t" "t \<le> f + 365"
    and n: "n = a * (t - f + 1)"
  shows "shiftAnalyticsPeriod (isoRange f t) CustomPeriod a = Inr (isoRange (f + n) (t + n))"
    and "shiftAnalyticsPeriod (isoRange (f + n) (t + n)) CustomPeriod (- a) = Inr (isoRange f t)"
    and "ordinary (f + n)" "beside a f t (f + n) (t + n)"
proof -
  have o: "ordinary (f + n)" using central_near [OF c] a t by (auto simp: n)
  moreover have f: "ordinary f" using central_near [OF c] by simp
  ultimately have d: "dated f" "dated t" "dated (f + n)" "dated (t + n)"
    using dated_near [of f f] dated_near [of f t] dated_near [of "f + n" "f + n"] dated_near [of "f + n" "t + n"] t by simp_all
  show "shiftAnalyticsPeriod (isoRange f t) CustomPeriod a = Inr (isoRange (f + n) (t + n))"
    using shift_custom [of f t a] d by (simp add: n)
  show "shiftAnalyticsPeriod (isoRange (f + n) (t + n)) CustomPeriod (- a) = Inr (isoRange f t)"
    using shift_custom [of "f + n" "t + n" "- a"] d by (simp add: n)
  show "ordinary (f + n)" by (rule o)
  show "beside a f t (f + n) (t + n)" using a by (auto simp: beside_def n)
qed

text \<open>What the arrows do to the range of the picker.\<close>

lemma arrow_step:
  assumes ok: "picker_ok parse s" and a: "a = 1 \<or> a = -1" and c: "central_text (range_from (pk_value s))"
  obtains f t f' t' where "pk_value s = isoRange f t" "f \<le> t" "t \<le> f + 365"
    "shiftAnalyticsPeriod (pk_value s) (pk_period s) a = Inr (isoRange f' t')"
    "shiftAnalyticsPeriod (isoRange f' t') (pk_period s) (- a) = Inr (pk_value s)"
    "beside a f t f' t'" "f' \<le> t'" "t' \<le> f' + 365" "ordinary f'"
    "pk_period s \<noteq> CustomPeriod \<Longrightarrow>
       \<exists>k. isoRange f' t' = numberedRange (pk_period s) k \<and> ordinary (periodFirst (pk_period s) k)"
proof (cases "pk_period s = CustomPeriod")
  case True
  from ok obtain f t where v: "pk_value s = isoRange f t" "dated f" "f \<le> t" "t \<le> f + 365"
    by (auto simp: picker_ok_def short_range_def)
  with c have "central f" by (simp add: central_from)
  from arrow_custom [OF a this v(3,4) refl] v True show ?thesis
    by (intro that [of f t "f + a * (t - f + 1)" "t + a * (t - f + 1)"]) simp_all
next
  case False
  from ok False obtain k where k: "pk_value s = numberedRange (pk_period s) k" "ordinary (periodFirst (pk_period s) k)"
    by (auto simp: picker_ok_def)
  with c have "central (periodFirst (pk_period s) k)"
    by (simp add: numberedRange_def central_from dated_self)
  note arrow = arrow_period [OF False a this]
  show ?thesis
    by (rule that [of "periodFirst (pk_period s) k" "periodLast (pk_period s) k"
          "periodFirst (pk_period s) (k + a)" "periodLast (pk_period s) (k + a)"])
      (use arrow k numbered_beside [OF a] period_length [OF False] in \<open>auto simp: numberedRange_def\<close>)
qed

lemma picker_ok_arrow:
  assumes "picker_ok parse s" "a = 1 \<or> a = -1" "central_text (range_from (pk_value s))"
  shows "picker_ok parse (movePeriod parse a s)"
proof (rule arrow_step [OF assms])
  fix f t f' t'
  assume "shiftAnalyticsPeriod (pk_value s) (pk_period s) a = Inr (isoRange f' t')" "f' \<le> t'" "t' \<le> f' + 365" "ordinary f'"
    and "pk_period s \<noteq> CustomPeriod \<Longrightarrow>
       \<exists>k. isoRange f' t' = numberedRange (pk_period s) k \<and> ordinary (periodFirst (pk_period s) k)"
  then show ?thesis
    using ordinary_range [of f' t'] by (auto simp: movePeriod_def applyResult_def picker_ok_def applyRange_def)
qed

definition formats_days :: "(int \<Rightarrow> string) \<Rightarrow> bool" where
  "formats_days format \<longleftrightarrow> (\<forall>d. dated d \<longrightarrow> format d = isoDate d)"

lemma picker_ok_day:
  assumes fmt: "formats_days format" and ok: "picker_ok parse s" and day: "central day"
  shows "picker_ok parse (selectDay parse format day disabled s)"
proof (cases "disabled \<or> pk_rangeStart s = None")
  case True
  with ok central_near [OF day, of day] show ?thesis by (auto simp: picker_ok_def selectDay_def)
next
  case False
  then obtain d where d: "\<not> disabled" "pk_rangeStart s = Some d" by auto
  with ok have od: "ordinary d" "pk_period s = CustomPeriod" by (auto simp: picker_ok_def)
  have oday: "ordinary day" using central_near [OF day] by simp
  let ?f = "min day d" and ?t = "max day d"
  have "dated ?f" "dated ?t" using od(1) oday by (simp_all add: dated_self min_def max_def)
  with fmt have shown: "\<lparr>range_from = format ?f, range_to = format ?t\<rparr> = isoRange ?f ?t"
    by (simp add: formats_days_def isoRange_def)
  have s': "selectDay parse format day disabled s =
      (if 365 < ?t - ?f then s\<lparr>pk_draft := (Some day, None), pk_rangeStart := Some day\<rparr>
       else applyRange parse (isoRange ?f ?t) CustomPeriod s)"
    unfolding shown [symmetric] using d by (auto simp: selectDay_def min_def max_def Let_def)
  show ?thesis
  proof (cases "365 < ?t - ?f")
    case True
    with s' ok od oday show ?thesis by (auto simp: picker_ok_def)
  next
    case False
    have "ordinary ?f" using od(1) oday by (simp add: min_def)
      moreover have "?f \<le> ?t" by simp
    moreover have "?t \<le> ?f + 365" using False by linarith
    ultimately have "short_range (isoRange ?f ?t)" by (rule ordinary_range)
    with False show ?thesis unfolding s' by (auto simp: picker_ok_def applyRange_def)
  qed
qed

lemma picker_ok_handle:
  assumes "formats_days format" and ok: "picker_ok parse s" and "picker_enabled e s"
  shows "picker_ok parse (picker_handle parse format e s)"
proof (cases e)
  case (OpenChange nextOpen)
  with ok show ?thesis by (auto simp: picker_ok_def openChange_def Let_def split: option.splits)
next
  case (PresetChange today nextValue)
  with assms show ?thesis
    using range_central [of today "hd nextValue"] apply_numbered
    by (auto simp: presetChange_def applyPreset_def applyResult_def split: list.split)
next
  case (MonthChange v)
  with ok show ?thesis by (simp add: picker_ok_def split: option.splits)
next
  case (DayClick day disabled)
  with assms picker_ok_day show ?thesis by auto
next
  case (Arrow amount)
  with assms picker_ok_arrow show ?thesis by auto
qed

lemma picker_ok_initial:
  assumes "central today" and "analyticsPeriodRange MonthPeriod (isoDate today) = Inr r"
  shows "picker_ok parse (initialPicker parse r)"
proof -
  from range_central [OF assms(1), of MonthPeriod] assms(2)
  have r: "r = numberedRange MonthPeriod (periodOf MonthPeriod today)"
    and o: "ordinary (periodFirst MonthPeriod (periodOf MonthPeriod today))" by simp_all
  have "short_range r"
    unfolding r numberedRange_def by (rule ordinary_range [OF o]) (simp_all add: period_length)
  with o show ?thesis by (auto simp: picker_ok_def initialPicker_def r)
qed

interpretation picker: invariant
  "\<lambda>s. \<exists>today r. central today \<and> analyticsPeriodRange MonthPeriod (isoDate today) = Inr r \<and> s = initialPicker parse r"
  "guarded_step picker_enabled (picker_handle parse format)"
  "\<lambda>s. formats_days format \<longrightarrow> picker_ok parse s" for parse format
  by unfold_locales (auto simp: guarded_step_def picker_ok_handle picker_ok_initial)

text \<open>C28: Whatever was chosen before, the picker shows a range of at most 366 days, which is a whole week, month
  or year unless the period is custom; an arrow moves to the range of the same kind right beside the one
  shown, and the other arrow moves back to exactly the range it came from.\<close>

theorem arrows_go_there_and_back:
  assumes "formats_days format" and "central today"
    and "analyticsPeriodRange MonthPeriod (isoDate today) = Inr r"
    and "reach (guarded_step picker_enabled (picker_handle parse format)) (initialPicker parse r) s"
  shows "short_range (pk_value s) \<and>
    (pk_period s \<noteq> CustomPeriod \<longrightarrow> (\<exists>k. pk_value s = numberedRange (pk_period s) k)) \<and>
    (picker_enabled (Arrow a) s \<longrightarrow>
       (\<exists>f t f' t'. pk_value s = isoRange f t \<and> pk_value (picker_handle parse format (Arrow a) s) = isoRange f' t' \<and>
          beside a f t f' t' \<and> f' \<le> t' \<and> t' \<le> f' + 365 \<and>
          pk_period (picker_handle parse format (Arrow a) s) = pk_period s \<and>
          pk_value (picker_handle parse format (Arrow (- a)) (picker_handle parse format (Arrow a) s)) = pk_value s))"
proof -
  have ok: "picker_ok parse s" using picker.run_inv [OF _ assms(4)] assms(1-3) by blast
  have "\<exists>f t f' t'. pk_value s = isoRange f t \<and> pk_value (movePeriod parse a s) = isoRange f' t' \<and>
          beside a f t f' t' \<and> f' \<le> t' \<and> t' \<le> f' + 365 \<and> pk_period (movePeriod parse a s) = pk_period s \<and>
          pk_value (movePeriod parse (- a) (movePeriod parse a s)) = pk_value s"
    if a: "a = 1 \<or> a = -1" and c: "central_text (range_from (pk_value s))"
  proof (rule arrow_step [OF ok a c])
    fix f t f' t'
    assume "pk_value s = isoRange f t" "beside a f t f' t'" "f' \<le> t'" "t' \<le> f' + 365"
      "shiftAnalyticsPeriod (pk_value s) (pk_period s) a = Inr (isoRange f' t')"
      "shiftAnalyticsPeriod (isoRange f' t') (pk_period s) (- a) = Inr (pk_value s)"
    then show ?thesis
      by (intro exI [of _ f] exI [of _ t] exI [of _ f'] exI [of _ t'])
        (simp add: movePeriod_def applyResult_def applyRange_def)
  qed
  with ok show ?thesis by (auto simp: picker_ok_def)
qed

definition calendar_day :: "string \<Rightarrow> int option" where
  "calendar_day value = (case parseCalendarDate value of Inl _ \<Rightarrow> None | Inr d \<Rightarrow> Some d)"

definition four_days :: "PickerEvent list" where
  "four_days = [OpenChange True, DayClick 19770 False, DayClick 19767 False, OpenChange False]"

lemma central_numeral: "central 19765" "central 19767" "central 19770" "central 19754"
  by code_simp+

lemma central_dated [simp]: "central d \<Longrightarrow> dated d"
  using central_near [of d d] by (simp add: dated_self)

lemma february:
  "numberedRange MonthPeriod 24289 = isoRange 19754 19782 \<and> numberedRange MonthPeriod 24290 = isoRange 19783 19813 \<and>
   periodOf MonthPeriod 19765 = 24289"
proof -
  have "periodFirst MonthPeriod 24289 = 19754" "periodLast MonthPeriod 24289 = 19782"
    "periodFirst MonthPeriod 24290 = 19783" "periodLast MonthPeriod 24290 = 19813"
    by (simp_all add: periodLast_def periodFirst_def makeDay_def dayFromYear_def monthStart_def leap_def Let_def)
  moreover have "periodOf MonthPeriod 19765 = 24289" by code_simp
  ultimately show ?thesis by (simp add: numberedRange_def)
qed

lemmas picker_run = openChange_def selectDay_def applyRange_def initialPicker_def movePeriod_def
  applyResult_def Let_def isoRange_def central_numeral

theorem arrows_go_there_and_back_witness:
  "\<exists>r s. analyticsPeriodRange MonthPeriod (isoDate 19765) = Inr r \<and>
     run picker_enabled (picker_handle calendar_day isoDate) four_days (initialPicker calendar_day r) = Some s \<and>
     pk_value s = isoRange 19767 19770 \<and> pk_value (picker_handle calendar_day isoDate (Arrow 1) s) = isoRange 19771 19774 \<and>
     pk_value (picker_handle calendar_day isoDate (Arrow (- 1)) (picker_handle calendar_day isoDate (Arrow 1) s)) = pk_value s"
proof -
  obtain r where r: "analyticsPeriodRange MonthPeriod (isoDate 19765) = Inr r"
    using range_central(1) [of 19765 MonthPeriod] by (auto simp: central_numeral)
  obtain s where s: "run picker_enabled (picker_handle calendar_day isoDate) four_days (initialPicker calendar_day r) = Some s"
    and v: "pk_value s = isoRange 19767 19770" "pk_period s = CustomPeriod"
    by (simp add: four_days_def picker_run)
  have en: "picker_enabled (Arrow 1) s" by (simp add: v central_from central_numeral)
  have "formats_days isoDate" by (simp add: formats_days_def)
  note there = arrows_go_there_and_back [OF this central_numeral(1) r run_reach [OF s], of 1]
  have "shiftAnalyticsPeriod (isoRange 19767 19770) CustomPeriod 1 = Inr (isoRange 19771 19774)"
    using arrow_custom(1) [of 1 19767 19770 4] by (simp add: central_numeral)
  then have "pk_value (picker_handle calendar_day isoDate (Arrow 1) s) = isoRange 19771 19774"
    by (simp add: movePeriod_def applyResult_def applyRange_def v)
  with there r s v en show ?thesis by blast
qed

text \<open>A selection given up after its first day leaves the period custom, although the range shown is still the
  month: the arrow then moves by the length of the month instead of to the next month.\<close>

lemma abandoned_selection_moves_by_days:
  "map_option pk_value (run picker_enabled (picker_handle calendar_day isoDate)
     [OpenChange True, DayClick 19770 False, OpenChange False, Arrow 1]
     (initialPicker calendar_day (numberedRange MonthPeriod 24289))) = Some (isoRange 19783 19811)"
  and "numberedRange MonthPeriod (24289 + 1) = isoRange 19783 19813"
proof -
  have "shiftAnalyticsPeriod (isoRange 19754 19782) CustomPeriod 1 = Inr (isoRange 19783 19811)"
    using arrow_custom(1) [of 1 19754 19782 29] by (simp add: central_numeral)
  moreover have "central_text (range_from (isoRange 19754 19782))" by (simp add: central_from central_numeral)
  ultimately show "map_option pk_value (run picker_enabled (picker_handle calendar_day isoDate)
       [OpenChange True, DayClick 19770 False, OpenChange False, Arrow 1]
       (initialPicker calendar_day (numberedRange MonthPeriod 24289))) = Some (isoRange 19783 19811)"
    by (simp add: february picker_run)
  show "numberedRange MonthPeriod (24289 + 1) = isoRange 19783 19813"
    using february by simp
qed

section \<open>Stacked bars, durations and the state of the page\<close>

datatype PointKey = PointGames | PointActivePlayers | PointNewPlayers | PointReturningPlayers | PointCompleted |
  PointForfeit | PointMutualEnd | PointTechnicalAbort | PointAbandoned | PointInProgress | PointBugReports | PointBugsResolved

definition playerStackKeys :: "PointKey list" where
  "playerStackKeys = [PointNewPlayers, PointReturningPlayers]"

definition outcomeStackKeys :: "PointKey list" where
  "outcomeStackKeys =
     [PointCompleted, PointForfeit, PointMutualEnd, PointTechnicalAbort, PointAbandoned, PointInProgress]"

fun indexOf :: "'a list \<Rightarrow> 'a \<Rightarrow> int" where
  "indexOf [] x = -1"
| "indexOf (y # ys) x = (if y = x then 0 else let i = indexOf ys x in if i = -1 then -1 else i + 1)"

text \<open>True stands for the rounded corners, False for none.\<close>

definition topStackRadius :: "(PointKey \<Rightarrow> nat) \<Rightarrow> PointKey \<Rightarrow> PointKey list \<Rightarrow> bool" where
  "topStackRadius point dataKey stackKeys =
     (let dataKeyIndex = indexOf stackKeys dataKey;
          isVisible = (0 < point dataKey);
          hasVisibleSegmentAbove = list_ex (\<lambda>key. 0 < point key) (drop (nat (dataKeyIndex + 1)) stackKeys)
      in isVisible \<and> \<not> hasVisibleSegmentAbove)"

text \<open>Rounding is to the nearest minute, halves up.\<close>

definition formatPlaytime :: "(int \<Rightarrow> int \<Rightarrow> string) \<Rightarrow> (int \<Rightarrow> string) \<Rightarrow> rat \<Rightarrow> string" where
  "formatPlaytime hoursMinutes onlyMinutes seconds =
     (let minutes = \<lfloor>seconds / 60 + 1 / 2\<rfloor>; hours = minutes div 60; remainingMinutes = minutes mod 60
      in if 0 < hours then hoursMinutes hours remainingMinutes else onlyMinutes minutes)"

definition medianResolution :: "(int \<Rightarrow> int \<Rightarrow> string) \<Rightarrow> (int \<Rightarrow> string) \<Rightarrow> nat \<Rightarrow> rat \<Rightarrow> string option" where
  "medianResolution hoursMinutes onlyMinutes bugsResolved medianSeconds =
     (if 0 < bugsResolved then Some (formatPlaytime hoursMinutes onlyMinutes medianSeconds) else None)"

datatype DashboardContent = DashboardError | DashboardSkeleton | DashboardCharts

definition dashboardContent :: "bool \<Rightarrow> bool \<Rightarrow> 'a option \<Rightarrow> DashboardContent" where
  "dashboardContent isError isPending data =
     (if isError then DashboardError else if isPending \<or> data = None then DashboardSkeleton else DashboardCharts)"

text \<open>Of the segments of a bar exactly the last visible one has rounded corners.\<close>

lemma indexOf_nth: "distinct xs \<Longrightarrow> i < length xs \<Longrightarrow> indexOf xs (xs ! i) = int i"
  by (induction xs arbitrary: i) (auto simp: nth_Cons Let_def split: nat.split)

lemma rounded_at:
  assumes "distinct keys" and "keys = lower @ key # upper"
  shows "topStackRadius point key keys \<longleftrightarrow> 0 < point key \<and> (\<forall>k \<in> set upper. point k = 0)"
proof -
  have "indexOf keys key = int (length lower)" using indexOf_nth [OF assms(1), of "length lower"] by (simp add: assms(2))
  then show ?thesis by (auto simp: topStackRadius_def Let_def assms(2) list_ex_iff nat_add_distrib)
qed

lemma last_visible_rounded:
  assumes "distinct keys"
  shows "filter (\<lambda>key. topStackRadius point key keys) keys =
    (case filter (\<lambda>key. 0 < point key) keys of [] \<Rightarrow> [] | visible \<Rightarrow> [last visible])"
proof -
  have "filter (\<lambda>key. topStackRadius point key keys) upper =
      (case filter (\<lambda>key. 0 < point key) upper of [] \<Rightarrow> [] | visible \<Rightarrow> [last visible])" if "keys = lower @ upper" for lower upper
    using that
  proof (induction upper arbitrary: lower)
    case (Cons key upper)
    have "filter (\<lambda>key. 0 < point key) upper = [] \<longleftrightarrow> (\<forall>k \<in> set upper. point k = 0)" by (auto simp: filter_empty_conv)
    with Cons.IH [of "lower @ [key]"] rounded_at [OF assms Cons.prems, of point] Cons.prems show ?case
      by (auto split: list.splits)
  qed simp
  from this [of "[]"] show ?thesis by simp
qed

lemma stacks_distinct: "distinct playerStackKeys" "distinct outcomeStackKeys"
  by (simp_all add: playerStackKeys_def outcomeStackKeys_def)

text \<open>Hours and minutes together are the minutes of the duration, rounded.\<close>

lemma playtime_rounds:
  "formatPlaytime (\<lambda>h m. js_show (60 * h + m)) js_show seconds = js_show \<lfloor>seconds / 60 + 1 / 2\<rfloor>"
  by (simp add: formatPlaytime_def Let_def)

end
