(* ===== verification/Pages.thy ===== *)
theory Pages
  imports HandOrderStore Leaderboard Machine Complex_Main
begin

text \<open>
  Pages with a paged table: the bug reports of the administration (\<open>routes/admin-bug-reports-page.tsx\<close>,
  \<open>lib/admin-bug-reports.ts\<close>) and the history of a player (\<open>routes/player-profile-page.tsx\<close>,
  \<open>lib/player-profile.ts\<close>). The query library is outside of the program: its results are data of the events.
\<close>

section \<open>Queries and paging\<close>

record 'd QueryResult =
  qr_data :: "'d option"
  qr_isError :: bool
  qr_isFetching :: bool
  qr_isPending :: bool

text \<open>Two pages step through numbered pages with a pair of buttons. The contract they share: a click moves by one
  page, inside of the pages known, and only when no answer is awaited.\<close>

locale paging =
  fixes page :: "'s \<Rightarrow> int" and total :: "'s \<Rightarrow> int" and fetching :: "'s \<Rightarrow> bool"
    and prior :: "'s \<Rightarrow> 's" and forth :: "'s \<Rightarrow> 's"
  assumes prior_page: "page (prior s) = (if 1 < page s \<and> \<not> fetching s then page s - 1 else page s)"
    and forth_page: "page (forth s) = (if page s < total s \<and> \<not> fetching s then page s + 1 else page s)"
begin

lemma in_bounds:
  assumes "1 \<le> page s"
  shows "1 \<le> page (prior s)" "1 \<le> page (forth s)" "page (prior s) \<le> page s"
    "page (forth s) \<le> max (page s) (total s)"
  using assms by (auto simp: prior_page forth_page)

lemma waits: "fetching s \<Longrightarrow> page (prior s) = page s \<and> page (forth s) = page s"
  by (simp add: prior_page forth_page)

text \<open>While answers come at once and the number of pages stays the same, every page is reached.\<close>

lemma walk:
  assumes "\<forall>k. \<not> fetching ((forth ^^ k) s) \<and> total ((forth ^^ k) s) = n" and "page s \<le> n"
  shows "page ((forth ^^ k) s) = min (page s + int k) n"
proof (induction k)
  case (Suc k)
  with assms show ?case by (auto simp: forth_page)
qed (use assms(2) in simp)

lemma there_and_back: "page s < total s \<Longrightarrow> \<not> fetching s \<Longrightarrow> \<not> fetching (forth s) \<Longrightarrow> 1 \<le> page s \<Longrightarrow>
    page (prior (forth s)) = page s"
  by (simp add: prior_page forth_page)

end

section \<open>Bug reports: what the server sends\<close>

record PersistedCard =
  pc_rank :: "int option"
  pc_suit :: "int option"
  pc_isJoker :: "bool option"

definition persistedCard_ok :: "PersistedCard \<Rightarrow> bool" where
  "persistedCard_ok cd \<longleftrightarrow>
     (case pc_rank cd of None \<Rightarrow> True | Some r \<Rightarrow> 1 \<le> r \<and> r \<le> 13) \<and>
     (case pc_suit cd of None \<Rightarrow> True | Some u \<Rightarrow> 0 \<le> u \<and> u \<le> 3)"

record PersistedPlayer =
  pp_id :: string
  pp_hand :: "PersistedCard list"
  pp_totalPoints :: int
  pp_pointsGained :: int
  pp_unadjustedTotalPoints :: "int option"
  pp_hasOpened :: bool
  pp_forfeited :: "bool option"

record PersistedComposition =
  po_variant :: string
  po_cards :: "PersistedCard list"

record PersistedTurn =
  pt_number :: int
  pt_playerIndex :: int
  pt_hasDrawn :: bool
  pt_mustUseDiscardDraw :: bool
  pt_discardDrawCard :: "PersistedCard option"

datatype PersistedMode = ModeFull | ModeQuick

record PersistedGameState =
  pgs_version :: int
  pgs_gameMode :: "PersistedMode option"
  pgs_players :: "PersistedPlayer list"
  pgs_activeCompositions :: "PersistedComposition list"
  pgs_drawPile :: "PersistedCard list"
  pgs_discardPile :: "PersistedCard list"
  pgs_maxPlayers :: int
  pgs_phase :: int
  pgs_round :: int
  pgs_dealerIndex :: int
  pgs_turn :: PersistedTurn
  pgs_roundWinnerIndex :: int

text \<open>The restrictions of the schema on the values; a state that breaks them is reported as unreadable.\<close>

definition persistedGameState_ok :: "PersistedGameState \<Rightarrow> bool" where
  "persistedGameState_ok state \<longleftrightarrow>
     0 < pgs_version state \<and>
     list_all (\<lambda>p. pp_id p \<noteq> [] \<and> list_all persistedCard_ok (pp_hand p)) (pgs_players state) \<and>
     list_all (\<lambda>c. list_all persistedCard_ok (po_cards c)) (pgs_activeCompositions state) \<and>
     list_all persistedCard_ok (pgs_drawPile state) \<and> list_all persistedCard_ok (pgs_discardPile state) \<and>
     0 < pgs_maxPlayers state \<and> 0 \<le> pgs_phase state \<and> pgs_phase state \<le> 3 \<and> 0 < pgs_round state \<and>
     0 \<le> pgs_dealerIndex state \<and> 0 < pt_number (pgs_turn state) \<and> 0 \<le> pt_playerIndex (pgs_turn state) \<and>
     (case pt_discardDrawCard (pgs_turn state) of None \<Rightarrow> True | Some cd \<Rightarrow> persistedCard_ok cd)"

record BugReportSummary =
  br_id :: string
  br_roomCode :: string
  br_reporterPlayerId :: string
  br_description :: string
  br_round :: int
  br_turn :: int
  br_requestedAbort :: bool
  br_createdAt :: string

record BugReportPage =
  rp_reports :: "BugReportSummary list"
  rp_page :: int
  rp_pageSize :: int
  rp_totalItems :: int
  rp_totalPages :: int

definition ADMIN_BUG_REPORT_PAGE_SIZE :: int where "ADMIN_BUG_REPORT_PAGE_SIZE = 20"

section \<open>Bug reports: the game state shown\<close>

datatype PhaseLabel = PhaseLobby | PhaseInProgress | PhaseRoundOver | PhaseGameOver | PhaseUnknown

definition PHASE_LABELS :: "PhaseLabel list" where
  "PHASE_LABELS = [PhaseLobby, PhaseInProgress, PhaseRoundOver, PhaseGameOver]"

definition phaseLabel :: "int \<Rightarrow> PhaseLabel" where
  "phaseLabel phase = (case js_nth PHASE_LABELS phase of None \<Rightarrow> PhaseUnknown | Some label \<Rightarrow> label)"

text \<open>\<open>JSON.stringify\<close> is a parameter; the keys rest on it giving different texts for different values.\<close>

primrec occurrenceKeys ::
  "(Json \<Rightarrow> string) \<Rightarrow> ('a \<Rightarrow> string) \<Rightarrow> 'a list \<Rightarrow> (string \<rightharpoonup> int) \<Rightarrow> ('a \<times> string) list" where
  "occurrenceKeys stringify identify [] counts = []"
| "occurrenceKeys stringify identify (x # xs) counts =
     (let identity = identify x; occurrence = or_else (counts identity) 0 + 1
      in (x, stringify (JsonArray [JsonString identity, JsonNumber occurrence]))
         # occurrenceKeys stringify identify xs (counts(identity \<mapsto> occurrence)))"

definition withOccurrenceKeys :: "(Json \<Rightarrow> string) \<Rightarrow> 'a list \<Rightarrow> ('a \<Rightarrow> string) \<Rightarrow> ('a \<times> string) list" where
  "withOccurrenceKeys stringify items identify = occurrenceKeys stringify identify items Map.empty"

definition jsonOption :: "int option \<Rightarrow> Json" where
  "jsonOption x = (case x of None \<Rightarrow> JsonNull | Some n \<Rightarrow> JsonNumber n)"

definition cardIdentity :: "(Json \<Rightarrow> string) \<Rightarrow> PersistedCard \<Rightarrow> string" where
  "cardIdentity stringify cd =
     stringify (JsonArray [jsonOption (pc_rank cd), jsonOption (pc_suit cd), JsonBool (or_else (pc_isJoker cd) False)])"

definition compositionIdentity :: "(Json \<Rightarrow> string) \<Rightarrow> PersistedComposition \<Rightarrow> string" where
  "compositionIdentity stringify composition =
     stringify (JsonArray [JsonString (po_variant composition),
       JsonArray (map (\<lambda>cd. JsonString (cardIdentity stringify cd)) (po_cards composition))])"

record VisualPlayer =
  vp_id :: string
  vp_active :: bool
  vp_forfeited :: bool
  vp_totalPoints :: int
  vp_pointsGained :: int
  vp_hand :: "(PersistedCard \<times> string) list"
  vp_hasOpened :: bool

record VisualState =
  vs_phase :: PhaseLabel
  vs_roundTurn :: "int \<times> int"
  vs_activePlayer :: "string option"
  vs_drawPile :: nat
  vs_compositions :: "(PersistedComposition \<times> string) list"
  vs_players :: "VisualPlayer list"
  vs_discard :: "(PersistedCard \<times> string) list"
  vs_topDiscard :: bool
  vs_hasDrawn :: bool
  vs_mustUseDiscardDraw :: bool
  vs_quick :: bool
  vs_indices :: "int \<times> int \<times> int"

definition visualState :: "(Json \<Rightarrow> string) \<Rightarrow> PersistedGameState \<Rightarrow> VisualState" where
  "visualState stringify state =
     (let cardKeys = (\<lambda>cards. withOccurrenceKeys stringify cards (cardIdentity stringify));
          turn = pgs_turn state in
      \<lparr>vs_phase = phaseLabel (pgs_phase state),
       vs_roundTurn = (pgs_round state, pt_number turn),
       vs_activePlayer = map_option pp_id (js_nth (pgs_players state) (pt_playerIndex turn)),
       vs_drawPile = length (pgs_drawPile state),
       vs_compositions = withOccurrenceKeys stringify (pgs_activeCompositions state) (compositionIdentity stringify),
       vs_players = map (\<lambda>(index, player).
            \<lparr>vp_id = pp_id player, vp_active = (int index = pt_playerIndex turn),
             vp_forfeited = or_else (pp_forfeited player) False, vp_totalPoints = pp_totalPoints player,
             vp_pointsGained = pp_pointsGained player, vp_hand = cardKeys (pp_hand player),
             vp_hasOpened = pp_hasOpened player\<rparr>) (List.enumerate 0 (pgs_players state)),
       vs_discard = cardKeys (pgs_discardPile state),
       vs_topDiscard = (js_nth (pgs_discardPile state) 0 \<noteq> None),
       vs_hasDrawn = pt_hasDrawn turn, vs_mustUseDiscardDraw = pt_mustUseDiscardDraw turn,
       vs_quick = (pgs_gameMode state = Some ModeQuick),
       vs_indices = (pgs_version state, pgs_dealerIndex state, pgs_roundWinnerIndex state)\<rparr>)"

text \<open>The state of a report is shown as cards when it fits the schema and as an alert when it does not.\<close>

definition gameStateView :: "(Json \<Rightarrow> string) \<Rightarrow> (Json \<Rightarrow> PersistedGameState option) \<Rightarrow> Json \<Rightarrow> VisualState option" where
  "gameStateView stringify safeParse gameState = map_option (visualState stringify) (safeParse gameState)"

section \<open>Bug reports: the page\<close>

text \<open>\<open>rs_completing\<close> holds what the callback of a completion captured when it succeeded, the number of reports
  listed and the page, until the refetch it waits for has ended.\<close>

record ReportsState =
  rs_initialPage :: BugReportPage
  rs_page :: int
  rs_selectedReportId :: "string option"
  rs_query :: "BugReportPage QueryResult"
  rs_mutating :: bool
  rs_completing :: "(nat \<times> int) option"

definition shownReports :: "ReportsState \<Rightarrow> BugReportPage" where
  "shownReports s = or_else (qr_data (rs_query s)) (rs_initialPage s)"

definition firstResult :: "BugReportPage \<Rightarrow> BugReportPage QueryResult" where
  "firstResult initialPage = \<lparr>qr_data = Some initialPage, qr_isError = False, qr_isFetching = False, qr_isPending = False\<rparr>"

definition initialReports :: "BugReportPage \<Rightarrow> ReportsState" where
  "initialReports initialPage = \<lparr>rs_initialPage = initialPage, rs_page = 1, rs_selectedReportId = None,
     rs_query = firstResult initialPage, rs_mutating = False, rs_completing = None\<rparr>"

datatype ReportsContent = ReportsError | ReportsSpinner | ReportsEmpty | ReportsTable

definition reportsContent :: "ReportsState \<Rightarrow> ReportsContent" where
  "reportsContent s =
     (if qr_isError (rs_query s) then ReportsError
      else if qr_isPending (rs_query s) then ReportsSpinner
      else if rp_reports (shownReports s) = [] then ReportsEmpty else ReportsTable)"

definition reportsFooter :: "ReportsState \<Rightarrow> bool" where
  "reportsFooter s \<longleftrightarrow> \<not> qr_isPending (rs_query s) \<and> 1 < rp_totalPages (shownReports s)"

text \<open>A click of a button, and the result of the query for the page that follows, which the next render shows.\<close>

definition reportsPrevious :: "BugReportPage QueryResult \<Rightarrow> ReportsState \<Rightarrow> ReportsState" where
  "reportsPrevious result s =
     (if 1 < rs_page s \<and> \<not> qr_isFetching (rs_query s) then s\<lparr>rs_page := rs_page s - 1, rs_query := result\<rparr> else s)"

definition reportsNext :: "BugReportPage QueryResult \<Rightarrow> ReportsState \<Rightarrow> ReportsState" where
  "reportsNext result s =
     (if rs_page s < rp_totalPages (shownReports s) \<and> \<not> qr_isFetching (rs_query s)
      then s\<lparr>rs_page := rs_page s + 1, rs_query := result\<rparr> else s)"

definition completeClicked :: "ReportsState \<Rightarrow> ReportsState" where
  "completeClicked s = s\<lparr>rs_mutating := True\<rparr>"

definition completionSucceeds :: "BugReportPage QueryResult \<Rightarrow> ReportsState \<Rightarrow> ReportsState" where
  "completionSucceeds result s =
     s\<lparr>rs_completing := Some (length (rp_reports (shownReports s)), rs_page s), rs_query := result\<rparr>"

definition onCompleted :: "BugReportPage QueryResult \<Rightarrow> nat \<times> int \<Rightarrow> ReportsState \<Rightarrow> ReportsState" where
  "onCompleted result captured s =
     (let s1 = s\<lparr>rs_mutating := False, rs_completing := None, rs_selectedReportId := None\<rparr>
      in if fst captured = 1 \<and> 1 < snd captured then s1\<lparr>rs_page := rs_page s - 1, rs_query := result\<rparr> else s1)"

datatype ReportsEvent =
  PreviousClick "BugReportPage QueryResult" | NextClick "BugReportPage QueryResult"
| QueryChanges "BugReportPage QueryResult" | SelectReport string | SheetCloses
| CompleteClick | CompletionFails | CompletionSucceeds "BugReportPage QueryResult"
| RefetchEnds "BugReportPage QueryResult" "BugReportPage QueryResult"

text \<open>What the code relies on in the query library: a result that is not being fetched anew is the answer for the
  page asked for, and a refetch that is waited for is under way until its end.\<close>

definition answers :: "BugReportPage QueryResult \<Rightarrow> int \<Rightarrow> bool" where
  "answers result page \<longleftrightarrow>
     qr_isFetching result \<or> (case qr_data result of None \<Rightarrow> True | Some reports \<Rightarrow> rp_page reports = page)"

fun reports_enabled :: "ReportsEvent \<Rightarrow> ReportsState \<Rightarrow> bool" where
  "reports_enabled (PreviousClick result) s \<longleftrightarrow> reportsFooter s \<and> answers result (rs_page s - 1)"
| "reports_enabled (NextClick result) s \<longleftrightarrow> reportsFooter s \<and> answers result (rs_page s + 1)"
| "reports_enabled (QueryChanges result) s \<longleftrightarrow>
     answers result (rs_page s) \<and> (rs_completing s \<noteq> None \<longrightarrow> qr_isFetching result)"
| "reports_enabled (SelectReport i) s \<longleftrightarrow> i \<in> set (map br_id (rp_reports (shownReports s)))"
| "reports_enabled SheetCloses s \<longleftrightarrow> rs_selectedReportId s \<noteq> None"
| "reports_enabled CompleteClick s \<longleftrightarrow> rs_selectedReportId s \<noteq> None \<and> \<not> rs_mutating s"
| "reports_enabled CompletionFails s \<longleftrightarrow> rs_mutating s \<and> rs_completing s = None"
| "reports_enabled (CompletionSucceeds result) s \<longleftrightarrow> rs_mutating s \<and> rs_completing s = None \<and> qr_isFetching result"
| "reports_enabled (RefetchEnds result before) s \<longleftrightarrow>
     rs_completing s \<noteq> None \<and> \<not> qr_isFetching result \<and> answers result (rs_page s) \<and> answers before (rs_page s - 1)"

fun reports_handle :: "ReportsEvent \<Rightarrow> ReportsState \<Rightarrow> ReportsState" where
  "reports_handle (PreviousClick result) s = reportsPrevious result s"
| "reports_handle (NextClick result) s = reportsNext result s"
| "reports_handle (QueryChanges result) s = s\<lparr>rs_query := result\<rparr>"
| "reports_handle (SelectReport i) s = s\<lparr>rs_selectedReportId := Some i\<rparr>"
| "reports_handle SheetCloses s = s\<lparr>rs_selectedReportId := None\<rparr>"
| "reports_handle CompleteClick s = completeClicked s"
| "reports_handle CompletionFails s = s\<lparr>rs_mutating := False\<rparr>"
| "reports_handle (CompletionSucceeds result) s = completionSucceeds result s"
| "reports_handle (RefetchEnds result before) s =
     (case rs_completing s of None \<Rightarrow> s | Some captured \<Rightarrow> onCompleted before captured (s\<lparr>rs_query := result\<rparr>))"

interpretation reports: paging rs_page "\<lambda>s. rp_totalPages (shownReports s)" "\<lambda>s. qr_isFetching (rs_query s)"
  "reportsPrevious r" "reportsNext r'" for r r'
  by unfold_locales (simp_all add: reportsPrevious_def reportsNext_def)





definition report :: "string \<Rightarrow> BugReportSummary" where
  "report i = \<lparr>br_id = i, br_roomCode = ''ABCD'', br_reporterPlayerId = ''ann'', br_description = ''stuck'',
     br_round = 1, br_turn = 3, br_requestedAbort = False, br_createdAt = ''2024-02-12T10:00:00Z''\<rparr>"

definition pageOf :: "string list \<Rightarrow> int \<Rightarrow> int \<Rightarrow> BugReportPage" where
  "pageOf ids page totalPages = \<lparr>rp_reports = map report ids, rp_page = page, rp_pageSize = 20,
     rp_totalItems = int (length ids), rp_totalPages = totalPages\<rparr>"

definition fetched :: "BugReportPage \<Rightarrow> BugReportPage QueryResult" where
  "fetched p = \<lparr>qr_data = Some p, qr_isError = False, qr_isFetching = False, qr_isPending = False\<rparr>"

definition refetching :: "BugReportPage \<Rightarrow> BugReportPage QueryResult" where
  "refetching p = \<lparr>qr_data = Some p, qr_isError = False, qr_isFetching = True, qr_isPending = False\<rparr>"



text \<open>When another administrator empties the page on the screen and only one page is left, the footer with its
  buttons is gone, and nothing on the page leads back to the reports of the first page.\<close>

lemma stuck_on_empty_page:
  assumes "1 < rs_page s" and "rp_totalPages (shownReports s) \<le> 1"
  shows "\<not> reports_enabled (PreviousClick r) s \<and> \<not> reports_enabled (NextClick r) s"
  using assms by (simp add: reportsFooter_def)

lemma stuck_reached:
  "map_option (\<lambda>s. (rs_page s, reportsContent s, reportsFooter s))
     (run reports_enabled reports_handle
        [NextClick (fetched (pageOf [''b''] 2 2)), QueryChanges (refetching (pageOf [''b''] 2 2)),
         QueryChanges (fetched (pageOf [] 2 1))] (initialReports (pageOf [''a''] 1 2)))
   = Some (2, ReportsEmpty, False)"
  by code_simp

section \<open>Bug reports: keys of the cards and phases\<close>

lemma occurrenceKeys_later:
  assumes "inj stringify" and "(y, stringify (JsonArray [JsonString i, JsonNumber n])) \<in> set (occurrenceKeys stringify identify xs counts)"
  shows "or_else (counts i) 0 < n"
  using assms(2)
proof (induction xs arbitrary: counts)
  case (Cons x xs)
  show ?case
  proof (cases "(y, stringify (JsonArray [JsonString i, JsonNumber n])) \<in>
      set (occurrenceKeys stringify identify xs (counts(identify x \<mapsto> or_else (counts (identify x)) 0 + 1)))")
    case True
    from Cons.IH [OF this] show ?thesis by (auto split: if_splits)
  next
    case False
    with Cons.prems have "stringify (JsonArray [JsonString i, JsonNumber n]) =
        stringify (JsonArray [JsonString (identify x), JsonNumber (or_else (counts (identify x)) 0 + 1)])"
      by (simp add: Let_def)
    from injD [OF assms(1) this] show ?thesis by simp
  qed
qed simp

text \<open>The keys of a list are distinct, however often an item occurs, and the items keep their order.\<close>

lemma occurrence_keys_distinct:
  assumes "inj stringify"
  shows "distinct (map snd (withOccurrenceKeys stringify items identify)) \<and>
    map fst (withOccurrenceKeys stringify items identify) = items"
proof -
  have "distinct (map snd (occurrenceKeys stringify identify items counts)) \<and>
      map fst (occurrenceKeys stringify identify items counts) = items" for counts
  proof (induction items arbitrary: counts)
    case (Cons x xs)
    let ?c = "counts(identify x \<mapsto> or_else (counts (identify x)) 0 + 1)"
    have "stringify (JsonArray [JsonString (identify x), JsonNumber (or_else (counts (identify x)) 0 + 1)])
        \<notin> snd ` set (occurrenceKeys stringify identify xs ?c)"
      using occurrenceKeys_later [OF assms, of _ "identify x" "or_else (counts (identify x)) 0 + 1" identify xs ?c]
      by fastforce
    with Cons show ?case by (simp add: Let_def)
  qed simp
  then show ?thesis by (simp add: withOccurrenceKeys_def)
qed

text \<open>The view of a readable state names a phase, marks at most one player as active, the one it names, and shows the
  hands with distinct keys.\<close>

lemma phase_known: "persistedGameState_ok state \<Longrightarrow> phaseLabel (pgs_phase state) \<noteq> PhaseUnknown"
proof -
  assume "persistedGameState_ok state"
  then have "pgs_phase state \<in> {0, 1, 2, 3}" by (auto simp: persistedGameState_ok_def)
  then show ?thesis by (auto simp: phaseLabel_def js_nth_def PHASE_LABELS_def nth_Cons split: nat.splits)
qed

lemma visual_state_consistent:
  assumes "persistedGameState_ok state" and "inj stringify" and v: "v = visualState stringify state"
  shows "vs_phase v \<noteq> PhaseUnknown"
    and "\<forall>p \<in> set (vs_players v). vp_active p \<longrightarrow> vs_activePlayer v = Some (vp_id p)"
    and "\<forall>p \<in> set (vs_players v). distinct (map snd (vp_hand p))" "distinct (map snd (vs_discard v))"
    "distinct (map snd (vs_compositions v))"
proof -
  show "vs_phase v \<noteq> PhaseUnknown" using phase_known [OF assms(1)] by (simp add: v visualState_def Let_def)
  show "\<forall>p \<in> set (vs_players v). vp_active p \<longrightarrow> vs_activePlayer v = Some (vp_id p)"
    by (auto simp: v visualState_def Let_def in_set_enumerate_eq js_nth_def simp flip: of_nat_less_iff) (metis nat_int)+
  show "\<forall>p \<in> set (vs_players v). distinct (map snd (vp_hand p))" "distinct (map snd (vs_discard v))"
    "distinct (map snd (vs_compositions v))"
    by (auto simp: v visualState_def Let_def occurrence_keys_distinct [OF assms(2)] simp del: map_map)
qed

end
