(* ===== verification/Profile.thy ===== *)
theory Profile
  imports Pages
begin

text \<open>
  The profile of a player (\<open>routes/player-profile-page.tsx\<close>, \<open>lib/player-profile.ts\<close>): statistics per mode and
  combined, the table of games, and the answers of the server.
\<close>

section \<open>Data\<close>

record PlayerStatistics =
  st_gamesPlayed :: int
  st_gamesWon :: int
  st_totalPlacement :: int
  st_totalPlaytimeSeconds :: int
  st_roundsPlayed :: int
  st_roundsWon :: int
  st_compositionsCreated :: int
  st_setsCreated :: int
  st_runsCreated :: int
  st_pointsInflicted :: int
  st_penaltyPoints :: int
  st_currentGameWinStreak :: int
  st_longestGameWinStreak :: int
  st_currentRoundWinStreak :: int
  st_longestRoundWinStreak :: int

record PlayerProfile =
  pr_id :: string
  pr_name :: string
  pr_imageUrl :: string
  pr_rankedFull :: PlayerStatistics
  pr_quick :: PlayerStatistics

datatype HistoryStatus = HistoryCompleted | HistoryForfeit
datatype HistoryMode = HistoryQuick | HistoryFull
datatype GameHistoryFilter = FilterAll | FilterFull | FilterQuick

record GameHistoryItem =
  gh_id :: string
  gh_status :: HistoryStatus
  gh_gameMode :: HistoryMode
  gh_ranked :: bool
  gh_completedAt :: string
  gh_placement :: int
  gh_playerCount :: int
  gh_won :: bool
  gh_forfeited :: bool
  gh_totalPoints :: int
  gh_roundsPlayed :: int
  gh_roundsWon :: int
  gh_playtimeSeconds :: int

definition gameHistoryItem_ok :: "GameHistoryItem \<Rightarrow> bool" where
  "gameHistoryItem_ok game \<longleftrightarrow>
     0 < gh_placement game \<and> 2 \<le> gh_playerCount game \<and> gh_playerCount game \<le> 4 \<and> 0 \<le> gh_totalPoints game \<and>
     0 < gh_roundsPlayed game \<and> 0 \<le> gh_roundsWon game \<and> 0 \<le> gh_playtimeSeconds game"

record PlayerGameHistory =
  hy_games :: "GameHistoryItem list"
  hy_page :: int
  hy_pageSize :: int
  hy_totalItems :: int
  hy_totalPages :: int

definition playerGameHistory_ok :: "PlayerGameHistory \<Rightarrow> bool" where
  "playerGameHistory_ok history \<longleftrightarrow>
     list_all gameHistoryItem_ok (hy_games history) \<and> 0 < hy_page history \<and> 0 < hy_pageSize history \<and>
     0 \<le> hy_totalItems history \<and> 0 \<le> hy_totalPages history"

text \<open>The answers of the server: the HTTP status, and the body if it fits the schema.\<close>

datatype LoadError = LoadFailed int | UnexpectedBody

definition bodyOf :: "'a option \<Rightarrow> LoadError + 'a" where
  "bodyOf body = (case body of None \<Rightarrow> Inl UnexpectedBody | Some x \<Rightarrow> Inr x)"

definition getPlayerProfile :: "int \<Rightarrow> PlayerProfile option \<Rightarrow> LoadError + PlayerProfile option" where
  "getPlayerProfile status body =
     (if status = 404 then Inr None
      else if \<not> (200 \<le> status \<and> status \<le> 299) then Inl (LoadFailed status)
      else case bodyOf body of Inl e \<Rightarrow> Inl e | Inr profile \<Rightarrow> Inr (Some profile))"

definition getPlayerGameHistory :: "int \<Rightarrow> PlayerGameHistory option \<Rightarrow> LoadError + PlayerGameHistory" where
  "getPlayerGameHistory status body =
     (if \<not> (200 \<le> status \<and> status \<le> 299) then Inl (LoadFailed status)
      else if (case body of None \<Rightarrow> False | Some history \<Rightarrow> playerGameHistory_ok history) then bodyOf body
      else Inl UnexpectedBody)"

text \<open>The validator of the request.\<close>

definition historyRequest_ok :: "int \<Rightarrow> int \<Rightarrow> bool" where
  "historyRequest_ok page pageSize \<longleftrightarrow> 0 < page \<and> 1 \<le> pageSize \<and> pageSize \<le> 50"

section \<open>Statistics\<close>

definition ratio :: "int \<Rightarrow> int \<Rightarrow> rat option" where
  "ratio numerator denominator =
     (if 0 < denominator then Some (of_int numerator / of_int denominator) else None)"

definition formatted :: "(rat \<Rightarrow> string) \<Rightarrow> rat option \<Rightarrow> string" where
  "formatted format value = (case value of None \<Rightarrow> [CHR ''-''] | Some x \<Rightarrow> format x)"

definition combineStatistics :: "PlayerProfile \<Rightarrow> PlayerStatistics" where
  "combineStatistics profile =
     (let rankedFull = pr_rankedFull profile; quick = pr_quick profile in
      \<lparr>st_gamesPlayed = st_gamesPlayed rankedFull + st_gamesPlayed quick,
       st_gamesWon = st_gamesWon rankedFull + st_gamesWon quick,
       st_totalPlacement = st_totalPlacement rankedFull + st_totalPlacement quick,
       st_totalPlaytimeSeconds = st_totalPlaytimeSeconds rankedFull + st_totalPlaytimeSeconds quick,
       st_roundsPlayed = st_roundsPlayed rankedFull + st_roundsPlayed quick,
       st_roundsWon = st_roundsWon rankedFull + st_roundsWon quick,
       st_compositionsCreated = st_compositionsCreated rankedFull + st_compositionsCreated quick,
       st_setsCreated = st_setsCreated rankedFull + st_setsCreated quick,
       st_runsCreated = st_runsCreated rankedFull + st_runsCreated quick,
       st_pointsInflicted = st_pointsInflicted rankedFull + st_pointsInflicted quick,
       st_penaltyPoints = st_penaltyPoints rankedFull + st_penaltyPoints quick,
       st_currentGameWinStreak = max (st_currentGameWinStreak rankedFull) (st_currentGameWinStreak quick),
       st_longestGameWinStreak = max (st_longestGameWinStreak rankedFull) (st_longestGameWinStreak quick),
       st_currentRoundWinStreak = max (st_currentRoundWinStreak rankedFull) (st_currentRoundWinStreak quick),
       st_longestRoundWinStreak = max (st_longestRoundWinStreak rankedFull) (st_longestRoundWinStreak quick)\<rparr>)"

definition statisticsOf :: "PlayerProfile \<Rightarrow> GameHistoryFilter \<Rightarrow> PlayerStatistics" where
  "statisticsOf profile profileMode =
     (if profileMode = FilterAll then combineStatistics profile
      else if profileMode = FilterFull then pr_rankedFull profile else pr_quick profile)"

record StatRates =
  sr_winRate :: "rat option"
  sr_averageFinish :: "rat option"
  sr_roundWinRate :: "rat option"

definition statRates :: "PlayerStatistics \<Rightarrow> StatRates" where
  "statRates s = \<lparr>sr_winRate = ratio (st_gamesWon s) (st_gamesPlayed s),
     sr_averageFinish = ratio (st_totalPlacement s) (st_gamesPlayed s),
     sr_roundWinRate = ratio (st_roundsWon s) (st_roundsPlayed s)\<rparr>"

definition statistics_ok :: "PlayerStatistics \<Rightarrow> bool" where
  "statistics_ok s \<longleftrightarrow> 0 \<le> st_gamesWon s \<and> st_gamesWon s \<le> st_gamesPlayed s \<and>
     0 \<le> st_roundsWon s \<and> st_roundsWon s \<le> st_roundsPlayed s \<and>
     st_gamesPlayed s \<le> st_totalPlacement s \<and> st_totalPlacement s \<le> 4 * st_gamesPlayed s"

text \<open>A combined rate lies between the rates of the modes.\<close>

definition between :: "rat option \<Rightarrow> rat option \<Rightarrow> rat option \<Rightarrow> bool" where
  "between x y z \<longleftrightarrow>
     (case (x, y) of
        (None, _) \<Rightarrow> z = y
      | (_, None) \<Rightarrow> z = x
      | (Some a, Some b) \<Rightarrow> (\<exists>c. z = Some c \<and> min a b \<le> c \<and> c \<le> max a b))"

lemma mediant:
  fixes a b c d :: rat
  assumes "0 < b" "0 < d"
  shows "min (a / b) (c / d) \<le> (a + c) / (b + d) \<and> (a + c) / (b + d) \<le> max (a / b) (c / d)"
proof -
  have low: "(a + c) / (b + d) \<le> c / d" "a / b \<le> (a + c) / (b + d)" if "a / b \<le> c / d"
    using that assms by (simp_all add: field_simps)
  have high: "(a + c) / (b + d) \<le> a / b" "c / d \<le> (a + c) / (b + d)" if "c / d \<le> a / b"
    using that assms by (simp_all add: field_simps)
  show ?thesis
    by (cases "a / b \<le> c / d") (use low high in \<open>auto simp: min_def max_def\<close>)
qed

lemma ratio_between:
  assumes "0 \<le> d1" "0 \<le> d2" and "d1 = 0 \<Longrightarrow> n1 = 0" "d2 = 0 \<Longrightarrow> n2 = 0"
  shows "between (ratio n1 d1) (ratio n2 d2) (ratio (n1 + n2) (d1 + d2))"
  using assms mediant [of "of_int d1" "of_int d2" "of_int n1" "of_int n2"]
  by (auto simp: ratio_def between_def)

lemma ratio_range:
  assumes "a * d \<le> n" "n \<le> b * d" and x: "ratio n d = Some x"
  shows "of_int a \<le> x \<and> x \<le> of_int b"
proof -
  from x have d: "0 < d" "x = of_int n / of_int d" by (auto simp: ratio_def split: if_splits)
  have "(of_int (a * d) :: rat) \<le> of_int n" "(of_int n :: rat) \<le> of_int (b * d)"
    using assms(1,2) by (simp_all only: of_int_le_iff)
  with d show ?thesis by (simp add: le_divide_eq divide_le_eq)
qed

lemma combined_rates:
  assumes "statistics_ok (pr_rankedFull profile)" "statistics_ok (pr_quick profile)"
  shows "statistics_ok (statisticsOf profile mode)"
    and "between (sr_winRate (statRates (pr_rankedFull profile))) (sr_winRate (statRates (pr_quick profile)))
      (sr_winRate (statRates (statisticsOf profile FilterAll)))"
    and "between (sr_averageFinish (statRates (pr_rankedFull profile))) (sr_averageFinish (statRates (pr_quick profile)))
      (sr_averageFinish (statRates (statisticsOf profile FilterAll)))"
    and "between (sr_roundWinRate (statRates (pr_rankedFull profile))) (sr_roundWinRate (statRates (pr_quick profile)))
      (sr_roundWinRate (statRates (statisticsOf profile FilterAll)))"
  using assms
  by (auto simp: statistics_ok_def statisticsOf_def combineStatistics_def Let_def statRates_def intro!: ratio_between)

lemma rates_in_range:
  assumes "statistics_ok s"
  shows "sr_winRate (statRates s) = Some x \<Longrightarrow> 0 \<le> x \<and> x \<le> 1"
    and "sr_roundWinRate (statRates s) = Some x \<Longrightarrow> 0 \<le> x \<and> x \<le> 1"
    and "sr_averageFinish (statRates s) = Some x \<Longrightarrow> 1 \<le> x \<and> x \<le> 4"
  using assms ratio_range [of 0 "st_gamesPlayed s" "st_gamesWon s" 1 x] ratio_range [of 0 "st_roundsPlayed s" "st_roundsWon s" 1 x]
    ratio_range [of 1 "st_gamesPlayed s" "st_totalPlacement s" 4 x]
  by (simp_all add: statistics_ok_def statRates_def)

section \<open>The history of games\<close>

text \<open>The badges of a game and the text of an empty history.\<close>

datatype ResultBadge = BadgeVictory | BadgeForfeit | BadgeFinished

definition resultBadge :: "GameHistoryItem \<Rightarrow> ResultBadge" where
  "resultBadge game = (if gh_won game then BadgeVictory else if gh_forfeited game then BadgeForfeit else BadgeFinished)"

datatype EmptyTitle = NoRankedHistory | NoQuickHistory | NoGameHistory

definition emptyTitle :: "GameHistoryFilter \<Rightarrow> EmptyTitle" where
  "emptyTitle mode =
     (if mode = FilterFull then NoRankedHistory else if mode = FilterQuick then NoQuickHistory else NoGameHistory)"

text \<open>The table is mounted anew for every mode, with page 1 and the data of its own queries; the history the
  page was loaded with serves as data of the first page of all games.\<close>

record HistoryState =
  hs_initialHistory :: PlayerGameHistory
  hs_profileMode :: GameHistoryFilter
  hs_page :: int
  hs_query :: "PlayerGameHistory QueryResult"

definition shownHistory :: "HistoryState \<Rightarrow> PlayerGameHistory" where
  "shownHistory s = or_else (qr_data (hs_query s)) (hs_initialHistory s)"

definition initialHistory :: "PlayerGameHistory \<Rightarrow> HistoryState" where
  "initialHistory history = \<lparr>hs_initialHistory = history, hs_profileMode = FilterAll, hs_page = 1,
     hs_query = \<lparr>qr_data = Some history, qr_isError = False, qr_isFetching = False, qr_isPending = False\<rparr>\<rparr>"

datatype HistoryContent = HistoryError | HistorySpinner | HistoryEmpty EmptyTitle | HistoryTable "GameHistoryItem list"

definition historyContent :: "HistoryState \<Rightarrow> HistoryContent" where
  "historyContent s =
     (if qr_isError (hs_query s) then HistoryError
      else if qr_isPending (hs_query s) then HistorySpinner
      else if hy_games (shownHistory s) = [] then HistoryEmpty (emptyTitle (hs_profileMode s))
      else HistoryTable (hy_games (shownHistory s)))"

definition historyFooter :: "HistoryState \<Rightarrow> bool" where
  "historyFooter s \<longleftrightarrow> \<not> qr_isPending (hs_query s) \<and> 1 < hy_totalPages (shownHistory s)"

definition historyPrevious :: "PlayerGameHistory QueryResult \<Rightarrow> HistoryState \<Rightarrow> HistoryState" where
  "historyPrevious result s =
     (if 1 < hs_page s \<and> \<not> qr_isFetching (hs_query s) then s\<lparr>hs_page := hs_page s - 1, hs_query := result\<rparr> else s)"

definition historyNext :: "PlayerGameHistory QueryResult \<Rightarrow> HistoryState \<Rightarrow> HistoryState" where
  "historyNext result s =
     (if hs_page s < hy_totalPages (shownHistory s) \<and> \<not> qr_isFetching (hs_query s)
      then s\<lparr>hs_page := hs_page s + 1, hs_query := result\<rparr> else s)"

definition modeChange :: "GameHistoryFilter list \<Rightarrow> PlayerGameHistory QueryResult \<Rightarrow> HistoryState \<Rightarrow> HistoryState" where
  "modeChange value result s =
     (case value of
        [] \<Rightarrow> s
      | nextMode # _ \<Rightarrow>
          if nextMode = hs_profileMode s then s
          else s\<lparr>hs_profileMode := nextMode, hs_page := 1, hs_query := result\<rparr>)"

datatype HistoryEvent =
  HistoryPrevious "PlayerGameHistory QueryResult" | HistoryNext "PlayerGameHistory QueryResult"
| HistoryQueryChanges "PlayerGameHistory QueryResult" | ModeChange "GameHistoryFilter list" "PlayerGameHistory QueryResult"

definition gameMatches :: "GameHistoryFilter \<Rightarrow> GameHistoryItem \<Rightarrow> bool" where
  "gameMatches mode game \<longleftrightarrow>
     (mode = FilterFull \<longrightarrow> gh_gameMode game = HistoryFull) \<and> (mode = FilterQuick \<longrightarrow> gh_gameMode game = HistoryQuick)"

text \<open>What the code relies on: data of a query for a mode are games of that mode, and without data and error the
  query is pending.\<close>

definition answersMode :: "PlayerGameHistory QueryResult \<Rightarrow> GameHistoryFilter \<Rightarrow> bool" where
  "answersMode result mode \<longleftrightarrow>
     (case qr_data result of
        None \<Rightarrow> qr_isError result \<or> qr_isPending result
      | Some history \<Rightarrow> list_all (gameMatches mode) (hy_games history))"

fun history_enabled :: "HistoryEvent \<Rightarrow> HistoryState \<Rightarrow> bool" where
  "history_enabled (HistoryPrevious result) s \<longleftrightarrow> historyFooter s \<and> answersMode result (hs_profileMode s)"
| "history_enabled (HistoryNext result) s \<longleftrightarrow> historyFooter s \<and> answersMode result (hs_profileMode s)"
| "history_enabled (HistoryQueryChanges result) s \<longleftrightarrow> answersMode result (hs_profileMode s)"
| "history_enabled (ModeChange value result) s \<longleftrightarrow> (case value of [] \<Rightarrow> True | mode # _ \<Rightarrow> answersMode result mode)"

fun history_handle :: "HistoryEvent \<Rightarrow> HistoryState \<Rightarrow> HistoryState" where
  "history_handle (HistoryPrevious result) s = historyPrevious result s"
| "history_handle (HistoryNext result) s = historyNext result s"
| "history_handle (HistoryQueryChanges result) s = s\<lparr>hs_query := result\<rparr>"
| "history_handle (ModeChange value result) s = modeChange value result s"

interpretation history: paging hs_page "\<lambda>s. hy_totalPages (shownHistory s)" "\<lambda>s. qr_isFetching (hs_query s)"
  "historyPrevious r" "historyNext r'" for r r'
  by unfold_locales (simp_all add: historyPrevious_def historyNext_def)

definition history_ok :: "HistoryState \<Rightarrow> bool" where
  "history_ok s \<longleftrightarrow> 1 \<le> hs_page s \<and> answersMode (hs_query s) (hs_profileMode s)"

lemma history_ok_handle: "history_ok s \<Longrightarrow> history_enabled e s \<Longrightarrow> history_ok (history_handle e s)"
  by (cases e) (auto simp: history_ok_def historyPrevious_def historyNext_def modeChange_def split: list.splits)

interpretation history_page: invariant "\<lambda>s. \<exists>history. s = initialHistory history"
  "guarded_step history_enabled history_handle" history_ok
  by unfold_locales
    (auto simp: guarded_step_def history_ok_handle, auto simp: history_ok_def initialHistory_def answersMode_def
       gameMatches_def list_all_iff)

text \<open>The table never shows a game of another mode than the one selected, although the history of all games stands
  in while there are no data.\<close>

lemma history_matches_mode:
  assumes "reach (guarded_step history_enabled history_handle) (initialHistory history) s"
  shows "1 \<le> hs_page s" and "historyContent s = HistoryTable games \<Longrightarrow> list_all (gameMatches (hs_profileMode s)) games"
proof -
  have ok: "history_ok s" using history_page.run_inv [OF _ assms] by blast
  then show "1 \<le> hs_page s" by (simp add: history_ok_def)
  assume "historyContent s = HistoryTable games"
  with ok show "list_all (gameMatches (hs_profileMode s)) games"
    by (auto simp: history_ok_def historyContent_def answersMode_def shownHistory_def split: if_splits option.splits)
qed

text \<open>The footer does use the stand-in: when the first page of a mode cannot be loaded, it counts the pages of all
  games below the error.\<close>

lemma footer_of_other_mode:
  "\<exists>e s. history_enabled e (initialHistory h) \<and> s = history_handle e (initialHistory h) \<and>
     historyContent s = HistoryError \<and> hs_profileMode s = FilterQuick \<and> (historyFooter s \<longleftrightarrow> 1 < hy_totalPages h)"
  by (rule exI [of _ "ModeChange [FilterQuick] \<lparr>qr_data = None, qr_isError = True, qr_isFetching = False, qr_isPending = False\<rparr>"])
    (simp add: answersMode_def modeChange_def initialHistory_def historyContent_def historyFooter_def shownHistory_def)

end
