(* ===== verification/Coach.thy ===== *)
theory Coach
  imports Tutorial Complex_Main
begin

text \<open>
  The spotlights of the tutorial and the card of instructions beside them (\<open>game-onboarding.tsx\<close>): what is
  measured, when a measurement runs, and where the card is placed. Boxes of elements and the size of the window
  come from the browser; lengths are exact here.
\<close>

section \<open>Measured rectangles\<close>

record SpotlightRect =
  sr_id :: string
  sr_top :: rat
  sr_right :: rat
  sr_bottom :: rat
  sr_left :: rat
  sr_width :: rat
  sr_height :: rat
  sr_cornerRadius :: rat

text \<open>An element of the page: its box and the radii of its corners as parsed, \<open>None\<close> where that failed.\<close>

record ElementBox =
  el_left :: rat
  el_top :: rat
  el_right :: rat
  el_bottom :: rat
  el_radii :: "rat option list"

record Viewport =
  vp_innerWidth :: rat
  vp_innerHeight :: rat

definition visibleElements :: "ElementBox list \<Rightarrow> ElementBox list" where
  "visibleElements elements = filter (\<lambda>e. 0 < el_right e - el_left e \<and> 0 < el_bottom e - el_top e) elements"

definition cornerRadiusOf :: "ElementBox list \<Rightarrow> rat" where
  "cornerRadiusOf bounds = fold max (concat (map (\<lambda>e. map (\<lambda>r. or_else r 0) (el_radii e)) bounds)) 0"

text \<open>The extremes of a list that is not empty; the infinite start values of the code play no part then.\<close>

definition leastOf :: "rat list \<Rightarrow> rat" where "leastOf xs = fold min (tl xs) (hd xs)"
definition greatestOf :: "rat list \<Rightarrow> rat" where "greatestOf xs = fold max (tl xs) (hd xs)"

definition spotlightRect :: "Viewport \<Rightarrow> string \<Rightarrow> ElementBox list \<Rightarrow> SpotlightRect" where
  "spotlightRect vp selector bounds =
     (let padding = 5;
          left = max 4 (leastOf (map el_left bounds) - padding);
          top = max 4 (leastOf (map el_top bounds) - padding);
          right = min (vp_innerWidth vp - 4) (greatestOf (map el_right bounds) + padding);
          bottom = min (vp_innerHeight vp - 4) (greatestOf (map el_bottom bounds) + padding)
      in \<lparr>sr_id = selector, sr_top = top, sr_right = right, sr_bottom = bottom, sr_left = left,
          sr_width = right - left, sr_height = bottom - top,
          sr_cornerRadius = max 18 (cornerRadiusOf bounds + padding)\<rparr>)"

text \<open>One rectangle for every selector with a visible element; \<open>query\<close> finds the elements of a selector.\<close>

definition measureRects :: "Viewport \<Rightarrow> (string \<Rightarrow> ElementBox list) \<Rightarrow> string list \<Rightarrow> SpotlightRect list" where
  "measureRects vp query selectors =
     List.map_filter (\<lambda>selector.
       let bounds = visibleElements (query selector)
       in if bounds \<noteq> [] then Some (spotlightRect vp selector bounds) else None) selectors"

section \<open>When a measurement runs\<close>

text \<open>\<open>sp_frame\<close> and \<open>sp_trackingFrame\<close> are the animation frames requested, with the selectors their callbacks
  captured; \<open>None\<close> when none is pending.\<close>

record SpotlightState =
  sp_stage :: TutorialStage
  sp_isDrawingCard :: bool
  sp_mounted :: bool
  sp_frame :: "string list option"
  sp_trackingFrame :: "string list option"
  sp_trackUntil :: int
  sp_clock :: int
  sp_rects :: "SpotlightRect list"

definition initialSpotlight :: "int \<Rightarrow> SpotlightState" where
  "initialSpotlight now = \<lparr>sp_stage = IntroStage, sp_isDrawingCard = False, sp_mounted = False, sp_frame = None,
     sp_trackingFrame = None, sp_trackUntil = 0, sp_clock = now, sp_rects = []\<rparr>"

text \<open>A request for a measurement replaces the one pending.\<close>

definition measure_frame :: "string list \<Rightarrow> SpotlightState \<Rightarrow> SpotlightState" where
  "measure_frame selectors s = s\<lparr>sp_frame := Some selectors\<rparr>"

definition trackLayoutMotion :: "string list \<Rightarrow> SpotlightState \<Rightarrow> SpotlightState" where
  "trackLayoutMotion selectors s =
     (let s1 = s\<lparr>sp_trackUntil := sp_clock s + 350\<rparr>
      in if sp_trackingFrame s \<noteq> None then s1 else s1\<lparr>sp_trackingFrame := Some selectors\<rparr>)"

definition trackFrame :: "string list \<Rightarrow> SpotlightState \<Rightarrow> SpotlightState" where
  "trackFrame selectors s =
     (let s1 = measure_frame selectors s
      in s1\<lparr>sp_trackingFrame := (if sp_clock s < sp_trackUntil s then Some selectors else None)\<rparr>)"

text \<open>The effect of a new stage: the cleanup cancels both frames, and the new run starts with a measurement.\<close>

definition spotlightEffect :: "bool \<Rightarrow> TutorialStage \<Rightarrow> bool \<Rightarrow> SpotlightState \<Rightarrow> SpotlightState" where
  "spotlightEffect hasRoot stage isDrawingCard s =
     (let s1 = s\<lparr>sp_stage := stage, sp_isDrawingCard := isDrawingCard, sp_frame := None, sp_trackingFrame := None,
                 sp_trackUntil := 0\<rparr>;
          selectors = selectorsForStage stage isDrawingCard
      in if \<not> hasRoot \<or> selectors = [] then s1\<lparr>sp_rects := [], sp_mounted := False\<rparr>
         else measure_frame selectors (s1\<lparr>sp_mounted := True\<rparr>))"

datatype SpotlightEvent =
  EffectRuns bool TutorialStage bool | PageChanges | LayoutMoves
| FrameRuns Viewport "string \<Rightarrow> ElementBox list" | TrackFrameRuns | ClockMoves int

definition currentSelectors :: "SpotlightState \<Rightarrow> string list" where
  "currentSelectors s = selectorsForStage (sp_stage s) (sp_isDrawingCard s)"

fun spotlight_enabled :: "SpotlightEvent \<Rightarrow> SpotlightState \<Rightarrow> bool" where
  "spotlight_enabled (EffectRuns hasRoot stage isDrawingCard) s \<longleftrightarrow>
     stage \<noteq> sp_stage s \<or> isDrawingCard \<noteq> sp_isDrawingCard s \<or> \<not> sp_mounted s"
| "spotlight_enabled PageChanges s \<longleftrightarrow> sp_mounted s"
| "spotlight_enabled LayoutMoves s \<longleftrightarrow> sp_mounted s \<and> sp_stage s = ComposeStage"
| "spotlight_enabled (FrameRuns vp query) s \<longleftrightarrow> sp_frame s \<noteq> None"
| "spotlight_enabled TrackFrameRuns s \<longleftrightarrow> sp_trackingFrame s \<noteq> None"
| "spotlight_enabled (ClockMoves now) s \<longleftrightarrow> sp_clock s \<le> now"

fun spotlight_handle :: "SpotlightEvent \<Rightarrow> SpotlightState \<Rightarrow> SpotlightState" where
  "spotlight_handle (EffectRuns hasRoot stage isDrawingCard) s = spotlightEffect hasRoot stage isDrawingCard s"
| "spotlight_handle PageChanges s = measure_frame (currentSelectors s) s"
| "spotlight_handle LayoutMoves s = trackLayoutMotion (currentSelectors s) s"
| "spotlight_handle (FrameRuns vp query) s =
     (case sp_frame s of None \<Rightarrow> s
      | Some selectors \<Rightarrow> s\<lparr>sp_frame := None, sp_rects := measureRects vp query selectors\<rparr>)"
| "spotlight_handle TrackFrameRuns s = (case sp_trackingFrame s of None \<Rightarrow> s | Some selectors \<Rightarrow> trackFrame selectors s)"
| "spotlight_handle (ClockMoves now) s = s\<lparr>sp_clock := now\<rparr>"

text \<open>Whatever is pending belongs to the stage on the screen, and without spotlights nothing is pending.\<close>

definition spotlight_ok :: "SpotlightState \<Rightarrow> bool" where
  "spotlight_ok s \<longleftrightarrow>
     sp_frame s \<in> {None, Some (currentSelectors s)} \<and> sp_trackingFrame s \<in> {None, Some (currentSelectors s)} \<and>
     (\<not> sp_mounted s \<longrightarrow> sp_frame s = None \<and> sp_trackingFrame s = None \<and> sp_rects s = [])"

lemma spotlight_ok_handle: "spotlight_ok s \<Longrightarrow> spotlight_enabled e s \<Longrightarrow> spotlight_ok (spotlight_handle e s)"
  by (cases e)
    (auto simp: spotlight_ok_def spotlightEffect_def measure_frame_def trackLayoutMotion_def trackFrame_def
       currentSelectors_def Let_def)

interpretation spotlight: invariant "\<lambda>s. \<exists>now. s = initialSpotlight now"
  "guarded_step spotlight_enabled spotlight_handle" spotlight_ok
  by unfold_locales (auto simp: guarded_step_def spotlight_ok_handle, simp add: spotlight_ok_def initialSpotlight_def)

lemma measured_ids: "sr_id ` set (measureRects vp query selectors) \<subseteq> set selectors"
  by (auto simp: measureRects_def List.map_filter_def spotlightRect_def Let_def split: if_splits)

text \<open>A measurement that runs after a change of the stage measures the targets of the new stage.\<close>

lemma measurement_of_stage:
  assumes "reach (guarded_step spotlight_enabled spotlight_handle) (initialSpotlight now) s"
    and "spotlight_enabled (FrameRuns vp query) s"
  shows "sr_id ` set (sp_rects (spotlight_handle (FrameRuns vp query) s)) \<subseteq> set (currentSelectors s)"
proof -
  have "spotlight_ok s" using spotlight.run_inv [OF _ assms(1)] by blast
  with assms(2) have "sp_frame s = Some (currentSelectors s)" by (auto simp: spotlight_ok_def)
  with measured_ids [of vp query "currentSelectors s"] show ?thesis by simp
qed

text \<open>Without further motion the tracking ends with the first frame 350 milliseconds after the last one.\<close>

lemma tracking_ends:
  assumes "sp_trackUntil s \<le> sp_clock s" and "spotlight_enabled TrackFrameRuns s"
  shows "sp_trackingFrame (spotlight_handle TrackFrameRuns s) = None"
  using assms by (auto simp: trackFrame_def measure_frame_def Let_def)

lemma tracking_lasts: "sp_trackUntil (trackLayoutMotion selectors s) = sp_clock s + 350"
  by (simp add: trackLayoutMotion_def Let_def)

section \<open>The card of instructions\<close>

text \<open>A place: top, left and width; \<open>Nothing\<close> stands for the middle of the window.\<close>

record CoachPlace =
  cp_top :: rat
  cp_left :: rat
  cp_width :: rat

definition estimatedHeight :: rat where "estimatedHeight = 210"

definition coachWidth :: "Viewport \<Rightarrow> rat" where
  "coachWidth vp = (let margin = 16 in min 384 (vp_innerWidth vp - margin * 2))"

definition orientationCoachPosition :: "Viewport \<Rightarrow> SpotlightRect \<Rightarrow> CoachPlace" where
  "orientationCoachPosition vp rect =
     (let margin = 16; inset = 20; width = coachWidth vp
      in \<lparr>cp_top = min (max margin (sr_top rect + inset)) (vp_innerHeight vp - estimatedHeight - margin),
          cp_left = min (max margin (sr_right rect - width - inset)) (vp_innerWidth vp - width - margin),
          cp_width = width\<rparr>)"

definition coachPosition :: "Viewport \<Rightarrow> SpotlightRect option \<Rightarrow> CoachPlace option" where
  "coachPosition vp target =
     (case target of
        None \<Rightarrow> None
      | Some rect \<Rightarrow>
          (let gap = 12; margin = 16; width = coachWidth vp;
               spaceRight = vp_innerWidth vp - sr_right rect;
               spaceLeft = sr_left rect;
               spaceBelow = vp_innerHeight vp - sr_bottom rect;
               spaceAbove = sr_top rect;
               besideTop = min (max margin (sr_top rect)) (vp_innerHeight vp - estimatedHeight - margin);
               alongLeft = min (max margin (sr_left rect)) (vp_innerWidth vp - width - margin)
           in Some (
             if width + gap \<le> spaceRight then \<lparr>cp_top = besideTop, cp_left = sr_right rect + gap, cp_width = width\<rparr>
             else if width + gap \<le> spaceLeft then \<lparr>cp_top = besideTop, cp_left = sr_left rect - width - gap, cp_width = width\<rparr>
             else if estimatedHeight + gap \<le> spaceBelow then \<lparr>cp_top = sr_bottom rect + gap, cp_left = alongLeft, cp_width = width\<rparr>
             else if estimatedHeight + gap \<le> spaceAbove then
               \<lparr>cp_top = sr_top rect - estimatedHeight - gap, cp_left = alongLeft, cp_width = width\<rparr>
             else \<lparr>cp_top = margin, cp_left = margin, cp_width = width\<rparr>)))"

text \<open>The window is compact below 48rem of width or up to 42.5rem of height, with 16 pixels to a rem; then the
  card is part of the page and has no place of its own.\<close>

definition isCompactTutorialLayout :: "Viewport \<Rightarrow> bool" where
  "isCompactTutorialLayout vp \<longleftrightarrow> vp_innerWidth vp \<le> 47999 / 1000 * 16 \<or> vp_innerHeight vp \<le> 680"

definition useInlineCoach :: "Viewport \<Rightarrow> TutorialStage \<Rightarrow> bool" where
  "useInlineCoach vp stage \<longleftrightarrow> isCompactTutorialLayout vp \<and> stage \<noteq> IntroStage \<and> stage \<noteq> CompleteStage"

definition coachTarget :: "TutorialStage \<Rightarrow> SpotlightRect list \<Rightarrow> SpotlightRect option" where
  "coachTarget stage rects =
     (if rects = [] then None else if stage = DrawStage then Some (hd rects) else Some (last rects))"

datatype CoachLayout = CoachInline | CoachCentered | CoachPlaced "CoachPlace option" | CoachTopRight

definition coachLayout :: "Viewport \<Rightarrow> TutorialStage \<Rightarrow> SpotlightRect list \<Rightarrow> CoachLayout" where
  "coachLayout vp stage rects =
     (if useInlineCoach vp stage then CoachInline
      else if stage = IntroStage \<or> stage = CompleteStage then CoachCentered
      else if stage = OrientationStage then
        (case coachTarget stage rects of
           None \<Rightarrow> CoachTopRight | Some rect \<Rightarrow> CoachPlaced (Some (orientationCoachPosition vp rect)))
      else CoachPlaced (coachPosition vp (coachTarget stage rects)))"

datatype CoachFooter = ContinueButton | PlacedCount int | WaitingBadge

definition coachFooter :: "TutorialStage \<Rightarrow> int \<Rightarrow> CoachFooter" where
  "coachFooter stage compositionProgress =
     (if stage = IntroStage \<or> stage = OrientationStage \<or> stage = CompleteStage then ContinueButton
      else if stage = ComposeStage then PlacedCount compositionProgress else WaitingBadge)"

definition orientationLabel :: "string \<Rightarrow> nat option" where
  "orientationLabel i =
     (if i = ORIENTATION_HAND_CARDS_SELECTOR then Some 0
      else if i = ORIENTATION_PILES_SELECTOR then Some 1
      else if i = ORIENTATION_COMPOSITION_SELECTOR then Some 2 else None)"

text \<open>The labels: which, and where.\<close>

definition orientationLabels :: "Viewport \<Rightarrow> SpotlightRect list \<Rightarrow> (nat \<times> rat \<times> rat) list" where
  "orientationLabels vp rects =
     List.map_filter (\<lambda>rect. map_option (\<lambda>label.
         (label, min (max 8 (sr_left rect + 24)) (vp_innerWidth vp - 168), sr_top rect - 3))
       (orientationLabel (sr_id rect))) rects"

text \<open>The cutouts of the mask: position, size and corner radius.\<close>

definition maskCutouts :: "SpotlightRect list \<Rightarrow> (rat \<times> rat \<times> rat \<times> rat \<times> rat) list" where
  "maskCutouts rects =
     map (\<lambda>rect. (sr_left rect, sr_top rect, sr_width rect, sr_height rect,
         min (sr_cornerRadius rect) (min (sr_width rect / 2) (sr_height rect / 2)))) rects"

section \<open>Where the card and the spotlights are\<close>

definition on_screen :: "Viewport \<Rightarrow> CoachPlace \<Rightarrow> bool" where
  "on_screen vp p \<longleftrightarrow> 0 \<le> cp_top p \<and> cp_top p + estimatedHeight \<le> vp_innerHeight vp \<and>
     0 \<le> cp_left p \<and> cp_left p + cp_width p \<le> vp_innerWidth vp"










text \<open>The card of the orientation stays on the screen as well, at least 16 pixels from its edges.\<close>

lemma orientation_coach_on_screen:
  assumes "\<not> isCompactTutorialLayout vp"
  shows "on_screen vp (orientationCoachPosition vp rect)"
  using assms
  by (auto simp: isCompactTutorialLayout_def orientationCoachPosition_def on_screen_def coachWidth_def
      estimatedHeight_def Let_def)

text \<open>A card that waits for an action has no button, and every other stage has one.\<close>

lemma waiting_stages: "coachFooter stage n = ContinueButton \<longleftrightarrow> stage \<notin> {DrawStage, ComposeStage, DiscardStage}"
  by (cases stage) (simp_all add: coachFooter_def)

end
