(* ===== verification/RevealHook.thy ===== *)
theory RevealHook
  imports Results Machine
begin

text \<open>
  The reveal of the scores while its page stays open (\<open>useResultScoreReveal\<close> in \<open>game-results-view.tsx\<close>): renders
  with other props, the effect that schedules the timers of \<open>Results\<close> anew when its dependencies have changed, and the
  timers as they fire.
\<close>

record RevealProps =
  rvp_game :: GameSnapshot
  rvp_players :: "PlayerSnapshot list"
  rvp_reduceMotion :: bool
  rvp_takeover :: bool

text \<open>The timers belong to the render whose effect has set them: its key, and its game.\<close>

record RevealHook =
  rv_clock :: int
  rv_props :: RevealProps
  rv_state :: ScoreRevealState
  rv_dependencies :: "(string \<times> bool \<times> bool) option"
  rv_timers :: "(int \<times> RevealAction) list"
  rv_timerKey :: string
  rv_timerGame :: GameSnapshot

definition revealKeyOf :: "RevealProps \<Rightarrow> string" where
  "revealKeyOf p = scoreTimelineKey (rvp_game p) (rvp_reduceMotion p) (rvp_takeover p)"

definition revealRests :: "RevealProps \<Rightarrow> bool" where
  "revealRests p \<longleftrightarrow> rvp_takeover p \<or> rvp_reduceMotion p"

definition revealEffect :: "RevealHook \<Rightarrow> RevealHook" where
  "revealEffect h =
     (let p = rv_props h; dependencies = (revealKeyOf p, rvp_reduceMotion p, rvp_takeover p) in
      if rv_dependencies h = Some dependencies then h
      else h\<lparr>rv_dependencies := Some dependencies, rv_timerKey := revealKeyOf p, rv_timerGame := rvp_game p,
             rv_timers := (if revealRests p then []
               else map (\<lambda>(at, action). (rv_clock h + at, action)) (scheduleScoreReveal (rvp_game p) (rvp_players p)))\<rparr>)"

definition mountReveal :: "int \<Rightarrow> RevealProps \<Rightarrow> RevealHook" where
  "mountReveal now p =
     revealEffect \<lparr>rv_clock = now, rv_props = p, rv_state = freshReveal (revealKeyOf p), rv_dependencies = None,
       rv_timers = [], rv_timerKey = [], rv_timerGame = rvp_game p\<rparr>"

datatype RevealEvent = RevealClock int | RevealTimer | RevealRender RevealProps

text \<open>Timers fire in the order of their times, each once it is due.\<close>

fun reveal_enabled :: "RevealEvent \<Rightarrow> RevealHook \<Rightarrow> bool" where
  "reveal_enabled (RevealClock now) h \<longleftrightarrow> rv_clock h \<le> now"
| "reveal_enabled RevealTimer h \<longleftrightarrow> rv_timers h \<noteq> [] \<and> fst (hd (rv_timers h)) \<le> rv_clock h"
| "reveal_enabled (RevealRender p) h \<longleftrightarrow> True"

fun reveal_handle :: "RevealEvent \<Rightarrow> RevealHook \<Rightarrow> RevealHook" where
  "reveal_handle (RevealClock now) h = h\<lparr>rv_clock := now\<rparr>"
| "reveal_handle RevealTimer h =
     h\<lparr>rv_state := revealStep (rv_timerGame h) (rv_timerKey h) (snd (hd (rv_timers h))) (rv_state h),
       rv_timers := tl (rv_timers h)\<rparr>"
| "reveal_handle (RevealRender p) h = revealEffect (h\<lparr>rv_props := p\<rparr>)"

definition shownReveal :: "RevealHook \<Rightarrow> ScoreRevealState" where
  "shownReveal h =
     revealStateOf (rvp_game (rv_props h)) (rvp_reduceMotion (rv_props h)) (rvp_takeover (rv_props h)) (rv_state h)"

section \<open>The reveal comes to its end\<close>

definition reveal_ok :: "RevealHook \<Rightarrow> bool" where
  "reveal_ok h \<longleftrightarrow>
     (let p = rv_props h in
      rv_dependencies h = Some (revealKeyOf p, rvp_reduceMotion p, rvp_takeover p) \<and> rv_timerKey h = revealKeyOf p \<and>
      sorted (map fst (rv_timers h)) \<and>
      (if revealRests p then rv_timers h = []
       else if rv_timers h = [] then
         rv_state h = revealStep (rv_timerGame h) (revealKeyOf p) RevealAll (rv_state h)
       else snd (last (rv_timers h)) = RevealAll))"

lemma schedule_last: "scheduleScoreReveal game players \<noteq> [] \<and> snd (last (scheduleScoreReveal game players)) = RevealAll"
proof -
  obtain ts t where "scheduleScoreReveal game players = ts @ [(t, RevealAll)]"
    using schedule_ends unfolding scheduleScoreReveal_def by blast
  then show ?thesis by simp
qed

lemma reveal_all_again:
  "revealStep game key RevealAll (revealStep game key RevealAll s) = revealStep game key RevealAll s"
  by (simp add: revealStep_def)

lemma reveal_ok_effect:
  assumes "reveal_ok h \<or> rv_dependencies h = None"
  shows "reveal_ok (revealEffect (h\<lparr>rv_props := p\<rparr>))"
proof (cases "rv_dependencies h = Some (revealKeyOf p, rvp_reduceMotion p, rvp_takeover p)")
  case True
  then show ?thesis using assms by (auto simp: revealEffect_def reveal_ok_def Let_def revealRests_def)
next
  case False
  have "sorted (map fst (scheduleScoreReveal (rvp_game p) (rvp_players p)))"
    by (simp add: scheduleScoreReveal_def timers_sorted)
  then have "sorted (map (\<lambda>x. rv_clock h + fst x) (scheduleScoreReveal (rvp_game p) (rvp_players p)))"
    by (simp add: sorted_map sorted_wrt_iff_nth_less)
  with False schedule_last [of "rvp_game p" "rvp_players p"] show ?thesis
    by (simp add: revealEffect_def reveal_ok_def Let_def case_prod_unfold comp_def last_map)
qed

lemma reveal_ok_mount: "reveal_ok (mountReveal now p)"
  using reveal_ok_effect [of "\<lparr>rv_clock = now, rv_props = p, rv_state = freshReveal (revealKeyOf p), rv_dependencies = None,
       rv_timers = [], rv_timerKey = [], rv_timerGame = rvp_game p\<rparr>" p]
  by (simp add: mountReveal_def)

lemma reveal_ok_timer:
  assumes "reveal_ok h" and "rv_timers h \<noteq> []"
  shows "reveal_ok (reveal_handle RevealTimer h)"
proof -
  from assms(2) obtain t ts where "rv_timers h = t # ts" by (cases "rv_timers h") auto
  with assms(1) show ?thesis
    by (cases ts) (auto simp: reveal_ok_def Let_def reveal_all_again split: if_splits)
qed

lemma reveal_ok_handle: "reveal_ok h \<Longrightarrow> reveal_enabled e h \<Longrightarrow> reveal_ok (reveal_handle e h)"
proof (cases e)
  case (RevealClock now)
  assume "reveal_ok h"
  with RevealClock show ?thesis by (simp add: reveal_ok_def Let_def)
qed (use reveal_ok_timer reveal_ok_effect in simp_all)

interpretation reveal: invariant "\<lambda>h. \<exists>now p. h = mountReveal now p" "guarded_step reveal_enabled reveal_handle" reveal_ok
  by unfold_locales (auto simp: reveal_ok_mount reveal_ok_handle guarded_step_def)

text \<open>The timers that are left, fired one after the other.\<close>

definition fireAll :: "RevealHook \<Rightarrow> RevealHook" where
  "fireAll h = foldl (\<lambda>h t. reveal_handle RevealTimer h) h (rv_timers h)"

lemma fireAll_ends:
  "reveal_ok h \<Longrightarrow> \<not> revealRests (rv_props h) \<Longrightarrow>
     rv_props (fireAll h) = rv_props h \<and> reveal_ok (fireAll h) \<and> rv_timers (fireAll h) = []"
proof (induction "rv_timers h" arbitrary: h)
  case Nil
  then show ?case by (simp add: fireAll_def)
next
  case (Cons t ts)
  let ?h = "reveal_handle RevealTimer h"
  from Cons.hyps(2) have ts: "ts = rv_timers ?h" "rv_props ?h = rv_props h" "fireAll h = fireAll ?h"
    by (simp_all add: fireAll_def Cons.hyps(2) [symmetric])
  from Cons.hyps(2) have "rv_timers h \<noteq> []" by auto
  with Cons.prems reveal_ok_timer have "reveal_ok ?h" by blast
  with Cons.hyps(1) [OF ts(1)] Cons.prems(2) ts show ?case by simp
qed

text \<open>C34: However often the page of results is rendered with other props while its timers run, the reveal of the scores comes
  to its end: unless the takeover of a winner or reduced motion rests it, its timers are running or the ranking is in its
  final order with every score final, and once the timers that are left have fired it is so.
\<close>

theorem reveal_comes_to_end:
  assumes "reach (guarded_step reveal_enabled reveal_handle) (mountReveal now p) h" and "\<not> rvp_takeover (rv_props h)"
  shows "(rv_timers h = [] \<longrightarrow> reveal_hasReordered (shownReveal h) \<and> (\<forall>i. \<not> moving (shownReveal h) i)) \<and>
    (\<not> rvp_reduceMotion (rv_props h) \<longrightarrow>
       rv_props (fireAll h) = rv_props h \<and> reveal_hasReordered (shownReveal (fireAll h)) \<and>
       reveal_phases (shownReveal (fireAll h)) = adjustedScorePhases (game_players (rv_timerGame (fireAll h))))"
proof -
  have still: "\<not> moving s i" if "reveal_phases s = adjustedScorePhases players" for s i players
    using adjusted_phases [of players i] that by (auto simp: moving_def)
  have shown: "reveal_hasReordered (shownReveal h) \<and> reveal_phases (shownReveal h) = adjustedScorePhases (game_players (rv_timerGame h))"
    if "reveal_ok h" "rv_timers h = []" "\<not> revealRests (rv_props h)" for h
  proof -
    from that have s: "rv_state h = revealStep (rv_timerGame h) (revealKeyOf (rv_props h)) RevealAll (rv_state h)"
      by (simp add: reveal_ok_def Let_def)
    then have "reveal_key (rv_state h) = revealKeyOf (rv_props h)" "reveal_hasReordered (rv_state h)"
      "reveal_phases (rv_state h) = adjustedScorePhases (game_players (rv_timerGame h))"
      by (metis set_phase_key, (subst s, simp add: revealStep_def)+)
    with that(3) show ?thesis by (simp add: shownReveal_def revealStateOf_def revealRests_def revealKeyOf_def Let_def)
  qed
  have ok: "reveal_ok h" using reveal.run_inv [OF _ assms(1)] by blast
  show ?thesis
  proof (cases "rvp_reduceMotion (rv_props h)")
    case True
    with assms(2) show ?thesis
      using still by (auto simp: shownReveal_def revealStateOf_def Let_def)
  next
    case False
    with assms(2) have rests: "\<not> revealRests (rv_props h)" by (simp add: revealRests_def)
    with fireAll_ends [OF ok rests] shown [OF ok] shown [of "fireAll h"] still show ?thesis by metis
  qed
qed

text \<open>
  The key of the reveal does not change when reduced motion is switched on and off again: the phases reached before are
  shown again while the timers start over, so two scores move at once.
\<close>

definition revealProps :: "bool \<Rightarrow> RevealProps" where
  "revealProps reduceMotion =
     \<lparr>rvp_game = example_results, rvp_players = [], rvp_reduceMotion = reduceMotion, rvp_takeover = False\<rparr>"

definition switchedRun :: "RevealEvent list" where
  "switchedRun =
     [RevealClock 2400, RevealTimer, RevealTimer, RevealTimer, RevealTimer, RevealRender (revealProps True),
      RevealRender (revealProps False), RevealClock 3200, RevealTimer]"

definition switched :: RevealHook where
  "switched = the (run reveal_enabled reveal_handle switchedRun (mountReveal 0 (revealProps False)))"

lemma switched_run: "run reveal_enabled reveal_handle switchedRun (mountReveal 0 (revealProps False)) = Some switched"
proof -
  have "run reveal_enabled reveal_handle switchedRun (mountReveal 0 (revealProps False)) \<noteq> None" by code_simp
  then show ?thesis by (auto simp: switched_def)
qed

lemma switch_replays_reveal: "moving (shownReveal switched) ''ann'' \<and> moving (shownReveal switched) ''bob''"
  by code_simp

theorem reveal_comes_to_end_witness:
  "rv_timers switched \<noteq> [] \<and> \<not> reveal_hasReordered (shownReveal switched) \<and>
   reveal_hasReordered (shownReveal (fireAll switched))"
proof -
  have props: "rv_props switched = revealProps False" by code_simp
  have "rv_timers switched \<noteq> []" "\<not> reveal_hasReordered (shownReveal switched)" by code_simp+
  moreover have "reveal_hasReordered (shownReveal (fireAll switched))"
    using reveal_comes_to_end [OF run_reach [OF switched_run]] props by (simp add: revealProps_def)
  ultimately show ?thesis by blast
qed
section \<open>The takeover of the winner\<close>

text \<open>The key dismissed, and for the takeover on the page its key, the setting its effect has run with and its timer.\<close>

record Takeover =
  tk_clock :: int
  tk_key :: "string option"
  tk_reduceMotion :: bool
  tk_dismissed :: "string option"
  tk_mounted :: "(string \<times> bool \<times> int) option"

definition GAME_WINNER_DURATION_MS :: int where "GAME_WINNER_DURATION_MS = 4600"

definition takeoverDuration :: "bool \<Rightarrow> int" where
  "takeoverDuration shouldReduceMotion = (if shouldReduceMotion then 2000 else GAME_WINNER_DURATION_MS)"

text \<open>After a render the takeover of the current key is on the page or none; its effect sets a timer anew when it is
  mounted and when the setting has changed.\<close>

definition takeoverRendered :: "Takeover \<Rightarrow> Takeover" where
  "takeoverRendered s =
     (if \<not> winnerTakeover (tk_key s) (tk_dismissed s) then s\<lparr>tk_mounted := None\<rparr>
      else case tk_mounted s of
        Some (key, reduceMotion, at) \<Rightarrow>
          if tk_key s = Some key \<and> reduceMotion = tk_reduceMotion s then s
          else s\<lparr>tk_mounted := Some (the (tk_key s), tk_reduceMotion s, tk_clock s + takeoverDuration (tk_reduceMotion s))\<rparr>
      | None \<Rightarrow>
          s\<lparr>tk_mounted := Some (the (tk_key s), tk_reduceMotion s, tk_clock s + takeoverDuration (tk_reduceMotion s))\<rparr>)"

definition completeWinnerTakeover :: "Takeover \<Rightarrow> Takeover" where
  "completeWinnerTakeover s = takeoverRendered (s\<lparr>tk_dismissed := tk_key s\<rparr>)"

datatype TakeoverEvent = TakeoverClock int | TakeoverTimer | TakeoverButton | TakeoverRender "string option" bool

fun takeover_enabled :: "TakeoverEvent \<Rightarrow> Takeover \<Rightarrow> bool" where
  "takeover_enabled (TakeoverClock now) s \<longleftrightarrow> tk_clock s \<le> now"
| "takeover_enabled TakeoverTimer s \<longleftrightarrow> (case tk_mounted s of None \<Rightarrow> False | Some (_, _, at) \<Rightarrow> at \<le> tk_clock s)"
| "takeover_enabled TakeoverButton s \<longleftrightarrow> tk_mounted s \<noteq> None"
| "takeover_enabled (TakeoverRender key reduceMotion) s \<longleftrightarrow> True"

fun takeover_handle :: "TakeoverEvent \<Rightarrow> Takeover \<Rightarrow> Takeover" where
  "takeover_handle (TakeoverClock now) s = s\<lparr>tk_clock := now\<rparr>"
| "takeover_handle TakeoverTimer s = completeWinnerTakeover s"
| "takeover_handle TakeoverButton s = completeWinnerTakeover s"
| "takeover_handle (TakeoverRender key reduceMotion) s = takeoverRendered (s\<lparr>tk_key := key, tk_reduceMotion := reduceMotion\<rparr>)"

definition initialTakeover :: "int \<Rightarrow> string option \<Rightarrow> bool \<Rightarrow> Takeover" where
  "initialTakeover now key reduceMotion =
     takeoverRendered \<lparr>tk_clock = now, tk_key = key, tk_reduceMotion = reduceMotion, tk_dismissed = None, tk_mounted = None\<rparr>"

definition takeover_ok :: "Takeover \<Rightarrow> bool" where
  "takeover_ok s \<longleftrightarrow>
     (case tk_mounted s of
        None \<Rightarrow> \<not> winnerTakeover (tk_key s) (tk_dismissed s)
      | Some (key, reduceMotion, at) \<Rightarrow> winnerTakeover (tk_key s) (tk_dismissed s) \<and> tk_key s = Some key \<and>
          reduceMotion = tk_reduceMotion s \<and> at \<le> tk_clock s + takeoverDuration reduceMotion)"

lemma takeover_ok_rendered:
  "tk_mounted s = None \<or> (\<exists>key reduceMotion at. tk_mounted s = Some (key, reduceMotion, at) \<and>
     at \<le> tk_clock s + takeoverDuration reduceMotion) \<Longrightarrow> takeover_ok (takeoverRendered s)"
  by (auto simp: takeover_ok_def takeoverRendered_def winnerTakeover_def split: option.splits)

lemma takeover_ok_later:
  assumes "takeover_ok s"
  shows "takeover_ok (completeWinnerTakeover s)"
    and "takeover_ok (takeoverRendered (s\<lparr>tk_key := key, tk_reduceMotion := reduceMotion\<rparr>))"
proof -
  have running: "tk_mounted s = None \<or> (\<exists>key reduceMotion at. tk_mounted s = Some (key, reduceMotion, at) \<and>
     at \<le> tk_clock s + takeoverDuration reduceMotion)"
    using assms by (auto simp: takeover_ok_def split: option.splits)
  then show "takeover_ok (completeWinnerTakeover s)"
    unfolding completeWinnerTakeover_def by (intro takeover_ok_rendered) simp
  from running show "takeover_ok (takeoverRendered (s\<lparr>tk_key := key, tk_reduceMotion := reduceMotion\<rparr>))"
    by (intro takeover_ok_rendered) simp
qed

lemma takeover_ok_handle: "takeover_ok s \<Longrightarrow> takeover_enabled e s \<Longrightarrow> takeover_ok (takeover_handle e s)"
proof (cases e)
  case (TakeoverClock now)
  assume "takeover_ok s" "takeover_enabled e s"
  with TakeoverClock show ?thesis by (auto simp: takeover_ok_def split: option.splits)
qed (simp_all add: takeover_ok_later)

interpretation takeover: invariant "\<lambda>s. \<exists>now key reduceMotion. s = initialTakeover now key reduceMotion"
  "guarded_step takeover_enabled takeover_handle" takeover_ok
  by unfold_locales (auto simp: initialTakeover_def guarded_step_def takeover_ok_handle intro!: takeover_ok_rendered)

text \<open>
  The takeover is on the page exactly while the winner's key is not dismissed, and then its timer runs, for at most its
  duration; when it fires, or the button is pressed, the takeover is gone, and other renders of the same key do not bring
  it back.
\<close>

lemma takeover_ends:
  assumes "reach (guarded_step takeover_enabled takeover_handle) (initialTakeover now key reduceMotion) s"
  shows "tk_mounted s \<noteq> None \<longleftrightarrow> winnerTakeover (tk_key s) (tk_dismissed s)"
    and "tk_mounted s = Some (k, r, at) \<Longrightarrow> at \<le> tk_clock s + takeoverDuration (tk_reduceMotion s)"
    and "tk_mounted (completeWinnerTakeover s) = None"
    and "tk_mounted (takeover_handle (TakeoverRender (tk_key s) r) (completeWinnerTakeover s)) = None"
proof -
  have ok: "takeover_ok s" using takeover.run_inv [OF _ assms] by blast
  then show "tk_mounted s \<noteq> None \<longleftrightarrow> winnerTakeover (tk_key s) (tk_dismissed s)"
    by (auto simp: takeover_ok_def split: option.splits)
  show "tk_mounted s = Some (k, r, at) \<Longrightarrow> at \<le> tk_clock s + takeoverDuration (tk_reduceMotion s)"
    using ok by (auto simp: takeover_ok_def)
  show "tk_mounted (completeWinnerTakeover s) = None"
    and "tk_mounted (takeover_handle (TakeoverRender (tk_key s) r) (completeWinnerTakeover s)) = None"
    by (simp_all add: completeWinnerTakeover_def takeoverRendered_def winnerTakeover_def)
qed

end
