(* ===== verification/LobbyPage.thy ===== *)
theory LobbyPage
  imports GamePage
begin

text \<open>
  The lobby and the players on the screen: the room before a game (\<open>game-lobby-view.tsx\<close>), the list of players with
  their menus (\<open>player-strip.tsx\<close>), the scores and the emotes (\<open>game-board-players.tsx\<close>, \<open>player-emotes.tsx\<close>) and the
  initials of names (\<open>lib/utils.ts\<close>).
\<close>

section \<open>The lobby\<close>

record RoomActions =
  ra_canCreateRoom :: bool
  ra_canJoinRoom :: bool
  ra_canLeaveRoom :: bool
  ra_canStartGame :: bool
  ra_canSelectGameMode :: bool

definition victorOf :: "CompletedGameSnapshot option \<Rightarrow> PlayerSnapshot list \<Rightarrow> PlayerSnapshot option" where
  "victorOf completedGame players =
     (let victorPlayerId = Option.bind completedGame (\<lambda>c.
            map_option ps_playerId (js_nth (game_players (done_game c)) (game_roundWinnerIndex (done_game c))))
      in List.find (\<lambda>player. Some (pl_playerId player) = victorPlayerId) players)"

definition connectedCount :: "PlayerSnapshot list \<Rightarrow> nat" where
  "connectedCount players = length (filter pl_connected players)"

definition isRoomHost :: "RoomSnapshot option \<Rightarrow> string option \<Rightarrow> bool" where
  "isRoomHost room currentPlayerId \<longleftrightarrow> (case room of None \<Rightarrow> False | Some r \<Rightarrow> currentPlayerId = Some (room_hostPlayerId r))"

definition canSubmitRoomCode :: "RoomActions \<Rightarrow> string \<Rightarrow> bool" where
  "canSubmitRoomCode actions roomCode \<longleftrightarrow> ra_canJoinRoom actions \<and> isCompleteRoomCode roomCode"

text \<open>The calls of the lobby: what an event of the page leads to, given the props of the render.\<close>

datatype LobbyCall = CreateRoomCall | JoinRoomCall string | StartGameCall | LeaveRoomCall | GameModeCall GameMode

datatype LobbyUiEvent = CreateClick | CodeSubmit | StartClick | LeaveClick | ModeToggle "GameMode list"

definition lobbyEventEnabled :: "RoomActions \<Rightarrow> RoomSnapshot option \<Rightarrow> string option \<Rightarrow> LobbyUiEvent \<Rightarrow> bool" where
  "lobbyEventEnabled actions room currentPlayerId e \<longleftrightarrow>
     (case e of
        CreateClick \<Rightarrow> room = None \<and> ra_canCreateRoom actions
      | CodeSubmit \<Rightarrow> room = None
      | StartClick \<Rightarrow> room \<noteq> None \<and> isRoomHost room currentPlayerId \<and> ra_canStartGame actions
      | LeaveClick \<Rightarrow> room \<noteq> None \<and> ra_canLeaveRoom actions
      | ModeToggle value \<Rightarrow> room \<noteq> None \<and> isRoomHost room currentPlayerId \<and> ra_canSelectGameMode actions)"

definition lobbyEventCall :: "RoomActions \<Rightarrow> string \<Rightarrow> LobbyUiEvent \<Rightarrow> LobbyCall option" where
  "lobbyEventCall actions roomCode e =
     (case e of
        CreateClick \<Rightarrow> Some CreateRoomCall
      | CodeSubmit \<Rightarrow> if canSubmitRoomCode actions roomCode then Some (JoinRoomCall (js_trim roomCode)) else None
      | StartClick \<Rightarrow> Some StartGameCall
      | LeaveClick \<Rightarrow> Some LeaveRoomCall
      | ModeToggle value \<Rightarrow> (case value of [] \<Rightarrow> None | nextMode # _ \<Rightarrow> Some (GameModeCall nextMode)))"

text \<open>The props the page passes down.\<close>

definition lobbyActions :: "string \<Rightarrow> bool \<Rightarrow> LobbyState \<Rightarrow> RoomActions" where
  "lobbyActions roomCode canSelectGameMode state = \<lparr>ra_canCreateRoom = canCreateRoom state,
     ra_canJoinRoom = canJoinRoom roomCode state, ra_canLeaveRoom = canLeaveRoom state,
     ra_canStartGame = canStartGame state, ra_canSelectGameMode = canSelectGameMode\<rparr>"

text \<open>A room is joined only from outside of a room, over an open connection and with a code of full length without
  blanks at its ends; a game is started only by the host.\<close>

lemma lobby_joins_with_full_code:
  assumes "lobbyEventCall (lobbyActions roomCode m state) roomCode e = Some (JoinRoomCall code)"
  shows "ls_connectionStatus state = Connected \<and> ls_room state = None \<and> length code = ROOM_CODE_LENGTH \<and>
    code = js_trim roomCode"
  using assms
  by (auto simp: lobbyEventCall_def lobbyActions_def canSubmitRoomCode_def canJoinRoom_def isCompleteRoomCode_def
      split: LobbyUiEvent.splits if_splits list.splits)

lemma host_starts:
  "lobbyEventEnabled actions room p e \<Longrightarrow> lobbyEventCall actions code e \<in> {Some StartGameCall, Some (GameModeCall g)} \<Longrightarrow>
     \<exists>r. room = Some r \<and> p = Some (room_hostPlayerId r)"
  by (auto simp: lobbyEventEnabled_def lobbyEventCall_def isRoomHost_def split: LobbyUiEvent.splits if_splits list.splits option.splits)

section \<open>Players and their menus\<close>

fun splitOn :: "char \<Rightarrow> string \<Rightarrow> string list" where
  "splitOn d [] = [[]]"
| "splitOn d (c # cs) =
     (if c = d then [] # splitOn d cs
      else case splitOn d cs of [] \<Rightarrow> [[c]] | x # xs \<Rightarrow> (c # x) # xs)"

text \<open>\<open>toUpperCase\<close> follows the Unicode tables of the runtime.\<close>

definition getUserInitials :: "(string \<Rightarrow> string) \<Rightarrow> string \<Rightarrow> string" where
  "getUserInitials toUpperCase name =
     (let names = splitOn CHR '' '' name; initials = map (\<lambda>n. toUpperCase (take 1 n)) names
      in concat (take 2 initials))"

datatype FriendLabel = AlreadyFriends | RequestSent | RequestReceived | AddFriendLabel

record AvatarMenu =
  am_profileOf :: string
  am_request :: "(FriendLabel \<times> bool) option"

definition isSelf :: "string option \<Rightarrow> SocialState option \<Rightarrow> PlayerSnapshot \<Rightarrow> bool" where
  "isSelf currentPlayerId social player \<longleftrightarrow>
     Some (pl_playerId player) = currentPlayerId \<or> pl_userId player = map_option social_userId social"

definition isFriend :: "SocialState option \<Rightarrow> PlayerSnapshot \<Rightarrow> bool" where
  "isFriend social player \<longleftrightarrow>
     (case social of None \<Rightarrow> False | Some x \<Rightarrow> \<exists>f \<in> set (social_friends x). Some (su_id f) = pl_userId player)"

definition requestSent :: "SocialState option \<Rightarrow> PlayerSnapshot \<Rightarrow> bool" where
  "requestSent social player \<longleftrightarrow>
     (case social of None \<Rightarrow> False | Some x \<Rightarrow> or_else (pl_userId player) [] \<in> set (social_outgoingFriendRequestUserIds x))"

definition requestReceived :: "SocialState option \<Rightarrow> PlayerSnapshot \<Rightarrow> bool" where
  "requestReceived social player \<longleftrightarrow>
     (case social of None \<Rightarrow> False
      | Some x \<Rightarrow> \<exists>r \<in> set (social_incomingFriendRequests x). Some (su_id (fr_user r)) = pl_userId player)"

text \<open>The menu of a player: none for a guest; the request, if offered, with its label and whether it is disabled.\<close>

definition avatarMenu :: "string option \<Rightarrow> SocialState option \<Rightarrow> bool \<Rightarrow> PlayerSnapshot \<Rightarrow> AvatarMenu option" where
  "avatarMenu currentPlayerId social canRequest player =
     (case pl_userId player of
        None \<Rightarrow> None
      | Some userId \<Rightarrow>
          if userId = [] then None
          else Some \<lparr>am_profileOf = userId,
             am_request =
               (if \<not> isSelf currentPlayerId social player \<and> canRequest
                then Some (if isFriend social player then AlreadyFriends
                           else if requestSent social player then RequestSent
                           else if requestReceived social player then RequestReceived else AddFriendLabel,
                           isFriend social player \<or> requestSent social player \<or> requestReceived social player)
                else None)\<rparr>)"

definition addFriend :: "bool \<Rightarrow> PlayerSnapshot \<Rightarrow> string option" where
  "addFriend canRequest player = (if pl_userId player \<in> {None, Some []} \<or> \<not> canRequest then None else pl_userId player)"

text \<open>A friend request is offered, and enabled, exactly to strangers with an account.\<close>

lemma request_only_to_strangers:
  "avatarMenu currentPlayerId social canRequest player = Some menu \<and> am_request menu = Some (label, False) \<longleftrightarrow>
     (\<exists>userId. pl_userId player = Some userId \<and> userId \<noteq> [] \<and> canRequest \<and> menu = \<lparr>am_profileOf = userId, am_request = Some (AddFriendLabel, False)\<rparr> \<and>
        label = AddFriendLabel \<and> addFriend canRequest player = Some userId \<and> Some (pl_playerId player) \<noteq> currentPlayerId \<and>
        (\<forall>x. social = Some x \<longrightarrow> social_userId x \<noteq> userId \<and> userId \<notin> set (map su_id (social_friends x)) \<and>
           userId \<notin> set (social_outgoingFriendRequestUserIds x) \<and>
           userId \<notin> set (map (su_id \<circ> fr_user) (social_incomingFriendRequests x))))"
  by (cases social)
    (auto simp: avatarMenu_def addFriend_def isSelf_def isFriend_def requestSent_def requestReceived_def
       split: option.splits if_splits)

record StripRow =
  sw_playerId :: string
  sw_showActiveTurn :: bool
  sw_forfeited :: bool
  sw_hostBadge :: bool
  sw_handCount :: "int option"

definition stripRow :: "bool \<Rightarrow> bool \<Rightarrow> GameSnapshot option \<Rightarrow> PlayerSnapshot \<Rightarrow> StripRow" where
  "stripRow showHostBadges showTurnIndicator game player =
     (let playerStates = (case game of None \<Rightarrow> [] | Some g \<Rightarrow> game_players g);
          gamePlayer = List.find (\<lambda>item. ps_playerId item = pl_playerId player) playerStates;
          isTurn = (Option.bind game (\<lambda>g. turn_playerId (game_turn g)) = Some (pl_playerId player));
          showActiveTurn = (showTurnIndicator \<and> isTurn \<and> \<not> pl_forfeited player)
      in \<lparr>sw_playerId = pl_playerId player, sw_showActiveTurn = showActiveTurn, sw_forfeited = pl_forfeited player,
          sw_hostBadge = (showHostBadges \<and> pl_isHost player), sw_handCount = map_option ps_handCount gamePlayer\<rparr>)"

definition playerStrip :: "bool \<Rightarrow> bool \<Rightarrow> GameSnapshot option \<Rightarrow> PlayerSnapshot list \<Rightarrow> StripRow list" where
  "playerStrip showHostBadges showTurnIndicator game players = map (stripRow showHostBadges showTurnIndicator game) players"

definition turnPlayerOf :: "GameSnapshot option \<Rightarrow> PlayerSnapshot list \<Rightarrow> PlayerSnapshot option" where
  "turnPlayerOf game players =
     List.find (\<lambda>player. Some (pl_playerId player) = Option.bind game (\<lambda>g. turn_playerId (game_turn g))) players"

definition showActiveTurnSummary :: "bool \<Rightarrow> GameSnapshot option \<Rightarrow> PlayerSnapshot list \<Rightarrow> bool" where
  "showActiveTurnSummary showTurnIndicator game players \<longleftrightarrow>
     showTurnIndicator \<and> (case turnPlayerOf game players of None \<Rightarrow> False | Some p \<Rightarrow> \<not> pl_forfeited p)"

text \<open>The summary and the list agree: with distinct players the row of exactly the player of the turn is marked, and
  there is one just when the summary is marked.\<close>

lemma active_turn_row:
  assumes "distinct (map pl_playerId players)"
  shows "length (filter sw_showActiveTurn (playerStrip b showTurn game players)) =
    (if showActiveTurnSummary showTurn game players then 1 else 0)"
proof -
  let ?t = "Option.bind game (\<lambda>g. turn_playerId (game_turn g))"
  have row: "sw_showActiveTurn (stripRow b showTurn game p) \<longleftrightarrow> showTurn \<and> ?t = Some (pl_playerId p) \<and> \<not> pl_forfeited p" for p
    by (simp add: stripRow_def Let_def)
  have "length (filter (\<lambda>p. showTurn \<and> ?t = Some (pl_playerId p) \<and> \<not> pl_forfeited p) players) =
      (if showTurn \<and> (case List.find (\<lambda>p. Some (pl_playerId p) = ?t) players of None \<Rightarrow> False | Some p \<Rightarrow> \<not> pl_forfeited p)
       then 1 else 0)"
    using assms
  proof (induction players)
    case (Cons p players)
    show ?case
    proof (cases "?t = Some (pl_playerId p)")
      case True
      with Cons.prems have "\<forall>q \<in> set players. ?t \<noteq> Some (pl_playerId q)" by auto
      then have "filter (\<lambda>p. showTurn \<and> ?t = Some (pl_playerId p) \<and> \<not> pl_forfeited p) players = []"
        by (auto simp: filter_empty_conv)
      with True show ?thesis by (cases showTurn) simp_all
    next
      case False
      with Cons show ?thesis by auto
    qed
  qed simp
  then show ?thesis
    by (simp add: playerStrip_def showActiveTurnSummary_def turnPlayerOf_def filter_map comp_def row)
qed

section \<open>Scores and emotes\<close>

definition scoreboardRows :: "GameSnapshot option \<Rightarrow> PlayerSnapshot list \<Rightarrow> (nat \<times> PlayerStateSnapshot \<times> PlayerSnapshot option) list" where
  "scoreboardRows game players =
     map (\<lambda>(index, playerState). (index + 1, playerState,
         List.find (\<lambda>player. pl_playerId player = ps_playerId playerState) players))
       (List.enumerate 0 (sort_key ps_totalPoints (case game of None \<Rightarrow> [] | Some g \<Rightarrow> game_players g)))"

text \<open>The scoreboard lists every player of the game once, the fewer points the better, ranked from 1.\<close>

lemma scoreboard_ranks:
  "map fst (scoreboardRows (Some g) players) = map Suc [0..<length (game_players g)] \<and>
   mset (map (fst \<circ> snd) (scoreboardRows (Some g) players)) = mset (game_players g) \<and>
   sorted (map (ps_totalPoints \<circ> fst \<circ> snd) (scoreboardRows (Some g) players))"
proof -
  have snds: "map (fst \<circ> snd) (scoreboardRows (Some g) players) = sort_key ps_totalPoints (game_players g)"
    by (simp add: scoreboardRows_def split_beta comp_def)
  have "map fst (scoreboardRows (Some g) players) = map Suc (map fst (List.enumerate 0 (sort_key ps_totalPoints (game_players g))))"
    unfolding map_map comp_def by (simp add: scoreboardRows_def split_beta comp_def)
  then have "map fst (scoreboardRows (Some g) players) = map Suc [0..<length (game_players g)]"
    by (simp only: map_fst_enumerate length_sort add_0)
  moreover have "sorted (map ps_totalPoints (map (fst \<circ> snd) (scoreboardRows (Some g) players)))"
    unfolding snds by simp
  then have "sorted (map (ps_totalPoints \<circ> fst \<circ> snd) (scoreboardRows (Some g) players))"
    by (simp add: comp_assoc)
  ultimately show ?thesis using snds by simp
qed

definition spectatorCountShown :: "int \<Rightarrow> bool" where
  "spectatorCountShown n \<longleftrightarrow> \<not> n \<le> 0"

text \<open>The emotes over a small screen; \<open>time\<close> is \<open>Date.parse\<close>.\<close>

definition activeEmotes :: "(string \<Rightarrow> int) \<Rightarrow> PlayerSnapshot list \<Rightarrow> (ActiveEmote \<times> string) list" where
  "activeEmotes time players =
     take 3 (sort_key (\<lambda>(emote, playerName). - time (emote_expiresAt emote))
       (List.map_filter (\<lambda>player. map_option (\<lambda>emote. (emote, pl_name player)) (pl_activeEmote player)) players))"

text \<open>At most three emotes are shown, and none that expires earlier than one left out.\<close>

lemma newest_emotes:
  assumes "p \<in> set players" and "pl_activeEmote p = Some e" and "(e, pl_name p) \<notin> set (activeEmotes time players)"
  shows "length (activeEmotes time players) = 3 \<and>
    (\<forall>(shown, n) \<in> set (activeEmotes time players). time (emote_expiresAt e) \<le> time (emote_expiresAt shown))"
proof -
  define all where "all = List.map_filter (\<lambda>player. map_option (\<lambda>emote. (emote, pl_name player)) (pl_activeEmote player)) players"
  define xs where "xs = sort_key (\<lambda>(emote, playerName). - time (emote_expiresAt emote)) all"
  have shown: "activeEmotes time players = take 3 xs" by (simp add: activeEmotes_def xs_def all_def)
  have "(e, pl_name p) \<in> set all" unfolding all_def List.map_filter_def using assms(1,2) by force
  then have "(e, pl_name p) \<in> set xs" by (simp add: xs_def)
  then have "(e, pl_name p) \<in> set (take 3 xs) \<union> set (drop 3 xs)"
    unfolding set_append [symmetric] append_take_drop_id .
  with assms(3) have d: "(e, pl_name p) \<in> set (drop 3 xs)" by (simp add: shown)
  then have "3 < length xs" by (cases "3 < length xs") auto
  moreover have "sorted (map (\<lambda>(emote, playerName). - time (emote_expiresAt emote)) (take 3 xs @ drop 3 xs))"
    by (simp add: xs_def)
  then have "\<forall>x \<in> set (take 3 xs). \<forall>y \<in> set (drop 3 xs).
      (\<lambda>(emote, playerName). - time (emote_expiresAt emote)) x \<le> (\<lambda>(emote, playerName). - time (emote_expiresAt emote)) y"
    unfolding map_append sorted_append by auto
  ultimately show ?thesis using d by (fastforce simp: shown)
qed

end
