(* ===== verification/Controls.thy ===== *)
theory Controls
  imports GameTypes JsText Machine
begin

text \<open>
  The menu of a running game (\<open>game-controls-menu.tsx\<close>) with its three dialogs, and the vote on ending the game
  (\<open>end-game-proposal-alert.tsx\<close>).
\<close>

section \<open>The menu\<close>

datatype OpenDialog = ForfeitDialog | EndDialog | ReportDialog

datatype ControlAction = ForfeitGame | RequestEndGame | ReportIssue string bool

text \<open>\<open>gm_running\<close> is the action whose answer is awaited; \<open>gm_room\<close> and \<open>gm_playerId\<close> are what the connection knows.\<close>

record Controls =
  gm_room :: "RoomSnapshot option"
  gm_playerId :: string
  gm_openDialog :: "OpenDialog option"
  gm_description :: string
  gm_isSubmitting :: bool
  gm_running :: "ControlAction option"

definition initialControls :: "RoomSnapshot option \<Rightarrow> string \<Rightarrow> Controls" where
  "initialControls room playerId = \<lparr>gm_room = room, gm_playerId = playerId, gm_openDialog = None, gm_description = [],
     gm_isSubmitting = False, gm_running = None\<rparr>"

definition isActiveGame :: "RoomSnapshot option \<Rightarrow> bool" where
  "isActiveGame room \<longleftrightarrow>
     (case room of None \<Rightarrow> False | Some r \<Rightarrow> room_phase r = ''in_progress'' \<or> room_phase r = ''round_over'')"

definition currentPlayerOf :: "RoomSnapshot option \<Rightarrow> string \<Rightarrow> PlayerSnapshot option" where
  "currentPlayerOf room playerId =
     Option.bind room (\<lambda>r. List.find (\<lambda>player. pl_playerId player = playerId) (room_players r))"

definition unforfeitedPlayers :: "RoomSnapshot option \<Rightarrow> PlayerSnapshot list" where
  "unforfeitedPlayers room = (case room of None \<Rightarrow> [] | Some r \<Rightarrow> filter (\<lambda>player. \<not> pl_forfeited player) (room_players r))"

definition otherUnforfeitedPlayers :: "RoomSnapshot option \<Rightarrow> string \<Rightarrow> PlayerSnapshot list" where
  "otherUnforfeitedPlayers room playerId = filter (\<lambda>player. pl_playerId player \<noteq> playerId) (unforfeitedPlayers room)"

definition hasActiveProposal :: "RoomSnapshot option \<Rightarrow> bool" where
  "hasActiveProposal room \<longleftrightarrow> Option.bind room room_endProposal \<noteq> None"

definition menuShown :: "Controls \<Rightarrow> bool" where
  "menuShown s \<longleftrightarrow> isActiveGame (gm_room s) \<and>
     (case currentPlayerOf (gm_room s) (gm_playerId s) of None \<Rightarrow> False | Some player \<Rightarrow> \<not> pl_forfeited player)"

text \<open>The consequence announced before a forfeit: the winner's name, or how many play on.\<close>

definition forfeitConsequence :: "RoomSnapshot option \<Rightarrow> string \<Rightarrow> string + nat" where
  "forfeitConsequence room playerId =
     (case otherUnforfeitedPlayers room playerId of [other] \<Rightarrow> Inl (pl_name other) | others \<Rightarrow> Inr (length others))"

definition runAction :: "ControlAction \<Rightarrow> Controls \<Rightarrow> Controls" where
  "runAction action s = s\<lparr>gm_isSubmitting := True, gm_running := Some action\<rparr>"

definition submitReport :: "bool \<Rightarrow> Controls \<Rightarrow> Controls" where
  "submitReport requestAbort s =
     (let cleanDescription = js_trim (gm_description s)
      in if cleanDescription = [] then s else runAction (ReportIssue cleanDescription requestAbort) s)"

text \<open>The answer: a success closes the dialog; a failure is shown elsewhere. After a report, either way, the text is
  cleared.\<close>

definition actionSettled :: "bool \<Rightarrow> Controls \<Rightarrow> Controls" where
  "actionSettled ok s =
     (let s1 = (if ok then s\<lparr>gm_openDialog := None\<rparr> else s);
          s2 = s1\<lparr>gm_isSubmitting := False, gm_running := None\<rparr>
      in case gm_running s of Some (ReportIssue d a) \<Rightarrow> s2\<lparr>gm_description := []\<rparr> | _ \<Rightarrow> s2)"

datatype ControlsEvent =
  RoomChanges "RoomSnapshot option" string | MenuItem OpenDialog | DialogChange OpenDialog bool
| DescriptionChange string | ForfeitClick | EndClick | ReportClick bool | ActionSettles bool

text \<open>The buttons are disabled while an action runs; the text field takes at most 500 characters.\<close>

fun controls_enabled :: "ControlsEvent \<Rightarrow> Controls \<Rightarrow> bool" where
  "controls_enabled (RoomChanges room playerId) s \<longleftrightarrow> True"
| "controls_enabled (MenuItem dialog) s \<longleftrightarrow> menuShown s \<and> (dialog = EndDialog \<longrightarrow> \<not> hasActiveProposal (gm_room s))"
| "controls_enabled (DialogChange dialog open) s \<longleftrightarrow> menuShown s \<and> gm_openDialog s = Some dialog"
| "controls_enabled (DescriptionChange text) s \<longleftrightarrow>
     menuShown s \<and> gm_openDialog s = Some ReportDialog \<and> \<not> gm_isSubmitting s \<and> length text \<le> 500"
| "controls_enabled ForfeitClick s \<longleftrightarrow> menuShown s \<and> gm_openDialog s = Some ForfeitDialog \<and> \<not> gm_isSubmitting s"
| "controls_enabled EndClick s \<longleftrightarrow> menuShown s \<and> gm_openDialog s = Some EndDialog \<and> \<not> gm_isSubmitting s"
| "controls_enabled (ReportClick requestAbort) s \<longleftrightarrow> menuShown s \<and> gm_openDialog s = Some ReportDialog \<and>
     \<not> gm_isSubmitting s \<and> (requestAbort \<longrightarrow> \<not> hasActiveProposal (gm_room s))"
| "controls_enabled (ActionSettles ok) s \<longleftrightarrow> gm_running s \<noteq> None"

fun controls_handle :: "ControlsEvent \<Rightarrow> Controls \<Rightarrow> Controls" where
  "controls_handle (RoomChanges room playerId) s = s\<lparr>gm_room := room, gm_playerId := playerId\<rparr>"
| "controls_handle (MenuItem dialog) s = s\<lparr>gm_openDialog := Some dialog\<rparr>"
| "controls_handle (DialogChange dialog open) s = s\<lparr>gm_openDialog := (if open then Some dialog else None)\<rparr>"
| "controls_handle (DescriptionChange text) s = s\<lparr>gm_description := text\<rparr>"
| "controls_handle ForfeitClick s = runAction ForfeitGame s"
| "controls_handle EndClick s = runAction RequestEndGame s"
| "controls_handle (ReportClick requestAbort) s = submitReport requestAbort s"
| "controls_handle (ActionSettles ok) s = actionSettled ok s"

text \<open>One action at a time; a report that is sent has a text without blanks at its ends, of at most 500
  characters.\<close>

definition clean :: "string \<Rightarrow> bool" where
  "clean d \<longleftrightarrow> d \<noteq> [] \<and> \<not> is_js_space (hd d) \<and> \<not> is_js_space (last d)"

definition controls_ok :: "Controls \<Rightarrow> bool" where
  "controls_ok s \<longleftrightarrow> gm_isSubmitting s = (gm_running s \<noteq> None) \<and> length (gm_description s) \<le> 500 \<and>
     (\<forall>d a. gm_running s = Some (ReportIssue d a) \<longrightarrow> clean d \<and> length d \<le> 500)"

lemma trim_clean:
  assumes t: "js_trim d \<noteq> []"
  shows "clean (js_trim d)"
proof -
  let ?b = "dropWhile is_js_space d"
  have r: "dropWhile is_js_space (rev ?b) \<noteq> []" using t unfolding js_trim_def by blast
  then have l: "\<not> is_js_space (last (js_trim d))"
    unfolding js_trim_def last_rev by (rule hd_dropWhile)
  have "?b \<noteq> []" using r by (metis dropWhile.simps(1) rev.simps(1))
  then have "\<not> is_js_space (hd ?b)" by (rule hd_dropWhile)
  moreover have "rev ?b = takeWhile is_js_space (rev ?b) @ dropWhile is_js_space (rev ?b)" by simp
  then have "?b = js_trim d @ rev (takeWhile is_js_space (rev ?b))"
    unfolding js_trim_def by (metis rev_append rev_rev_ident)
  then have "hd ?b = hd (js_trim d)" using t by (metis hd_append2)
  ultimately show ?thesis using t l by (simp add: clean_def)
qed

lemma trim_shorter: "length (js_trim d) \<le> length d"
  using length_dropWhile_le [of is_js_space "rev (dropWhile is_js_space d)"] length_dropWhile_le [of is_js_space d]
  by (simp add: js_trim_def)

lemma controls_ok_handle:
  assumes "controls_ok s" "controls_enabled e s"
  shows "controls_ok (controls_handle e s)"
proof (cases e)
  case (ReportClick requestAbort)
  with assms trim_clean [of "gm_description s"] order_trans [OF trim_shorter, of "gm_description s" 500] show ?thesis
    by (auto simp: controls_ok_def submitReport_def runAction_def Let_def)
next
  case (ActionSettles ok)
  with assms show ?thesis
    by (auto simp: controls_ok_def actionSettled_def Let_def split: option.splits ControlAction.splits)
qed (use assms in \<open>auto simp: controls_ok_def runAction_def\<close>)

interpretation controls: invariant "\<lambda>s. \<exists>room playerId. s = initialControls room playerId"
  "guarded_step controls_enabled controls_handle" controls_ok
  by unfold_locales (auto simp: guarded_step_def controls_ok_handle, simp add: controls_ok_def initialControls_def)

lemma reports_are_clean:
  assumes "reach (guarded_step controls_enabled controls_handle) (initialControls room playerId) s"
    and "gm_running s = Some (ReportIssue d a)"
  shows "clean d \<and> length d \<le> 500 \<and> \<not> controls_enabled (ReportClick b) s \<and> \<not> controls_enabled ForfeitClick s \<and>
    \<not> controls_enabled EndClick s"
proof -
  have "controls_ok s" using controls.run_inv [OF _ assms(1)] by blast
  with assms(2) show ?thesis by (simp add: controls_ok_def)
qed

text \<open>A report the server refuses, or that never reaches it, leaves the dialog open with an empty text: what the player
  wrote is lost.\<close>

lemma failed_report_loses_text:
  assumes "controls_enabled (ReportClick a) s" and "js_trim (gm_description s) \<noteq> []"
    and s': "s' = controls_handle (ActionSettles False) (controls_handle (ReportClick a) s)"
  shows "gm_openDialog s' = Some ReportDialog \<and> gm_description s' = []"
  using assms by (auto simp: submitReport_def runAction_def actionSettled_def Let_def)

text \<open>A success closes whatever dialog is open by then, also one opened after the action was sent.\<close>

lemma success_closes_any_dialog: "gm_openDialog (controls_handle (ActionSettles True) s) = None"
  by (auto simp: actionSettled_def Let_def split: option.split ControlAction.split)

section \<open>The vote on ending the game\<close>

record ProposalAlert =
  ea_proposal :: "EndGameProposalSnapshot option"
  ea_isSpectating :: bool
  ea_expiredProposalId :: "string option"
  ea_timer :: "(int \<times> string) option"
  ea_isVoting :: bool
  ea_votes :: "(string \<times> bool) list"
  ea_clock :: int
  ea_shownSince :: int

definition initialAlert :: "int \<Rightarrow> ProposalAlert" where
  "initialAlert now = \<lparr>ea_proposal = None, ea_isSpectating = False, ea_expiredProposalId = None, ea_timer = None,
     ea_isVoting = False, ea_votes = [], ea_clock = now, ea_shownSince = now\<rparr>"

definition alertShown :: "ProposalAlert \<Rightarrow> bool" where
  "alertShown s \<longleftrightarrow> \<not> ea_isSpectating s \<and>
     (case ea_proposal s of None \<Rightarrow> False | Some p \<Rightarrow> ea_expiredProposalId s \<noteq> Some (prop_id p))"

text \<open>The effect of a proposal in a new snapshot; \<open>time\<close> reads a date text.\<close>

definition proposalEffect :: "(string \<Rightarrow> int) \<Rightarrow> EndGameProposalSnapshot option \<Rightarrow> ProposalAlert \<Rightarrow> ProposalAlert" where
  "proposalEffect time proposal s =
     s\<lparr>ea_proposal := proposal, ea_shownSince := ea_clock s,
       ea_timer := (case proposal of
          None \<Rightarrow> None
        | Some p \<Rightarrow> Some (ea_clock s + max 0 (time (prop_expiresAt p) - ea_clock s), prop_id p))\<rparr>"

definition expiryTimerFires :: "ProposalAlert \<Rightarrow> ProposalAlert" where
  "expiryTimerFires s =
     (case ea_timer s of None \<Rightarrow> s | Some (at, i) \<Rightarrow> s\<lparr>ea_timer := None, ea_expiredProposalId := Some i\<rparr>)"

definition vote :: "bool \<Rightarrow> ProposalAlert \<Rightarrow> ProposalAlert" where
  "vote approve s =
     (case ea_proposal s of None \<Rightarrow> s
      | Some p \<Rightarrow> s\<lparr>ea_isVoting := True, ea_votes := ea_votes s @ [(prop_id p, approve)]\<rparr>)"

definition hasAgreed :: "string \<Rightarrow> ProposalAlert \<Rightarrow> bool" where
  "hasAgreed playerId s \<longleftrightarrow> (case ea_proposal s of None \<Rightarrow> False | Some p \<Rightarrow> playerId \<in> set (prop_agreedPlayerIds p))"

datatype AlertEvent =
  ProposalChanges "EndGameProposalSnapshot option" | SpectatingChanges bool | ExpiryFires | VoteClick bool | VoteSettles | AlertClock int

text \<open>A timer is due at its time and runs at most \<open>lag\<close> milliseconds later.\<close>

fun alert_enabled :: "string \<Rightarrow> int \<Rightarrow> AlertEvent \<Rightarrow> ProposalAlert \<Rightarrow> bool" where
  "alert_enabled playerId lag (ProposalChanges proposal) s \<longleftrightarrow> True"
| "alert_enabled playerId lag (SpectatingChanges spectating) s \<longleftrightarrow> True"
| "alert_enabled playerId lag ExpiryFires s \<longleftrightarrow> (case ea_timer s of None \<Rightarrow> False | Some (at, i) \<Rightarrow> at \<le> ea_clock s)"
| "alert_enabled playerId lag (VoteClick approve) s \<longleftrightarrow> alertShown s \<and> \<not> hasAgreed playerId s \<and> \<not> ea_isVoting s"
| "alert_enabled playerId lag VoteSettles s \<longleftrightarrow> ea_isVoting s"
| "alert_enabled playerId lag (AlertClock now) s \<longleftrightarrow>
     ea_clock s \<le> now \<and> (case ea_timer s of None \<Rightarrow> True | Some (at, i) \<Rightarrow> now \<le> at + lag)"

fun alert_handle :: "(string \<Rightarrow> int) \<Rightarrow> AlertEvent \<Rightarrow> ProposalAlert \<Rightarrow> ProposalAlert" where
  "alert_handle time (ProposalChanges proposal) s = proposalEffect time proposal s"
| "alert_handle time (SpectatingChanges spectating) s = s\<lparr>ea_isSpectating := spectating\<rparr>"
| "alert_handle time ExpiryFires s = expiryTimerFires s"
| "alert_handle time (VoteClick approve) s = vote approve s"
| "alert_handle time VoteSettles s = s\<lparr>ea_isVoting := False\<rparr>"
| "alert_handle time (AlertClock now) s = s\<lparr>ea_clock := now\<rparr>"

definition alert_ok :: "(string \<Rightarrow> int) \<Rightarrow> int \<Rightarrow> ProposalAlert \<Rightarrow> bool" where
  "alert_ok time lag s \<longleftrightarrow> ea_shownSince s \<le> ea_clock s \<and>
     (case ea_timer s of
        None \<Rightarrow> (\<forall>p. ea_proposal s = Some p \<longrightarrow> ea_expiredProposalId s = Some (prop_id p))
      | Some (at, i) \<Rightarrow> ea_clock s \<le> at + lag \<and>
          (\<exists>p. ea_proposal s = Some p \<and> i = prop_id p \<and> at = max (ea_shownSince s) (time (prop_expiresAt p))))"

lemma alert_ok_handle:
  assumes "0 \<le> lag" and "alert_ok time lag s" and "alert_enabled playerId lag e s"
  shows "alert_ok time lag (alert_handle time e s)"
proof (cases e)
  case (ProposalChanges proposal)
  with assms show ?thesis
    by (cases proposal) (auto simp: alert_ok_def proposalEffect_def alertShown_def max_def)
next
  case ExpiryFires
  with assms show ?thesis by (auto simp: alert_ok_def expiryTimerFires_def alertShown_def split: option.splits)
next
  case (VoteClick approve)
  with assms show ?thesis by (auto simp: alert_ok_def vote_def alertShown_def split: option.splits)
qed (use assms in \<open>auto simp: alert_ok_def alertShown_def split: option.splits\<close>)

interpretation proposal_alert: invariant "\<lambda>s. \<exists>now. s = initialAlert now"
  "guarded_step (alert_enabled playerId 20) (alert_handle time)" "alert_ok time 20" for playerId time
  by unfold_locales
    (auto simp: guarded_step_def alert_ok_handle, simp add: alert_ok_def initialAlert_def alertShown_def)

text \<open>While the vote is on the screen a timer is set for its expiry, at once if the proposal came too late; the timer
  takes the vote away, so it stays at most 20 milliseconds longer than it may, and only a player who has
  not agreed and has no vote under way can vote.\<close>

theorem proposal_disappears:
  assumes "reach (guarded_step (alert_enabled playerId 20) (alert_handle time)) (initialAlert now) s"
    and "alertShown s"
  shows "\<exists>p. ea_proposal s = Some p \<and> ea_clock s \<le> max (ea_shownSince s) (time (prop_expiresAt p)) + 20 \<and>
    ea_timer s = Some (max (ea_shownSince s) (time (prop_expiresAt p)), prop_id p) \<and>
    \<not> alertShown (alert_handle time ExpiryFires s)"
proof -
  have "alert_ok time 20 s" using proposal_alert.run_inv [OF _ assms(1)] by blast
  with assms(2) show ?thesis
    by (auto simp: alert_ok_def expiryTimerFires_def alertShown_def split: option.splits)
qed

end
