(* ===== verification/Browser.thy ===== *)
theory Browser
  imports Machine JsText Complex_Main
begin

text \<open>
  What the client does with the browser around the game: the clipboard (\<open>lib/clipboard.ts\<close>), preferences kept in the
  local storage (\<open>lib/reduced-motion.ts\<close>, \<open>lib/game-sounds.ts\<close>, \<open>theme-provider.tsx\<close>), the confetti
  (\<open>lib/confetti.ts\<close>) and the calls of the session (\<open>lib/auth-client.ts\<close>, \<open>lib/auth.ts\<close>, \<open>lib/auth-shared.ts\<close>).
\<close>

section \<open>The clipboard\<close>

text \<open>The page: which element has the focus, the text areas appended, and the clipboard. Element 0 stands for the
  helper; a browser is described by what its interfaces answer.\<close>

record Page =
  pa_focus :: "nat option"
  pa_helpers :: "string list"
  pa_clipboard :: "string option"

record ClipboardBrowser =
  cb_hasWriteText :: bool
  cb_writeTextOk :: bool
  cb_execCopy :: "bool option"

datatype CopyError = CopyRejected | CommandThrew

text \<open>\<open>cb_execCopy\<close> is the answer of the command, \<open>None\<close> when it throws. The \<open>finally\<close> part runs in every case; a
  helper takes the focus and its removal loses it.\<close>

definition copyTextWithSelection :: "ClipboardBrowser \<Rightarrow> string \<Rightarrow> Page \<Rightarrow> Page \<times> CopyError option" where
  "copyTextWithSelection b text p =
     (let activeElement = pa_focus p;
          selected = p\<lparr>pa_helpers := text # pa_helpers p, pa_focus := Some 0\<rparr>;
          outcome = (case cb_execCopy b of None \<Rightarrow> Some CommandThrew | Some False \<Rightarrow> Some CopyRejected | Some True \<Rightarrow> None);
          copied = (if outcome = None then selected\<lparr>pa_clipboard := Some (hd (pa_helpers selected))\<rparr> else selected);
          removed = copied\<lparr>pa_helpers := tl (pa_helpers copied), pa_focus := None\<rparr>
      in (case activeElement of None \<Rightarrow> removed | Some e \<Rightarrow> removed\<lparr>pa_focus := Some e\<rparr>, outcome))"

definition copyTextToClipboard :: "ClipboardBrowser \<Rightarrow> string \<Rightarrow> Page \<Rightarrow> Page \<times> CopyError option" where
  "copyTextToClipboard b text p =
     (if cb_hasWriteText b \<and> cb_writeTextOk b then (p\<lparr>pa_clipboard := Some text\<rparr>, None)
      else copyTextWithSelection b text p)"

text \<open>Whether copying works or not, the page is as before and the focus where it was; the text is in the clipboard
  exactly when no error is reported.\<close>

lemma copy_leaves_page:
  assumes "copyTextToClipboard b text p = (p', e)"
  shows "pa_focus p' = pa_focus p \<and> pa_helpers p' = pa_helpers p \<and>
    (e = None \<longrightarrow> pa_clipboard p' = Some text) \<and> (e \<noteq> None \<longrightarrow> pa_clipboard p' = pa_clipboard p) \<and>
    (e = None \<longleftrightarrow> cb_hasWriteText b \<and> cb_writeTextOk b \<or> cb_execCopy b = Some True)"
  using assms
  by (auto simp: copyTextToClipboard_def copyTextWithSelection_def Let_def split: if_splits option.splits bool.splits)

section \<open>Preferences\<close>

text \<open>The storage, the attribute of the document, the state of the sounds, and the calls of the listeners.\<close>

record Preferences =
  pf_storage :: "string \<rightharpoonup> string"
  pf_reduceAttribute :: bool
  pf_muted :: bool
  pf_listeners :: "nat list"
  pf_notified :: "nat list"

definition REDUCED_MOTION_PREFERENCE_KEY :: string where
  "REDUCED_MOTION_PREFERENCE_KEY = ''compositions.reduce-motion-enabled''"

definition SOUND_PREFERENCE_KEY :: string where
  "SOUND_PREFERENCE_KEY = ''compositions.game-sounds-enabled''"

definition boolText :: "bool \<Rightarrow> string" where
  "boolText b = (if b then ''true'' else ''false'')"

definition isReducedMotionPreferenceEnabled :: "Preferences \<Rightarrow> bool" where
  "isReducedMotionPreferenceEnabled p \<longleftrightarrow> pf_storage p REDUCED_MOTION_PREFERENCE_KEY = Some ''true''"

definition shouldReduceMotion :: "bool \<Rightarrow> Preferences \<Rightarrow> bool" where
  "shouldReduceMotion mediaMatches p \<longleftrightarrow> isReducedMotionPreferenceEnabled p \<or> mediaMatches"

definition subscribeTo :: "nat \<Rightarrow> Preferences \<Rightarrow> Preferences" where
  "subscribeTo listener p =
     (if listener \<in> set (pf_listeners p) then p else p\<lparr>pf_listeners := pf_listeners p @ [listener]\<rparr>)"

definition unsubscribeFrom :: "nat \<Rightarrow> Preferences \<Rightarrow> Preferences" where
  "unsubscribeFrom listener p = p\<lparr>pf_listeners := filter (\<lambda>l. l \<noteq> listener) (pf_listeners p)\<rparr>"

text \<open>A change in another window: only the key of the preference, or another state of the media query, calls the
  listener.\<close>

definition handleStorage :: "nat \<Rightarrow> string option \<Rightarrow> Preferences \<Rightarrow> Preferences" where
  "handleStorage listener key p =
     (if key = Some REDUCED_MOTION_PREFERENCE_KEY then p\<lparr>pf_notified := pf_notified p @ [listener]\<rparr> else p)"

definition applyReducedMotionPreference :: "Preferences \<Rightarrow> Preferences" where
  "applyReducedMotionPreference p = p\<lparr>pf_reduceAttribute := isReducedMotionPreferenceEnabled p\<rparr>"

definition notifyAll :: "Preferences \<Rightarrow> Preferences" where
  "notifyAll p = p\<lparr>pf_notified := pf_notified p @ pf_listeners p\<rparr>"

definition setReducedMotionPreferenceEnabled :: "bool \<Rightarrow> Preferences \<Rightarrow> Preferences" where
  "setReducedMotionPreferenceEnabled enabled p =
     notifyAll (applyReducedMotionPreference
       (p\<lparr>pf_storage := (pf_storage p)(REDUCED_MOTION_PREFERENCE_KEY \<mapsto> boolText enabled)\<rparr>))"

definition reducedMotionScript :: "Preferences \<Rightarrow> Preferences" where
  "reducedMotionScript p =
     (if pf_storage p ''compositions.reduce-motion-enabled'' = Some ''true'' then p\<lparr>pf_reduceAttribute := True\<rparr> else p)"

definition areGameSoundsEnabled :: "Preferences \<Rightarrow> bool" where
  "areGameSoundsEnabled p \<longleftrightarrow> pf_storage p SOUND_PREFERENCE_KEY \<noteq> Some ''false''"

definition initSounds :: "Preferences \<Rightarrow> Preferences" where
  "initSounds p = p\<lparr>pf_muted := \<not> areGameSoundsEnabled p\<rparr>"

definition setGameSoundsEnabled :: "bool \<Rightarrow> Preferences \<Rightarrow> Preferences" where
  "setGameSoundsEnabled enabled p =
     notifyAll (p\<lparr>pf_storage := (pf_storage p)(SOUND_PREFERENCE_KEY \<mapsto> boolText enabled), pf_muted := \<not> enabled\<rparr>)"

text \<open>Preferences survive a reload: the start of the page brings back what was set last, whatever was set before, and
  neither preference touches the other.\<close>

definition reload :: "Preferences \<Rightarrow> Preferences" where
  "reload p = initSounds (reducedMotionScript
     \<lparr>pf_storage = pf_storage p, pf_reduceAttribute = False, pf_muted = False, pf_listeners = [], pf_notified = []\<rparr>)"

definition consistent :: "Preferences \<Rightarrow> bool" where
  "consistent p \<longleftrightarrow> pf_reduceAttribute p = isReducedMotionPreferenceEnabled p \<and> pf_muted p = (\<not> areGameSoundsEnabled p)"

datatype PreferenceEvent = SetMotion bool | SetSounds bool | Subscribes nat | Unsubscribes nat | Reloads

fun preference_handle :: "PreferenceEvent \<Rightarrow> Preferences \<Rightarrow> Preferences" where
  "preference_handle (SetMotion b) p = setReducedMotionPreferenceEnabled b p"
| "preference_handle (SetSounds b) p = setGameSoundsEnabled b p"
| "preference_handle (Subscribes l) p = subscribeTo l p"
| "preference_handle (Unsubscribes l) p = unsubscribeFrom l p"
| "preference_handle Reloads p = reload p"

lemma keys_differ: "REDUCED_MOTION_PREFERENCE_KEY \<noteq> SOUND_PREFERENCE_KEY"
  by (simp add: REDUCED_MOTION_PREFERENCE_KEY_def SOUND_PREFERENCE_KEY_def)

lemma reload_consistent: "consistent (reload p)"
  by (simp add: reload_def consistent_def initSounds_def reducedMotionScript_def isReducedMotionPreferenceEnabled_def
      areGameSoundsEnabled_def REDUCED_MOTION_PREFERENCE_KEY_def)

lemma consistent_handle: "consistent p \<Longrightarrow> consistent (preference_handle e p)"
  by (cases e)
    (auto simp: reload_consistent, auto simp: consistent_def setReducedMotionPreferenceEnabled_def setGameSoundsEnabled_def notifyAll_def
       applyReducedMotionPreference_def isReducedMotionPreferenceEnabled_def areGameSoundsEnabled_def boolText_def
       subscribeTo_def unsubscribeFrom_def keys_differ keys_differ [symmetric])

interpretation preferences: invariant "\<lambda>p. \<exists>q. p = reload q" "guarded_step (\<lambda>e p. True) preference_handle" consistent
  by unfold_locales (auto simp: guarded_step_def consistent_handle reload_consistent)

text \<open>In every run the attribute of the document and the sounds follow the stored preferences, and the preference set
  last is what the page reads after any further events on the other one, a reload included.\<close>

lemma preferences_follow:
  assumes "reach (guarded_step (\<lambda>e p. True) preference_handle) (reload q) p"
  shows "consistent p"
    and "isReducedMotionPreferenceEnabled (setReducedMotionPreferenceEnabled b p) = b"
    and "areGameSoundsEnabled (setGameSoundsEnabled b p) = b"
    and "\<forall>x. e \<noteq> SetMotion x \<Longrightarrow> isReducedMotionPreferenceEnabled (preference_handle e p) = isReducedMotionPreferenceEnabled p"
    and "\<forall>x. e \<noteq> SetSounds x \<Longrightarrow> areGameSoundsEnabled (preference_handle e p) = areGameSoundsEnabled p"
    and "set (pf_notified (setGameSoundsEnabled b p)) \<supseteq> set (pf_listeners p)"
proof -
  show "consistent p" using preferences.run_inv [OF _ assms] by blast
  show "isReducedMotionPreferenceEnabled (setReducedMotionPreferenceEnabled b p) = b"
    "areGameSoundsEnabled (setGameSoundsEnabled b p) = b"
    "set (pf_notified (setGameSoundsEnabled b p)) \<supseteq> set (pf_listeners p)"
    by (simp_all add: isReducedMotionPreferenceEnabled_def setReducedMotionPreferenceEnabled_def notifyAll_def
        applyReducedMotionPreference_def areGameSoundsEnabled_def setGameSoundsEnabled_def boolText_def)
  note defs = isReducedMotionPreferenceEnabled_def setReducedMotionPreferenceEnabled_def notifyAll_def
        applyReducedMotionPreference_def areGameSoundsEnabled_def setGameSoundsEnabled_def
        subscribeTo_def unsubscribeFrom_def reload_def initSounds_def reducedMotionScript_def
  show "\<forall>x. e \<noteq> SetMotion x \<Longrightarrow> isReducedMotionPreferenceEnabled (preference_handle e p) = isReducedMotionPreferenceEnabled p"
    by (cases e) (auto simp: defs keys_differ)
  show "\<forall>x. e \<noteq> SetSounds x \<Longrightarrow> areGameSoundsEnabled (preference_handle e p) = areGameSoundsEnabled p"
    by (cases e) (auto simp: defs keys_differ [symmetric])
qed

text \<open>The theme: what the storage holds, or the system's.\<close>

datatype Theme = DarkTheme | LightTheme | SystemTheme

definition resolveTheme :: "string option \<Rightarrow> Theme" where
  "resolveTheme stored =
     (if stored = Some ''light'' then LightTheme else if stored = Some ''dark'' then DarkTheme else SystemTheme)"

definition appliedTheme :: "bool \<Rightarrow> Theme \<Rightarrow> Theme" where
  "appliedTheme prefersDark theme =
     (if theme = SystemTheme then (if prefersDark then DarkTheme else LightTheme) else theme)"

definition themeText :: "Theme \<Rightarrow> string" where
  "themeText theme = (case theme of DarkTheme \<Rightarrow> ''dark'' | LightTheme \<Rightarrow> ''light'' | SystemTheme \<Rightarrow> ''system'')"

text \<open>The script that runs before the page is drawn.\<close>

definition themeScript :: "bool \<Rightarrow> string option \<Rightarrow> Theme" where
  "themeScript prefersDark stored =
     (let t = (if stored \<noteq> Some ''light'' \<and> stored \<noteq> Some ''dark'' \<and> stored \<noteq> Some ''system'' then ''system'' else the stored)
      in if t = ''system'' then (if prefersDark then DarkTheme else LightTheme)
         else if t = ''dark'' then DarkTheme else LightTheme)"

lemma theme_survives_reload: "resolveTheme (Some (themeText theme)) = theme"
  by (cases theme) (simp_all add: resolveTheme_def themeText_def)

lemma script_shows_theme: "themeScript prefersDark stored = appliedTheme prefersDark (resolveTheme stored)"
  by (auto simp: themeScript_def appliedTheme_def resolveTheme_def Let_def)

section \<open>Confetti\<close>

text \<open>The bursts of a celebration, with their numbers of particles, and the times of the bursts of a stream.\<close>

definition celebrationBursts :: "bool \<Rightarrow> nat \<Rightarrow> int list" where
  "celebrationBursts reduceMotion count' =
     (if reduceMotion then [] else map (\<lambda>particleRatio :: rat. \<lfloor>of_nat count' * particleRatio\<rfloor>) [1/4, 1/5, 7/20, 1/10, 1/10])"

definition isDarkPage :: "string list \<Rightarrow> bool \<Rightarrow> bool" where
  "isDarkPage classes prefersDark =
     (if ''dark'' \<in> set classes then True else if ''light'' \<in> set classes then False else prefersDark)"

text \<open>The stream: a burst of 8 on each side, then one of 4 every 110 milliseconds until the interval is cleared.\<close>

definition streamBursts :: "bool \<Rightarrow> nat \<Rightarrow> nat \<Rightarrow> (nat \<times> nat) list" where
  "streamBursts reduceMotion delayMs durationMs =
     (if reduceMotion then []
      else (delayMs, 8) # map (\<lambda>i. (delayMs + 110 * (i + 1), 4)) [0..<durationMs div 110])"

lemma celebration_particles: "sum_list (celebrationBursts False n) \<le> int n"
proof -
  have f: "(of_int \<lfloor>x\<rfloor> :: rat) \<le> x" for x by simp
  have "(of_int (sum_list (celebrationBursts False n)) :: rat) \<le> of_nat n"
    using f [of "of_nat n / 4"] f [of "of_nat n / 5"] f [of "of_nat n * 7 / 20"] f [of "of_nat n / 10"]
    by (simp add: celebrationBursts_def)
  then show ?thesis by (metis of_int_le_iff of_int_of_nat_eq)
qed

lemma stream_ends:
  "(t, n) \<in> set (streamBursts reduce delayMs durationMs) \<Longrightarrow> delayMs \<le> t \<and> t \<le> delayMs + durationMs"
proof -
  have "110 * (i + 1) \<le> durationMs" if "i < durationMs div 110" for i
    using that by (metis Suc_eq_plus1 Suc_leI less_eq_div_iff_mult_less_eq mult.commute zero_less_numeral)
  then show "(t, n) \<in> set (streamBursts reduce delayMs durationMs) \<Longrightarrow> delayMs \<le> t \<and> t \<le> delayMs + durationMs"
    by (auto simp: streamBursts_def split: if_splits)
qed

section \<open>Calls of the session\<close>

record AuthSession =
  as_id :: string
  as_name :: string
  as_email :: string
  as_image :: string
  as_isAdmin :: bool
  as_onboardingVersion :: int
  as_requiredOnboardingVersion :: int

datatype AuthError = MissingServerUrl | SessionFailed int | SignOutFailed int | OnboardingFailed int | UnsupportedProvider string

text \<open>\<open>resolve\<close> resolves a path against the address of the server.\<close>

definition authURL :: "(string \<Rightarrow> string \<Rightarrow> string) \<Rightarrow> string \<Rightarrow> string option \<Rightarrow> AuthError + string" where
  "authURL resolve path serverURL =
     (case serverURL of None \<Rightarrow> Inl MissingServerUrl
      | Some url \<Rightarrow> if url = [] then Inl MissingServerUrl else Inr (resolve path url))"

definition okStatus :: "int \<Rightarrow> bool" where "okStatus status \<longleftrightarrow> 200 \<le> status \<and> status \<le> 299"

text \<open>A call: its address, then the answer's status and body.\<close>

definition readSession ::
  "(string \<Rightarrow> string \<Rightarrow> string) \<Rightarrow> string option \<Rightarrow> int \<Rightarrow> AuthSession option \<Rightarrow> AuthError + AuthSession option" where
  "readSession resolve serverURL status body =
     (case authURL resolve ''/auth/session'' serverURL of
        Inl e \<Rightarrow> Inl e | Inr url \<Rightarrow> if okStatus status then Inr body else Inl (SessionFailed status))"

definition signOut :: "(string \<Rightarrow> string \<Rightarrow> string) \<Rightarrow> string option \<Rightarrow> int \<Rightarrow> AuthError option" where
  "signOut resolve serverURL status =
     (case authURL resolve ''/auth/logout'' serverURL of
        Inl e \<Rightarrow> Some e | Inr url \<Rightarrow> if okStatus status then None else Some (SignOutFailed status))"

definition completeOnboarding :: "(string \<Rightarrow> string \<Rightarrow> string) \<Rightarrow> string option \<Rightarrow> int \<Rightarrow> AuthError option" where
  "completeOnboarding resolve serverURL status =
     (case authURL resolve ''/auth/onboarding/complete'' serverURL of
        Inl e \<Rightarrow> Some e | Inr url \<Rightarrow> if okStatus status then None else Some (OnboardingFailed status))"

text \<open>The address assigned to the window, with the parameter \<open>returnTo\<close> if one is given; \<open>withParam\<close> adds it.\<close>

definition signInSocial ::
  "(string \<Rightarrow> string \<Rightarrow> string) \<Rightarrow> (string \<Rightarrow> string \<Rightarrow> string) \<Rightarrow> string option \<Rightarrow> string \<Rightarrow> string option \<Rightarrow> AuthError + string" where
  "signInSocial resolve withParam serverURL provider returnTo =
     (if provider \<noteq> ''google'' then Inl (UnsupportedProvider provider)
      else case authURL resolve ''/auth/google'' serverURL of
        Inl e \<Rightarrow> Inl e
      | Inr url \<Rightarrow> Inr (case returnTo of None \<Rightarrow> url | Some r \<Rightarrow> if r = [] then url else withParam r url))"

text \<open>The headers of the request made on the server: the cookie only if there is one.\<close>

definition sessionHeaders :: "string option \<Rightarrow> (string \<times> string) list" where
  "sessionHeaders cookie =
     (case cookie of None \<Rightarrow> [(''accept'', ''application/json'')]
      | Some c \<Rightarrow> if c = [] then [(''accept'', ''application/json'')]
          else [(''cookie'', c), (''accept'', ''application/json'')])"

definition resolveGameConnectionAuth :: "AuthSession option \<Rightarrow> (string \<times> string \<times> string) option" where
  "resolveGameConnectionAuth session = map_option (\<lambda>s. (as_id s, as_name s, as_email s)) session"

text \<open>Without an address of the server every call fails before a request is made, and an answer is used only with a
  status of success.\<close>

lemma session_needs_server:
  assumes "serverURL \<in> {None, Some []}"
  shows "readSession resolve serverURL status body = Inl MissingServerUrl"
    "signOut resolve serverURL status = Some MissingServerUrl"
    "completeOnboarding resolve serverURL status = Some MissingServerUrl"
    "signInSocial resolve withParam serverURL ''google'' returnTo = Inl MissingServerUrl"
  using assms by (auto simp: readSession_def signOut_def completeOnboarding_def signInSocial_def authURL_def)

lemma session_success:
  "readSession resolve serverURL status body = Inr session \<Longrightarrow> okStatus status \<and> session = body"
  by (auto simp: readSession_def split: sum.splits if_splits)

end
