(* ===== verification/Routes.thy ===== *)
theory Routes
  imports Browser Profile GamePage
begin

text \<open>
  The routes of the application (\<open>routes/*.tsx\<close>): what an address must hold, who may see a page, and where the others
  are sent; the page a visit ends on. Also the frame around the pages: the sidebar that keeps its state in a cookie
  (\<open>ui/sidebar.tsx\<close>, \<open>app-sidebar.tsx\<close>), the connection that follows the session, and the menu of the account.
  The router library is a parameter: which route an address has, its search parameters, and the addresses it makes.
\<close>

section \<open>What the addresses hold\<close>

text \<open>A search parameter as the router gives it: a text, or another value it has read from the address.\<close>

datatype SearchValue = TextValue string | OtherValue

datatype Route = SignInRoute | HomeRoute | AdminRoute | DevUiRoute | LeaderboardRoute | PlayerRoute string

record Router =
  rt_route :: "string \<Rightarrow> Route option"
  rt_pathname :: "string \<Rightarrow> string"
  rt_param :: "string \<Rightarrow> string \<Rightarrow> SearchValue option"
  rt_to :: "string \<Rightarrow> string"
  rt_signIn :: "string \<Rightarrow> string"

definition internalReturnTo :: "string \<Rightarrow> bool" where
  "internalReturnTo value \<longleftrightarrow> prefix ''/'' value \<and> \<not> prefix ''//'' value \<and> CHR 0x5C \<notin> set value"

definition safeRedirectOptions :: "string option \<Rightarrow> string" where
  "safeRedirectOptions returnTo =
     (case returnTo of Some value \<Rightarrow> if internalReturnTo value then value else ''/'' | None \<Rightarrow> ''/'')"

text \<open>\<open>validateSearch\<close> of the routes; \<open>None\<close> is the error of the schema.\<close>

definition signInSearch :: "SearchValue option \<Rightarrow> string option option" where
  "signInSearch param =
     (case param of None \<Rightarrow> Some None
      | Some (TextValue value) \<Rightarrow> if internalReturnTo value then Some (Some value) else None
      | Some OtherValue \<Rightarrow> None)"

definition homeSearch :: "(string \<Rightarrow> string) \<Rightarrow> SearchValue option \<Rightarrow> string option option" where
  "homeSearch toUpperCase param =
     (case param of None \<Rightarrow> Some None
      | Some (TextValue value) \<Rightarrow>
          (let room = js_trim value in
           if 1 \<le> length room \<and> length room \<le> 6 then Some (Some (toUpperCase room)) else None)
      | Some OtherValue \<Rightarrow> None)"

definition devUiView :: "SearchValue option \<Rightarrow> bool" where
  "devUiView param \<longleftrightarrow> param = Some (TextValue ''elo'')"

definition devUiState :: "SearchValue option \<Rightarrow> string option" where
  "devUiState param =
     (case param of Some (TextValue state) \<Rightarrow> if state \<in> {''empty'', ''placement''} then Some state else None
      | _ \<Rightarrow> None)"

section \<open>Guards and loaders\<close>

text \<open>
  What the server answers: the session (or the error of reading it), whether the bug reports can be loaded, and the two
  calls of a profile, \<open>None\<close> being a player that does not exist.
\<close>

record Backend =
  be_session :: "AuthError + AuthSession option"
  be_reportsLoad :: bool
  be_profile :: "string \<Rightarrow> LoadError + PlayerProfile option"
  be_history :: "string \<Rightarrow> LoadError + PlayerGameHistory"

datatype Shown =
    SignInShown "string option"
  | HomeShown "string option"
  | AdminShown
  | DevGameUiShown
  | DevEloUiShown "string option"
  | LeaderboardShown string
  | PlayerShown PlayerProfile PlayerGameHistory
  | NotFoundShown
  | ErrorShown

text \<open>One visit: the address the visitor is sent to, or what is shown.\<close>

definition visitSignIn :: "Router \<Rightarrow> AuthSession option \<Rightarrow> string \<Rightarrow> string + Shown" where
  "visitSignIn router session href =
     (case signInSearch (rt_param router href ''returnTo'') of
        None \<Rightarrow> Inr ErrorShown
      | Some returnTo \<Rightarrow>
          if session \<noteq> None then Inl (rt_to router (safeRedirectOptions returnTo)) else Inr (SignInShown returnTo))"

definition isDevUi :: "Router \<Rightarrow> bool \<Rightarrow> string \<Rightarrow> bool" where
  "isDevUi router dev href \<longleftrightarrow> dev \<and> rt_pathname router href = ''/dev-ui''"

definition visitHome :: "Router \<Rightarrow> (string \<Rightarrow> string) \<Rightarrow> string \<Rightarrow> string + Shown" where
  "visitHome router toUpperCase href =
     (case homeSearch toUpperCase (rt_param router href ''room'') of
        None \<Rightarrow> Inr ErrorShown | Some room \<Rightarrow> Inr (HomeShown room))"

definition isAdminSession :: "AuthSession option \<Rightarrow> bool" where
  "isAdminSession session \<longleftrightarrow> (case session of None \<Rightarrow> False | Some s \<Rightarrow> as_isAdmin s)"

definition visitAdmin :: "Router \<Rightarrow> Backend \<Rightarrow> AuthSession option \<Rightarrow> string + Shown" where
  "visitAdmin router backend session =
     (if \<not> isAdminSession session then Inl (rt_to router ''/'')
      else if be_reportsLoad backend then Inr AdminShown else Inr ErrorShown)"

definition visitDevUi :: "Router \<Rightarrow> bool \<Rightarrow> string \<Rightarrow> string + Shown" where
  "visitDevUi router dev href =
     (if \<not> dev then Inl (rt_to router ''/'')
      else if devUiView (rt_param router href ''view'')
      then Inr (DevEloUiShown (devUiState (rt_param router href ''state'')))
      else Inr DevGameUiShown)"

definition visitLeaderboard :: "Router \<Rightarrow> AuthSession option \<Rightarrow> string + Shown" where
  "visitLeaderboard router session =
     (case session of None \<Rightarrow> Inl (rt_to router ''/sign-in'')
      | Some s \<Rightarrow> if as_id s = [] then Inl (rt_to router ''/sign-in'') else Inr (LeaderboardShown (as_id s)))"

text \<open>Both calls of a profile are awaited; a failed profile comes before a missing one, and that before the history.\<close>

definition visitPlayer :: "Backend \<Rightarrow> string \<Rightarrow> string + Shown" where
  "visitPlayer backend playerId =
     (case be_profile backend playerId of
        Inl _ \<Rightarrow> Inr ErrorShown
      | Inr None \<Rightarrow> Inr NotFoundShown
      | Inr (Some profile) \<Rightarrow>
          (case be_history backend playerId of
             Inl _ \<Rightarrow> Inr ErrorShown | Inr history \<Rightarrow> Inr (PlayerShown profile history)))"

text \<open>The pages below \<open>_protected\<close>: its own guard runs before what the page checks.\<close>

definition visitProtected ::
  "Router \<Rightarrow> (string \<Rightarrow> string) \<Rightarrow> bool \<Rightarrow> Backend \<Rightarrow> AuthSession option \<Rightarrow> Route \<Rightarrow> string \<Rightarrow> string + Shown" where
  "visitProtected router toUpperCase dev backend session route href =
     (if session = None \<and> \<not> isDevUi router dev href then Inl (rt_signIn router href)
      else case route of
        AdminRoute \<Rightarrow> visitAdmin router backend session
      | DevUiRoute \<Rightarrow> visitDevUi router dev href
      | LeaderboardRoute \<Rightarrow> visitLeaderboard router session
      | PlayerRoute playerId \<Rightarrow> visitPlayer backend playerId
      | _ \<Rightarrow> visitHome router toUpperCase href)"

definition visit :: "Router \<Rightarrow> (string \<Rightarrow> string) \<Rightarrow> bool \<Rightarrow> Backend \<Rightarrow> string \<Rightarrow> string + Shown" where
  "visit router toUpperCase dev backend href =
     (case be_session backend of
        Inl _ \<Rightarrow> Inr ErrorShown
      | Inr session \<Rightarrow>
          (case rt_route router href of
             None \<Rightarrow> Inr NotFoundShown
           | Some SignInRoute \<Rightarrow> visitSignIn router session href
           | Some route \<Rightarrow> visitProtected router toUpperCase dev backend session route href))"

text \<open>A visit goes on at the address it is sent to.\<close>

partial_function (option) navigate ::
  "Router \<Rightarrow> (string \<Rightarrow> string) \<Rightarrow> bool \<Rightarrow> Backend \<Rightarrow> string \<Rightarrow> Shown option" where
  "navigate router toUpperCase dev backend href =
     (case visit router toUpperCase dev backend href of
        Inr shown \<Rightarrow> Some shown
      | Inl next \<Rightarrow> navigate router toUpperCase dev backend next)"

section \<open>Every visit ends at a page the visitor may see\<close>



lemmas visit_defs = visit_def visitSignIn_def visitProtected_def visitHome_def visitAdmin_def visitDevUi_def
  visitLeaderboard_def visitPlayer_def














text \<open>A link to a room opens the lobby with its code exactly when the router reads the code as a text.\<close>

lemma room_link:
  assumes "rt_route router link = Some HomeRoute" and "be_session backend = Inr (Some session)"
    and "rt_param router link ''room'' = Some value" and "length code = 6" and "js_trim code = code"
    and "value = TextValue code \<or> value = OtherValue"
  shows "navigate router toUpperCase dev backend link =
    Some (if value = TextValue code then HomeShown (Some (toUpperCase code)) else ErrorShown)"
  using assms by (auto simp: navigate.simps [of _ _ _ _ link] visit_defs homeSearch_def)

section \<open>A router for the witnesses\<close>








section \<open>The properties\<close>




end
