(* ===== verification/Frame.thy ===== *)
theory Frame
  imports Routes Social Machine
begin

text \<open>
  The frame around the pages: the sidebar that keeps its state in a cookie (\<open>ui/sidebar.tsx\<close>,
  \<open>hooks/use-mobile.ts\<close>), what stands in it (\<open>app-sidebar.tsx\<close>), the connection that follows the session
  (\<open>auto-connect-websocket.tsx\<close>), signing out (\<open>user-dropdown.tsx\<close>) and the description of a profile in the head of
  its page.
\<close>

section \<open>The sidebar\<close>

text \<open>\<open>sb_cookie\<close> is the value of \<open>sidebar_state\<close> that the browser keeps; \<open>sb_innerWidth\<close> is what the effect of
  \<open>useIsMobile\<close> has read last, \<open>None\<close> before its first run.\<close>

record Sidebar =
  sb_open :: bool
  sb_openMobile :: bool
  sb_innerWidth :: "int option"
  sb_cookie :: "string option"

definition MOBILE_BREAKPOINT :: int where "MOBILE_BREAKPOINT = 768"

definition isMobileView :: "Sidebar \<Rightarrow> bool" where
  "isMobileView s \<longleftrightarrow> (case sb_innerWidth s of None \<Rightarrow> False | Some width \<Rightarrow> width < MOBILE_BREAKPOINT)"

definition sidebarOpens :: "string option \<Rightarrow> Sidebar" where
  "sidebarOpens cookie =
     \<lparr>sb_open = (cookie = Some ''true''), sb_openMobile = False, sb_innerWidth = None, sb_cookie = cookie\<rparr>"

definition setSidebarOpen :: "bool \<Rightarrow> Sidebar \<Rightarrow> Sidebar" where
  "setSidebarOpen value s = s\<lparr>sb_open := value, sb_cookie := Some (boolText value)\<rparr>"

definition toggleSidebar :: "Sidebar \<Rightarrow> Sidebar" where
  "toggleSidebar s =
     (if isMobileView s then s\<lparr>sb_openMobile := \<not> sb_openMobile s\<rparr> else setSidebarOpen (\<not> sb_open s) s)"

definition SIDEBAR_KEYBOARD_SHORTCUT :: string where "SIDEBAR_KEYBOARD_SHORTCUT = ''b''"

definition sidebarKeyDown :: "string \<Rightarrow> bool \<Rightarrow> bool \<Rightarrow> Sidebar \<Rightarrow> Sidebar" where
  "sidebarKeyDown eventKey metaKey ctrlKey s =
     (if eventKey = SIDEBAR_KEYBOARD_SHORTCUT \<and> (metaKey \<or> ctrlKey) then toggleSidebar s else s)"

definition closeMobileSidebar :: "Sidebar \<Rightarrow> Sidebar" where
  "closeMobileSidebar s = s\<lparr>sb_openMobile := False\<rparr>"

text \<open>What the visitor sees of it: on a small screen a sheet, otherwise a bar that is expanded or shows only icons.\<close>

datatype SidebarLook = SheetLook bool | ExpandedLook | CollapsedLook

definition sidebarLook :: "Sidebar \<Rightarrow> SidebarLook" where
  "sidebarLook s =
     (if isMobileView s then SheetLook (sb_openMobile s) else if sb_open s then ExpandedLook else CollapsedLook)"

text \<open>A load of the page reads the cookie on the server, unless it has expired by then.\<close>

datatype SidebarEvent =
  SidebarTriggered | SidebarKey string bool bool | WindowMeasured int | SheetChanged bool | LinkFollowed | PageLoaded bool

fun sidebar_handle :: "SidebarEvent \<Rightarrow> Sidebar \<Rightarrow> Sidebar" where
  "sidebar_handle SidebarTriggered s = toggleSidebar s"
| "sidebar_handle (SidebarKey eventKey metaKey ctrlKey) s = sidebarKeyDown eventKey metaKey ctrlKey s"
| "sidebar_handle (WindowMeasured width) s = s\<lparr>sb_innerWidth := Some width\<rparr>"
| "sidebar_handle (SheetChanged value) s = s\<lparr>sb_openMobile := value\<rparr>"
| "sidebar_handle LinkFollowed s = closeMobileSidebar s"
| "sidebar_handle (PageLoaded expired) s = sidebarOpens (if expired then None else sb_cookie s)"

definition sidebar_ok :: "Sidebar \<Rightarrow> bool" where
  "sidebar_ok s \<longleftrightarrow> sb_open s = (sb_cookie s = Some ''true'')"

lemma sidebar_ok_opens: "sidebar_ok (sidebarOpens cookie)"
  by (simp add: sidebar_ok_def sidebarOpens_def)

lemma sidebar_ok_handle: "sidebar_ok s \<Longrightarrow> sidebar_ok (sidebar_handle e s)"
  by (cases e)
    (auto simp: sidebar_ok_def toggleSidebar_def setSidebarOpen_def sidebarKeyDown_def closeMobileSidebar_def
      sidebarOpens_def boolText_def)

interpretation sidebar: invariant "\<lambda>s. \<exists>cookie. s = sidebarOpens cookie"
  "guarded_step (\<lambda>e s. True) sidebar_handle" sidebar_ok
  by unfold_locales (auto simp: sidebar_ok_opens sidebar_ok_handle guarded_step_def)

text \<open>
  The sidebar is after a reload as the visitor left it, and a toggle on a small screen leaves the bar of the large one
  (and its cookie) alone.
\<close>

lemma sidebar_survives_reload:
  assumes "reach (guarded_step (\<lambda>e s. True) sidebar_handle) (sidebarOpens cookie) s"
  shows "sb_open (sidebar_handle (PageLoaded False) s) = sb_open s"
    and "isMobileView s \<Longrightarrow> sb_open (toggleSidebar s) = sb_open s \<and> sb_cookie (toggleSidebar s) = sb_cookie s"
    and "sidebarLook (toggleSidebar (toggleSidebar s)) = sidebarLook s \<and> sidebarLook (toggleSidebar s) \<noteq> sidebarLook s"
proof -
  have "sidebar_ok s" using sidebar.run_inv [OF _ assms] by blast
  then show "sb_open (sidebar_handle (PageLoaded False) s) = sb_open s"
    by (simp add: sidebar_ok_def sidebarOpens_def)
  show "isMobileView s \<Longrightarrow> sb_open (toggleSidebar s) = sb_open s \<and> sb_cookie (toggleSidebar s) = sb_cookie s"
    by (simp add: toggleSidebar_def)
  show "sidebarLook (toggleSidebar (toggleSidebar s)) = sidebarLook s \<and> sidebarLook (toggleSidebar s) \<noteq> sidebarLook s"
    by (simp add: sidebarLook_def toggleSidebar_def setSidebarOpen_def isMobileView_def)
qed

section \<open>What stands in the sidebar\<close>

definition sidebarLinks :: "AuthSession option \<Rightarrow> bool \<Rightarrow> string list" where
  "sidebarLinks session dev =
     [''/'', ''/leaderboard''] @ (if isAdminSession session then [''/admin''] else []) @ (if dev then [''/dev-ui''] else [])"

definition sidebarFriends :: "LobbyState \<Rightarrow> FriendsProps" where
  "sidebarFriends state =
     (let players = (case ls_room state of None \<Rightarrow> [] | Some room \<Rightarrow> room_players room) in
      \<lparr>fl_friends = social_friends (ls_social state),
       fl_canInvite = (case ls_room state of None \<Rightarrow> False
         | Some room \<Rightarrow> room_phase room = ''lobby'' \<and> room_pendingDealChoice room = None \<and> length players < 4),
       fl_canSpectate = (ls_room state = None \<or> ls_isSpectating state),
       fl_unavailableUserIds = filter (\<lambda>userId. userId \<noteq> []) (List.map_filter pl_userId players),
       fl_onInvite = True, fl_onSpectate = True, fl_onUnfriend = True\<rparr>)"

definition friendsLoading :: "LobbyState \<Rightarrow> bool" where
  "friendsLoading state \<longleftrightarrow> ls_connectionStatus state \<noteq> Connected \<or> social_userId (ls_social state) = []"

text \<open>Every link of the sidebar shows its page: none is answered by a redirect.\<close>

lemma sidebar_links_lead:
  assumes "be_session backend = Inr (Some session)" and "as_id session \<noteq> []"
    and "link \<in> set (sidebarLinks (Some session) dev)"
    and "map_of [(''/'', HomeRoute), (''/leaderboard'', LeaderboardRoute), (''/admin'', AdminRoute), (''/dev-ui'', DevUiRoute)] link =
      rt_route router href"
  shows "\<exists>shown. visit router toUpperCase dev backend href = Inr shown \<and> navigate router toUpperCase dev backend href = Some shown"
proof -
  have "\<exists>shown. visit router toUpperCase dev backend href = Inr shown"
    using assms by (auto simp: sidebarLinks_def visit_defs split: if_splits option.splits)
  then show ?thesis by (auto simp: navigate.simps [of _ _ _ _ href])
qed

text \<open>Nobody who sits in the room is invited again, and nobody is invited once the deal is chosen.\<close>

lemma sidebar_invites:
  assumes "ls_room state = Some room" and "player \<in> set (room_players room)" and "pl_userId player = Some userId"
    and "userId \<noteq> []"
  shows "userId \<in> set (fl_unavailableUserIds (sidebarFriends state))"
    and "room_phase room \<noteq> ''lobby'' \<Longrightarrow> \<not> fl_canInvite (sidebarFriends state)"
  using assms by (auto simp: sidebarFriends_def Let_def List.map_filter_def image_iff)

section \<open>The connection follows the session\<close>

datatype ConnectionCall = ConnectCall | DisconnectCall

record AutoConnect =
  ac_dependency :: "bool option"
  ac_calls :: "ConnectionCall list"

definition syncConnection :: "bool \<Rightarrow> ConnectionCall" where
  "syncConnection isAuthenticated = (if isAuthenticated then ConnectCall else DisconnectCall)"

text \<open>The effect runs on mount and when its dependency has changed.\<close>

definition autoConnect :: "AuthSession option \<Rightarrow> AutoConnect \<Rightarrow> AutoConnect" where
  "autoConnect session a =
     (let isAuthenticated = (session \<noteq> None) in
      if ac_dependency a = Some isAuthenticated then a
      else a\<lparr>ac_dependency := Some isAuthenticated, ac_calls := ac_calls a @ [syncConnection isAuthenticated]\<rparr>)"

definition autoConnectStart :: AutoConnect where
  "autoConnectStart = \<lparr>ac_dependency = None, ac_calls = []\<rparr>"

text \<open>Renders with any sessions: each call differs from the one before, and the last one fits the last session.\<close>

lemma calls_follow_session:
  assumes "sessions \<noteq> []"
  shows "let a = foldl (\<lambda>a session. autoConnect session a) autoConnectStart sessions in
    ac_calls a \<noteq> [] \<and> last (ac_calls a) = syncConnection (last sessions \<noteq> None) \<and>
    ac_dependency a = Some (last sessions \<noteq> None) \<and> distinct_adj (ac_calls a)"
  using assms
proof (induction sessions rule: rev_nonempty_induct)
  case (single session)
  show ?case by (simp add: autoConnect_def autoConnectStart_def Let_def)
next
  case (snoc session sessions)
  then show ?case
    by (auto simp: autoConnect_def Let_def syncConnection_def distinct_adj_append_iff)
qed

text \<open>The recovery dialog is open exactly while the connection is lost.\<close>

definition recoveryDialogOpen :: "AuthSession option \<Rightarrow> LobbyState \<Rightarrow> bool" where
  "recoveryDialogOpen session state \<longleftrightarrow> session \<noteq> None \<and> ls_connectionStatus state = Disconnected"

section \<open>The account and the profile\<close>

datatype SignOutEffect = ReloadRoutes | ToastSignOutError

definition handleSignOut :: "(string \<Rightarrow> string \<Rightarrow> string) \<Rightarrow> string option \<Rightarrow> int \<Rightarrow> SignOutEffect" where
  "handleSignOut resolve serverURL status =
     (case signOut resolve serverURL status of None \<Rightarrow> ReloadRoutes | Some _ \<Rightarrow> ToastSignOutError)"

definition accountName :: "(string \<Rightarrow> string) \<Rightarrow> AuthSession option \<Rightarrow> string" where
  "accountName m session =
     (case session of None \<Rightarrow> m ''account'' | Some s \<Rightarrow> if as_name s = [] then m ''account'' else as_name s)"

text \<open>The rate that the text shows is rounded to whole percents by the code; here it is the ratio itself.\<close>

datatype ProfileDescription =
    GenericDescription
  | FirstGameDescription string
  | StatsDescription int int "rat option" int

definition profileDescription :: "PlayerProfile option \<Rightarrow> ProfileDescription" where
  "profileDescription profile =
     (case profile of None \<Rightarrow> GenericDescription
      | Some p \<Rightarrow>
          let s = pr_rankedFull p in
          if st_gamesPlayed s = 0 then FirstGameDescription (pr_name p)
          else StatsDescription (st_gamesWon s) (st_gamesPlayed s) (sr_winRate (statRates s)) (st_compositionsCreated s))"

lemma description_has_rate:
  "profileDescription (Some profile) = StatsDescription wins games rate compositions \<Longrightarrow>
    0 \<le> st_gamesPlayed (pr_rankedFull profile) \<Longrightarrow> rate \<noteq> None"
  by (auto simp: profileDescription_def Let_def statRates_def ratio_def split: if_splits)
end
