(* ===== verification/BoardScreen.thy ===== *)
theory BoardScreen
  imports BoardPlay CardTransfer Complex_Main
begin

text \<open>
  The cards of the board on the screen: the face of a card (\<open>game-card.tsx\<close>), the piles and the drop zones
  (\<open>game-board-piles.tsx\<close>, \<open>discard-drop-zone.tsx\<close>), the hand (\<open>game-board-hand.tsx\<close>), and the card in the air
  that stays in the window (\<open>game-board-view.tsx\<close>).
\<close>

section \<open>The face of a card\<close>

datatype CardIcon = FavouriteIcon | Diamond01Icon | Clubs02Icon | SpadesIcon | JokerIcon

definition suitIcons :: "int \<Rightarrow> CardIcon option" where
  "suitIcons suit = map_of [(0, FavouriteIcon), (1, Diamond01Icon), (2, Clubs02Icon), (3, SpadesIcon)] suit"

definition cardRankLabel :: "CardSnapshot \<Rightarrow> string" where
  "cardRankLabel cd =
     (if card_isJoker cd then ''J'' else or_else (rankLabels (or_else (card_rank cd) 0)) ''?'')"

definition cardSuitIcon :: "CardSnapshot \<Rightarrow> CardIcon option" where
  "cardSuitIcon cd = (if card_isJoker cd then Some JokerIcon else Option.bind (card_suit cd) suitIcons)"

datatype CardAccent = PrimaryAccent | DestructiveAccent | ForegroundAccent

definition cardAccentClass :: "CardSnapshot \<Rightarrow> CardAccent" where
  "cardAccentClass cd =
     (if card_isJoker cd then PrimaryAccent
      else if card_suit cd = Some 0 \<or> card_suit cd = Some 1 then DestructiveAccent
      else ForegroundAccent)"

datatype CardCenter = JokerCardArt | SuitArt CardIcon | QuestionMark

definition cardCenter :: "CardSnapshot \<Rightarrow> CardCenter" where
  "cardCenter cd =
     (if card_isJoker cd then JokerCardArt
      else case cardSuitIcon cd of
        None \<Rightarrow> QuestionMark
      | Some icon \<Rightarrow> if card_rank cd \<in> {None, Some 0} then QuestionMark else SuitArt icon)"

text \<open>The corner (the same at both ends), the center and the color; a card that lies face down shows its back.\<close>

datatype CardLook = CardBack | CardFace string CardCenter CardAccent

definition renderGameCardFace :: "CardSnapshot \<Rightarrow> CardLook" where
  "renderGameCardFace cd = CardFace (cardRankLabel cd) (cardCenter cd) (cardAccentClass cd)"

text \<open>What is in the document for a card: the attributes, its name, whether it can be dragged, and its look.\<close>

datatype DragKind = Sortable string int bool | Draggable string bool | Still

record CardElement =
  ce_rank :: "int option"
  ce_suit :: "int option"
  ce_joker :: bool
  ce_name :: string
  ce_drag :: DragKind
  ce_look :: CardLook

definition GameCard ::
  "(string \<Rightarrow> string) \<Rightarrow> (string \<Rightarrow> string \<Rightarrow> string) \<Rightarrow> CardSnapshot \<Rightarrow> bool \<Rightarrow>
   (string \<times> int \<times> bool) option \<Rightarrow> (string \<times> bool) option \<Rightarrow> CardElement" where
  "GameCard m card_name_text cd faceDown draggable dragSource =
     \<lparr>ce_rank = card_rank cd, ce_suit = card_suit cd, ce_joker = card_isJoker cd,
      ce_name = (if faceDown then m ''face_down_card'' else cardName m card_name_text cd),
      ce_drag = (case draggable of Some (i, cardIndex, isVirtual) \<Rightarrow> Sortable i cardIndex isVirtual
        | None \<Rightarrow> (case dragSource of Some (i, disabled) \<Rightarrow> Draggable i disabled | None \<Rightarrow> Still)),
      ce_look = (if faceDown then CardBack else renderGameCardFace cd)\<rparr>"

text \<open>The cards of the deck: the jokers and the 52 cards with a rank and a suit.\<close>

definition deck_card :: "CardSnapshot \<Rightarrow> bool" where
  "deck_card cd \<longleftrightarrow>
     card_isJoker cd \<and> card_rank cd = None \<and> card_suit cd = None \<or>
     \<not> card_isJoker cd \<and> (\<exists>r \<in> {1..13}. card_rank cd = Some r) \<and> (\<exists>s \<in> {0..3}. card_suit cd = Some s)"

lemma rank_range: "(1 \<le> r \<and> r \<le> (13::int)) = (r \<in> {1, 2, 3, 4, 5, 6, 7, 8, 9, 10, 11, 12, 13})"
  unfolding insert_iff empty_iff by presburger

lemma suit_range: "(0 \<le> s \<and> s \<le> (3::int)) = (s \<in> {0, 1, 2, 3})"
  unfolding insert_iff empty_iff by presburger

lemma rankLabels_inj:
  assumes "1 \<le> r" "r \<le> 13" "1 \<le> r'" "r' \<le> 13" and "rankLabels r = rankLabels r'"
  shows "r = r'"
proof -
  have "r \<in> {1, 2, 3, 4, 5, 6, 7, 8, 9, 10, 11, 12, 13}" "r' \<in> {1, 2, 3, 4, 5, 6, 7, 8, 9, 10, 11, 12, 13}"
    using assms rank_range by blast+
  with assms(5) show ?thesis by (auto simp: rankLabels_def)
qed

lemma rankLabels_some: "1 \<le> r \<Longrightarrow> r \<le> 13 \<Longrightarrow> \<exists>label. rankLabels r = Some label"
proof -
  assume "1 \<le> r" "r \<le> 13"
  then have "r \<in> {1, 2, 3, 4, 5, 6, 7, 8, 9, 10, 11, 12, 13}" using rank_range by blast
  then show ?thesis by (auto simp: rankLabels_def)
qed

lemma suitIcons_inj:
  assumes "0 \<le> s" "s \<le> 3" "0 \<le> s'" "s' \<le> 3" and "suitIcons s = suitIcons s'"
  shows "s = s'"
proof -
  have "s \<in> {0, 1, 2, 3}" "s' \<in> {0, 1, 2, 3}" using assms suit_range by blast+
  with assms(5) show ?thesis by (auto simp: suitIcons_def)
qed

lemma suitIcons_some: "0 \<le> s \<Longrightarrow> s \<le> 3 \<Longrightarrow> \<exists>icon. suitIcons s = Some icon"
proof -
  assume "0 \<le> s" "s \<le> 3"
  then have "s \<in> {0, 1, 2, 3}" using suit_range by blast
  then show ?thesis by (auto simp: suitIcons_def)
qed

text \<open>Two cards of the deck look the same exactly when they are equal: also a joker and a jack differ.\<close>

lemma faces_tell_cards_apart:
  assumes "deck_card c" and "deck_card d"
  shows "renderGameCardFace c = renderGameCardFace d \<longleftrightarrow> c = d"
proof
  assume same: "renderGameCardFace c = renderGameCardFace d"
  show "c = d"
  proof (cases "card_isJoker c")
    case True
    with same have "card_isJoker d"
      by (auto simp: renderGameCardFace_def cardAccentClass_def split: if_splits)
    with True assms show ?thesis by (auto simp: deck_card_def)
  next
    case False
    with same have "\<not> card_isJoker d"
      by (auto simp: renderGameCardFace_def cardAccentClass_def split: if_splits)
    with False assms obtain r s r' s' where c: "card_rank c = Some r" "card_suit c = Some s" "1 \<le> r" "r \<le> 13" "0 \<le> s" "s \<le> 3"
      and d: "card_rank d = Some r'" "card_suit d = Some s'" "1 \<le> r'" "r' \<le> 13" "0 \<le> s'" "s' \<le> 3"
      by (auto simp: deck_card_def)
    from rankLabels_some c(3,4) d(3,4) obtain label label' where
      labels: "rankLabels r = Some label" "rankLabels r' = Some label'" by metis
    from suitIcons_some c(5,6) d(5,6) obtain icon icon' where
      icons: "suitIcons s = Some icon" "suitIcons s' = Some icon'" by metis
    from same False \<open>\<not> card_isJoker d\<close> c d labels icons have "label = label'" and "icon = icon'"
      by (auto simp: renderGameCardFace_def cardRankLabel_def cardCenter_def cardSuitIcon_def or_else_def)
    with labels icons have "rankLabels r = rankLabels r'" and "suitIcons s = suitIcons s'" by simp_all
    then have "r = r'" and "s = s'"
      using rankLabels_inj [OF c(3,4) d(3,4)] suitIcons_inj [OF c(5,6) d(5,6)] by blast+
    then show ?thesis using False \<open>\<not> card_isJoker d\<close> c d by simp
  qed
qed simp

text \<open>The color of a card is that of its suit.\<close>

lemma red_cards:
  assumes "deck_card cd"
  shows "cardAccentClass cd = DestructiveAccent \<longleftrightarrow> cardSuitIcon cd \<in> {Some FavouriteIcon, Some Diamond01Icon}"
proof (cases "card_isJoker cd")
  case False
  with assms obtain s where s: "card_suit cd = Some s" "s \<in> {0, 1, 2, 3}"
    using suit_range by (auto simp: deck_card_def)
  with False show ?thesis by (auto simp: cardAccentClass_def cardSuitIcon_def suitIcons_def)
qed (simp add: cardAccentClass_def cardSuitIcon_def)

section \<open>The piles and the zones\<close>

record PileView =
  pv_count :: int
  pv_card :: "CardElement option"
  pv_countOnCard :: bool
  pv_label :: string

text \<open>An empty pile shows only its place; the label is read out in any case.\<close>

definition TableCardPile ::
  "(string \<Rightarrow> string) \<Rightarrow> (string \<Rightarrow> string \<Rightarrow> string) \<Rightarrow> (int \<Rightarrow> string) \<Rightarrow> int \<Rightarrow> CardSnapshot \<Rightarrow> bool \<Rightarrow>
   string \<times> bool \<Rightarrow> bool \<Rightarrow> DrawSource \<Rightarrow> PileView" where
  "TableCardPile m card_name_text cards_count pileCount cd faceDown dragSource countOnCard motionSource =
     \<lparr>pv_count = pileCount,
      pv_card = (if 0 < pileCount then Some (GameCard m card_name_text cd faceDown None (Some dragSource)) else None),
      pv_countOnCard = countOnCard,
      pv_label = (if motionSource = DrawDeck then m ''draw'' else m ''discard'') @ '': '' @ cards_count pileCount\<rparr>"

definition GameBoardPiles ::
  "(string \<Rightarrow> string) \<Rightarrow> (string \<Rightarrow> string \<Rightarrow> string) \<Rightarrow> (int \<Rightarrow> string) \<Rightarrow> int \<Rightarrow> int \<Rightarrow> CardSnapshot option \<Rightarrow>
   bool \<Rightarrow> bool \<Rightarrow> PileView \<times> PileView" where
  "GameBoardPiles m card_name_text cards_count drawPileCount discardPileCount topDiscardCard canDrawDeck canDrawDiscard =
     (TableCardPile m card_name_text cards_count drawPileCount FACE_DOWN_CARD True (''draw-pile'', \<not> canDrawDeck) True DrawDeck,
      TableCardPile m card_name_text cards_count discardPileCount (or_else topDiscardCard FACE_DOWN_CARD) False
        (''discard-draw'', \<not> canDrawDiscard) False DrawDiscard)"

text \<open>The deck shows nothing of its cards, and a card can be drawn only from a pile that has one and is open to the player.\<close>

lemma piles_show:
  assumes "GameBoardPiles m card_name_text cards_count drawPileCount discardPileCount topDiscardCard canDrawDeck canDrawDiscard =
    (deck, discard)"
  shows "pv_card deck = Some e \<Longrightarrow> ce_look e = CardBack \<and> ce_rank e = None \<and> ce_suit e = None \<and> \<not> ce_joker e"
    and "(\<exists>e. pv_card deck = Some e \<and> ce_drag e = Draggable ''draw-pile'' False) \<longleftrightarrow> 0 < drawPileCount \<and> canDrawDeck"
    and "(\<exists>e. pv_card discard = Some e \<and> ce_drag e = Draggable ''discard-draw'' False) \<longleftrightarrow> 0 < discardPileCount \<and> canDrawDiscard"
  using assms by (auto simp: GameBoardPiles_def TableCardPile_def GameCard_def FACE_DOWN_CARD_def split: if_splits)

text \<open>A zone under the pointer is marked; a closed discard pile never.\<close>

definition discardZoneMarked :: "bool \<Rightarrow> bool \<Rightarrow> bool" where
  "discardZoneMarked isOver disabled \<longleftrightarrow> isOver \<and> \<not> disabled"

definition draftZoneClass :: "string option \<Rightarrow> string option \<Rightarrow> bool \<Rightarrow> string option list" where
  "draftZoneClass className activeClassName isOver = [className, if isOver then activeClassName else None]"

section \<open>The card in the air\<close>

definition activeEntryOf :: "BoardProps \<Rightarrow> BoardState \<Rightarrow> HandEntry option" where
  "activeEntryOf p s =
     (case bd_activeDrag s of
        Some (HandDrag handKey _ _ _) \<Rightarrow>
          List.find (\<lambda>entry. he_key entry = handKey) (rdv_allHandEntries (resolutionOf p s))
      | _ \<Rightarrow> None)"

text \<open>The key of the entry a draw has brought, as the display has it.\<close>

definition revealedHandKey :: "BoardProps \<Rightarrow> BoardState \<Rightarrow> string option" where
  "revealedHandKey p s =
     (case bd_activeDrag s of
        Some (DrawDrag _ _ _ _) \<Rightarrow> map_option he_key (activeDrawEntryOf p s)
      | _ \<Rightarrow> None)"

text \<open>The card of the overlay and whether it lies face down; \<open>None\<close> without an overlay.\<close>

definition overlayCard :: "BoardProps \<Rightarrow> BoardState \<Rightarrow> (CardSnapshot \<times> bool) option" where
  "overlayCard p s =
     (case bd_activeDrag s of
        Some (DrawDrag _ drawn _ _) \<Rightarrow>
          (let revealed = (case revealedHandKey p s of
                 Some handKey \<Rightarrow>
                   (if handKey = [] then None
                    else map_option he_card (List.find (\<lambda>entry. he_key entry = handKey) (availableHandEntriesOf p s)))
               | None \<Rightarrow> None)
           in Some (or_else revealed (or_else drawn FACE_DOWN_CARD), revealedHandKey p s = None \<and> drawn = None))
      | _ \<Rightarrow> map_option (\<lambda>entry. (he_card entry, False)) (activeEntryOf p s))"

text \<open>A card drawn from the deck lies face down until the snapshot with it has come; nothing of it is known before.\<close>

lemma overlay_hides_draw:
  "overlayCard p s = Some (cd, True) \<Longrightarrow> cd = FACE_DOWN_CARD"
  by (auto simp: overlayCard_def Let_def split: option.splits ActiveDrag.splits if_splits)

lemma overlay_of_own_card:
  assumes "bd_activeDrag s = Some (HandDrag handKey order drafts moved)"
  shows "overlayCard p s = Some (cd, faceDown) \<Longrightarrow>
    \<not> faceDown \<and> (\<exists>entry \<in> set (rdv_allHandEntries (resolutionOf p s)). he_key entry = handKey \<and> he_card entry = cd)"
  using assms by (auto simp: overlayCard_def activeEntryOf_def find_Some_iff intro: nth_mem)

section \<open>The hand\<close>

record HandCardView =
  hc_element :: CardElement
  hc_invisible :: bool

datatype HandView = HandNotice string bool | HandCards "HandCardView list"

definition GameBoardHand ::
  "(string \<Rightarrow> string) \<Rightarrow> (string \<Rightarrow> string \<Rightarrow> string) \<Rightarrow> bool \<Rightarrow> bool \<Rightarrow> bool \<Rightarrow> string option \<Rightarrow> HandEntry list \<Rightarrow> HandView" where
  "GameBoardHand m card_name_text isSpectating hasGame hasDrafted revealed entries =
     (if isSpectating then HandNotice (m ''spectator_hand_hidden'') False
      else if \<not> hasGame then HandNotice (m ''waiting_game_snapshot'') True
      else if entries = [] then HandNotice (m (if hasDrafted then ''all_cards_staged'' else ''no_cards_in_hand'')) False
      else HandCards (map (\<lambda>entry.
        \<lparr>hc_element = GameCard m card_name_text (he_card entry) False
           (Some (he_key entry, he_sourceIndex entry, he_isVirtual entry)) None,
         hc_invisible = (Some (he_key entry) = revealed)\<rparr>) entries))"

definition boardHand ::
  "(string \<Rightarrow> string) \<Rightarrow> (string \<Rightarrow> string \<Rightarrow> string) \<Rightarrow> bool \<Rightarrow> BoardProps \<Rightarrow> BoardState \<Rightarrow> HandView" where
  "boardHand m card_name_text isSpectating p s =
     GameBoardHand m card_name_text isSpectating (bp_game p \<noteq> None) (draftedViewsOf p s \<noteq> []) (revealedHandKey p s)
       (availableHandEntriesOf p s)"

text \<open>While a drawn card is in the air its place in the hand stays empty: the card is shown once, in the overlay.\<close>

lemma hidden_is_in_the_air:
  assumes "boardHand m card_name_text isSpectating p s = HandCards views" and "v \<in> set views" and "hc_invisible v"
    and "\<forall>entry \<in> set (availableHandEntriesOf p s). he_key entry \<noteq> []" and "distinct (map he_key (availableHandEntriesOf p s))"
  shows "\<exists>entry \<in> set (availableHandEntriesOf p s). overlayCard p s = Some (he_card entry, False) \<and>
    ce_look (hc_element v) = renderGameCardFace (he_card entry)"
proof -
  from assms(1-3) obtain entry where entry: "entry \<in> set (availableHandEntriesOf p s)"
    and key: "revealedHandKey p s = Some (he_key entry)" and look: "ce_look (hc_element v) = renderGameCardFace (he_card entry)"
    by (auto simp: boardHand_def GameBoardHand_def GameCard_def split: if_splits)
  have "List.find (\<lambda>e. he_key e = he_key entry) (availableHandEntriesOf p s) = Some entry"
    using entry assms(5) by (auto simp: find_Some_iff in_set_conv_nth distinct_conv_nth)
  moreover from key obtain source drawn entries order where "bd_activeDrag s = Some (DrawDrag source drawn entries order)"
    by (auto simp: revealedHandKey_def split: option.splits ActiveDrag.splits)
  ultimately have "overlayCard p s = Some (he_card entry, False)"
    using key entry assms(4) by (simp add: overlayCard_def Let_def or_else_def)
  with entry look show ?thesis by blast
qed

section \<open>The overlay stays in the window\<close>

record Rect =
  rc_left :: rat
  rc_top :: rat
  rc_right :: rat
  rc_bottom :: rat

definition CARD_OVERLAY_VIEWPORT_MARGIN :: rat where "CARD_OVERLAY_VIEWPORT_MARGIN = 8"

definition keepCardOverlayInViewport :: "Rect option \<Rightarrow> Rect option \<Rightarrow> rat \<times> rat \<Rightarrow> rat \<times> rat" where
  "keepCardOverlayInViewport overlayNodeRect windowRect transform =
     (case (overlayNodeRect, windowRect) of
        (Some node, Some window) \<Rightarrow>
          (let minX = rc_left window + CARD_OVERLAY_VIEWPORT_MARGIN - rc_left node;
               maxX = rc_right window - CARD_OVERLAY_VIEWPORT_MARGIN - rc_right node;
               minY = rc_top window + CARD_OVERLAY_VIEWPORT_MARGIN - rc_top node;
               maxY = rc_bottom window - CARD_OVERLAY_VIEWPORT_MARGIN - rc_bottom node
           in (min (max (fst transform) minX) maxX, min (max (snd transform) minY) maxY))
      | _ \<Rightarrow> transform)"

text \<open>
  A card that fits into the window less its margins stays inside them, and a card that is inside already is not moved; one
  that does not fit keeps to the right and the bottom margin.
\<close>

lemma overlay_in_viewport:
  fixes node window :: Rect and x y :: rat
  assumes "keepCardOverlayInViewport (Some node) (Some window) (x, y) = (x', y')"
  shows "rc_right node + x' \<le> rc_right window - 8" and "rc_bottom node + y' \<le> rc_bottom window - 8"
    and "rc_right node - rc_left node \<le> rc_right window - rc_left window - 16 \<Longrightarrow> rc_left window + 8 \<le> rc_left node + x'"
    and "rc_bottom node - rc_top node \<le> rc_bottom window - rc_top window - 16 \<Longrightarrow> rc_top window + 8 \<le> rc_top node + y'"
    and "keepCardOverlayInViewport (Some node) (Some window) (x', y') = (x', y')"
    and "rc_left window + 8 \<le> rc_left node + x \<Longrightarrow> rc_right node + x \<le> rc_right window - 8 \<Longrightarrow> x' = x"
  using assms by (auto simp: keepCardOverlayInViewport_def CARD_OVERLAY_VIEWPORT_MARGIN_def Let_def min_def max_def split: if_splits)
end
