(* ===== verification/TableScreen.thy ===== *)
theory TableScreen
  imports SpectatorPreview BoardScreen
begin

text \<open>
  The table on the screen: the cards of a composition with what is staged on it, and its drop targets
  (\<open>composition-row.tsx\<close>), and around the compositions the new drafts, their points and the cues
  (\<open>game-board-table.tsx\<close>). The rows themselves and the previews of other players are those of \<open>SpectatorPreview\<close>.
\<close>

section \<open>The cards of a row\<close>

datatype Highlight = NewHighlight | AdditionHighlight | JokerReclaimHighlight

text \<open>A card with its React key, the highlight and the player its label names, and whether it overlaps its neighbor.\<close>

record RowCard =
  rwc_key :: string
  rwc_element :: CardElement
  rwc_highlight :: "(Highlight \<times> string option) option"
  rwc_invalid :: bool
  rwc_overlap :: bool

text \<open>The texts of the cards: \<open>m\<close> by key, and \<open>name\<close> of a card.\<close>

definition draggableOf :: "HandEntry \<Rightarrow> string \<times> int \<times> bool" where
  "draggableOf entry = (he_key entry, he_sourceIndex entry, he_isVirtual entry)"

definition compositionEdgeDraftZone ::
  "(string \<Rightarrow> string) \<Rightarrow> (string \<Rightarrow> string \<Rightarrow> string) \<Rightarrow> HandEntry list \<Rightarrow> bool \<Rightarrow> string option \<Rightarrow> string set \<Rightarrow>
   bool \<Rightarrow> bool \<Rightarrow> RowCard list" where
  "compositionEdgeDraftZone m name entries interactive playerId invalidEntryKeys isComplete overlapFirst =
     map (\<lambda>(entryIndex, entry).
         \<lparr>rwc_key = he_key entry,
          rwc_element = GameCard m name (he_card entry) False (if interactive then Some (draggableOf entry) else None) None,
          rwc_highlight = Some (AdditionHighlight, playerId),
          rwc_invalid = (he_key entry \<in> invalidEntryKeys),
          rwc_overlap = (isComplete \<and> (overlapFirst \<or> 0 < entryIndex))\<rparr>)
       (List.enumerate 0 entries)"

record RowProps =
  rwp_index :: int
  rwp_composition :: CompositionSnapshot
  rwp_shown :: ShownComposition
  rwp_stagedEntryPlayerId :: "string option"
  rwp_interactive :: bool
  rwp_animate :: bool
  rwp_dropTargetsEnabled :: bool
  rwp_activity :: "CompositionActivitySnapshot option"
  rwp_invalidEntryKeys :: "string set"

definition isNewComposition :: "RowProps \<Rightarrow> bool" where
  "isNewComposition p \<longleftrightarrow> Option.bind (rwp_activity p) act_kind = Some ''new_composition''"

definition cardActivityOf :: "RowProps \<Rightarrow> nat \<Rightarrow> CardActivitySnapshot option" where
  "cardActivityOf p cardIndex =
     Option.bind (Option.bind (rwp_activity p) act_cardActivities) (\<lambda>m. map_of m (int cardIndex))"

definition submittedHighlight :: "RowProps \<Rightarrow> nat \<Rightarrow> Highlight option" where
  "submittedHighlight p cardIndex =
     (if isNewComposition p then None
      else map_option (\<lambda>a. if cact_kind a = ''joker_reclaim'' then JokerReclaimHighlight else AdditionHighlight)
        (cardActivityOf p cardIndex))"

definition reclaimAt :: "RowProps \<Rightarrow> nat \<Rightarrow> PlannedJokerReclaim option" where
  "reclaimAt p cardIndex = last_by pr_jokerIndex (sh_reclaims (rwp_shown p)) (int cardIndex)"

definition tableCard ::
  "(string \<Rightarrow> string) \<Rightarrow> (string \<Rightarrow> string \<Rightarrow> string) \<Rightarrow> RowProps \<Rightarrow> CompositionCardView \<Rightarrow> RowCard" where
  "tableCard m name p view =
     (let cardIndex = ccv_index view;
          reclaim = reclaimAt p cardIndex;
          row = compositionRow (rwp_composition p) (rwp_shown p);
          submitted = submittedHighlight p cardIndex;
          previewPlayerId = (case cardActivityOf p cardIndex of
              Some a \<Rightarrow> Some (cact_playerId a) | None \<Rightarrow> rwp_stagedEntryPlayerId p);
          previewCard = (case reclaim of Some r \<Rightarrow> he_card (pr_replacementEntry r) | None \<Rightarrow> ccv_card view)
      in \<lparr>rwc_key = ccv_key view,
          rwc_element = GameCard m name previewCard False
            (if rwp_interactive p then map_option (\<lambda>r. draggableOf (pr_replacementEntry r)) reclaim else None) None,
          rwc_highlight = (if submitted \<noteq> None \<or> reclaim \<noteq> None
            then Some (or_else submitted JokerReclaimHighlight, previewPlayerId) else None),
          rwc_invalid = (case reclaim of Some r \<Rightarrow> he_key (pr_replacementEntry r) \<in> rwp_invalidEntryKeys p | None \<Rightarrow> False),
          rwc_overlap = (row_complete row \<and> (row_additionsAtStart row \<noteq> [] \<or> 0 < cardIndex))\<rparr>)"

text \<open>The copies of a card that are in the document at once: the plain one and the animated one.\<close>

definition copiesOfCard :: "RowProps \<Rightarrow> nat" where
  "copiesOfCard p =
     (if rwp_interactive p \<or> \<not> rwp_animate p then 1 else 0) + (if rwp_animate p then 1 else 0)"

record RowScreen =
  rws_newLabel :: "string option option"
  rws_start :: "RowCard list"
  rws_cards :: "RowCard list"
  rws_end :: "RowCard list"
  rws_complete :: bool

definition CompositionRow ::
  "(string \<Rightarrow> string) \<Rightarrow> (string \<Rightarrow> string \<Rightarrow> string) \<Rightarrow> RowProps \<Rightarrow> RowScreen" where
  "CompositionRow m name p =
     (let row = compositionRow (rwp_composition p) (rwp_shown p);
          zone = (\<lambda>entries. compositionEdgeDraftZone m name entries (rwp_interactive p) (rwp_stagedEntryPlayerId p)
            (rwp_invalidEntryKeys p) (row_complete row))
      in \<lparr>rws_newLabel = (if isNewComposition p then Some (Option.bind (rwp_activity p) act_playerId) else None),
          rws_start = zone (row_additionsAtStart row) False,
          rws_cards = map (tableCard m name p) (buildCompositionCardViews (comp_cards (rwp_composition p))),
          rws_end = zone (row_additionsAtEnd row) True,
          rws_complete = row_complete row\<rparr>)"

definition rowCards :: "RowScreen \<Rightarrow> RowCard list" where
  "rowCards s = rws_start s @ rws_cards s @ rws_end s"

text \<open>The faces on the screen are the cards of the row, from left to right.\<close>

lemma zone_faces:
  "map (\<lambda>c. ce_look (rwc_element c)) (compositionEdgeDraftZone m name entries interactive playerId invalid isComplete atFirst) =
     map (\<lambda>e. renderGameCardFace (he_card e)) entries"
  by (simp add: compositionEdgeDraftZone_def comp_def case_prod_unfold GameCard_def)
    (metis (no_types, lifting) comp_apply map_eq_conv map_map map_snd_enumerate)

lemma screen_shows_row:
  "map (\<lambda>c. ce_look (rwc_element c)) (rowCards (CompositionRow m name p)) =
     (let row = compositionRow (rwp_composition p) (rwp_shown p) in
      map renderGameCardFace
        (map he_card (row_additionsAtStart row) @ row_previewCards row @ map he_card (row_additionsAtEnd row)))"
proof -
  have "ce_look (rwc_element (tableCard m name p view)) =
      renderGameCardFace (case reclaimAt p (ccv_index view) of
        Some r \<Rightarrow> he_card (pr_replacementEntry r) | None \<Rightarrow> ccv_card view)" for view
    by (simp add: tableCard_def Let_def GameCard_def)
  then show ?thesis
    by (simp add: rowCards_def CompositionRow_def Let_def zone_faces compositionRow_def reclaimAt_def comp_def)
qed

text \<open>What can be dragged out of a row is what its player has staged on it; a card of the table itself never.\<close>

definition dragIds :: "RowCard list \<Rightarrow> string set" where
  "dragIds cards = {i. \<exists>c \<in> set cards. \<exists>n v. ce_drag (rwc_element c) = Sortable i n v}"

lemma dragIds_union: "dragIds cards = (\<Union>c \<in> set cards. dragIds [c])"
  by (auto simp: dragIds_def)

lemma zone_drags:
  "dragIds (compositionEdgeDraftZone m name entries interactive playerId invalid isComplete atFirst) =
     (if interactive then he_key ` set entries else {})"
proof -
  let ?zone = "compositionEdgeDraftZone m name entries interactive playerId invalid isComplete atFirst"
  have "dragIds ?zone = {i. interactive \<and> (\<exists>x \<in> set (List.enumerate 0 entries). i = he_key (snd x))}"
    by (auto simp: dragIds_def compositionEdgeDraftZone_def GameCard_def draggableOf_def case_prod_unfold)
  also have "\<dots> = {i. interactive \<and> i \<in> he_key ` set (map snd (List.enumerate 0 entries))}"
    by (auto simp: image_iff simp del: map_snd_enumerate)
  finally show ?thesis by simp
qed

lemma row_drags_staged:
  assumes "set (sh_reclaims (rwp_shown p)) \<subseteq> {r. pr_replacementEntry r \<in> set (sh_stagedEntries (rwp_shown p))}"
  shows "dragIds (rowCards (CompositionRow m name p)) \<subseteq>
    (if rwp_interactive p then he_key ` set (sh_stagedEntries (rwp_shown p)) else {})"
proof -
  have "dragIds [tableCard m name p view] \<subseteq>
      (if rwp_interactive p then (\<lambda>r. he_key (pr_replacementEntry r)) ` set (sh_reclaims (rwp_shown p)) else {})" for view
    using last_by_SomeD [of pr_jokerIndex "sh_reclaims (rwp_shown p)" "int (ccv_index view)"]
    by (cases "reclaimAt p (ccv_index view)")
      (auto simp: dragIds_def tableCard_def Let_def GameCard_def draggableOf_def reclaimAt_def)
  then have table: "dragIds (rws_cards (CompositionRow m name p)) \<subseteq>
      (if rwp_interactive p then (\<lambda>r. he_key (pr_replacementEntry r)) ` set (sh_reclaims (rwp_shown p)) else {})"
    by (simp only: CompositionRow_def Let_def RowScreen.simps dragIds_union [of "map _ _"] set_map UN_simps image_image) blast
  let ?row = "compositionRow (rwp_composition p) (rwp_shown p)" and ?s = "CompositionRow m name p"
    and ?keys = "he_key ` set (sh_stagedEntries (rwp_shown p))"
  have parts: "dragIds (rowCards ?s) = dragIds (rws_start ?s) \<union> dragIds (rws_cards ?s) \<union> dragIds (rws_end ?s)"
    by (auto simp: dragIds_def rowCards_def)
  have sides: "he_key ` set (row_additionsAtStart ?row) \<subseteq> ?keys" "he_key ` set (row_additionsAtEnd ?row) \<subseteq> ?keys"
    by (auto simp: compositionRow_def Let_def additionEntriesOf_def)
  have zones: "dragIds (rws_start ?s) = (if rwp_interactive p then he_key ` set (row_additionsAtStart ?row) else {})"
    "dragIds (rws_end ?s) = (if rwp_interactive p then he_key ` set (row_additionsAtEnd ?row) else {})"
    by (simp_all add: CompositionRow_def Let_def zone_drags)
  have reclaimed: "(\<lambda>r. he_key (pr_replacementEntry r)) ` set (sh_reclaims (rwp_shown p)) \<subseteq> ?keys"
    using assms by blast
  show ?thesis
  proof (cases "rwp_interactive p")
    case True
    with table reclaimed have "dragIds (rws_cards ?s) \<subseteq> ?keys" by auto
    with True sides show ?thesis by (simp only: parts zones if_True) (intro Un_least)
  next
    case False
    with table show ?thesis by (simp add: parts zones)
  qed
qed

section \<open>The drop targets of a row\<close>

text \<open>The drag as the row sees it: a card of the player is in the air, its data if it has them, and the zone below it.\<close>

record DragContext =
  dx_cardInAir :: bool
  dx_card :: "CardSnapshot option"
  dx_overId :: "string option"
  dx_overHover :: bool

definition jokerDropIdPrefix :: "int \<Rightarrow> string" where
  "jokerDropIdPrefix index = butlast (tableCompositionJokerDropId index 0)"

definition hoveringComposition :: "int \<Rightarrow> DragContext \<Rightarrow> bool" where
  "hoveringComposition index x \<longleftrightarrow>
     dx_cardInAir x \<and>
     (dx_overHover x \<or>
      dx_overId x = Some (tableCompositionDropId index) \<or>
      dx_overId x = Some (tableCompositionEdgeDropId index EdgeStart) \<or>
      dx_overId x = Some (tableCompositionEdgeDropId index EdgeEnd) \<or>
      (case dx_overId x of Some overId \<Rightarrow> startsWith overId (jokerDropIdPrefix index) | None \<Rightarrow> False))"

record DropTarget =
  dt_id :: string
  dt_visible :: bool
  dt_active :: bool

definition edgeDropTarget :: "int \<Rightarrow> TableCompositionEdge \<Rightarrow> DragContext \<Rightarrow> DropTarget" where
  "edgeDropTarget index edge x =
     \<lparr>dt_id = tableCompositionEdgeDropId index edge,
      dt_visible = hoveringComposition index x,
      dt_active = (dx_cardInAir x \<and> dx_overId x = Some (tableCompositionEdgeDropId index edge))\<rparr>"

definition jokerDropTarget :: "RowProps \<Rightarrow> CompositionCardView \<Rightarrow> DragContext \<Rightarrow> DropTarget option" where
  "jokerDropTarget p view x =
     (if card_isJoker (ccv_card view) \<and> rwp_dropTargetsEnabled p \<and> dx_cardInAir x then
        (let jokerIndex = int (ccv_index view);
             canTargetJoker = (case dx_card x of
                 Some draggedCard \<Rightarrow> canReclaimJokerWithCard (rwp_composition p) jokerIndex draggedCard | None \<Rightarrow> False)
         in Some \<lparr>dt_id = tableCompositionJokerDropId (rwp_index p) jokerIndex,
                  dt_visible = (canTargetJoker \<and> hoveringComposition (rwp_index p) x),
                  dt_active = (canTargetJoker \<and> dx_overId x = Some (tableCompositionJokerDropId (rwp_index p) jokerIndex))\<rparr>)
      else None)"

definition rowTargets :: "RowProps \<Rightarrow> DragContext \<Rightarrow> DropTarget list" where
  "rowTargets p x =
     edgeDropTarget (rwp_index p) EdgeStart x #
     List.map_filter (\<lambda>view. jokerDropTarget p view x) (buildCompositionCardViews (comp_cards (rwp_composition p))) @
     [edgeDropTarget (rwp_index p) EdgeEnd x]"

text \<open>A row marks itself for its own zones and for no other: also row 1 not for those of row 12.\<close>

lemma jokerDropIdPrefix_eq:
  "jokerDropIdPrefix index = TABLE_COMPOSITION_JOKER_DROP_ID_PREFIX @ js_show index @ ''-''"
proof -
  have "js_show 0 = ''0''" by code_simp
  then show ?thesis by (simp add: jokerDropIdPrefix_def tableCompositionJokerDropId_def butlast_append)
qed

lemma joker_zone_of:
  assumes "0 \<le> i" and "0 \<le> index"
  shows "startsWith (tableCompositionJokerDropId i j) (jokerDropIdPrefix index) \<longleftrightarrow> i = index"
proof
  assume "startsWith (tableCompositionJokerDropId i j) (jokerDropIdPrefix index)"
  then obtain rest where "tableCompositionJokerDropId i j = jokerDropIdPrefix index @ rest"
    unfolding startsWith_def by (metis append_take_drop_id)
  then have "js_show i @ CHR ''-'' # js_show j = js_show index @ CHR ''-'' # rest"
    by (simp add: jokerDropIdPrefix_eq tableCompositionJokerDropId_def)
  from append_first_eq [OF this] assms show "i = index" by (auto dest: js_show_inj)
next
  assume "i = index"
  then have "tableCompositionJokerDropId i j = jokerDropIdPrefix index @ js_show j"
    by (simp add: jokerDropIdPrefix_eq tableCompositionJokerDropId_def)
  then show "startsWith (tableCompositionJokerDropId i j) (jokerDropIdPrefix index)" by simp
qed

lemma active_target_is_over:
  assumes "t \<in> set (rowTargets p x)" and "dt_active t"
  shows "dx_overId x = Some (dt_id t) \<and> dx_cardInAir x"
  using assms
  by (auto simp: rowTargets_def edgeDropTarget_def jokerDropTarget_def Let_def List.map_filter_def split: if_splits)

text \<open>An active target of a joker is one the card in the air can be put on: it replaces the joker.\<close>

lemma active_joker_target_accepts:
  assumes "jokerDropTarget p view x = Some t" and "dt_active t"
  shows "\<exists>c. dx_card x = Some c \<and> canReclaimJokerWithCard (rwp_composition p) (int (ccv_index view)) c \<and>
    tableCompositionJokerTargetFromDropId (dt_id t) = tableCompositionJokerTargetFromDropId
      (tableCompositionJokerDropId (rwp_index p) (int (ccv_index view)))"
  using assms by (auto simp: jokerDropTarget_def Let_def split: if_splits option.splits)

section \<open>The table\<close>

text \<open>What one composition of the table is shown with: the own staged cards, or the preview of the player whose turn it is.\<close>

definition changePlayerId :: "string option \<Rightarrow> CompositionActivitySnapshot option \<Rightarrow> string option" where
  "changePlayerId draftPlayerId activity =
     (case draftPlayerId of Some i \<Rightarrow> Some i | None \<Rightarrow> Option.bind activity act_playerId)"

definition tableCompositionProps ::
  "TurnActivitySnapshot option \<Rightarrow> (int \<Rightarrow> DraftPreview option) \<Rightarrow> bool \<Rightarrow> string option \<Rightarrow> string set \<Rightarrow>
   TableCompositionView \<Rightarrow> RowProps" where
  "tableCompositionProps turnActivity drafts canCompose viewerPlayerId invalidEntryKeys composition =
     (let spectatorDraft = drafts (tv_tableIndex composition);
          draftPlayerId = (if spectatorDraft \<noteq> None then map_option ta_playerId turnActivity else None);
          activities = (case turnActivity of Some a \<Rightarrow> or_else (ta_compositionActivities a) [] | None \<Rightarrow> []);
          activity = last_by act_tableIndex activities (tv_tableIndex composition);
          interactive = (tv_stagedEntries composition \<noteq> []);
          change = changePlayerId draftPlayerId activity
      in \<lparr>rwp_index = tv_tableIndex composition, rwp_composition = tv_snapshot composition,
          rwp_shown = shownComposition composition spectatorDraft, rwp_stagedEntryPlayerId = draftPlayerId,
          rwp_interactive = interactive,
          rwp_animate = (\<not> interactive \<and> change \<notin> {None, Some []} \<and> change \<noteq> viewerPlayerId),
          rwp_dropTargetsEnabled = canCompose, rwp_activity = activity, rwp_invalidEntryKeys = invalidEntryKeys\<rparr>)"

text \<open>Every card is in the document once.\<close>

lemma cards_shown_once:
  "copiesOfCard (tableCompositionProps turnActivity drafts canCompose viewerPlayerId invalidEntryKeys composition) = 1"
  by (simp add: copiesOfCard_def tableCompositionProps_def Let_def)

record NewDraftView =
  ndv_id :: string
  ndv_cards :: "RowCard list"
  ndv_points :: "int option"
  ndv_complete :: bool
  ndv_invalid :: bool
  ndv_playerId :: "string option"

definition spectatorNewDraft ::
  "(string \<Rightarrow> string) \<Rightarrow> (string \<Rightarrow> string \<Rightarrow> string) \<Rightarrow> string option \<Rightarrow> DraftCompositionSnapshot \<Rightarrow> NewDraftView" where
  "spectatorNewDraft m name playerId composition =
     (let isComplete = isCompleteDraftComposition (draft_cards composition) None in
      \<lparr>ndv_id = draft_id composition,
       ndv_cards = map (\<lambda>(cardIndex, cd, k).
         \<lparr>rwc_key = k, rwc_element = GameCard m name cd False None None, rwc_highlight = None, rwc_invalid = False,
          rwc_overlap = (isComplete \<and> 0 < cardIndex)\<rparr>) (List.enumerate 0 (draftCardInstances (draft_cards composition))),
       ndv_points = draftCompositionPointTotal (draft_cards composition) None,
       ndv_complete = isComplete, ndv_invalid = False, ndv_playerId = playerId\<rparr>)"

definition editableNewDraft ::
  "(string \<Rightarrow> string) \<Rightarrow> (string \<Rightarrow> string \<Rightarrow> string) \<Rightarrow> string set \<Rightarrow> DraftedCompositionView \<Rightarrow> NewDraftView" where
  "editableNewDraft m name invalidCompositionIds composition =
     (let isComplete = isCompleteDraftComposition (ownCards composition) None in
      \<lparr>ndv_id = dc_id composition,
       ndv_cards = map (\<lambda>(entryIndex, entry).
         \<lparr>rwc_key = he_key entry, rwc_element = GameCard m name (he_card entry) False (Some (draggableOf entry)) None,
          rwc_highlight = None, rwc_invalid = False, rwc_overlap = (isComplete \<and> 0 < entryIndex)\<rparr>)
         (List.enumerate 0 (dv_entries composition)),
       ndv_points = draftCompositionPointTotal (ownCards composition) None,
       ndv_complete = isComplete, ndv_invalid = (dc_id composition \<in> invalidCompositionIds), ndv_playerId = None\<rparr>)"

record TableScreen =
  tsc_rows :: "RowScreen list option"
  tsc_dropCue :: bool
  tsc_total :: "int option option"
  tsc_othersDrafts :: "NewDraftView list"
  tsc_ownDrafts :: "NewDraftView list"
  tsc_animateDrafts :: bool

text \<open>\<open>tsc_rows\<close> is \<open>None\<close> for a table without compositions, which shows a notice.\<close>

definition GameBoardTable ::
  "(string \<Rightarrow> string) \<Rightarrow> (string \<Rightarrow> string \<Rightarrow> string) \<Rightarrow> TableCompositionView list \<Rightarrow> DraftedCompositionView list \<Rightarrow>
   TurnActivitySnapshot option \<Rightarrow> bool \<Rightarrow> string option \<Rightarrow> bool \<Rightarrow> string set \<Rightarrow> string set \<Rightarrow> bool \<Rightarrow> TableScreen" where
  "GameBoardTable m name tableCompositions newCompositions turnActivity canCompose viewerPlayerId showDraftTotal
     invalidCompositionIds invalidEntryKeys showNewCompositionDropCue =
     (let stagedDrafts = stagedDraftsOf turnActivity;
          drafts = spectatorDraftsByTableIndex tableCompositions stagedDrafts;
          totals = visibleDraftPointTotals tableCompositions newCompositions turnActivity;
          turnPlayerId = map_option ta_playerId turnActivity
      in \<lparr>tsc_rows = (if tableCompositions = [] then None
            else Some (map (\<lambda>c. CompositionRow m name
              (tableCompositionProps turnActivity drafts canCompose viewerPlayerId invalidEntryKeys c)) tableCompositions)),
          tsc_dropCue = (showNewCompositionDropCue \<and> newCompositions = []),
          tsc_total = (if showDraftTotal \<and> totals \<noteq> [] then Some (visibleDraftPointsTotal totals) else None),
          tsc_othersDrafts = map (spectatorNewDraft m name turnPlayerId) (stagedNewDrafts stagedDrafts),
          tsc_ownDrafts = map (editableNewDraft m name invalidCompositionIds) newCompositions,
          tsc_animateDrafts = (turnPlayerId \<notin> {None, Some []} \<and> turnPlayerId \<noteq> viewerPlayerId)\<rparr>)"

text \<open>Nothing of another player's table can be dragged: without own staged cards the rows hold no handle.\<close>

lemma others_table_is_fixed:
  assumes "tsc_rows (GameBoardTable m name tableCompositions newCompositions turnActivity canCompose viewerPlayerId showDraftTotal
      invalidCompositionIds invalidEntryKeys cue) = Some rows"
    and "\<forall>c \<in> set tableCompositions. tv_stagedEntries c = []" and "row \<in> set rows"
  shows "dragIds (rowCards row) = {}"
proof -
  from assms(1,3) obtain c drafts where "c \<in> set tableCompositions"
    and row: "row = CompositionRow m name (tableCompositionProps turnActivity drafts canCompose viewerPlayerId invalidEntryKeys c)"
    by (auto simp: GameBoardTable_def Let_def split: if_splits)
  with assms(2) have "\<not> rwp_interactive (tableCompositionProps turnActivity drafts canCompose viewerPlayerId invalidEntryKeys c)"
    by (simp add: tableCompositionProps_def Let_def)
  then show ?thesis
    unfolding row by (auto simp: dragIds_def rowCards_def CompositionRow_def Let_def compositionEdgeDraftZone_def tableCard_def GameCard_def)
qed

text \<open>The board is marked while a card of the player is above it; a new draft scrolls into view on a small screen.\<close>

definition tableMarked :: "bool \<Rightarrow> bool \<Rightarrow> bool \<Rightarrow> bool" where
  "tableMarked canCompose isDraggingHandCard isOver \<longleftrightarrow> canCompose \<and> isDraggingHandCard \<and> isOver"

definition newDraftScroll :: "nat \<Rightarrow> nat \<Rightarrow> bool option \<Rightarrow> int \<Rightarrow> bool \<Rightarrow> bool \<Rightarrow> nat \<times> string option" where
  "newDraftScroll previousCount newCount mediaMatches innerWidth canScroll shouldReduceMotion =
     (newCount,
      if newCount \<le> previousCount \<or> \<not> (case mediaMatches of Some matches \<Rightarrow> matches | None \<Rightarrow> innerWidth < 1280) \<or> \<not> canScroll
      then None else Some (if shouldReduceMotion then ''auto'' else ''smooth''))"
end
