(* ===== verification/RankingPage.thy ===== *)
theory RankingPage
  imports Leaderboard Machine
begin

text \<open>
  The page of the ranking as it is used (\<open>routes/leaderboard-page.tsx\<close>, \<open>lib/leaderboard.ts\<close>): the ranking selected,
  the pages loaded for each ranking, the rows the virtual list draws, the space around them, and the row at the foot.
\<close>

section \<open>The schema of a page\<close>

definition leaderboardPlayer_ok :: "LeaderboardPlayer \<Rightarrow> bool" where
  "leaderboardPlayer_ok p \<longleftrightarrow>
     lp_tier p \<noteq> Some [] \<and> 0 < lp_rank p \<and> 0 \<le> lp_score p \<and> 0 \<le> lp_wins p \<and> 0 < lp_gamesPlayed p \<and>
     0 \<le> lp_roundsWon p \<and> 0 \<le> lp_pointsInflicted p \<and> 0 \<le> lp_totalPlaytimeSeconds p"

definition leaderboardPage_ok :: "LeaderboardPage \<Rightarrow> bool" where
  "leaderboardPage_ok page \<longleftrightarrow>
     list_all leaderboardPlayer_ok (pg_players page) \<and> pred_option leaderboardPlayer_ok (pg_placement page)"

section \<open>The state of the page\<close>

type_synonym RankingKey = "LeaderboardMetric \<times> LeaderboardScope"

text \<open>What the query library keeps of one ranking; \<open>lq_request\<close> is the cursor of the call under way.\<close>

record RankingLoad =
  lq_pages :: "LeaderboardPage list"
  lq_request :: "string option option"
  lq_nextError :: bool
  lq_failed :: bool

definition emptyLoad :: RankingLoad where
  "emptyLoad = \<lparr>lq_pages = [], lq_request = None, lq_nextError = False, lq_failed = False\<rparr>"

record RankingPage =
  rk_metric :: LeaderboardMetric
  rk_scope :: LeaderboardScope
  rk_loads :: "RankingKey \<Rightarrow> RankingLoad"

definition selectedKey :: "RankingPage \<Rightarrow> RankingKey" where
  "selectedKey s = (rk_metric s, rk_scope s)"

definition selectedLoad :: "RankingPage \<Rightarrow> RankingLoad" where
  "selectedLoad s = rk_loads s (selectedKey s)"

definition nextCursorOf :: "LeaderboardPage list \<Rightarrow> string option" where
  "nextCursorOf pages = (if pages = [] then None else nextPageParam (last pages))"

definition hasNextPage :: "RankingLoad \<Rightarrow> bool" where
  "hasNextPage l \<longleftrightarrow> lq_pages l \<noteq> [] \<and> nextCursorOf (lq_pages l) \<noteq> None"

definition isFetchingNextPage :: "RankingLoad \<Rightarrow> bool" where
  "isFetchingNextPage l \<longleftrightarrow> lq_pages l \<noteq> [] \<and> lq_request l \<noteq> None"

definition queryOf :: "RankingLoad \<Rightarrow> RankingQuery" where
  "queryOf l = \<lparr>rq_pages = lq_pages l, rq_hasNextPage = hasNextPage l, rq_isFetchingNextPage = isFetchingNextPage l,
     rq_isFetchNextPageError = lq_nextError l\<rparr>"

text \<open>The library starts the query of the ranking shown; \<open>fetchNextPage\<close> starts a call for the next page.\<close>

definition observeSelected :: "RankingPage \<Rightarrow> RankingPage" where
  "observeSelected s =
     (let l = selectedLoad s in
      if lq_pages l = [] \<and> lq_request l = None
      then s\<lparr>rk_loads := (rk_loads s)(selectedKey s := l\<lparr>lq_request := Some None, lq_failed := False\<rparr>)\<rparr> else s)"

definition fetchNextPage :: "RankingPage \<Rightarrow> RankingPage" where
  "fetchNextPage s =
     (let l = selectedLoad s in
      if lq_request l = None \<and> hasNextPage l
      then s\<lparr>rk_loads := (rk_loads s)(selectedKey s := l\<lparr>lq_request := Some (nextCursorOf (lq_pages l)), lq_nextError := False\<rparr>)\<rparr>
      else s)"

definition metricOf :: "string \<Rightarrow> LeaderboardMetric option" where
  "metricOf value = map_of [(''elo'', Elo), (''wins'', Wins), (''games'', Games), (''playtime'', Playtime),
     (''rounds'', Rounds), (''points'', Points)] value"

definition scopeOf :: "string option \<Rightarrow> LeaderboardScope option" where
  "scopeOf value = Option.bind value (map_of [(''friends'', FriendsScope), (''global'', GlobalScope)])"

definition handleMetricChange :: "string \<Rightarrow> RankingPage \<Rightarrow> RankingPage" where
  "handleMetricChange value s =
     (case metricOf value of None \<Rightarrow> s | Some metric \<Rightarrow> observeSelected (s\<lparr>rk_metric := metric\<rparr>))"

definition handleScopeChange :: "string list \<Rightarrow> RankingPage \<Rightarrow> RankingPage" where
  "handleScopeChange value s =
     (case scopeOf (case value of [] \<Rightarrow> None | v # _ \<Rightarrow> Some v) of
        None \<Rightarrow> s | Some scope \<Rightarrow> observeSelected (s\<lparr>rk_scope := scope\<rparr>))"

text \<open>The effect of the page, for the last row that the virtual list draws.\<close>

definition loadMoreEffect :: "int option \<Rightarrow> RankingPage \<Rightarrow> RankingPage" where
  "loadMoreEffect lastVirtualRow s =
     (if fetchesNextPage (queryOf (selectedLoad s)) lastVirtualRow then fetchNextPage s else s)"

definition initialRanking :: "RankingPage" where
  "initialRanking = observeSelected \<lparr>rk_metric = Elo, rk_scope = FriendsScope, rk_loads = \<lambda>_. emptyLoad\<rparr>"

text \<open>An answer belongs to the ranking whose call it is, also when another one is shown by then.\<close>

datatype RankingEvent =
    MetricPicked string
  | ScopePicked "string list"
  | RowsDrawn "int option"
  | RetryNext
  | RetryAll
  | PageAnswered RankingKey LeaderboardPage
  | PageFailed RankingKey

fun ranking_enabled :: "RankingEvent \<Rightarrow> RankingPage \<Rightarrow> bool" where
  "ranking_enabled (PageAnswered k page) s \<longleftrightarrow>
     lq_request (rk_loads s k) \<noteq> None \<and> (pg_metric page, pg_scope page) = k \<and> leaderboardPage_ok page"
| "ranking_enabled (PageFailed k) s \<longleftrightarrow> lq_request (rk_loads s k) \<noteq> None"
| "ranking_enabled _ s \<longleftrightarrow> True"

fun ranking_handle :: "RankingEvent \<Rightarrow> RankingPage \<Rightarrow> RankingPage" where
  "ranking_handle (MetricPicked value) s = handleMetricChange value s"
| "ranking_handle (ScopePicked value) s = handleScopeChange value s"
| "ranking_handle (RowsDrawn lastVirtualRow) s = loadMoreEffect lastVirtualRow s"
| "ranking_handle RetryNext s = fetchNextPage s"
| "ranking_handle RetryAll s = observeSelected s"
| "ranking_handle (PageAnswered k page) s =
     (let l = rk_loads s k in
      s\<lparr>rk_loads := (rk_loads s)(k := l\<lparr>lq_pages := lq_pages l @ [page], lq_request := None\<rparr>)\<rparr>)"
| "ranking_handle (PageFailed k) s =
     (let l = rk_loads s k in
      s\<lparr>rk_loads := (rk_loads s)(k := l\<lparr>lq_request := None, lq_nextError := (lq_pages l \<noteq> []), lq_failed := True\<rparr>)\<rparr>)"

section \<open>Rankings are not mixed\<close>

definition load_ok :: "RankingKey \<Rightarrow> RankingLoad \<Rightarrow> bool" where
  "load_ok k l \<longleftrightarrow>
     (\<forall>page \<in> set (lq_pages l). (pg_metric page, pg_scope page) = k \<and> leaderboardPage_ok page) \<and>
     (\<forall>cursor. lq_request l = Some cursor \<longrightarrow> cursor = nextCursorOf (lq_pages l) \<and> (lq_pages l = [] \<or> cursor \<noteq> None))"

definition started :: "RankingLoad \<Rightarrow> bool" where
  "started l \<longleftrightarrow> lq_pages l \<noteq> [] \<or> lq_request l \<noteq> None \<or> lq_failed l"

definition ranking_ok :: "RankingPage \<Rightarrow> bool" where
  "ranking_ok s \<longleftrightarrow> (\<forall>k. load_ok k (rk_loads s k)) \<and> started (selectedLoad s)"

lemma ranking_ok_put:
  assumes "\<forall>j. load_ok j (rk_loads s j)" and "load_ok k l" and "started l" and "selectedKey s = k \<or> started (selectedLoad s)"
  shows "ranking_ok (s\<lparr>rk_loads := (rk_loads s)(k := l)\<rparr>)"
  using assms by (auto simp: ranking_ok_def selectedLoad_def selectedKey_def simp del: split_paired_All)

lemma load_ok_request:
  "load_ok k l \<Longrightarrow> lq_pages l = [] \<or> nextCursorOf (lq_pages l) \<noteq> None \<Longrightarrow>
     load_ok k (l\<lparr>lq_request := Some (nextCursorOf (lq_pages l)), lq_failed := failed\<rparr>) \<and>
     load_ok k (l\<lparr>lq_request := Some (nextCursorOf (lq_pages l)), lq_nextError := error\<rparr>)"
  by (simp add: load_ok_def)

lemma ranking_ok_observe:
  assumes "\<forall>k. load_ok k (rk_loads s k)"
  shows "ranking_ok (observeSelected s)"
proof (cases "lq_pages (selectedLoad s) = [] \<and> lq_request (selectedLoad s) = None")
  case True
  with load_ok_request [of "selectedKey s" "selectedLoad s"] assms
  have "load_ok (selectedKey s) (selectedLoad s\<lparr>lq_request := Some None, lq_failed := False\<rparr>)"
    by (simp add: selectedLoad_def nextCursorOf_def)
  with True assms show ?thesis
    by (simp add: observeSelected_def Let_def ranking_ok_put started_def)
next
  case False
  with assms show ?thesis by (auto simp: observeSelected_def Let_def ranking_ok_def started_def)
qed

lemma ranking_ok_fetch:
  assumes "ranking_ok s"
  shows "ranking_ok (fetchNextPage s)"
proof (cases "lq_request (selectedLoad s) = None \<and> hasNextPage (selectedLoad s)")
  case True
  moreover have "load_ok (selectedKey s) (selectedLoad s)"
    using assms by (simp add: ranking_ok_def selectedLoad_def del: split_paired_All)
  ultimately have "load_ok (selectedKey s) (selectedLoad s\<lparr>lq_request := Some (nextCursorOf (lq_pages (selectedLoad s))), lq_nextError := False\<rparr>)"
    using load_ok_request by (simp add: hasNextPage_def)
  with True assms show ?thesis
    by (simp add: fetchNextPage_def Let_def ranking_ok_put ranking_ok_def [of s] started_def)
next
  case False
  with assms show ?thesis by (auto simp: fetchNextPage_def Let_def)
qed

lemma ranking_ok_initial: "ranking_ok initialRanking"
  unfolding initialRanking_def by (rule ranking_ok_observe) (simp add: load_ok_def emptyLoad_def)

lemma ranking_ok_answer:
  assumes "ranking_ok s" and "ranking_enabled (PageAnswered k page) s"
  shows "ranking_ok (ranking_handle (PageAnswered k page) s)"
proof -
  from assms have "load_ok k (rk_loads s k)" by (simp add: ranking_ok_def del: split_paired_All)
  with assms(2) have "load_ok k (rk_loads s k\<lparr>lq_pages := lq_pages (rk_loads s k) @ [page], lq_request := None\<rparr>)"
    by (auto simp: load_ok_def)
  with assms(1) show ?thesis by (simp add: Let_def ranking_ok_put ranking_ok_def [of s] started_def del: split_paired_All)
qed

lemma ranking_ok_fail:
  assumes "ranking_ok s"
  shows "ranking_ok (ranking_handle (PageFailed k) s)"
proof -
  from assms have "load_ok k (rk_loads s k)" by (simp add: ranking_ok_def del: split_paired_All)
  then have "load_ok k (rk_loads s k\<lparr>lq_request := None, lq_nextError := (lq_pages (rk_loads s k) \<noteq> []), lq_failed := True\<rparr>)"
    by (simp add: load_ok_def)
  with assms show ?thesis by (simp add: Let_def ranking_ok_put ranking_ok_def [of s] started_def del: split_paired_All)
qed

lemma ranking_ok_handle:
  assumes "ranking_ok s" and "ranking_enabled e s"
  shows "ranking_ok (ranking_handle e s)"
proof -
  have observe: "ranking_ok (observeSelected s')" if "rk_loads s' = rk_loads s" for s'
    using assms(1) that by (intro ranking_ok_observe) (simp add: ranking_ok_def)
  show ?thesis
  proof (cases e)
    case (MetricPicked picked)
    with assms(1) show ?thesis by (simp add: handleMetricChange_def observe split: option.split)
  next
    case (ScopePicked picked)
    with assms(1) show ?thesis by (simp add: handleScopeChange_def observe split: option.split)
  next
    case (PageAnswered k page)
    with assms ranking_ok_answer show ?thesis by blast
  next
    case (PageFailed k)
    with assms ranking_ok_fail show ?thesis by blast
  qed (simp_all add: loadMoreEffect_def assms(1) ranking_ok_fetch observe)
qed

interpretation ranking: invariant "\<lambda>s. s = initialRanking" "guarded_step ranking_enabled ranking_handle" ranking_ok
  by unfold_locales (auto simp: ranking_ok_initial ranking_ok_handle guarded_step_def)

text \<open>
  Whatever is picked and in whatever order the answers come: the rows shown are players of the ranking selected, the page
  is never without rows and without a call or an error to show, and the effect asks for a page only at the end of the
  rows, at the place where the pages loaded end, and never twice at once.
\<close>

lemma ranking_shows_selected:
  assumes "reach (guarded_step ranking_enabled ranking_handle) initialRanking s"
  shows "player \<in> set (vl_players (visibleLeaderboard (lq_pages (selectedLoad s)))) \<Longrightarrow>
      leaderboardPlayer_ok player \<and>
      (\<exists>page \<in> set (lq_pages (selectedLoad s)). player \<in> set (pg_players page) \<and> (pg_metric page, pg_scope page) = selectedKey s)"
    and "started (selectedLoad s)"
    and "lq_request (selectedLoad s) \<noteq> None \<Longrightarrow> lq_pages (selectedLoad s) \<noteq> [] \<Longrightarrow> loadMoreEffect last_row s = s"
    and "loadMoreEffect last_row s \<noteq> s \<Longrightarrow>
      lq_request (selectedLoad (loadMoreEffect last_row s)) = Some (nextCursorOf (lq_pages (selectedLoad s)))"
proof -
  have ok: "ranking_ok s" using ranking.run_inv [OF refl assms] .
  then have "load_ok (selectedKey s) (selectedLoad s)"
    by (simp add: ranking_ok_def selectedLoad_def del: split_paired_All)
  then have pages: "(pg_metric page, pg_scope page) = selectedKey s \<and> leaderboardPage_ok page"
    if "page \<in> set (lq_pages (selectedLoad s))" for page
    using that by (simp add: load_ok_def)
  show "started (selectedLoad s)" using ok by (simp add: ranking_ok_def)
  {
    assume "player \<in> set (vl_players (visibleLeaderboard (lq_pages (selectedLoad s))))"
    then obtain k where "(k, player) \<in> set (mapOfEntries (map (\<lambda>player. (lp_playerId player, player))
        (concat (map pg_players (currentPages (lq_pages (selectedLoad s)))))))"
      by (auto simp: visibleLeaderboard_def)
    then have "player \<in> set (concat (map pg_players (currentPages (lq_pages (selectedLoad s)))))"
      by (auto simp: mapOfEntries_value dest!: map_of_SomeD)
    then obtain page where page: "page \<in> set (lq_pages (selectedLoad s))" "player \<in> set (pg_players page)"
      by (auto simp: currentPages_def dest: in_set_dropD)
    with pages have "leaderboardPlayer_ok player" by (auto simp: leaderboardPage_ok_def list_all_iff)
    with page pages show "leaderboardPlayer_ok player \<and>
      (\<exists>page \<in> set (lq_pages (selectedLoad s)). player \<in> set (pg_players page) \<and> (pg_metric page, pg_scope page) = selectedKey s)"
      by blast
  }
  show "lq_request (selectedLoad s) \<noteq> None \<Longrightarrow> lq_pages (selectedLoad s) \<noteq> [] \<Longrightarrow> loadMoreEffect last_row s = s"
    by (auto simp: loadMoreEffect_def fetchesNextPage_def queryOf_def isFetchingNextPage_def split: option.splits)
  show "lq_request (selectedLoad (loadMoreEffect last_row s)) = Some (nextCursorOf (lq_pages (selectedLoad s)))"
    if "loadMoreEffect last_row s \<noteq> s"
    using that by (auto simp: loadMoreEffect_def fetchNextPage_def Let_def selectedLoad_def selectedKey_def split: if_splits)
qed

section \<open>Rows, space and foot\<close>

record VirtualRow =
  vr_index :: nat
  vr_start :: int
  vr_end :: int

definition topPadding :: "VirtualRow list \<Rightarrow> int" where
  "topPadding drawn = (if drawn = [] then 0 else vr_start (hd drawn))"

definition bottomPadding :: "int \<Rightarrow> VirtualRow list \<Rightarrow> int" where
  "bottomPadding totalSize drawn = (if drawn = [] then 0 else max 0 (totalSize - vr_end (last drawn)))"

text \<open>A row that is drawn: the player, and whether it is the visitor's own.\<close>

definition drawnRows :: "string \<Rightarrow> VisibleLeaderboard \<Rightarrow> VirtualRow list \<Rightarrow> (LeaderboardPlayer \<times> bool) list" where
  "drawnRows playerId v drawn =
     List.map_filter (\<lambda>row. if vr_index row < length (vl_players v)
       then Some (vl_players v ! vr_index row, lp_playerId (vl_players v ! vr_index row) = playerId) else None) drawn"

definition footRow :: "VisibleLeaderboard \<Rightarrow> VirtualRow list \<Rightarrow> LeaderboardPlayer option" where
  "footRow v drawn = (if showsPlacement v (map vr_index drawn) then vl_placement v else None)"

datatype MoreLine = LoadingMore | RetryMore | ScrollForMore

definition moreLine :: "RankingQuery \<Rightarrow> MoreLine option" where
  "moreLine q =
     (if rq_isFetchingNextPage q then Some LoadingMore
      else if rq_isFetchNextPageError q then Some RetryMore
      else if rq_hasNextPage q then Some ScrollForMore else None)"

text \<open>The rows drawn are contiguous: space above, rows and space below make up the whole list.\<close>

lemma paddings_fill:
  assumes "drawn \<noteq> []" and "vr_end (last drawn) \<le> totalSize"
  shows "topPadding drawn + (vr_end (last drawn) - vr_start (hd drawn)) + bottomPadding totalSize drawn = totalSize"
  using assms by (simp add: topPadding_def bottomPadding_def)

lemma at_most_one:
  assumes "distinct (map f xs)" and "\<And>a b. a \<in> set xs \<Longrightarrow> b \<in> set xs \<Longrightarrow> f a = f b"
  shows "length xs \<le> 1"
proof (cases xs)
  case (Cons a ys)
  show ?thesis
  proof (cases ys)
    case (Cons b zs)
    then have "f a = f b" using \<open>xs = a # ys\<close> by (intro assms(2)) simp_all
    with assms(1) \<open>xs = a # ys\<close> Cons show ?thesis by simp
  qed (use \<open>xs = a # ys\<close> in simp)
qed simp

text \<open>The visitor's placement is on the screen once: as a row of the list if it is drawn, otherwise at the foot.\<close>

lemma placement_shown_once:
  assumes "vl_placement v = Some placement" and "lp_playerId placement = playerId"
    and "distinct (map lp_playerId (vl_players v))" and "distinct (map vr_index drawn)"
  shows "length (filter snd (drawnRows playerId v drawn)) + (if footRow v drawn = None then 0 else 1) = 1"
proof -
  let ?own = "\<lambda>row. vr_index row < length (vl_players v) \<and> lp_playerId (vl_players v ! vr_index row) = playerId"
  have count: "length (filter snd (drawnRows playerId v drawn)) = length (filter ?own drawn)" for drawn
    by (induction drawn) (simp_all add: drawnRows_def List.map_filter_simps)
  have foot: "footRow v drawn = None \<longleftrightarrow> filter ?own drawn \<noteq> []"
    using assms(1,2) by (auto simp: footRow_def showsPlacement_def isPlacementVisible_def list_ex_iff filter_empty_conv)
  have own: "vr_index r = vr_index r'" if "?own r" "?own r'" for r r'
    using that assms(3) nth_eq_iff_index_eq [of "map lp_playerId (vl_players v)" "vr_index r" "vr_index r'"] by simp
  have same: "vr_index r = vr_index r'" if "r \<in> set (filter ?own drawn)" "r' \<in> set (filter ?own drawn)" for r r'
    using that by (intro own) simp_all
  have once: "distinct (map vr_index (filter ?own drawn))" using assms(4) by (rule distinct_map_filter)
  have "length (filter ?own drawn) \<le> 1" by (rule at_most_one [OF once same])
  with count [of drawn] foot show ?thesis by (cases "filter ?own drawn") auto
qed
end
