(* ===== verification/DealScreen.thy ===== *)
theory DealScreen
  imports DealChoice Complex_Main
begin

text \<open>
  The panel of the deal on the screen (\<open>deal-choice-panel.tsx\<close>): the drawing of the cut deck, the limits of a
  dragged row, the fields of the two steps with what their controls send, and how the panel starts anew when the
  players or the dealer change. The state behind it and its handlers are those of \<open>DealChoice\<close>.
\<close>

section \<open>Dragging a row of the order\<close>

record VerticalRect =
  vr_top :: real
  vr_bottom :: real

record DragTransform =
  dt_x :: real
  dt_y :: real
  dt_scaleX :: real
  dt_scaleY :: real

definition restrictTapOrderDrag :: "VerticalRect option \<Rightarrow> VerticalRect option \<Rightarrow> DragTransform \<Rightarrow> DragTransform" where
  "restrictTapOrderDrag activeNodeRect containerNodeRect transform =
     (case (activeNodeRect, containerNodeRect) of
        (Some active, Some container) \<Rightarrow>
          (let minY = vr_top container - vr_top active; maxY = vr_bottom container - vr_bottom active
           in transform\<lparr>dt_x := 0, dt_y := min (max (dt_y transform) minY) maxY\<rparr>)
      | _ \<Rightarrow> transform\<lparr>dt_x := 0\<rparr>)"

text \<open>A row that fits into the list stays inside it while it is dragged, and moves freely as long as it is inside.\<close>

lemma dragged_row_stays_inside:
  fixes active container t
  defines "t' \<equiv> restrictTapOrderDrag (Some active) (Some container) t"
  assumes "vr_bottom active - vr_top active \<le> vr_bottom container - vr_top container"
  shows "dt_x t' = 0" "vr_top container \<le> vr_top active + dt_y t'" "vr_bottom active + dt_y t' \<le> vr_bottom container"
    and "vr_top container \<le> vr_top active + dt_y t \<Longrightarrow> vr_bottom active + dt_y t \<le> vr_bottom container \<Longrightarrow> dt_y t' = dt_y t"
  using assms by (auto simp: restrictTapOrderDrag_def Let_def)

section \<open>The drawing of the deck\<close>

datatype PileSide = LiftedPile | RemainingPile

text \<open>The shadow under a pile, a card of it, and the spring of both, none when motion is reduced. Lengths across are
  in percent.\<close>

record PileShadow =
  ps_side :: PileSide
  ps_opacity :: real
  ps_scaleX :: real
  ps_left :: int
  ps_cardCount :: int

record DeckCard =
  dk_side :: PileSide
  dk_bottom :: int
  dk_left :: int
  dk_lift :: real
  dk_rotation :: real
  dk_zIndex :: int
  dk_topCard :: bool

datatype DeckTransition = NoMotion | Spring real real

record DeckDrawing =
  dd_transition :: DeckTransition
  dd_shadows :: "PileShadow list"
  dd_cards :: "DeckCard list"

definition DECK_STACK_BASE_BOTTOM :: int where "DECK_STACK_BASE_BOTTOM = 18"
definition DECK_CARD_VERTICAL_OFFSET :: int where "DECK_CARD_VERTICAL_OFFSET = 2"

definition pileScale :: "int \<Rightarrow> real" where
  "pileScale cards = 78 / 100 + real_of_int cards / real_of_int GAME_DECK_CARD_COUNT * (22 / 100)"

definition deckCard :: "int \<Rightarrow> int \<Rightarrow> DeckCard" where
  "deckCard clampedCutSize index =
     (case deckCardPlace clampedCutSize index of
        (isLifted, stackIndex, isTopCard) \<Rightarrow>
          \<lparr>dk_side = (if isLifted then LiftedPile else RemainingPile),
           dk_bottom = DECK_STACK_BASE_BOTTOM + stackIndex * DECK_CARD_VERTICAL_OFFSET,
           dk_left = (if isLifted then 28 else 72),
           dk_lift = real_of_int stackIndex * (3 / 10),
           dk_rotation = (if isLifted then - (5 / 2) else 5 / 2),
           dk_zIndex = (if isLifted then DECK_VISUAL_CARD_COUNT else 0) + stackIndex + 1,
           dk_topCard = isTopCard\<rparr>)"

definition DeckCutVisualization :: "int \<Rightarrow> bool \<Rightarrow> DeckDrawing" where
  "DeckCutVisualization clampedCutSize prefersReducedMotion =
     (let remainingCardCount = GAME_DECK_CARD_COUNT - clampedCutSize
      in \<lparr>dd_transition = (if prefersReducedMotion then NoMotion else Spring (26 / 100) (4 / 100)),
          dd_shadows =
            [\<lparr>ps_side = LiftedPile, ps_opacity = (if 0 < clampedCutSize then 48 / 100 else 0),
              ps_scaleX = pileScale clampedCutSize, ps_left = 28, ps_cardCount = clampedCutSize\<rparr>,
             \<lparr>ps_side = RemainingPile, ps_opacity = 48 / 100,
              ps_scaleX = pileScale remainingCardCount, ps_left = 72, ps_cardCount = remainingCardCount\<rparr>],
          dd_cards = map (\<lambda>index. deckCard clampedCutSize (int index)) [0..<nat DECK_VISUAL_CARD_COUNT]\<rparr>)"

text \<open>The drawing of any cut of the deck: two piles with all the cards between them, each with one top card when it
  has any, the lifted ones drawn above the others, and no two cards at the same place or depth.\<close>

definition drawing_ok :: "int \<Rightarrow> DeckDrawing \<Rightarrow> bool" where
  "drawing_ok c d \<longleftrightarrow>
     (let lifted = filter (\<lambda>k. dk_side k = LiftedPile) (dd_cards d);
          remaining = filter (\<lambda>k. dk_side k = RemainingPile) (dd_cards d)
      in length lifted + length remaining = 18 \<and> (lifted = []) = (c = 0) \<and>
         (lifted \<noteq> [] \<longrightarrow> length (filter dk_topCard lifted) = 1 \<and> dk_topCard (last lifted)) \<and>
         (remaining \<noteq> [] \<longrightarrow> length (filter dk_topCard remaining) = 1 \<and> dk_topCard (last remaining)) \<and>
         distinct (map dk_zIndex (dd_cards d)) \<and> distinct (map (\<lambda>k. (dk_side k, dk_bottom k)) (dd_cards d)) \<and>
         list_all (\<lambda>k. list_all (\<lambda>k'. dk_zIndex k' < dk_zIndex k) remaining) lifted)"
lemma layers:
  assumes "0 \<le> c" "c \<le> 108"
  obtains r where "deckVisualizationLayerCounts c = (18 - int r, int r)" "r \<le> 18" "r = 18 \<longleftrightarrow> c = 0"
proof -
  let ?l = "(c * 36 + 108) div 216"
  have "0 \<le> ?l" "?l \<le> 18" using assms by auto
  show thesis
  proof (cases "c = 0")
    case True
    then show ?thesis by (intro that [of 18]) (simp_all add: deckVisualizationLayerCounts_def GAME_DECK_CARD_COUNT_def DECK_VISUAL_CARD_COUNT_def)
  next
    case False
    then show ?thesis using assms \<open>0 \<le> ?l\<close> \<open>?l \<le> 18\<close>
      by (intro that [of "nat (18 - max 1 ?l)"])
        (auto simp: deckVisualizationLayerCounts_def GAME_DECK_CARD_COUNT_def DECK_VISUAL_CARD_COUNT_def Let_def)
  qed
qed

lemma only_last: "r < n \<Longrightarrow> filter (\<lambda>i. i = n - 1) [r..<n] = [n - 1]"
  by (cases n) (auto simp: filter_empty_conv)

lemma deck_drawing_ok:
  assumes "0 \<le> c" "c \<le> 108"
  shows "drawing_ok c (DeckCutVisualization c reduced)"
proof -
  obtain r where l: "deckVisualizationLayerCounts c = (18 - int r, int r)" and r: "r \<le> 18" "r = 18 \<longleftrightarrow> c = 0"
    using layers [OF assms] .
  let ?k = "\<lambda>i. deckCard c (int i)" and ?cards = "dd_cards (DeckCutVisualization c reduced)"
  have low: "dk_side (?k i) = RemainingPile \<and> dk_zIndex (?k i) = int i + 1 \<and> dk_bottom (?k i) = 18 + int i * 2 \<and>
      (dk_topCard (?k i) \<longleftrightarrow> i = r - 1)" if "i < r" for i
    using that by (auto simp: deckCard_def deckCardPlace_def l Let_def DECK_STACK_BASE_BOTTOM_def DECK_CARD_VERTICAL_OFFSET_def)
  have high: "dk_side (?k i) = LiftedPile \<and> dk_zIndex (?k i) = 19 + int i - int r \<and> dk_bottom (?k i) = 18 + (int i - int r) * 2 \<and>
      (dk_topCard (?k i) \<longleftrightarrow> i = 18 - 1)" if "r \<le> i" for i
    using that by (auto simp: deckCard_def deckCardPlace_def l Let_def DECK_STACK_BASE_BOTTOM_def
      DECK_CARD_VERTICAL_OFFSET_def DECK_VISUAL_CARD_COUNT_def)
  have split: "[0..<18] = [0..<r] @ [r..<18]" using upt_add_eq_append [of 0 r "18 - r"] r by simp
  have cards: "?cards = map ?k [0..<r] @ map ?k [r..<18]"
    by (simp add: DeckCutVisualization_def Let_def DECK_VISUAL_CARD_COUNT_def split flip: map_append del: upt_Suc upt_rec_numeral)
  have lifted: "filter (\<lambda>k. dk_side k = LiftedPile) ?cards = map ?k [r..<18]"
    and remaining: "filter (\<lambda>k. dk_side k = RemainingPile) ?cards = map ?k [0..<r]"
    unfolding cards using low high by (auto simp: filter_map comp_def filter_empty_conv intro!: filter_True)
  have "filter dk_topCard (map ?k [r..<18]) = map ?k (filter (\<lambda>i. i = 18 - 1) [r..<18])"
    unfolding filter_map comp_def by (rule arg_cong [where f = "map _"], rule filter_cong) (auto simp: high)
  then have topl: "r < 18 \<Longrightarrow> length (filter dk_topCard (map ?k [r..<18])) = 1"
    using only_last [of r 18] by simp
  have "filter dk_topCard (map ?k [0..<r]) = map ?k (filter (\<lambda>i. i = r - 1) [0..<r])"
    unfolding filter_map comp_def by (rule arg_cong [where f = "map _"], rule filter_cong) (auto simp: low)
  then have topr: "0 < r \<Longrightarrow> length (filter dk_topCard (map ?k [0..<r])) = 1"
    using only_last [of 0 r] by simp
  have "distinct (map dk_zIndex ?cards)" "distinct (map (\<lambda>k. (dk_side k, dk_bottom k)) ?cards)"
    unfolding cards map_append distinct_append using low high r
    by (auto simp: distinct_map inj_on_def comp_def)
  moreover have "list_all (\<lambda>k. list_all (\<lambda>k'. dk_zIndex k' < dk_zIndex k) (map ?k [0..<r])) (map ?k [r..<18])"
    using low high by (auto simp: list_all_iff)
  ultimately show ?thesis
    unfolding drawing_ok_def Let_def lifted remaining using r topl topr low [of "r - 1"] high [of "18 - 1"]
    by (auto simp: last_map simp del: upt_rec_numeral upt_Suc)
qed

section \<open>The fields of the two steps\<close>

text \<open>The texts of the panel, by their message and its arguments.\<close>

datatype DealText =
    PrepareDeal | DealerNamed string | DealerSelected | StepOfTotal int int | Waiting
  | CutDeck | CutDeckDescription | LiftedCards int | DeckCards int | CutSizeLabel | CardsMaximum int
  | DealingStyle | RoundRobinText | TapOrderText | RoundRobinDescription | TapOrderDescription | PlayerOrder
  | SeatNumber int | PlayerNameText string | WaitingForDealChooser DealText | DealChooserFallback | ChoosingDeal
  | BackText | ContinueText | StartRoundText | NumberText int

text \<open>What a slider reports: one number or a list of them.\<close>

datatype SliderValue = SingleValue int | ValueList "int list"

definition sliderEvent :: "SliderValue \<Rightarrow> DealEvent" where
  "sliderEvent reported =
     (let nextCutSize = (case reported of SingleValue n \<Rightarrow> Some n | ValueList ns \<Rightarrow> js_nth ns 0)
      in CutChanged (js_show (or_else nextCutSize 0)))"

text \<open>What the toggle group reports: the pressed values, none when the pressed one is released.\<close>

definition toggleEvent :: "string list \<Rightarrow> DealEvent option" where
  "toggleEvent pressed =
     (case js_nth pressed 0 of
        Some nextMode \<Rightarrow> (if nextMode = ''round_robin'' \<or> nextMode = ''tap'' then Some (ModeChosen nextMode) else None)
      | None \<Rightarrow> None)"

record CutFields =
  cf_title :: "DealText \<times> DealText"
  cf_drawing :: DeckDrawing
  cf_counts :: "DealText \<times> DealText"
  cf_sliderLabel :: DealText
  cf_sliderMin :: int
  cf_sliderMax :: int
  cf_sliderValue :: int
  cf_limits :: "DealText \<times> DealText"

definition DeckCutFieldGroup :: "int \<Rightarrow> int \<Rightarrow> bool \<Rightarrow> CutFields" where
  "DeckCutFieldGroup clampedCutSize maxCutSize prefersReducedMotion =
     \<lparr>cf_title = (CutDeck, CutDeckDescription),
      cf_drawing = DeckCutVisualization clampedCutSize prefersReducedMotion,
      cf_counts = (LiftedCards clampedCutSize, DeckCards (GAME_DECK_CARD_COUNT - clampedCutSize)),
      cf_sliderLabel = CutSizeLabel, cf_sliderMin = 0, cf_sliderMax = maxCutSize, cf_sliderValue = clampedCutSize,
      cf_limits = (NumberText 0, CardsMaximum maxCutSize)\<rparr>"

record OrderRow =
  or_key :: string
  or_dragId :: string
  or_playerIndex :: int
  or_position :: int
  or_name :: string
  or_seat :: DealText

definition SortableDealOrderPlayer :: "PlayerSnapshot \<Rightarrow> int \<Rightarrow> int \<Rightarrow> OrderRow" where
  "SortableDealOrderPlayer player playerIndex position =
     \<lparr>or_key = pl_playerId player, or_dragId = dealPlayerId playerIndex, or_playerIndex = playerIndex,
      or_position = position + 1, or_name = pl_name player, or_seat = SeatNumber (pl_seat player + 1)\<rparr>"

text \<open>The style of a row: its place while it is dragged, in whole pixels, and no transition when motion is reduced.\<close>

definition orderRowStyle :: "DragTransform option \<Rightarrow> string option \<Rightarrow> bool \<Rightarrow> int option \<times> string option" where
  "orderRowStyle transform transition shouldReduceMotion =
     (map_option (\<lambda>t. \<lfloor>dt_y t + 1 / 2\<rfloor>) transform, if shouldReduceMotion then None else transition)"

definition orderRows :: "PlayerSnapshot list \<Rightarrow> int list \<Rightarrow> OrderRow list" where
  "orderRows players tapOrder =
     List.map_filter (\<lambda>(position, playerIndex).
         map_option (\<lambda>player. SortableDealOrderPlayer player playerIndex (int position)) (js_nth players playerIndex))
       (List.enumerate 0 tapOrder)"

record ModeFields =
  mf_legend :: DealText
  mf_toggles :: "(string \<times> DealText) list"
  mf_pressed :: string
  mf_description :: DealText
  mf_order :: "(DealText \<times> string list \<times> OrderRow list) option"

definition dealModeText :: "DealMode \<Rightarrow> string" where
  "dealModeText mode = (case mode of RoundRobin \<Rightarrow> ''round_robin'' | Tap \<Rightarrow> ''tap'')"

definition DealModeFieldGroup :: "PlayerSnapshot list \<Rightarrow> DealMode \<Rightarrow> int list \<Rightarrow> ModeFields" where
  "DealModeFieldGroup players dealMode tapOrder =
     \<lparr>mf_legend = DealingStyle,
      mf_toggles = [(''round_robin'', RoundRobinText), (''tap'', TapOrderText)],
      mf_pressed = dealModeText dealMode,
      mf_description = (if dealMode = RoundRobin then RoundRobinDescription else TapOrderDescription),
      mf_order = (if dealMode = Tap
        then Some (PlayerOrder, map dealPlayerId tapOrder, orderRows players tapOrder) else None)\<rparr>"

section \<open>The panel\<close>

datatype PanelBody = CutBody CutFields | ModeBody ModeFields | WaitingBody DealText DealText

record DealView =
  dv_title :: DealText
  dv_description :: DealText
  dv_badge :: DealText
  dv_body :: PanelBody
  dv_back :: "DealText option"
  dv_forward :: "DealText option"

definition DealChoicePanelContent ::
  "PlayerSnapshot list \<Rightarrow> PendingDealChoiceSnapshot \<Rightarrow> string option \<Rightarrow> bool \<Rightarrow> bool \<Rightarrow> DealPanel \<Rightarrow> DealView" where
  "DealChoicePanelContent players pending dealChooserName isDealChooser prefersReducedMotion panel =
     (let maxCutSize = maxCutSizeOf players;
          clampedCutSize = clampCutSize (dp_cutSize panel) maxCutSize;
          dealerName = map_option pl_name (js_nth players (pdc_dealerIndex pending));
          first = (dp_dealStep panel = CutStep)
      in \<lparr>dv_title = PrepareDeal,
          dv_description = (case dealerName of
            None \<Rightarrow> DealerSelected
          | Some name \<Rightarrow> if name = [] then DealerSelected else DealerNamed name),
          dv_badge = (if isDealChooser then StepOfTotal (if first then 1 else 2) 2 else Waiting),
          dv_body = (if isDealChooser
            then (if first then CutBody (DeckCutFieldGroup clampedCutSize maxCutSize prefersReducedMotion)
              else ModeBody (DealModeFieldGroup players (dp_dealMode panel) (dp_tapOrder panel)))
            else WaitingBody (WaitingForDealChooser (case dealChooserName of
                Some name \<Rightarrow> PlayerNameText name | None \<Rightarrow> DealChooserFallback)) ChoosingDeal),
          dv_back = (if isDealChooser \<and> \<not> first then Some BackText else None),
          dv_forward = (if isDealChooser then Some (if first then ContinueText else StartRoundText) else None)\<rparr>)"

text \<open>The events the controls on the screen can send: the slider a number of its range, the toggles their values,
  a row dropped on a row, and the buttons.\<close>

definition offered :: "DealView \<Rightarrow> DealEvent \<Rightarrow> bool" where
  "offered v e \<longleftrightarrow>
     (case e of
        CutChanged raw \<Rightarrow> (case dv_body v of
            CutBody f \<Rightarrow> \<exists>n. cf_sliderMin f \<le> n \<and> n \<le> cf_sliderMax f \<and> e = sliderEvent (SingleValue n) | _ \<Rightarrow> False)
      | ModeChosen mode \<Rightarrow> (case dv_body v of ModeBody f \<Rightarrow> mode \<in> fst ` set (mf_toggles f) | _ \<Rightarrow> False)
      | TapDragEnd active over \<Rightarrow> (case dv_body v of
            ModeBody f \<Rightarrow> (\<exists>label ids shown. mf_order f = Some (label, ids, shown) \<and>
              active \<in> or_dragId ` set shown \<and> (over = None \<or> over \<in> Some ` or_dragId ` set shown)) | _ \<Rightarrow> False)
      | BackPressed \<Rightarrow> dv_back v \<noteq> None
      | ContinuePressed \<Rightarrow> dv_forward v \<noteq> None)"

text \<open>The screen offers no event the panel does not take: nothing to a player who is not the chooser, and to the
  chooser the controls of the current step.\<close>

lemma offered_enabled:
  "offered (DealChoicePanelContent players pending name chooser reduced panel) e \<Longrightarrow> panel_enabled chooser e panel"
  by (cases e; cases chooser; cases "dp_dealStep panel")
    (auto simp: offered_def panel_enabled_def DealChoicePanelContent_def DealModeFieldGroup_def Let_def split: if_splits)

lemma buttons_offered:
  fixes players pending name chooser reduced panel
  defines "offers e \<equiv> offered (DealChoicePanelContent players pending name chooser reduced panel) e"
  shows "panel_enabled chooser BackPressed panel \<Longrightarrow> offers BackPressed"
    and "panel_enabled chooser ContinuePressed panel \<Longrightarrow> offers ContinuePressed"
    and "panel_enabled chooser (ModeChosen (dealModeText mode)) panel \<Longrightarrow> offers (ModeChosen (dealModeText mode))"
  by (cases mode; simp add: offers_def offered_def panel_enabled_def DealChoicePanelContent_def DealModeFieldGroup_def
    dealModeText_def Let_def)+

text \<open>The number under the deck is the number of cards the request cuts.\<close>

lemma shown_cut_is_sent:
  assumes "dv_body (DealChoicePanelContent players pending name chooser reduced panel) = CutBody f"
  shows "cf_counts f = (LiftedCards n, DeckCards (108 - n)) \<longleftrightarrow>
      deal_cutSize (last (dp_sent (handleChooseDealing players panel))) = n"
  using assms by (auto simp: DealChoicePanelContent_def DeckCutFieldGroup_def handleChooseDealing_def Let_def
      GAME_DECK_CARD_COUNT_def split: if_splits)

lemma in_set_map_filter: "y \<in> set (List.map_filter f xs) \<longleftrightarrow> (\<exists>x \<in> set xs. f x = Some y)"
  by (induction xs) (auto simp: map_filter_simps split: option.splits)

text \<open>Every active player has one row, numbered in the order of the deal.\<close>

lemma rows_are_active_players:
  assumes "panel_ok players panel"
  shows "map or_playerIndex (orderRows players (dp_tapOrder panel)) = dp_tapOrder panel"
    and "map or_position (orderRows players (dp_tapOrder panel)) = map int [1..<Suc (length (dp_tapOrder panel))]"
proof -
  have active: "i \<in> set (activeIndexes players) \<Longrightarrow> \<exists>p. js_nth players i = Some p" for i
    unfolding activeIndexes_def in_set_map_filter by (auto simp: js_nth_def in_set_enumerate_eq split: if_splits)
  have seen: "\<forall>i \<in> set order. js_nth players i \<noteq> None \<Longrightarrow>
      map or_playerIndex (List.map_filter (\<lambda>(position, playerIndex).
         map_option (\<lambda>player. SortableDealOrderPlayer player playerIndex (int position)) (js_nth players playerIndex))
       (List.enumerate k order)) = order \<and>
      map or_position (List.map_filter (\<lambda>(position, playerIndex).
         map_option (\<lambda>player. SortableDealOrderPlayer player playerIndex (int position)) (js_nth players playerIndex))
       (List.enumerate k order)) = map (\<lambda>p. int p + 1) [k..<k + length order]" for order k
    by (induction order arbitrary: k)
      (auto simp: map_filter_simps SortableDealOrderPlayer_def upt_conv_Cons simp del: upt_Suc)
  have "\<forall>i \<in> set (dp_tapOrder panel). js_nth players i \<noteq> None"
    using assms active mset_eq_setD unfolding panel_ok_def by (metis option.distinct(1))
  from seen [OF this, of 0]
  show "map or_playerIndex (orderRows players (dp_tapOrder panel)) = dp_tapOrder panel"
    and "map or_position (orderRows players (dp_tapOrder panel)) = map int [1..<Suc (length (dp_tapOrder panel))]"
    by (simp_all add: orderRows_def map_Suc_upt [symmetric] comp_def add.commute del: upt_Suc map_Suc_upt)
qed

section \<open>The panel over the snapshots\<close>

text \<open>
  \<open>DealChoicePanel\<close> gives its content a React key made of the dealer, the chooser and the players: a render whose
  key differs from the previous one discards the state and mounts a new panel, any other keeps it.
\<close>

record MountedPanel =
  mp_players :: "PlayerSnapshot list"
  mp_pending :: PendingDealChoiceSnapshot
  mp_chooser :: bool
  mp_panel :: DealPanel

definition mountPanel :: "PlayerSnapshot list \<Rightarrow> PendingDealChoiceSnapshot \<Rightarrow> bool \<Rightarrow> MountedPanel" where
  "mountPanel players pending chooser =
     \<lparr>mp_players = players, mp_pending = pending, mp_chooser = chooser, mp_panel = initialPanel players pending\<rparr>"

definition DealChoicePanel ::
  "PlayerSnapshot list \<Rightarrow> PendingDealChoiceSnapshot \<Rightarrow> bool \<Rightarrow> MountedPanel \<Rightarrow> MountedPanel" where
  "DealChoicePanel players pending chooser s =
     (if dealChoiceKey players pending = dealChoiceKey (mp_players s) (mp_pending s)
      then s\<lparr>mp_players := players, mp_pending := pending, mp_chooser := chooser\<rparr>
      else mountPanel players pending chooser)"

datatype MountedEvent =
    Render "PlayerSnapshot list" PendingDealChoiceSnapshot bool
  | Use DealEvent

text \<open>The keys are joined with colons and commas, so they tell tables apart when no player id contains one.\<close>

definition plain_ids :: "PlayerSnapshot list \<Rightarrow> bool" where
  "plain_ids players \<longleftrightarrow> list_all (\<lambda>p. CHR '':'' \<notin> set (pl_playerId p) \<and> CHR '','' \<notin> set (pl_playerId p)) players"

fun mounted_enabled :: "MountedEvent \<Rightarrow> MountedPanel \<Rightarrow> bool" where
  "mounted_enabled (Render players pending chooser) s \<longleftrightarrow> plain_ids players"
| "mounted_enabled (Use e) s \<longleftrightarrow> panel_enabled (mp_chooser s) e (mp_panel s)"

fun mounted_handle ::
  "(int list \<Rightarrow> nat \<Rightarrow> nat \<Rightarrow> int list) \<Rightarrow> MountedEvent \<Rightarrow> MountedPanel \<Rightarrow> MountedPanel" where
  "mounted_handle arrayMove (Render players pending chooser) s = DealChoicePanel players pending chooser s"
| "mounted_handle arrayMove (Use e) s = s\<lparr>mp_panel := panel_handle arrayMove (mp_players s) e (mp_panel s)\<rparr>"

lemma split_first: "c \<notin> set a \<Longrightarrow> c \<notin> set b \<Longrightarrow> a @ c # s = b @ c # t \<longleftrightarrow> a = b \<and> s = t"
  by (auto dest: append_first_eq)

lemma join_inj:
  assumes "join_with [c] xs = join_with [c] ys"
    and "\<forall>x \<in> set xs. c \<notin> set x \<and> x \<noteq> []" and "\<forall>y \<in> set ys. c \<notin> set y \<and> y \<noteq> []"
  shows "xs = ys"
  using assms
proof (induction xs arbitrary: ys rule: list.induct)
  case Nil
  then show ?case by (cases ys; cases "tl ys") auto
next
  case (Cons x xs)
  have no: "c \<notin> set z \<Longrightarrow> z = w @ c # r \<Longrightarrow> False" "c \<notin> set z \<Longrightarrow> w @ c # r = z \<Longrightarrow> False" for z w r by auto
  obtain y ys' where ys: "ys = y # ys'" using Cons.prems by (cases ys; cases xs) auto
  show ?case
  proof (cases xs; cases ys')
    fix a as b bs
    assume "xs = a # as" "ys' = b # bs"
    then show ?thesis using Cons.prems Cons.IH [of ys'] split_first [of c x y] by (simp add: ys)
  qed (use Cons.prems no in \<open>auto simp: ys\<close>)
qed

text \<open>With plain ids, equal keys come from the same dealer, the same chooser and the same players playing.\<close>

lemma key_players:
  assumes "dealChoiceKey ps pd = dealChoiceKey qs qd" "plain_ids ps" "plain_ids qs"
  shows "pdc_dealerIndex pd = pdc_dealerIndex qd \<and> pdc_chooserIndex pd = pdc_chooserIndex qd \<and>
    map (\<lambda>p. (pl_playerId p, pl_forfeited p)) ps = map (\<lambda>p. (pl_playerId p, pl_forfeited p)) qs"
proof -
  let ?t = "\<lambda>p. pl_playerId p @ '':'' @ (if pl_forfeited p then ''true'' else ''false'')"
  have keys: "js_show (pdc_dealerIndex pd) = js_show (pdc_dealerIndex qd)"
      "js_show (pdc_chooserIndex pd) = js_show (pdc_chooserIndex qd)"
      "join_with '','' (map ?t ps) = join_with '','' (map ?t qs)"
    using assms(1) by (simp_all add: dealChoiceKey_def split_first js_show_no_colon)
  have "map ?t ps = map ?t qs"
    by (rule join_inj [OF keys(3)]) (use assms(2,3) in \<open>auto simp: plain_ids_def list_all_iff split: if_splits\<close>)
  have same_text: "?t p = ?t q \<Longrightarrow> plain_ids [p] \<Longrightarrow> plain_ids [q] \<Longrightarrow>
      pl_playerId p = pl_playerId q \<and> pl_forfeited p = pl_forfeited q" for p q
    by (simp add: plain_ids_def split_first split: if_splits)
  have plain: "plain_ids (p # ps) \<longleftrightarrow> plain_ids [p] \<and> plain_ids ps" for p ps by (simp add: plain_ids_def)
  from \<open>map ?t ps = map ?t qs\<close> assms(2,3)
  have "map (\<lambda>p. (pl_playerId p, pl_forfeited p)) ps = map (\<lambda>p. (pl_playerId p, pl_forfeited p)) qs"
  proof (induction ps arbitrary: qs)
    case (Cons p ps)
    then obtain q qs' where qs: "qs = q # qs'" and "?t p = ?t q" "map ?t ps = map ?t qs'" by (cases qs) auto
    moreover have "plain_ids [p]" "plain_ids [q]" "plain_ids ps" "plain_ids qs'"
      using Cons.prems(2,3) plain [of p ps] plain [of q qs'] by (simp_all add: qs)
    ultimately show ?case using Cons.IH [of qs'] same_text [of p q] by simp
  qed simp
  with keys show ?thesis using js_show_inj by blast
qed

lemma active_by_flags:
  assumes "map (\<lambda>p. (pl_playerId p, pl_forfeited p)) ps = map (\<lambda>p. (pl_playerId p, pl_forfeited p)) qs"
  shows "activeIndexes ps = activeIndexes qs" "maxCutSizeOf ps = maxCutSizeOf qs"
proof -
  from assms have flags: "map pl_forfeited ps = map pl_forfeited qs"
    by (metis (no_types, lifting) comp_def list.map_comp map_eq_conv snd_conv)
  have "List.map_filter (\<lambda>(i, p). if pl_forfeited p then None else Some (int i)) (List.enumerate n ps) =
        List.map_filter (\<lambda>(i, p). if pl_forfeited p then None else Some (int i)) (List.enumerate n qs)" for n
    using flags
  proof (induction ps arbitrary: qs n)
    case (Cons p ps)
    then obtain q qs' where "qs = q # qs'" "pl_forfeited p = pl_forfeited q" "map pl_forfeited ps = map pl_forfeited qs'"
      by auto
    with Cons.IH show ?case by (simp add: map_filter_simps)
  qed (simp add: map_filter_simps)
  then show "activeIndexes ps = activeIndexes qs" by (simp add: activeIndexes_def)
  have n: "length (filter (\<lambda>p. \<not> pl_forfeited p) xs) = length (filter Not (map pl_forfeited xs))" for xs
    by (simp add: filter_map comp_def)
  show "maxCutSizeOf ps = maxCutSizeOf qs" by (simp only: maxCutSizeOf_def n flags)
qed

text \<open>So a panel that is kept suits the players of the new snapshot as well.\<close>

definition mounted_ok :: "MountedPanel \<Rightarrow> bool" where
  "mounted_ok s \<longleftrightarrow> plain_ids (mp_players s) \<and> panel_ok (mp_players s) (mp_panel s)"

lemma mounted_ok_handle:
  assumes "array_move am" "mounted_ok s" "mounted_enabled e s"
  shows "mounted_ok (mounted_handle am e s)"
proof (cases e)
  case (Use use)
  with assms show ?thesis by (simp add: mounted_ok_def panel_ok_handle)
next
  case (Render ps pd c)
  have "panel_ok ps (mp_panel s)" if "dealChoiceKey ps pd = dealChoiceKey (mp_players s) (mp_pending s)"
  proof -
    have "plain_ids ps" "plain_ids (mp_players s)" using assms(2,3) Render by (simp_all add: mounted_ok_def)
    with key_players [OF that] active_by_flags [of ps "mp_players s"]
    have same: "activeIndexes ps = activeIndexes (mp_players s)" "maxCutSizeOf ps = maxCutSizeOf (mp_players s)"
      by blast+
    then have "request_ok ps r \<longleftrightarrow> request_ok (mp_players s) r" for r
      by (simp add: request_ok_def split: option.split)
    with assms(2) same show ?thesis by (simp add: mounted_ok_def panel_ok_def)
  qed
  with assms Render show ?thesis
    by (auto simp: mounted_ok_def DealChoicePanel_def mountPanel_def panel_ok_initial)
qed

lemma mounted_invariant:
  "array_move am \<Longrightarrow> invariant (\<lambda>s. \<exists>ps pd c. s = mountPanel ps pd c \<and> plain_ids ps)
     (guarded_step mounted_enabled (mounted_handle am)) mounted_ok"
proof (unfold_locales, goal_cases)
  case (1 s)
  then show ?case by (auto simp: mounted_ok_def mountPanel_def panel_ok_initial)
next
  case (2 s s')
  then show ?case using mounted_ok_handle by (auto simp: guarded_step_def)
qed

interpretation mounted: invariant "\<lambda>s. \<exists>ps pd c. s = mountPanel ps pd c \<and> plain_ids ps"
  "guarded_step mounted_enabled (mounted_handle moveItem)" mounted_ok
  by (rule mounted_invariant [OF moved.array_move_axioms])

text \<open>C20: Whatever snapshots arrive while the panel is open, every request it has sent since it was mounted is valid
  for the players as they are now: the cut leaves the cards of the deal, and a tap order names every player still
  playing exactly once.\<close>

theorem deal_choice_follows_snapshots:
  assumes "array_move am" and "plain_ids players"
    and "reach (guarded_step mounted_enabled (mounted_handle am)) (mountPanel players pending chooser) s"
    and "r \<in> set (dp_sent (mp_panel s))"
  shows "0 \<le> deal_cutSize r \<and> deal_cutSize r \<le> maxCutSizeOf (mp_players s) \<and>
    (case deal_order r of
       None \<Rightarrow> deal_dealType r = ''round_robin''
     | Some order \<Rightarrow> deal_dealType r = ''tap'' \<and> distinct order \<and> set order = set (activeIndexes (mp_players s)))"
proof -
  from invariant.run_inv [OF mounted_invariant [OF assms(1)] _ assms(3)] assms(2) have "mounted_ok s" by blast
  with assms(4) have "request_ok (mp_players s) r" by (simp add: mounted_ok_def panel_ok_def)
  then show ?thesis
    using distinct_activeIndexes [of "mp_players s"]
    by (auto simp: request_ok_def split: option.splits dest: mset_eq_imp_distinct_iff mset_eq_setD)
qed

definition b_left :: "PlayerSnapshot list" where
  "b_left = [seated ''a'' False, seated ''b'' True, seated ''c'' True, seated ''d'' False]"

definition leaving_run :: "MountedEvent list" where
  "leaving_run = [Use ContinuePressed, Use (ModeChosen ''tap''), Render b_left b_deals True, Use (CutChanged ''90''),
     Use ContinuePressed, Use (ModeChosen ''tap''), Use (TapDragEnd ''deal-player-3'' (Some ''deal-player-0'')),
     Render b_left b_deals True, Use ContinuePressed]"

definition two_sent :: DealingChoiceRequest where
  "two_sent = \<lparr>deal_dealType = ''tap'', deal_cutSize = 84, deal_order = Some [3, 0]\<rparr>"

theorem deal_choice_follows_snapshots_witness:
  "map_option (\<lambda>s. dp_sent (mp_panel s))
     (run mounted_enabled (mounted_handle moveItem) leaving_run (mountPanel four_seats b_deals True)) = Some [two_sent] \<and>
   deal_cutSize two_sent \<le> maxCutSizeOf b_left \<and> {3, 0} = set (activeIndexes b_left)"
proof -
  have run: "map_option (\<lambda>s. (mp_players s, dp_sent (mp_panel s)))
     (run mounted_enabled (mounted_handle moveItem) leaving_run (mountPanel four_seats b_deals True)) = Some (b_left, [two_sent])"
    by code_simp
  then obtain s where s: "run mounted_enabled (mounted_handle moveItem) leaving_run (mountPanel four_seats b_deals True) = Some s"
      and r: "two_sent \<in> set (dp_sent (mp_panel s))" and p: "mp_players s = b_left" and sent: "dp_sent (mp_panel s) = [two_sent]"
    by auto
  have "plain_ids four_seats" by code_simp
  from deal_choice_follows_snapshots [OF moved.array_move_axioms this run_reach [OF s] r]
  show ?thesis by (simp add: s p sent two_sent_def)
qed

end
