(* ===== verification/BoardView.thy ===== *)
theory BoardView
  imports TableScreen LobbyPage
begin

text \<open>
  The whole board (\<open>game-board-view.tsx\<close>): the players with their scores and emotes (\<open>game-board-players.tsx\<close>,
  \<open>player-emotes.tsx\<close>), the turn activity the table is given, the announcement of the own turn, and the layout
  that puts the table, the piles and the hand together with the card in the air.
\<close>

section \<open>Emotes\<close>

text \<open>The emojis by their Unicode code points.\<close>

definition PLAYER_EMOTES :: "nat list list" where
  "PLAYER_EMOTES =
     [[128075], [128077], [128514], [128517], [129300], [128558], [128545], [128064], [128557], [128293],
      [10084, 65039], [127881]]"

record EmotePicker =
  ep_open :: bool
  ep_sent :: "nat list list"

datatype PickerUse = OpenChange bool | EmoteClick "nat list"

fun emote_enabled :: "PickerUse \<Rightarrow> EmotePicker \<Rightarrow> bool" where
  "emote_enabled (OpenChange open') s \<longleftrightarrow> True"
| "emote_enabled (EmoteClick emoji) s \<longleftrightarrow> ep_open s \<and> emoji \<in> set PLAYER_EMOTES"

fun emote_handle :: "PickerUse \<Rightarrow> EmotePicker \<Rightarrow> EmotePicker" where
  "emote_handle (OpenChange open') s = s\<lparr>ep_open := open'\<rparr>"
| "emote_handle (EmoteClick emoji) s = s\<lparr>ep_sent := ep_sent s @ [emoji], ep_open := False\<rparr>"

interpretation emotes: invariant "\<lambda>s. s = \<lparr>ep_open = False, ep_sent = []\<rparr>"
  "guarded_step emote_enabled emote_handle" "\<lambda>s. set (ep_sent s) \<subseteq> set PLAYER_EMOTES"
proof (unfold_locales, goal_cases)
  case (2 s s')
  then obtain e where "emote_enabled e s" "s' = emote_handle e s" by (auto simp: guarded_step_def)
  with 2(1) show ?case by (cases e) auto
qed auto

text \<open>One click sends one of the twelve emojis and closes the picker.\<close>

lemma emote_sent_closes:
  "emote_enabled (EmoteClick emoji) s \<Longrightarrow>
     \<not> ep_open (emote_handle (EmoteClick emoji) s) \<and> last (ep_sent (emote_handle (EmoteClick emoji) s)) \<in> set PLAYER_EMOTES"
  by simp

lemma emotes_distinct: "distinct PLAYER_EMOTES" "length PLAYER_EMOTES = 12"
  by (simp_all add: PLAYER_EMOTES_def)

text \<open>
  The bubble of an emote follows its anchor: the layout effect measures it, and again on every resize, scroll and
  change of size of its parent; \<open>None\<close> is an anchor that is not there.
\<close>

type_synonym Place = "rat \<times> rat"

record BubbleState =
  bu_listening :: "string option"
  bu_position :: "Place option"

definition updatePosition :: "Place option \<Rightarrow> BubbleState \<Rightarrow> BubbleState" where
  "updatePosition rect s =
     (case rect of
        None \<Rightarrow> s
      | Some r \<Rightarrow> if bu_position s = Some r then s else s\<lparr>bu_position := Some r\<rparr>)"

datatype BubbleEvent = EmoteShown string "Place option" | AnchorMoved "Place option" | EmoteGone

definition bubble_effect :: "string \<Rightarrow> Place option \<Rightarrow> BubbleState \<Rightarrow> BubbleState" where
  "bubble_effect emoteId rect s =
     (if bu_listening s = Some emoteId then s
      else if rect = None then s\<lparr>bu_listening := None\<rparr>
      else (updatePosition rect s)\<lparr>bu_listening := Some emoteId\<rparr>)"

fun bubble_enabled :: "BubbleEvent \<Rightarrow> BubbleState \<Rightarrow> bool" where
  "bubble_enabled (EmoteShown emoteId rect) s \<longleftrightarrow> True"
| "bubble_enabled (AnchorMoved rect) s \<longleftrightarrow> bu_listening s \<noteq> None"
| "bubble_enabled EmoteGone s \<longleftrightarrow> True"

fun bubble_handle :: "BubbleEvent \<Rightarrow> BubbleState \<Rightarrow> BubbleState" where
  "bubble_handle (EmoteShown emoteId rect) s = bubble_effect emoteId rect s"
| "bubble_handle (AnchorMoved rect) s = updatePosition rect s"
| "bubble_handle EmoteGone s = \<lparr>bu_listening = None, bu_position = None\<rparr>"

text \<open>The badge is drawn where the anchor was measured last.\<close>

lemma bubble_follows_anchor:
  "bubble_enabled (AnchorMoved (Some r)) s \<Longrightarrow> bu_position (bubble_handle (AnchorMoved (Some r)) s) = Some r"
  "bu_listening s \<noteq> Some i \<Longrightarrow> bu_position (bubble_handle (EmoteShown i (Some r)) s) = Some r"
  by (auto simp: updatePosition_def bubble_effect_def)

section \<open>The players\<close>

record ScoreRow =
  sr_rank :: nat
  sr_playerId :: string
  sr_image :: "string option"
  sr_initials :: string
  sr_connected :: "bool option"
  sr_name :: string
  sr_points :: int

text \<open>\<open>toUpper\<close> is \<open>toUpperCase\<close>, and \<open>m\<close> gives the texts.\<close>

definition scoreRow :: "(string \<Rightarrow> string) \<Rightarrow> (string \<Rightarrow> string) \<Rightarrow> nat \<times> PlayerStateSnapshot \<times> PlayerSnapshot option \<Rightarrow> ScoreRow" where
  "scoreRow m toUpper = (\<lambda>(rank, playerState, player).
     (let name = (case player of Some p \<Rightarrow> pl_name p | None \<Rightarrow> m ''unknown_player'')
      in \<lparr>sr_rank = rank, sr_playerId = ps_playerId playerState,
          sr_image = (case Option.bind player pl_imageUrl of Some url \<Rightarrow> if url = [] then None else Some url | None \<Rightarrow> None),
          sr_initials = getUserInitials toUpper name, sr_connected = map_option pl_connected player,
          sr_name = name, sr_points = ps_totalPoints playerState\<rparr>))"

definition GameScoreboard :: "(string \<Rightarrow> string) \<Rightarrow> (string \<Rightarrow> string) \<Rightarrow> GameSnapshot option \<Rightarrow> PlayerSnapshot list \<Rightarrow> ScoreRow list" where
  "GameScoreboard m toUpper game players = map (scoreRow m toUpper) (scoreboardRows game players)"

record PlayersTools =
  pt_spectators :: "(int \<times> string) option"
  pt_scores :: "ScoreRow list option"
  pt_picker :: bool

definition playersTools ::
  "(string \<Rightarrow> string) \<Rightarrow> (string \<Rightarrow> string) \<Rightarrow> GameSnapshot option \<Rightarrow> PlayerSnapshot list \<Rightarrow> int \<Rightarrow> bool \<Rightarrow> PlayersTools" where
  "playersTools m toUpper game players spectatorCount canSendEmote =
     \<lparr>pt_spectators = (if spectatorCountShown spectatorCount
        then Some (spectatorCount, m ''spectators'' @ '': '' @ js_show spectatorCount) else None),
      pt_scores = (if game = None then None else Some (GameScoreboard m toUpper game players)),
      pt_picker = canSendEmote\<rparr>"

text \<open>The header of a small screen: the name of the player of the turn, marked while the turn is shown, and a menu.\<close>

record CompactHeader =
  ch_turnName :: "string option"
  ch_marked :: bool
  ch_menu :: "StripRow list"

record PlayersView =
  pw_emotes :: "(ActiveEmote \<times> string) list"
  pw_compact :: "CompactHeader option"
  pw_tools :: PlayersTools
  pw_strip :: "StripRow list"
  pw_reset :: bool

definition GameBoardPlayers ::
  "(string \<Rightarrow> string) \<Rightarrow> (string \<Rightarrow> string) \<Rightarrow> (string \<Rightarrow> int) \<Rightarrow> PlayerSnapshot list \<Rightarrow> GameSnapshot option \<Rightarrow> bool \<Rightarrow>
   bool \<Rightarrow> bool \<Rightarrow> int \<Rightarrow> bool \<Rightarrow> PlayersView" where
  "GameBoardPlayers m toUpper time players game hasDraftedCompositions showTurnIndicator compactOnMobile spectatorCount canSendEmote =
     (let strip = playerStrip False showTurnIndicator game players
      in \<lparr>pw_emotes = (if compactOnMobile \<and> canSendEmote then activeEmotes time players else []),
          pw_compact = (if compactOnMobile
            then Some \<lparr>ch_turnName = map_option pl_name (turnPlayerOf game players),
              ch_marked = showActiveTurnSummary showTurnIndicator game players, ch_menu = strip\<rparr> else None),
          pw_tools = playersTools m toUpper game players spectatorCount canSendEmote,
          pw_strip = strip, pw_reset = hasDraftedCompositions\<rparr>)"

section \<open>The activity shown on the table\<close>

definition hasSubmittedTurnActivity :: "GameSnapshot option \<Rightarrow> bool" where
  "hasSubmittedTurnActivity game \<longleftrightarrow>
     (case Option.bind (Option.bind game game_turnActivity) ta_compositionActivities of None \<Rightarrow> False | Some as \<Rightarrow> as \<noteq> [])"

definition submittedCompositionActivities :: "GameSnapshot option \<Rightarrow> ActivityMap" where
  "submittedCompositionActivities game =
     (if hasSubmittedTurnActivity game then []
      else buildSubmittedCompositionActivityMap
        (or_else (Option.bind (Option.bind game game_turnActivity) ta_baselineCompositions)
          (case game of Some g \<Rightarrow> game_activeCompositions g | None \<Rightarrow> []))
        (case game of Some g \<Rightarrow> game_activeCompositions g | None \<Rightarrow> []) (Option.bind game game_turnActivity))"

definition spectatorDrafts :: "GameSnapshot option \<Rightarrow> DraftCompositionSnapshot list" where
  "spectatorDrafts game =
     (if hasSubmittedTurnActivity game then []
      else or_else (Option.bind (Option.bind game game_turnActivity) ta_draftCompositions) [])"

definition boardTurnActivity :: "GameSnapshot option \<Rightarrow> TurnActivitySnapshot option" where
  "boardTurnActivity game =
     map_option (\<lambda>activity. activity\<lparr>
         ta_draftCompositions := Some (spectatorDrafts game),
         ta_compositionActivities := Some (map (\<lambda>(tableIndex, activity).
             \<lparr>act_tableIndex = tableIndex, act_kind = sub_kind activity, act_playerId = sub_playerId activity,
              act_cardActivities = Some (map (\<lambda>(i, a). (i, \<lparr>cact_kind = sca_kind a, cact_playerId = sca_playerId a\<rparr>))
                (sub_cardActivities activity))\<rparr>) (submittedCompositionActivities game))\<rparr>)
       (Option.bind game game_turnActivity)"

text \<open>
  The map is built from the activities of the server only when the server sent none. So it never holds the activity
  of a card, and the table marks no card as submitted, whatever the snapshot says; a row is at most marked as new,
  without the name of a player, when the turn began with fewer compositions and the snapshot names no activity.
\<close>

definition blank_map :: "ActivityMap \<Rightarrow> bool" where
  "blank_map m \<longleftrightarrow> (\<forall>(i, a) \<in> set m. sub_cardActivities a = [] \<and> sub_playerId a = None)"

lemma blank_lookup: "blank_map m \<Longrightarrow> map_of m i = Some a \<Longrightarrow> sub_cardActivities a = [] \<and> sub_playerId a = None"
  by (auto simp: blank_map_def dest: map_of_SomeD)

lemma blank_update:
  "blank_map m \<Longrightarrow> sub_cardActivities a = [] \<Longrightarrow> sub_playerId a = None \<Longrightarrow> blank_map (AList.update i a m)"
  by (induction m) (auto simp: blank_map_def)

lemma blank_add: "blank_map m \<Longrightarrow> blank_map (addCompositionActivity baseline [] m entry)"
proof -
  assume m: "blank_map m"
  have none: "compositionCardActivities [] b c i = []" for b c i
    by (simp add: compositionCardActivities_def activityDetails_def cardActivity_def last_by_def map_filter_def)
  define a where "a = or_else (map_of m (int (fst entry))) \<lparr>sub_kind = None, sub_playerId = None, sub_cardActivities = []\<rparr>"
  have "sub_cardActivities a = [] \<and> sub_playerId a = None"
    using blank_lookup [OF m, of "int (fst entry)"] by (cases "map_of m (int (fst entry))") (auto simp: a_def)
  then show ?thesis using m
    by (auto simp: addCompositionActivity_def none Let_def case_prod_unfold a_def [symmetric] intro!: blank_update split: option.split)
qed

lemma submitted_blank: "blank_map (submittedCompositionActivities game)"
proof (cases "hasSubmittedTurnActivity game")
  case False
  then have "or_else (Option.bind (Option.bind game game_turnActivity) ta_compositionActivities) [] = []"
    by (auto simp: hasSubmittedTurnActivity_def or_else_def split: option.splits)
  moreover have "blank_map (foldl (addCompositionActivity b []) m xs)" if "blank_map m" for b m xs
    using that by (induction xs arbitrary: m) (auto intro: blank_add)
  from this [of "[]"] have "blank_map (foldl (addCompositionActivity b []) [] xs)" for b xs
    by (simp add: blank_map_def)
  ultimately show ?thesis using False
    by (simp add: submittedCompositionActivities_def buildSubmittedCompositionActivityMap_def)
qed (simp add: submittedCompositionActivities_def blank_map_def)

lemma no_submitted_highlight:
  fixes game drafts canCompose viewer invalid composition
  defines "p \<equiv> tableCompositionProps (boardTurnActivity game) drafts canCompose viewer invalid composition"
  shows "submittedHighlight p i = None"
    and "isNewComposition p \<Longrightarrow> Option.bind (rwp_activity p) act_playerId = None \<and> \<not> hasSubmittedTurnActivity game"
proof -
  have a: "act_cardActivities a = Some [] \<and> act_playerId a = None \<and> \<not> hasSubmittedTurnActivity game"
    if "rwp_activity p = Some a" for a
  proof -
    from that have "a \<in> set (case boardTurnActivity game of Some x \<Rightarrow> or_else (ta_compositionActivities x) [] | None \<Rightarrow> [])"
      unfolding p_def tableCompositionProps_def Let_def by (auto dest!: last_by_SomeD)
    then show ?thesis
      using submitted_blank [of game]
      by (auto simp: boardTurnActivity_def blank_map_def submittedCompositionActivities_def split: option.splits if_splits)
  qed
  then show "submittedHighlight p i = None"
    by (cases "rwp_activity p") (auto simp: submittedHighlight_def cardActivityOf_def)
  show "isNewComposition p \<Longrightarrow> Option.bind (rwp_activity p) act_playerId = None \<and> \<not> hasSubmittedTurnActivity game"
    using a by (cases "rwp_activity p") (auto simp: isNewComposition_def)
qed

section \<open>The announcement of the own turn\<close>

text \<open>\<open>stage\<close> is the stage of the guidance, if any. A toast with the id of an earlier one takes its place.\<close>

definition turnToastId :: "GameSnapshot option \<Rightarrow> string \<Rightarrow> string option" where
  "turnToastId game currentPlayerId =
     map_option (\<lambda>g. ''your-turn:'' @ currentPlayerId @ '':'' @ js_show (game_round g) @ '':'' @
       js_show (turn_number (game_turn g))) game"

record TurnToast =
  tt_stage :: "string option"
  tt_isMyTurn :: bool
  tt_id :: "string option"

definition turnToastEffect :: "TurnToast \<Rightarrow> string list" where
  "turnToastEffect deps =
     (case tt_id deps of
        None \<Rightarrow> []
      | Some toastId \<Rightarrow> if \<not> tt_isMyTurn deps \<or> tt_stage deps \<noteq> None then [] else [toastId])"

text \<open>The effect runs after the first render and after every render that changed what it depends on.\<close>

definition turnToastRender :: "TurnToast \<Rightarrow> TurnToast option \<times> string list \<Rightarrow> TurnToast option \<times> string list" where
  "turnToastRender deps = (\<lambda>(previous, toasts).
     (if previous = Some deps then (previous, toasts) else (Some deps, toasts @ turnToastEffect deps)))"

text \<open>Every turn of the player is announced, and nothing else; a render that changes nothing announces nothing again.\<close>

lemma own_turns_announced:
  "set (snd (foldl (\<lambda>s d. turnToastRender d s) (None, []) renders)) = (\<Union>d \<in> set renders. set (turnToastEffect d))"
proof -
  have "(\<forall>d. previous = Some d \<longrightarrow> set (turnToastEffect d) \<subseteq> set toasts) \<Longrightarrow>
      set (snd (foldl (\<lambda>s d. turnToastRender d s) (previous, toasts) renders)) =
        set toasts \<union> (\<Union>d \<in> set renders. set (turnToastEffect d))" for previous toasts
  proof (induction renders arbitrary: previous toasts)
    case (Cons d ds)
    show ?case
    proof (cases "previous = Some d")
      case True
      with Cons.prems Cons.IH [of previous toasts] show ?thesis by (auto simp: turnToastRender_def)
    next
      case False
      with Cons.IH [of "Some d" "toasts @ turnToastEffect d"] show ?thesis by (auto simp: turnToastRender_def)
    qed
  qed simp
  from this [of None "[]"] show ?thesis by simp
qed

lemma turn_toast_id:
  assumes "turnToastId (Some g) i = turnToastId (Some g') i"
  shows "game_round g = game_round g' \<and> turn_number (game_turn g) = turn_number (game_turn g')"
proof -
  from assms have "js_show (game_round g) @ CHR '':'' # js_show (turn_number (game_turn g)) =
      js_show (game_round g') @ CHR '':'' # js_show (turn_number (game_turn g'))"
    by (simp add: turnToastId_def)
  from append_first_eq [OF this js_show_no_colon js_show_no_colon] show ?thesis using js_show_inj by blast
qed

section \<open>The board\<close>

record BoardViewProps =
  vp_board :: BoardProps
  vp_players :: "PlayerSnapshot list"
  vp_spectatorCount :: "int option"
  vp_spectating :: bool
  vp_stage :: "string option"

record BoardView =
  bv_players :: PlayersView
  bv_table :: TableScreen
  bv_piles :: "PileView \<times> PileView"
  bv_hand :: HandView
  bv_overlay :: "(CardSnapshot \<times> bool) option"
  bv_handCardIds :: "string set"

text \<open>The texts: \<open>m\<close> by key, \<open>name\<close> of a card, \<open>cards_count\<close> of a pile; \<open>toUpper\<close> and \<open>time\<close> are
  \<open>toUpperCase\<close> and \<open>Date.parse\<close>.\<close>

record BoardTexts =
  bx_m :: "string \<Rightarrow> string"
  bx_name :: "string \<Rightarrow> string \<Rightarrow> string"
  bx_count :: "int \<Rightarrow> string"
  bx_upper :: "string \<Rightarrow> string"
  bx_time :: "string \<Rightarrow> int"

definition newCompositionsOf :: "BoardProps \<Rightarrow> BoardState \<Rightarrow> DraftedCompositionView list" where
  "newCompositionsOf p s = filter (\<lambda>composition. dc_tableIndex composition = None) (draftedViewsOf p s)"

definition showDraftTotal :: "GameSnapshot option \<Rightarrow> bool" where
  "showDraftTotal game \<longleftrightarrow>
     \<not> (case game of
          None \<Rightarrow> False
        | Some g \<Rightarrow>
            (case List.find (\<lambda>player. Some (ps_playerId player) = turn_playerId (game_turn g)) (game_players g) of
               None \<Rightarrow> False | Some player \<Rightarrow> ps_hasOpened player))"

definition boardTable :: "BoardTexts \<Rightarrow> BoardViewProps \<Rightarrow> BoardState \<Rightarrow> TableScreen" where
  "boardTable x v s =
     (let p = vp_board v; validation = draftValidationOf p (bd_showDraftValidation s) (draftedViewsOf p s)
      in GameBoardTable (bx_m x) (bx_name x) (rdv_tableCompositions (resolutionOf p s)) (newCompositionsOf p s)
           (boardTurnActivity (bp_game p)) (bt_canDiscard (bp_turnState p)) (Some (bp_playerId p))
           (showDraftTotal (bp_game p)) (val_invalidCompositionIds validation) (val_invalidEntryKeys validation)
           (vp_stage v = Some ''compose''))"

definition boardPiles :: "BoardTexts \<Rightarrow> BoardProps \<Rightarrow> PileView \<times> PileView" where
  "boardPiles x p =
     GameBoardPiles (bx_m x) (bx_name x) (bx_count x) (case bp_game p of Some g \<Rightarrow> game_drawPileCount g | None \<Rightarrow> 0)
       (case bp_game p of Some g \<Rightarrow> int (length (game_discardPile g)) | None \<Rightarrow> 0) (bp_topDiscardCard p)
       (bt_canDrawDeck (bp_turnState p)) (bt_canDrawDiscard (bp_turnState p))"

definition GameBoardView :: "BoardTexts \<Rightarrow> BoardViewProps \<Rightarrow> BoardState \<Rightarrow> BoardView" where
  "GameBoardView x v s =
     (let p = vp_board v
      in \<lparr>bv_players = GameBoardPlayers (bx_m x) (bx_upper x) (bx_time x) (vp_players v) (bp_game p)
            (draftedViewsOf p s \<noteq> []) True True (or_else (vp_spectatorCount v) 0) (\<not> vp_spectating v),
          bv_table = boardTable x v s, bv_piles = boardPiles x p,
          bv_hand = boardHand (bx_m x) (bx_name x) (vp_spectating v) p s,
          bv_overlay = overlayCard p s,
          bv_handCardIds = he_key ` set (availableHandEntriesOf p s)\<rparr>)"

text \<open>What can be picked up on the board: the cards of the hand, the staged ones in the rows, and the new drafts.\<close>

definition handDragIds :: "HandView \<Rightarrow> string set" where
  "handDragIds h =
     (case h of HandNotice _ _ \<Rightarrow> {} | HandCards views \<Rightarrow> {i. \<exists>v \<in> set views. \<exists>n w. ce_drag (hc_element v) = Sortable i n w})"

definition rowDragIds :: "TableScreen \<Rightarrow> string set" where
  "rowDragIds t = (case tsc_rows t of None \<Rightarrow> {} | Some rows \<Rightarrow> \<Union>row \<in> set rows. dragIds (rowCards row))"

definition draftDragIds :: "NewDraftView list \<Rightarrow> string set" where
  "draftDragIds drafts = (\<Union>d \<in> set drafts. dragIds (ndv_cards d))"

lemma reclaimed_subset:
  "set (reclaim_entries (tp_reclaims (planTableJokerReclaims c es i targets))) \<subseteq> set es"
proof -
  let ?o = "play_order targets es"
  have "set (reclaim_entries (plan_reclaims (inferSetPlannedJokerReclaims c ?o))) \<subseteq> set es"
    using arg_cong [OF inferSet_partition [of c ?o], of set_mset] mset_eq_setD [OF mset_play_order [of targets es]] by auto
  then show ?thesis using explicit_entries_subset by (simp add: planTable_cases)
qed

text \<open>Invariant of the views of the table: what is staged has the keys of the drafts, and a reclaim is staged.\<close>

definition staged_within :: "string set \<Rightarrow> TableCompositionView \<Rightarrow> bool" where
  "staged_within K v \<longleftrightarrow> he_key ` set (tv_stagedEntries v) \<subseteq> K \<and>
     set (tv_reclaims v) \<subseteq> {r. pr_replacementEntry r \<in> set (tv_stagedEntries v)}"

lemma set_orderAdditionEntries: "set (orderAdditionEntries es i idx) = set es"
proof -
  have "mset (concat (map (\<lambda>(i, entries). orderedAt i entries) gs)) = mset (concat (map snd gs))" for gs
    by (induction gs) auto
  then have "mset (orderAdditionEntries es i idx) = mset es"
    by (simp add: orderAdditionEntries_def mset_group_by)
  then show ?thesis by (rule mset_eq_setD)
qed

lemma staged_within_views:
  assumes "\<forall>c \<in> set drafts. dc_tableIndex c \<noteq> None \<longrightarrow> set (dc_handKeys c) \<subseteq> K" and "v \<in> set (buildTableCompositionViews active drafts (entryByKeyOf entries))"
  shows "staged_within K v"
proof -
  have one: "staged_within K (stageOnView (entryByKeyOf entries) c w)" if "set (dc_handKeys c) \<subseteq> K" for c w
  proof -
    let ?es = "mapHandKeysToEntries (dc_handKeys c) (entryByKeyOf entries)"
    have "he_key ` set ?es \<subseteq> K" using that mapHandKeys_keys [of "dc_handKeys c" entries] by (metis filter_is_subset image_set order_trans)
    then show ?thesis
      using reclaimed_subset [of "tv_snapshot w" ?es]
      by (auto simp: staged_within_def stageOnView_def Let_def set_orderAdditionEntries unreclaimed_def reclaim_entries_def)
        (blast dest: imageI)
  qed
  have "\<forall>w \<in> set views. staged_within K w \<Longrightarrow>
      \<forall>c \<in> set drafts. dc_tableIndex c \<noteq> None \<longrightarrow> set (dc_handKeys c) \<subseteq> K \<Longrightarrow>
      \<forall>w \<in> set (foldl (stageOnViews (entryByKeyOf entries)) views drafts). staged_within K w" for views
  proof (induction drafts arbitrary: views)
    case (Cons c drafts)
    have "\<forall>w \<in> set (stageOnViews (entryByKeyOf entries) views c). staged_within K w"
      using Cons.prems one [of c]
      by (auto simp: stageOnViews_def dest!: set_update_subset_insert [THEN subsetD] split: option.splits)
    from Cons.IH [OF this] Cons.prems(2) show ?case by simp
  qed simp
  moreover have "\<forall>w \<in> set (map initialView (List.enumerate 0 active)). staged_within K w"
    by (auto simp: staged_within_def initialView_def)
  ultimately show ?thesis
    using assms by (simp only: buildTableCompositionViews_def)
qed

lemma row_drags_within:
  assumes "staged_within K c"
  shows "dragIds (rowCards (CompositionRow m name (tableCompositionProps a drafts canCompose viewer invalid c))) \<subseteq> K"
proof -
  let ?p = "tableCompositionProps a drafts canCompose viewer invalid c"
  show ?thesis
  proof (cases "tv_stagedEntries c = []")
    case True
    then have "\<not> rwp_interactive ?p" by (simp add: tableCompositionProps_def Let_def)
    then have "dragIds (rowCards (CompositionRow m name ?p)) = {}"
      by (auto simp: dragIds_def rowCards_def CompositionRow_def Let_def compositionEdgeDraftZone_def tableCard_def GameCard_def)
    then show ?thesis by simp
  next
    case False
    then have shown: "rwp_shown ?p = \<lparr>sh_stagedEntries = tv_stagedEntries c, sh_reclaims = tv_reclaims c,
        sh_insertIndex = Some (tv_insertIndex c), sh_cardInsertIndices = tv_cardInsertIndices c\<rparr>"
      by (simp add: tableCompositionProps_def Let_def shownComposition_def)
    then have "set (sh_reclaims (rwp_shown ?p)) \<subseteq> {r. pr_replacementEntry r \<in> set (sh_stagedEntries (rwp_shown ?p))}"
      using assms by (simp add: staged_within_def)
    from row_drags_staged [OF this, of m name] shown assms show ?thesis
      by (auto simp: staged_within_def split: if_splits)
  qed
qed

lemma draft_drags: "dragIds (ndv_cards (editableNewDraft m name invalid d)) \<subseteq> he_key ` set (dv_entries d)"
  by (auto simp: dragIds_def editableNewDraft_def Let_def GameCard_def draggableOf_def in_set_enumerate_eq)

lemma others_draft_still: "dragIds (ndv_cards (spectatorNewDraft m name i d)) = {}"
  by (auto simp: dragIds_def spectatorNewDraft_def Let_def GameCard_def)

lemma table_rows:
  assumes "tsc_rows (GameBoardTable m name tableCompositions newCompositions turnActivity canCompose viewer showTotal
      invalidIds invalidKeys cue) = Some rows" and "row \<in> set rows"
  shows "\<exists>c drafts. c \<in> set tableCompositions \<and>
    row = CompositionRow m name (tableCompositionProps turnActivity drafts canCompose viewer invalidKeys c)"
proof -
  from assms(1) have "rows = map (\<lambda>c. CompositionRow m name (tableCompositionProps turnActivity
      (spectatorDraftsByTableIndex tableCompositions (stagedDraftsOf turnActivity)) canCompose viewer invalidKeys c)) tableCompositions"
    by (simp add: GameBoardTable_def Let_def split: if_splits)
  with assms(2) show ?thesis by (auto simp: image_iff)
qed

text \<open>Every card in reach is one of the player's, and none can be picked up in the hand and on the table at once.\<close>

lemma board_drags:
  fixes x v s
  defines "b \<equiv> GameBoardView x v s" and "p \<equiv> vp_board v"
  defines "K \<equiv> stagedHandKeySet (draftCompositionsOf p s)"
    and "T \<equiv> stagedHandKeySet (filter (\<lambda>c. dc_tableIndex c \<noteq> None) (draftCompositionsOf p s))"
    and "N \<equiv> stagedHandKeySet (filter (\<lambda>c. dc_tableIndex c = None) (draftCompositionsOf p s))"
    and "all \<equiv> he_key ` set (rdv_allHandEntries (resolutionOf p s))"
  shows "handDragIds (bv_hand b) \<subseteq> all - K"
    and "rowDragIds (bv_table b) \<subseteq> T" and "draftDragIds (tsc_ownDrafts (bv_table b)) \<subseteq> N"
    and "draftDragIds (tsc_othersDrafts (bv_table b)) = {}" and "K \<subseteq> all"
    and "\<not> vp_spectating v \<Longrightarrow> bp_game p \<noteq> None \<Longrightarrow> handDragIds (bv_hand b) = all - K"
    and "vp_spectating v \<Longrightarrow> handDragIds (bv_hand b) = {}"
proof -
  let ?r = "resolutionOf p s"
  have views: "rdv_tableCompositions ?r =
      buildTableCompositionViews (activeCompositionsOf p) (draftCompositionsOf p s) (entryByKeyOf (rdv_allHandEntries ?r))"
    and byKey: "rdv_allEntryByKey ?r = entryByKeyOf (rdv_allHandEntries ?r)"
    by (simp_all add: draftCompositionsOf_def resolutionOf_def resolveDraftViews_def Let_def)
  have within: "staged_within T c" if "c \<in> set (rdv_tableCompositions ?r)" for c
    by (rule staged_within_views [OF _ that [unfolded views]]) (auto simp: T_def stagedHandKeySet_def staged_def)
  show "rowDragIds (bv_table b) \<subseteq> T"
  proof
    fix i
    assume "i \<in> rowDragIds (bv_table b)"
    then obtain rows row where "tsc_rows (boardTable x v s) = Some rows" "row \<in> set rows" "i \<in> dragIds (rowCards row)"
      by (auto simp: rowDragIds_def b_def GameBoardView_def Let_def split: option.splits)
    with table_rows [OF this(1) [unfolded boardTable_def Let_def] this(2)]
    obtain c a drafts canCompose viewer invalid where "c \<in> set (rdv_tableCompositions ?r)"
      and "i \<in> dragIds (rowCards (CompositionRow (bx_m x) (bx_name x) (tableCompositionProps a drafts canCompose viewer invalid c)))"
      unfolding p_def by blast
    with row_drags_within [OF within] show "i \<in> T" by blast
  qed
  have keys: "he_key ` set (dv_entries d) \<subseteq> N" if "d \<in> set (newCompositionsOf p s)" for d
  proof -
    from that obtain c where "c \<in> set (draftCompositionsOf p s)" "dc_tableIndex c = None"
      and "dv_entries d = mapHandKeysToEntries (dc_handKeys c) (entryByKeyOf (rdv_allHandEntries ?r))"
      by (auto simp: newCompositionsOf_def draftedViewsOf_def buildDraftedCompositionViews_def byKey)
    then have "he_key ` set (dv_entries d) \<subseteq> set (dc_handKeys c)"
      using mapHandKeys_keys [of "dc_handKeys c" "rdv_allHandEntries ?r"] by (metis filter_is_subset set_map)
    with \<open>c \<in> set (draftCompositionsOf p s)\<close> \<open>dc_tableIndex c = None\<close> show ?thesis
      by (auto simp: N_def stagedHandKeySet_def staged_def)
  qed
  show "draftDragIds (tsc_ownDrafts (bv_table b)) \<subseteq> N"
    unfolding draftDragIds_def b_def GameBoardView_def boardTable_def GameBoardTable_def Let_def BoardView.simps TableScreen.simps
    by (rule UN_least) (auto simp: p_def [symmetric] dest!: draft_drags [THEN subsetD] keys [THEN subsetD])
  show "draftDragIds (tsc_othersDrafts (bv_table b)) = {}"
    by (simp add: draftDragIds_def b_def GameBoardView_def boardTable_def GameBoardTable_def Let_def others_draft_still)
  have "draftCompositionsOf p s = pruneDraftCompositions (scopedCompositions p (bd_drafts s)) all"
    by (simp add: draftCompositionsOf_def resolutionOf_def resolveDraftViews_def Let_def all_def)
  then show "K \<subseteq> all" by (auto simp: K_def stagedHandKeySet_def staged_prune)
  have available: "he_key ` set (availableHandEntriesOf p s) = all - K"
    by (auto simp: availableHandEntriesOf_def availableEntries_def K_def all_def)
  have hand: "bv_hand b = boardHand (bx_m x) (bx_name x) (vp_spectating v) p s"
    by (simp add: b_def p_def GameBoardView_def Let_def)
  show "handDragIds (bv_hand b) \<subseteq> all - K"
    unfolding available [symmetric] hand by (auto simp: handDragIds_def boardHand_def GameBoardHand_def GameCard_def)
  show "\<not> vp_spectating v \<Longrightarrow> bp_game p \<noteq> None \<Longrightarrow> handDragIds (bv_hand b) = all - K"
    unfolding available [symmetric] hand by (force simp: handDragIds_def boardHand_def GameBoardHand_def GameCard_def)
  show "vp_spectating v \<Longrightarrow> handDragIds (bv_hand b) = {}"
    by (simp add: handDragIds_def b_def GameBoardView_def boardHand_def GameBoardHand_def Let_def)
qed

lemma staged_apart:
  "distinct (staged ds) \<Longrightarrow> set (staged (filter P ds)) \<inter> set (staged (filter (\<lambda>c. \<not> P c) ds)) = {}"
proof (induction ds)
  case (Cons c ds)
  have "set (staged (filter Q ds)) \<subseteq> set (staged ds)" for Q by (auto simp: staged_def)
  with Cons show ?case by auto
qed simp

text \<open>C19: However the player has dragged cards about, a card can be picked up in one place only: in the hand, on a
  composition of the table or in a new draft. All these are cards of the own hand or jokers won back, and nothing
  of another player's drafts can be moved.\<close>

theorem one_handle_per_card:
  assumes "board_start s0" and "reach (board_step moveItem moveItem) s0 s"
  shows "let b = GameBoardView x v s in
    handDragIds (bv_hand b) \<inter> rowDragIds (bv_table b) = {} \<and>
    handDragIds (bv_hand b) \<inter> draftDragIds (tsc_ownDrafts (bv_table b)) = {} \<and>
    rowDragIds (bv_table b) \<inter> draftDragIds (tsc_ownDrafts (bv_table b)) = {} \<and>
    draftDragIds (tsc_othersDrafts (bv_table b)) = {} \<and>
    handDragIds (bv_hand b) \<union> rowDragIds (bv_table b) \<union> draftDragIds (tsc_ownDrafts (bv_table b)) \<subseteq>
      he_key ` set (rdv_allHandEntries (resolutionOf (vp_board v) s))"
proof -
  let ?ds = "draftCompositionsOf (vp_board v) s"
  from play.run_inv [OF assms] have "distinct (staged ?ds)"
    using good_drafts [of s "vp_board v"] by (simp add: board_ok_def good_def drafts_ok_def)
  from staged_apart [OF this, of "\<lambda>c. dc_tableIndex c \<noteq> None"]
  have "stagedHandKeySet (filter (\<lambda>c. dc_tableIndex c \<noteq> None) ?ds) \<inter> stagedHandKeySet (filter (\<lambda>c. dc_tableIndex c = None) ?ds) = {}"
    by (simp add: stagedHandKeySet_def)
  moreover have "stagedHandKeySet (filter P ?ds) \<subseteq> stagedHandKeySet ?ds" for P
    by (auto simp: stagedHandKeySet_def staged_def)
  ultimately show ?thesis using board_drags(1-4) [where x = x and v = v and s = s] board_drags(5) [where v = v and s = s] unfolding Let_def by blast
qed

definition example_texts :: BoardTexts where
  "example_texts = \<lparr>bx_m = id, bx_name = (\<lambda>a b. a @ '' '' @ b), bx_count = js_show, bx_upper = id, bx_time = (\<lambda>_. 0)\<rparr>"

definition example_view :: BoardViewProps where
  "example_view = \<lparr>vp_board = example_board, vp_players = [], vp_spectatorCount = None, vp_spectating = False, vp_stage = None\<rparr>"

definition dragged_board :: BoardState where
  "dragged_board = board_run example_board example_moves (initialBoard [])"

theorem one_handle_per_card_witness:
  "map he_key (availableHandEntriesOf example_board dragged_board) = [''7-0-1'', ''10-0-1''] \<and>
   map (\<lambda>d. map rwc_key (ndv_cards d)) (tsc_ownDrafts (boardTable example_texts example_view dragged_board)) = [[''7-0-2'', ''9-0-1'']] \<and>
   handDragIds (bv_hand (GameBoardView example_texts example_view dragged_board)) \<inter>
     draftDragIds (tsc_ownDrafts (bv_table (GameBoardView example_texts example_view dragged_board))) = {}"
proof (intro conjI)
  have "board_start (initialBoard [])" by (auto simp: board_start_def)
  from one_handle_per_card [OF this board_run_reach [OF reach_start], of example_texts example_view example_board example_moves]
  show "handDragIds (bv_hand (GameBoardView example_texts example_view dragged_board)) \<inter>
     draftDragIds (tsc_ownDrafts (bv_table (GameBoardView example_texts example_view dragged_board))) = {}"
    unfolding Let_def dragged_board_def by blast
qed code_simp+

end
