(* ===== verification/AdminScreen.thy ===== *)
theory AdminScreen
  imports Pages DateRange
begin

text \<open>
  The administration on the screen: the sheet with one bug report and the table of the reports
  (\<open>routes/admin-bug-reports-page.tsx\<close>) over the state machine of \<open>Pages\<close>, and the figures and charts of the
  dashboard (\<open>routes/admin-analytics-dashboard.tsx\<close>). Dates are formatted by the host: \<open>formatCreatedAt\<close>,
  \<open>formatFullDate\<close> and the number formats are parameters.
\<close>

section \<open>The table of the reports\<close>

datatype ReportBadge = DestructiveBadge string | SecondaryBadge string

record ReportRow =
  rr_id :: string
  rr_createdAt :: string
  rr_roomCode :: string
  rr_description :: string
  rr_position :: "int \<times> int"
  rr_kind :: ReportBadge

definition reportRow :: "(string \<Rightarrow> string) \<Rightarrow> (string \<Rightarrow> string) \<Rightarrow> BugReportSummary \<Rightarrow> ReportRow" where
  "reportRow m formatCreatedAt bugReport =
     \<lparr>rr_id = br_id bugReport, rr_createdAt = formatCreatedAt (br_createdAt bugReport), rr_roomCode = br_roomCode bugReport,
      rr_description = br_description bugReport, rr_position = (br_round bugReport, br_turn bugReport),
      rr_kind = (if br_requestedAbort bugReport then DestructiveBadge (m ''admin_abort'') else SecondaryBadge (m ''admin_report_only''))\<rparr>"

record ReportsTableView =
  rt_dimmed :: bool
  rt_rows :: "ReportRow list"

definition ReportsTable :: "(string \<Rightarrow> string) \<Rightarrow> (string \<Rightarrow> string) \<Rightarrow> BugReportPage \<Rightarrow> bool \<Rightarrow> ReportsTableView" where
  "ReportsTable m formatCreatedAt reports isFetching =
     \<lparr>rt_dimmed = isFetching, rt_rows = map (reportRow m formatCreatedAt) (rp_reports reports)\<rparr>"

text \<open>A click on a row asks for a report of the list.\<close>

lemma row_click_enabled:
  "row \<in> set (rt_rows (ReportsTable m f (shownReports s) fetching)) \<Longrightarrow> reports_enabled (SelectReport (rr_id row)) s"
  by (auto simp: ReportsTable_def reportRow_def)

text \<open>The buttons of the footer: disabled for assistive tools, and out of the order of the tab key.\<close>

record PageButton =
  pb_disabled :: bool
  pb_tabIndex :: "int option"

definition pageButton :: "bool \<Rightarrow> PageButton" where
  "pageButton disabled = \<lparr>pb_disabled = disabled, pb_tabIndex = (if disabled then Some (- 1) else None)\<rparr>"

record ReportsFooterView =
  rf_pageOf :: "int \<times> int"
  rf_previous :: PageButton
  rf_next :: PageButton

definition reportsFooterView :: "ReportsState \<Rightarrow> ReportsFooterView option" where
  "reportsFooterView s =
     (let reports = shownReports s; fetching = qr_isFetching (rs_query s)
      in if reportsFooter s
         then Some \<lparr>rf_pageOf = (rp_page reports, rp_totalPages reports),
                rf_previous = pageButton (rs_page s \<le> 1 \<or> fetching),
                rf_next = pageButton (rp_totalPages reports \<le> rs_page s \<or> fetching)\<rparr>
         else None)"

text \<open>A button is shown as disabled exactly when a click on it does nothing.\<close>

lemma buttons_tell_the_truth:
  assumes "reportsFooterView s = Some footer"
  shows "pb_disabled (rf_previous footer) \<longleftrightarrow> rs_page (reportsPrevious result s) = rs_page s"
    and "pb_disabled (rf_next footer) \<longleftrightarrow> rs_page (reportsNext result s) = rs_page s"
  using assms
  by (auto simp: reportsFooterView_def pageButton_def reportsPrevious_def reportsNext_def Let_def split: if_splits)

section \<open>The sheet with one report\<close>

record BugReportDetail = BugReportSummary +
  bd_reporterUserId :: "string option"
  bd_gameState :: Json

definition reportMetadata ::
  "(string \<Rightarrow> string) \<Rightarrow> (string \<Rightarrow> string) \<Rightarrow> BugReportDetail \<Rightarrow> (string \<times> string) list" where
  "reportMetadata m formatCreatedAt bugReport =
     [(m ''admin_report_id'', br_id bugReport), (m ''admin_room'', br_roomCode bugReport),
      (m ''admin_reporter_player'', br_reporterPlayerId bugReport),
      (m ''admin_reporter_user'', or_else (bd_reporterUserId bugReport) (m ''admin_anonymous_player'')),
      (m ''round'', js_show (br_round bugReport)), (m ''turn'', js_show (br_turn bugReport)),
      (m ''admin_reported_at'', formatCreatedAt (br_createdAt bugReport)),
      (m ''admin_abort_requested'', if br_requestedAbort bugReport then m ''yes'' else m ''no'')]"

text \<open>The viewer: \<open>json\<close> is the indented text of the state, shown in one tab and copied; the other tab shows the
  state itself or an alert.\<close>

record StateViewer =
  sv_visual :: "VisualState option"
  sv_json :: string

definition GameStateViewer ::
  "(Json \<Rightarrow> string) \<Rightarrow> (Json \<Rightarrow> string) \<Rightarrow> (Json \<Rightarrow> PersistedGameState option) \<Rightarrow> BugReportDetail \<Rightarrow> StateViewer" where
  "GameStateViewer stringify indented safeParse bugReport =
     \<lparr>sv_visual = gameStateView stringify safeParse (bd_gameState bugReport), sv_json = indented (bd_gameState bugReport)\<rparr>"

datatype AdminToast = JsonCopied | JsonCopyError | ReportCompleted | ReportCompleteError

definition copyJson :: "bool \<Rightarrow> AdminToast" where
  "copyJson copied = (if copied then JsonCopied else JsonCopyError)"

datatype SheetBody = SheetSkeleton | SheetError | SheetDetail string "(string \<times> string) list" StateViewer

record SheetView =
  sh_open :: bool
  sh_badge :: ReportBadge
  sh_roomCode :: "string option"
  sh_description :: string
  sh_completeDisabled :: bool
  sh_spinner :: bool
  sh_body :: SheetBody

definition ReportDetailSheet ::
  "(string \<Rightarrow> string) \<Rightarrow> (string \<Rightarrow> string) \<Rightarrow> (BugReportDetail \<Rightarrow> StateViewer) \<Rightarrow> string option \<Rightarrow>
   BugReportDetail QueryResult \<Rightarrow> bool \<Rightarrow> SheetView" where
  "ReportDetailSheet m formatCreatedAt viewer reportId query completing =
     (let data = qr_data query;
          abort = (case data of Some bugReport \<Rightarrow> br_requestedAbort bugReport | None \<Rightarrow> False)
      in \<lparr>sh_open = (reportId \<noteq> None),
          sh_badge = (if abort then DestructiveBadge (m ''admin_abort_requested'') else SecondaryBadge (m ''admin_report_only'')),
          sh_roomCode = map_option br_roomCode data,
          sh_description = (case data of Some bugReport \<Rightarrow> formatCreatedAt (br_createdAt bugReport) | None \<Rightarrow> m ''admin_loading_report''),
          sh_completeDisabled = (data = None \<or> completing),
          sh_spinner = completing,
          sh_body = (if qr_isPending query then SheetSkeleton
            else case data of
              None \<Rightarrow> SheetError
            | Some bugReport \<Rightarrow>
                if qr_isError query then SheetError
                else SheetDetail (br_description bugReport) (reportMetadata m formatCreatedAt bugReport) (viewer bugReport))\<rparr>)"

text \<open>
  The query of the sheet is kept per report: \<open>sq_cache\<close> holds the answers by the id they were asked for. A completion
  sends the id of the report on the sheet; its success drops that report from the cache and lets the list be
  fetched anew.
\<close>

record SheetState =
  sq_reportId :: "string option"
  sq_cache :: "string \<rightharpoonup> BugReportDetail"
  sq_completing :: "string option"
  sq_sent :: "string list"
  sq_listStale :: bool
  sq_toasts :: "AdminToast list"

definition initialSheet :: SheetState where
  "initialSheet = \<lparr>sq_reportId = None, sq_cache = Map.empty, sq_completing = None, sq_sent = [], sq_listStale = False, sq_toasts = []\<rparr>"

definition sheetData :: "SheetState \<Rightarrow> BugReportDetail option" where
  "sheetData s = Option.bind (sq_reportId s) (sq_cache s)"

definition sheetView ::
  "(string \<Rightarrow> string) \<Rightarrow> (string \<Rightarrow> string) \<Rightarrow> (BugReportDetail \<Rightarrow> StateViewer) \<Rightarrow> bool \<Rightarrow> bool \<Rightarrow> SheetState \<Rightarrow> SheetView" where
  "sheetView m f viewer isError isFetching s =
     ReportDetailSheet m f viewer (sq_reportId s)
       \<lparr>qr_data = sheetData s, qr_isError = isError, qr_isFetching = isFetching,
        qr_isPending = (sheetData s = None \<and> \<not> isError)\<rparr> (sq_completing s \<noteq> None)"

datatype SheetEvent =
    OpenSheet string | CloseSheet | DetailArrives string BugReportDetail | CompletePressed
  | CompleteFails | CompleteSucceeds | ListRefetched

definition onSuccess :: "string \<Rightarrow> SheetState \<Rightarrow> SheetState" where
  "onSuccess completedReportId s = s\<lparr>sq_cache := (sq_cache s)(completedReportId := None), sq_listStale := True\<rparr>"

fun sheet_enabled :: "SheetEvent \<Rightarrow> SheetState \<Rightarrow> bool" where
  "sheet_enabled (OpenSheet i) s \<longleftrightarrow> sq_reportId s = None"
| "sheet_enabled CloseSheet s \<longleftrightarrow> sq_reportId s \<noteq> None"
| "sheet_enabled (DetailArrives i bugReport) s \<longleftrightarrow> br_id bugReport = i"
| "sheet_enabled CompletePressed s \<longleftrightarrow> sheetData s \<noteq> None \<and> sq_completing s = None"
| "sheet_enabled CompleteFails s \<longleftrightarrow> sq_completing s \<noteq> None \<and> \<not> sq_listStale s"
| "sheet_enabled CompleteSucceeds s \<longleftrightarrow> sq_completing s \<noteq> None \<and> \<not> sq_listStale s"
| "sheet_enabled ListRefetched s \<longleftrightarrow> sq_completing s \<noteq> None \<and> sq_listStale s"

fun sheet_handle :: "SheetEvent \<Rightarrow> SheetState \<Rightarrow> SheetState" where
  "sheet_handle (OpenSheet i) s = s\<lparr>sq_reportId := Some i\<rparr>"
| "sheet_handle CloseSheet s = s\<lparr>sq_reportId := None\<rparr>"
| "sheet_handle (DetailArrives i bugReport) s = s\<lparr>sq_cache := (sq_cache s)(i \<mapsto> bugReport)\<rparr>"
| "sheet_handle CompletePressed s =
     (case sheetData s of
        None \<Rightarrow> s
      | Some bugReport \<Rightarrow> s\<lparr>sq_completing := Some (br_id bugReport), sq_sent := sq_sent s @ [br_id bugReport]\<rparr>)"
| "sheet_handle CompleteFails s = s\<lparr>sq_completing := None, sq_toasts := sq_toasts s @ [ReportCompleteError]\<rparr>"
| "sheet_handle CompleteSucceeds s = (case sq_completing s of None \<Rightarrow> s | Some i \<Rightarrow> onSuccess i s)"
| "sheet_handle ListRefetched s =
     s\<lparr>sq_completing := None, sq_reportId := None, sq_listStale := False, sq_toasts := sq_toasts s @ [ReportCompleted]\<rparr>"

definition cache_ok :: "SheetState \<Rightarrow> bool" where
  "cache_ok s \<longleftrightarrow> (\<forall>i bugReport. sq_cache s i = Some bugReport \<longrightarrow> br_id bugReport = i)"

interpretation sheet: invariant "\<lambda>s. s = initialSheet" "guarded_step sheet_enabled sheet_handle" cache_ok
proof (unfold_locales, goal_cases)
  case (1 s)
  then show ?case by (simp add: cache_ok_def initialSheet_def)
next
  case (2 s s')
  then obtain e where "sheet_enabled e s" "s' = sheet_handle e s" by (auto simp: guarded_step_def)
  with 2(1) show ?case by (cases e) (auto simp: cache_ok_def onSuccess_def split: option.splits)
qed

text \<open>The button completes the report the sheet shows and no other, and it can be pressed just when it is enabled.\<close>

lemma completes_the_shown_report:
  assumes "reach (guarded_step sheet_enabled sheet_handle) initialSheet s" and "sheet_enabled CompletePressed s"
  shows "Some (last (sq_sent (sheet_handle CompletePressed s))) = sq_reportId s \<and>
    \<not> sh_completeDisabled (sheetView m f viewer isError isFetching s)"
proof -
  from sheet.run_inv [OF refl assms(1)] have "cache_ok s" .
  with assms(2) show ?thesis
    by (auto simp: cache_ok_def sheetData_def sheetView_def ReportDetailSheet_def Let_def bind_eq_Some_conv)
qed

text \<open>A finding of the model: the list is refetched before the sheet is closed, so a sheet opened in the meantime for
  another report is closed as well.\<close>

lemma completion_closes_other_sheet:
  assumes "br_id r = ''a''"
  shows "map_option sq_reportId (run sheet_enabled sheet_handle
     [OpenSheet ''a'', DetailArrives ''a'' r, CompletePressed, CloseSheet, OpenSheet ''b'', CompleteSucceeds, ListRefetched] initialSheet)
   = Some None"
  using assms by (simp add: initialSheet_def sheetData_def onSuccess_def)

section \<open>The dashboard\<close>

record AnalyticsTotals =
  at_games :: int
  at_activePlayers :: int
  at_activePlaytimeSeconds :: int
  at_healthyFinishRate :: rat
  at_bugReports :: int
  at_bugsResolved :: int
  at_medianBugResolutionSeconds :: rat

record AnalyticsPoint =
  ap_date :: string
  ap_value :: "PointKey \<Rightarrow> nat"

record AdminAnalytics =
  an_from :: string
  an_to :: string
  an_current :: AnalyticsTotals
  an_points :: "AnalyticsPoint list"

text \<open>\<open>m\<close> gives the texts, \<open>hm\<close> and \<open>mi\<close> those of a duration, \<open>number\<close> and \<open>percent\<close> format for the locale.\<close>

record Formats =
  fo_m :: "string \<Rightarrow> string"
  fo_hm :: "int \<Rightarrow> int \<Rightarrow> string"
  fo_mi :: "int \<Rightarrow> string"
  fo_number :: "int \<Rightarrow> string"
  fo_percent :: "rat \<Rightarrow> string"
  fo_fullDate :: "string \<Rightarrow> string"

definition formatDateRange :: "Formats \<Rightarrow> string \<Rightarrow> AnalyticsDateRange \<Rightarrow> string" where
  "formatDateRange x dash r = fo_fullDate x (range_from r) @ dash @ fo_fullDate x (range_to r)"

definition SummaryGrid :: "Formats \<Rightarrow> AnalyticsTotals \<Rightarrow> (string \<times> string) list" where
  "SummaryGrid x current =
     [(fo_m x ''games_played'', fo_number x (at_games current)),
      (fo_m x ''admin_analytics_active_players'', fo_number x (at_activePlayers current)),
      (fo_m x ''total_playtime'', formatPlaytime (fo_hm x) (fo_mi x) (of_int (at_activePlaytimeSeconds current))),
      (fo_m x ''admin_analytics_healthy_finish_rate'', fo_percent x (at_healthyFinishRate current))]"

datatype ChartKind = LineKind | BarKind | AreaKind

record ChartSeries =
  cs_key :: PointKey
  cs_label :: string
  cs_color :: string
  cs_stack :: "string option"

record ChartCard =
  cc_title :: string
  cc_description :: string
  cc_kind :: ChartKind
  cc_series :: "ChartSeries list"

definition series :: "Formats \<Rightarrow> string option \<Rightarrow> (PointKey \<times> string \<times> string) list \<Rightarrow> ChartSeries list" where
  "series x stack config =
     map (\<lambda>(key, label, color). \<lparr>cs_key = key, cs_label = fo_m x label, cs_color = color, cs_stack = stack\<rparr>) config"

definition usageConfig :: "(PointKey \<times> string \<times> string) list" where
  "usageConfig = [(PointGames, ''games_label'', ''var(--chart-1)''),
     (PointActivePlayers, ''admin_analytics_active_players'', ''var(--chart-3)'')]"

definition playersConfig :: "(PointKey \<times> string \<times> string) list" where
  "playersConfig = [(PointNewPlayers, ''admin_analytics_new_players'', ''var(--chart-2)''),
     (PointReturningPlayers, ''admin_analytics_returning_players'', ''var(--chart-4)'')]"

definition outcomeConfig :: "(PointKey \<times> string \<times> string) list" where
  "outcomeConfig = [(PointCompleted, ''admin_analytics_completed'', ''var(--chart-1)''),
     (PointForfeit, ''forfeit'', ''var(--chart-2)''), (PointMutualEnd, ''admin_analytics_mutual_end'', ''var(--chart-3)''),
     (PointTechnicalAbort, ''admin_analytics_technical_abort'', ''var(--chart-4)''),
     (PointAbandoned, ''admin_analytics_abandoned'', ''var(--chart-5)''),
     (PointInProgress, ''admin_analytics_in_progress'', ''var(--muted-foreground)'')]"

definition bugConfig :: "(PointKey \<times> string \<times> string) list" where
  "bugConfig = [(PointBugReports, ''admin_analytics_reports_created'', ''var(--chart-2)''),
     (PointBugsResolved, ''admin_analytics_reports_resolved'', ''var(--chart-4)'')]"

text \<open>\<open>withMedian\<close> is the description with the median; \<open>noMedian\<close> is the dash shown without one.\<close>

definition AnalyticsCharts :: "Formats \<Rightarrow> (string \<Rightarrow> string) \<Rightarrow> string \<Rightarrow> AdminAnalytics \<Rightarrow> ChartCard list" where
  "AnalyticsCharts x withMedian noMedian analytics =
     (let median = or_else (medianResolution (fo_hm x) (fo_mi x) (nat (at_bugsResolved (an_current analytics)))
            (at_medianBugResolutionSeconds (an_current analytics))) noMedian
      in [\<lparr>cc_title = fo_m x ''admin_analytics_usage_trend'', cc_description = fo_m x ''admin_analytics_usage_trend_description'',
           cc_kind = LineKind, cc_series = series x None usageConfig\<rparr>,
          \<lparr>cc_title = fo_m x ''admin_analytics_player_mix'', cc_description = fo_m x ''admin_analytics_player_mix_description'',
           cc_kind = BarKind, cc_series = series x (Some ''players'') playersConfig\<rparr>,
          \<lparr>cc_title = fo_m x ''admin_analytics_game_outcomes'', cc_description = fo_m x ''admin_analytics_game_outcomes_description'',
           cc_kind = BarKind, cc_series = series x (Some ''outcomes'') outcomeConfig\<rparr>,
          \<lparr>cc_title = fo_m x ''admin_analytics_bug_activity'', cc_description = withMedian median,
           cc_kind = AreaKind, cc_series = series x None bugConfig\<rparr>])"

definition tooltipLabel :: "Formats \<Rightarrow> AnalyticsPoint list \<Rightarrow> string" where
  "tooltipLabel x payload =
     (case payload of [] \<Rightarrow> [] | point # _ \<Rightarrow> if ap_date point = [] then [] else fo_fullDate x (ap_date point))"

text \<open>Every figure of a point is drawn in exactly one chart, in a color of its own there, and the rounded corners of a
  bar follow the order in which its chart stacks.\<close>

lemma every_figure_drawn_once:
  "distinct (concat (map (\<lambda>c. map cs_key (cc_series c)) (AnalyticsCharts x w n analytics))) \<and>
   set (concat (map (\<lambda>c. map cs_key (cc_series c)) (AnalyticsCharts x w n analytics))) = UNIV \<and>
   list_all (\<lambda>c. distinct (map cs_color (cc_series c))) (AnalyticsCharts x w n analytics) \<and>
   map (\<lambda>c. map cs_key (cc_series c)) (filter (\<lambda>c. cc_kind c = BarKind) (AnalyticsCharts x w n analytics)) =
     [playerStackKeys, outcomeStackKeys]"
proof -
  have "k \<in> {PointGames, PointActivePlayers, PointNewPlayers, PointReturningPlayers, PointCompleted, PointForfeit,
      PointMutualEnd, PointTechnicalAbort, PointAbandoned, PointInProgress, PointBugReports, PointBugsResolved}" for k
    by (cases k) simp_all
  then show ?thesis
    by (auto simp: AnalyticsCharts_def Let_def series_def usageConfig_def playersConfig_def outcomeConfig_def bugConfig_def
      playerStackKeys_def outcomeStackKeys_def)
qed

text \<open>The day in the time zone of the analytics, from the parts of the host's format; \<open>None\<close> is the error thrown.\<close>

definition lastPart :: "string \<Rightarrow> (string \<times> string) list \<Rightarrow> string" where
  "lastPart kind parts = foldl (\<lambda>found part. if fst part = kind then snd part else found) [] parts"

definition currentAnalyticsDate :: "(string \<times> string) list \<Rightarrow> string option" where
  "currentAnalyticsDate parts =
     (let year = lastPart ''year'' parts; month = lastPart ''month'' parts; day = lastPart ''day'' parts
      in if year = [] \<or> month = [] \<or> day = [] then None
         else Some (year @ ''-'' @ month @ ''-'' @ day))"

definition defaultDateRange :: "(string \<times> string) list \<Rightarrow> (CalendarError + AnalyticsDateRange) option" where
  "defaultDateRange parts = map_option (analyticsPeriodRange MonthPeriod) (currentAnalyticsDate parts)"

text \<open>Whatever order the host gives the parts of a day in, and whatever stands between them, the date is the one the
  calendar prints, and the dashboard starts with its month.\<close>

lemma date_from_parts:
  assumes "set (filter (\<lambda>p. fst p \<noteq> ''literal'') parts) = {(''year'', y), (''month'', mo), (''day'', d)}"
    and "y \<noteq> []" "mo \<noteq> []" "d \<noteq> []"
  shows "currentAnalyticsDate parts = Some (y @ ''-'' @ mo @ ''-'' @ d)"
proof -
  have one: "lastPart k ps = (if k \<in> fst ` set ps then v else [])"
    if "\<forall>p \<in> set ps. fst p = k \<longrightarrow> snd p = v" for k v and ps :: "(string \<times> string) list"
  proof -
    have "foldl (\<lambda>found part. if fst part = k then snd part else found) z ps = (if k \<in> fst ` set ps then v else z)" for z
      using that by (induction ps arbitrary: z) auto
    then show ?thesis by (simp add: lastPart_def)
  qed
  have mem: "(k, v) \<in> set parts \<longleftrightarrow> (k, v) \<in> {(''year'', y), (''month'', mo), (''day'', d)}" if "k \<noteq> ''literal''" for k v
  proof -
    have "(k, v) \<in> set parts \<longleftrightarrow> (k, v) \<in> set (filter (\<lambda>p. fst p \<noteq> ''literal'') parts)" using that by simp
    then show ?thesis unfolding assms(1) .
  qed
  have part: "lastPart k parts = v" if "(k, v) \<in> {(''year'', y), (''month'', mo), (''day'', d)}" for k v
  proof -
    have k: "k \<noteq> ''literal''" using that by auto
    have "\<forall>p \<in> set parts. fst p = k \<longrightarrow> snd p = v" using mem [OF k] that by auto
    moreover have "k \<in> fst ` set parts" using mem [OF k, of v] that by (force intro: rev_image_eqI)
    ultimately show ?thesis using one [of parts k v] by (simp only: if_True)
  qed
  have "lastPart ''year'' parts = y" "lastPart ''month'' parts = mo" "lastPart ''day'' parts = d"
    by (simp_all add: part)
  then show ?thesis using assms(2-4) by (simp add: currentAnalyticsDate_def)
qed

end
