(* ===== verification/ResultsScreen.thy ===== *)
theory ResultsScreen
  imports RevealHook DealScreen BoardView
begin

text \<open>
  The page of the results as drawn (\<open>game-results-view.tsx\<close>): the numbers of a row in each phase of the reveal and the
  interval that counts them, the rows of the table, the winner's takeover, and the page around them with the choice of
  the next deal and its buttons.
\<close>

section \<open>A number that counts\<close>

text \<open>The properties of \<open>GradualScoreNumber\<close>; its key mounts it anew in every phase.\<close>

record CountedNumber =
  cn_key :: string
  cn_from :: int
  cn_value :: int
  cn_isCounting :: bool
  cn_prefix :: "string option"
  cn_duration :: int
  cn_trend :: int

definition initialDisplayed :: "CountedNumber \<Rightarrow> int" where
  "initialDisplayed n = (if cn_isCounting n then cn_from n else cn_value n)"

definition interval_runs :: "bool \<Rightarrow> CountedNumber \<Rightarrow> bool" where
  "interval_runs shouldReduceMotion n \<longleftrightarrow> \<not> (\<not> cn_isCounting n \<or> shouldReduceMotion \<or> cn_from n = cn_value n)"

text \<open>\<open>setInterval\<close> takes its delay as a whole number of milliseconds.\<close>

definition countInterval :: "CountedNumber \<Rightarrow> int" where
  "countInterval n = cn_duration n div \<bar>cn_value n - cn_from n\<bar>"

text \<open>The number on the screen after \<open>ticks\<close> ticks of the interval.\<close>

definition shownNumber :: "bool \<Rightarrow> nat \<Rightarrow> CountedNumber \<Rightarrow> int" where
  "shownNumber shouldReduceMotion ticks n =
     (let displayedValue = (if interval_runs shouldReduceMotion n
            then gr_displayedValue ((gradualTick (cn_from n) (cn_value n) ^^ ticks) (gradualStart (cn_from n)))
            else initialDisplayed n)
      in if cn_isCounting n \<and> \<not> shouldReduceMotion then displayedValue else cn_value n)"

text \<open>While the interval runs on time the number reaches its value before the time of its phase is over: as many
  ticks as it needs fit into the duration.\<close>

lemma count_fits_duration:
  assumes "interval_runs reduced n" and "\<bar>cn_value n - cn_from n\<bar> \<le> ticks"
  shows "shownNumber reduced (nat ticks) n = cn_value n"
    and "\<bar>cn_value n - cn_from n\<bar> * countInterval n \<le> cn_duration n"
proof -
  have "cn_from n \<noteq> cn_value n" using assms(1) by (simp add: interval_runs_def)
  from gradual_count_ends [OF this refl]
  have "gr_displayedValue ((gradualTick (cn_from n) (cn_value n) ^^ (nat \<bar>cn_value n - cn_from n\<bar> + k)) (gradualStart (cn_from n)))
      = cn_value n" for k by blast
  from this [of "nat ticks - nat \<bar>cn_value n - cn_from n\<bar>"] assms
  show "shownNumber reduced (nat ticks) n = cn_value n" by (simp add: shownNumber_def nat_le_eq_zle)
  have "0 < \<bar>cn_value n - cn_from n\<bar>" using \<open>cn_from n \<noteq> cn_value n\<close> by simp
  then show "\<bar>cn_value n - cn_from n\<bar> * countInterval n \<le> cn_duration n"
    using mult_div_mod_eq [of "\<bar>cn_value n - cn_from n\<bar>" "cn_duration n"]
      pos_mod_sign [of "\<bar>cn_value n - cn_from n\<bar>" "cn_duration n"]
    unfolding countInterval_def by linarith
qed

lemma resting_number: "\<not> cn_isCounting n \<or> reduced \<Longrightarrow> shownNumber reduced ticks n = cn_value n"
  by (auto simp: shownNumber_def)

section \<open>The points of a row\<close>

record ResultCells =
  rc_phase :: string
  rc_flying :: bool
  rc_flyingValue :: bool
  rc_overHundred :: bool
  rc_title :: "(int \<times> int) option"
  rc_plane :: bool
  rc_total :: CountedNumber
  rc_gained :: CountedNumber
  rc_gainedMarked :: bool

definition phaseName :: "TimelinePhase \<Rightarrow> string" where
  "phaseName phase =
     (case phase of Shown PreviousPhase \<Rightarrow> ''previous'' | Shown RoundPhase \<Rightarrow> ''round'' | Shown AdjustedPhase \<Rightarrow> ''adjusted''
      | Counting \<Rightarrow> ''counting'' | Adjusting \<Rightarrow> ''adjusting'')"

definition ResultPoints :: "PlayerStateSnapshot \<Rightarrow> TimelinePhase \<Rightarrow> ResultCells" where
  "ResultPoints playerState phase =
     (let isCountingUp = (phase = Counting);
          isCountingDown = (phase = Adjusting);
          score = resultScoreState playerState (shownScorePhase phase);
          previousScore = resultScoreState playerState PreviousPhase
      in \<lparr>rc_phase = phaseName phase, rc_flying = rs_hasAdjustment score,
          rc_flyingValue = rs_isShowingAdjustment score, rc_overHundred = rs_isShowingOverHundred score,
          rc_title = (if rs_isShowingAdjustment score then Some (rs_unadjustedTotal score, ps_totalPoints playerState) else None),
          rc_plane = (phase = Shown AdjustedPhase \<and> rs_isShowingAdjustment score),
          rc_total = \<lparr>cn_key = ''total-'' @ phaseName phase, cn_from = countsFrom playerState phase,
            cn_value = rs_displayedTotal score, cn_isCounting = (isCountingUp \<or> isCountingDown), cn_prefix = None,
            cn_duration = (if isCountingDown then SCORE_ADJUSTMENT_COUNT_DURATION_MS else SCORE_COUNT_DURATION_MS),
            cn_trend = (if isCountingDown then -1 else 1)\<rparr>,
          rc_gained = \<lparr>cn_key = ''gained-'' @ phaseName phase, cn_from = rs_displayedGained previousScore,
            cn_value = rs_displayedGained score, cn_isCounting = isCountingUp,
            cn_prefix = (if 0 < rs_displayedGained score then Some ''+'' else None),
            cn_duration = SCORE_COUNT_DURATION_MS, cn_trend = 1\<rparr>,
          rc_gainedMarked = (0 < rs_displayedGained score)\<rparr>)"

text \<open>The plane flies only over a total that the adjustment has lowered or raised, and the title names both totals.\<close>

lemma plane_explained:
  "rc_plane (ResultPoints p phase) \<Longrightarrow>
     \<exists>from. rc_title (ResultPoints p phase) = Some (from, ps_totalPoints p) \<and> 100 < from \<and> from \<noteq> ps_totalPoints p"
  by (auto simp: ResultPoints_def Let_def resultScoreState_def shownScorePhase_def split: if_splits)

text \<open>The numbers of a row do not jump: in each phase its timers bring, the numbers start where they stood in the
  phase before.\<close>

definition continues :: "PlayerStateSnapshot \<Rightarrow> TimelinePhase \<Rightarrow> TimelinePhase \<Rightarrow> bool" where
  "continues p before after \<longleftrightarrow>
     initialDisplayed (rc_total (ResultPoints p after)) = cn_value (rc_total (ResultPoints p before)) \<and>
     initialDisplayed (rc_gained (ResultPoints p after)) = cn_value (rc_gained (ResultPoints p before))"

fun phaseSet :: "RevealAction \<Rightarrow> TimelinePhase" where
  "phaseSet (SetPhase scorePlayerId phase) = phase"
| "phaseSet RevealAll = Shown AdjustedPhase"

lemma in_timeline:
  "(i, h) \<in> set (scoreTimeline game players) \<Longrightarrow>
     \<exists>p \<in> set (game_players game). ps_playerId p = i \<and>
       (h \<longleftrightarrow> rs_displayedTotal (resultScoreState p RoundPhase) \<noteq> rs_displayedTotal (resultScoreState p AdjustedPhase))"
proof -
  assume "(i, h) \<in> set (scoreTimeline game players)"
  then obtain row where row: "row \<in> set (rankingRows game players PreviousPhase)"
    and "ps_playerId (rr_playerState row) = i \<and> (h \<longleftrightarrow> rs_displayedTotal (resultScoreState (rr_playerState row) RoundPhase)
      \<noteq> rs_displayedTotal (resultScoreState (rr_playerState row) AdjustedPhase))"
    by (auto simp: scoreTimeline_def map_filter_def Let_def split: if_splits)
  moreover from row have "rr_playerState row \<in> set (map rr_playerState (rankingRows game players PreviousPhase))" by simp
  then have "rr_playerState row \<in> set (game_players game)" by (simp only: ranking_states set_sort)
  ultimately show ?thesis by blast
qed

lemma numbers_do_not_jump:
  assumes "h \<longleftrightarrow> rs_displayedTotal (resultScoreState p RoundPhase) \<noteq> rs_displayedTotal (resultScoreState p AdjustedPhase)"
  shows "successively (continues p) (Shown PreviousPhase # map (phaseSet \<circ> snd) (revealTimers a (ps_playerId p, h)))"
  using assms by (cases h) (simp_all add: revealTimers_def Let_def continues_def ResultPoints_def initialDisplayed_def
      shownScorePhase_def countsFrom_def resultScoreState_def)

lemma shown_numbers_continue:
  "(i, h) \<in> set (scoreTimeline game players) \<Longrightarrow>
     \<exists>p \<in> set (game_players game). ps_playerId p = i \<and>
       successively (continues p) (Shown PreviousPhase # map (phaseSet \<circ> snd) (revealTimers a (i, h)))"
  using in_timeline numbers_do_not_jump by metis

section \<open>The table\<close>

text \<open>A text of the page that names a player, the name first.\<close>

datatype NamedText = JustName string | TextWith string string

record LeftoverHand =
  lh_disabled :: bool
  lh_title :: "string + int"
  lh_label :: "string \<times> string \<times> int option"
  lh_cards :: "(CardSnapshot \<times> string) list"

text \<open>The title is the names of the cards, or says how many are left.\<close>

definition LeftoverHandTooltip ::
  "(string \<Rightarrow> string) \<Rightarrow> (string \<Rightarrow> string \<Rightarrow> string) \<Rightarrow> int \<Rightarrow> CardSnapshot list \<Rightarrow> string \<Rightarrow> LeftoverHand" where
  "LeftoverHandTooltip m card_name_text handCount hand shownName =
     (let hasRevealedHand = (hand \<noteq> [])
      in \<lparr>lh_disabled = (\<not> hasRevealedHand),
          lh_title = (if hasRevealedHand then Inl (join_with '', '' (map (cardName m card_name_text) hand)) else Inr handCount),
          lh_label = (if hasRevealedHand then (''leftover_hand'', shownName, None)
            else (''player_cards_left'', shownName, Some handCount)),
          lh_cards = keyedCards hand\<rparr>)"

record ResultRow =
  rw_playerId :: string
  rw_reordered :: bool
  rw_rank :: int
  rw_isRoundWinner :: bool
  rw_label :: NamedText
  rw_image :: "string option"
  rw_fallback :: "string option"
  rw_name :: string
  rw_leftover :: "LeftoverHand option"
  rw_points :: ResultCells

text \<open>The fallback of the picture is the initials, and an icon (\<open>None\<close>) for an unknown player.\<close>

definition resultRow ::
  "BoardTexts \<Rightarrow> ScoreRevealState \<Rightarrow> string set \<Rightarrow> bool \<Rightarrow> RankingRow \<Rightarrow> ResultRow" where
  "resultRow x revealState scorePlayerIds shouldReduceMotion row =
     (let playerState = rr_playerState row;
          shownName = (case rr_player row of Some player \<Rightarrow> pl_name player | None \<Rightarrow> bx_m x ''unknown_player'')
      in \<lparr>rw_playerId = ps_playerId playerState, rw_reordered = reveal_hasReordered revealState, rw_rank = rr_rank row,
          rw_isRoundWinner = rr_isRoundWinner row,
          rw_label = (if rr_isRoundWinner row then TextWith ''winner_accessible'' shownName else JustName shownName),
          rw_image = (case Option.bind (rr_player row) pl_imageUrl of Some url \<Rightarrow> if url = [] then None else Some url | None \<Rightarrow> None),
          rw_fallback = (if shownName = bx_m x ''unknown_player'' then None else Some (getUserInitials (bx_upper x) shownName)),
          rw_name = shownName,
          rw_leftover = (case ps_hand playerState of
              None \<Rightarrow> None
            | Some hand \<Rightarrow>
                if hand = [] then None
                else Some (LeftoverHandTooltip (bx_m x) (bx_name x) (ps_handCount playerState) hand shownName)),
          rw_points = ResultPoints playerState
            (scorePhaseOf shouldReduceMotion scorePlayerIds revealState (ps_playerId playerState))\<rparr>)"

definition ResultsScoreTable ::
  "BoardTexts \<Rightarrow> ScoreRevealState \<Rightarrow> string set \<Rightarrow> bool \<Rightarrow> RankingRow list \<Rightarrow> ResultRow list" where
  "ResultsScoreTable x revealState scorePlayerIds shouldReduceMotion rows' =
     map (resultRow x revealState scorePlayerIds shouldReduceMotion) rows'"

text \<open>The table as the page draws it.\<close>

definition resultsTable :: "BoardTexts \<Rightarrow> GameSnapshot \<Rightarrow> PlayerSnapshot list \<Rightarrow> bool \<Rightarrow> ScoreRevealState \<Rightarrow> ResultRow list" where
  "resultsTable x game players shouldReduceMotion revealState =
     ResultsScoreTable x revealState (set (map fst (scoreTimeline game players))) shouldReduceMotion
       (visibleRows game players shouldReduceMotion revealState)"

text \<open>The button with the cards left over is never drawn without cards.\<close>

lemma leftover_has_cards:
  "rw_leftover (resultRow x s ids reduced row) = Some lo \<Longrightarrow> \<not> lh_disabled lo \<and> lh_cards lo \<noteq> [] \<and>
     map fst (lh_cards lo) = the (ps_hand (rr_playerState row))"
proof -
  have "map fst (draftCardInstancesFrom f cards) = cards" for f cards
    by (induction cards arbitrary: f) (simp_all add: Let_def)
  from this [of "\<lambda>_. None"] have "map fst (keyedCards cards) = cards" for cards
    by (simp add: keyedCards_def draftCardInstances_def)
  moreover from this have "keyedCards cards = [] \<longleftrightarrow> cards = []" for cards
    by (metis map_is_Nil_conv)
  moreover assume "rw_leftover (resultRow x s ids reduced row) = Some lo"
  ultimately show ?thesis
    by (auto simp: resultRow_def LeftoverHandTooltip_def Let_def split: option.splits if_splits)
qed

section \<open>The reveal on the table\<close>

lemma result_table_ids:
  "map rw_playerId (resultsTable x game players reduced s) = map (\<lambda>row. ps_playerId (rr_playerState row)) (visibleRows game players reduced s)"
  by (simp add: resultsTable_def ResultsScoreTable_def resultRow_def Let_def)

lemma adjusted_all: "i \<in> ps_playerId ` set ps \<Longrightarrow> map_of (adjustedScorePhases ps) i = Some (Shown AdjustedPhase)"
proof -
  have "map_of (foldl (\<lambda>phases player. AList.update (ps_playerId player) (Shown AdjustedPhase) phases) ph ps) i
      = (if i \<in> ps_playerId ` set ps then Some (Shown AdjustedPhase) else map_of ph i)" for ph
    by (induction ps arbitrary: ph) (auto simp: update_conv)
  then show "i \<in> ps_playerId ` set ps \<Longrightarrow> map_of (adjustedScorePhases ps) i = Some (Shown AdjustedPhase)"
    by (simp add: adjustedScorePhases_def)
qed

lemma all_adjusted:
  assumes "p \<in> set (game_players game)" and "reduced \<or> reveal_phases s = adjustedScorePhases (game_players game)"
  shows "scorePhaseOf reduced ids s (ps_playerId p) = Shown AdjustedPhase"
  using assms adjusted_all [of "ps_playerId p" "game_players game"] by (auto simp: scorePhaseOf_def or_else_def)

definition counts :: "ResultRow \<Rightarrow> bool" where
  "counts row \<longleftrightarrow> cn_isCounting (rc_total (rw_points row)) \<or> cn_isCounting (rc_gained (rw_points row))"

definition finalTable :: "GameSnapshot \<Rightarrow> PlayerSnapshot list \<Rightarrow> ResultRow list \<Rightarrow> bool" where
  "finalTable game players table \<longleftrightarrow>
     map rw_rank table = [1..int (length (game_players game))] \<and>
     map rw_playerId table = map ps_playerId (sort_key (\<lambda>p. (ps_totalPoints p, seatOf players p)) (game_players game)) \<and>
     map (cn_value \<circ> rc_total \<circ> rw_points) table
       = map ps_totalPoints (sort_key (\<lambda>p. (ps_totalPoints p, seatOf players p)) (game_players game)) \<and>
     (\<forall>row \<in> set table. \<not> counts row)"

lemma visible_states:
  "map rr_playerState (visibleRows game players reduced s) =
     sort_key (rankingKey players (if reduced \<or> reveal_hasReordered s then AdjustedPhase else PreviousPhase)) (game_players game)"
  by (simp add: visibleRows_def ranking_states)

lemma final_table:
  assumes "reduced \<or> reveal_hasReordered s \<and> reveal_phases s = adjustedScorePhases (game_players game)"
  shows "finalTable game players (resultsTable x game players reduced s)"
proof -
  let ?rows = "visibleRows game players reduced s"
  have key: "rankingKey players AdjustedPhase = (\<lambda>p. (ps_totalPoints p, seatOf players p))"
    by (simp add: fun_eq_iff rankingKey_def resultScoreState_def Let_def)
  have reordered: "reduced \<or> reveal_hasReordered s" using assms by blast
  have states: "map rr_playerState ?rows = sort_key (\<lambda>p. (ps_totalPoints p, seatOf players p)) (game_players game)"
    using reordered by (simp only: visible_states if_True key)
  have phase: "scorePhaseOf reduced ids s (ps_playerId (rr_playerState row)) = Shown AdjustedPhase" if "row \<in> set ?rows" for row ids
  proof -
    have "rr_playerState row \<in> set (map rr_playerState ?rows)" using that by simp
    then have "rr_playerState row \<in> set (game_players game)" by (simp only: states set_sort)
    with assms show ?thesis by (intro all_adjusted) auto
  qed
  have points: "rw_points (resultRow x s ids reduced row) = ResultPoints (rr_playerState row) (Shown AdjustedPhase)"
    if "row \<in> set ?rows" for row ids
    using phase [OF that] by (simp add: resultRow_def Let_def)
  have "map rw_rank (resultsTable x game players reduced s) = map rr_rank ?rows"
    by (simp add: resultsTable_def ResultsScoreTable_def resultRow_def Let_def)
  also have "\<dots> = [1..int (length (game_players game))]"
    using ranking_by_points [of game players] reordered by (simp add: visibleRows_def)
  moreover have "map rw_playerId (resultsTable x game players reduced s) = map ps_playerId (map rr_playerState ?rows)"
    by (simp add: result_table_ids)
  moreover have "map (cn_value \<circ> rc_total \<circ> rw_points) (resultsTable x game players reduced s)
      = map ps_totalPoints (map rr_playerState ?rows)"
    by (simp add: resultsTable_def ResultsScoreTable_def points)
      (simp add: ResultPoints_def Let_def resultScoreState_def shownScorePhase_def)
  moreover have "\<forall>row \<in> set (resultsTable x game players reduced s). \<not> counts row"
    by (auto simp: resultsTable_def ResultsScoreTable_def points counts_def) (auto simp: ResultPoints_def Let_def)
  ultimately show ?thesis unfolding finalTable_def states by simp
qed

lemma counting_moves:
  assumes "row \<in> set (resultsTable x game players False s)" and "counts row"
  shows "moving s (rw_playerId row)"
proof -
  obtain r where "row = resultRow x s (set (map fst (scoreTimeline game players))) False r"
    using assms(1) by (auto simp: resultsTable_def ResultsScoreTable_def)
  with assms(2) have "scorePhaseOf False (set (map fst (scoreTimeline game players))) s (rw_playerId row) \<in> {Counting, Adjusting}"
    by (auto simp: counts_def resultRow_def Let_def ResultPoints_def)
  then show ?thesis by (auto simp: scorePhaseOf_def moving_def or_else_def split: if_splits option.splits)
qed



section \<open>The page\<close>

datatype ResultsFooter = BackToLobby | StartNextRound bool bool | NoFooter

record ResultsView =
  gv_takeover :: "(string \<times> PlayerSnapshot) option"
  gv_title :: string
  gv_description :: "string \<times> string option"
  gv_badge :: "string \<times> bool"
  gv_table :: "ResultRow list"
  gv_deal :: "DealView option"
  gv_footer :: ResultsFooter
  gv_players :: PlayersView

record ResultsProps =
  gp_room :: "RoomSnapshot option"
  gp_game :: GameSnapshot
  gp_players :: "PlayerSnapshot list"
  gp_playerId :: string
  gp_pendingDealChoice :: "PendingDealChoiceSnapshot option"
  gp_dealChooserName :: "string option"
  gp_isDealChooser :: bool

text \<open>The winner as a takeover shows it, and how it is announced.\<close>

definition takeoverShown :: "ResultsProps \<Rightarrow> string option \<Rightarrow> (string \<times> PlayerSnapshot) option" where
  "takeoverShown p dismissedKey =
     (let winner = winnerOf (gp_room p) (gp_game p) (gp_players p);
          takeoverKey = winnerTakeoverKey (gp_room p) (gp_game p) winner
      in if winnerTakeover takeoverKey dismissedKey
         then map_option (\<lambda>w. (or_else takeoverKey (pl_playerId w), w)) winner else None)"

definition resultsFooter :: "ResultsProps \<Rightarrow> ResultsFooter" where
  "resultsFooter p =
     (let isHost = (map_option room_hostPlayerId (gp_room p) = Some (gp_playerId p))
      in if isGameOver (gp_room p) then BackToLobby
         else if gp_pendingDealChoice p = None then StartNextRound (\<not> isHost) (\<not> isHost)
         else NoFooter)"

text \<open>\<open>reveal\<close> is the state \<open>useResultScoreReveal\<close> keeps and \<open>panel\<close> that of the choice of the deal; the footer says
  whether it asks to wait for the host and whether its button is disabled.\<close>

definition GameResultsView ::
  "BoardTexts \<Rightarrow> ResultsProps \<Rightarrow> bool \<Rightarrow> string option \<Rightarrow> ScoreRevealState \<Rightarrow> DealPanel \<Rightarrow> ResultsView" where
  "GameResultsView x p shouldReduceMotion dismissedKey reveal panel =
     (let winner = winnerOf (gp_room p) (gp_game p) (gp_players p);
          takeover = winnerTakeover (winnerTakeoverKey (gp_room p) (gp_game p) winner) dismissedKey;
          revealState = revealStateOf (gp_game p) shouldReduceMotion takeover reveal
      in \<lparr>gv_takeover = takeoverShown p dismissedKey,
          gv_title = resultTitle (gp_room p), gv_description = resultDescription (gp_room p) winner,
          gv_badge = (resultBadge (gp_room p), isGameOver (gp_room p)),
          gv_table = resultsTable x (gp_game p) (gp_players p) shouldReduceMotion revealState,
          gv_deal = (if isGameOver (gp_room p) then None
            else map_option (\<lambda>pending. DealChoicePanelContent (gp_players p) pending (gp_dealChooserName p)
              (gp_isDealChooser p) shouldReduceMotion panel) (gp_pendingDealChoice p)),
          gv_footer = resultsFooter p,
          gv_players = GameBoardPlayers (bx_m x) (bx_upper x) (bx_time x) (gp_players p) (Some (gp_game p)) False False False 0 True\<rparr>)"

text \<open>There is always exactly one way on: the choice of the deal, the next round, or the lobby; the next round is
  started by the host alone.\<close>

lemma one_way_on:
  "(gv_deal (GameResultsView x p reduced dismissed reveal panel) \<noteq> None)
     = (gv_footer (GameResultsView x p reduced dismissed reveal panel) = NoFooter)"
  "gv_footer (GameResultsView x p reduced dismissed reveal panel) = StartNextRound waiting disabled \<Longrightarrow>
     waiting = disabled \<and> (\<not> disabled \<longleftrightarrow> map_option room_hostPlayerId (gp_room p) = Some (gp_playerId p))"
  by (simp_all add: GameResultsView_def resultsFooter_def Let_def split: if_splits) blast

text \<open>While the takeover covers the page the table below waits with the scores the players had, so that they are
  revealed after it; with reduced motion they are final at once.\<close>

lemma table_waits_for_takeover:
  assumes "gv_takeover (GameResultsView x p False dismissed reveal panel) \<noteq> None"
  shows "\<forall>row \<in> set (gv_table (GameResultsView x p False dismissed reveal panel)). \<not> counts row \<and> \<not> rw_reordered row"
proof -
  have takeover: "winnerTakeover (winnerTakeoverKey (gp_room p) (gp_game p) (winnerOf (gp_room p) (gp_game p) (gp_players p))) dismissed"
    using assms by (auto simp: GameResultsView_def takeoverShown_def Let_def split: if_splits)
  let ?s = "freshReveal (scoreTimelineKey (gp_game p) False True)"
  have table: "gv_table (GameResultsView x p False dismissed reveal panel)
      = resultsTable x (gp_game p) (gp_players p) False ?s"
    using takeover by (simp add: GameResultsView_def revealStateOf_def Let_def)
  have "\<not> moving ?s i" for i by (simp add: moving_def freshReveal_def)
  with counting_moves have "\<not> counts row" if "row \<in> set (resultsTable x (gp_game p) (gp_players p) False ?s)" for row
    using that by blast
  then show ?thesis unfolding table
    by (auto simp: resultsTable_def ResultsScoreTable_def resultRow_def Let_def freshReveal_def)
qed

lemma reduced_motion_is_final:
  "finalTable (gp_game p) (gp_players p) (gv_table (GameResultsView x p True dismissed reveal panel))"
  unfolding GameResultsView_def by (simp add: Let_def final_table)

end
