(* ===== verification/Shell.thy ===== *)
theory Shell
  imports Frame BoardView
begin

text \<open>
  The shell of the pages: the theme with its switch and the toasts that follow it (\<open>theme-provider.tsx\<close>,
  \<open>theme-switcher.tsx\<close>, \<open>theme-aware-toaster.tsx\<close>), the languages (\<open>language-switcher.tsx\<close>), signing in
  (\<open>sign-in-button.tsx\<close>, \<open>game-auth.ts\<close>, \<open>verified-session.ts\<close>), the head of a document (\<open>page-title.ts\<close>,
  \<open>social-meta.ts\<close>), the pages for errors (\<open>global-route-status.tsx\<close>), and the labels of an activity on the table
  (\<open>game-view-utils.tsx\<close>).
\<close>

section \<open>The theme\<close>

text \<open>The storage, the preference of the system, the classes of the document, the state of the provider, and whether
  its effect listens to the system.\<close>

record ThemePage =
  th_stored :: "string option"
  th_prefersDark :: bool
  th_classes :: "string list"
  th_colorScheme :: string
  th_theme :: Theme
  th_listening :: bool

definition applyTheme :: "Theme \<Rightarrow> ThemePage \<Rightarrow> ThemePage" where
  "applyTheme theme s =
     (let resolved = themeText (appliedTheme (th_prefersDark s) theme)
      in s\<lparr>th_classes := filter (\<lambda>c. c \<noteq> ''light'' \<and> c \<noteq> ''dark'') (th_classes s) @ [resolved], th_colorScheme := resolved\<rparr>)"

text \<open>The effect after a render with a new theme: apply it, and listen only for the theme of the system.\<close>

definition themeEffect :: "ThemePage \<Rightarrow> ThemePage" where
  "themeEffect s = (applyTheme (th_theme s) s)\<lparr>th_listening := (th_theme s = SystemTheme)\<rparr>"

definition setTheme :: "Theme \<Rightarrow> ThemePage \<Rightarrow> ThemePage" where
  "setTheme next' s =
     (let s' = s\<lparr>th_stored := Some (themeText next'), th_theme := next'\<rparr>
      in if next' = th_theme s then s' else themeEffect s')"

text \<open>A page with the classes \<open>cs\<close> is loaded: the script, then the provider with its effect.\<close>

definition loadThemePage :: "string list \<Rightarrow> bool \<Rightarrow> string option \<Rightarrow> ThemePage" where
  "loadThemePage cs prefersDark stored =
     (let first = themeText (themeScript prefersDark stored)
      in themeEffect \<lparr>th_stored = stored, th_prefersDark = prefersDark, th_classes = cs @ [first], th_colorScheme = first,
           th_theme = resolveTheme stored, th_listening = False\<rparr>)"

datatype ThemeEvent = ThemeChosen Theme | SystemPrefers bool | ThemePageReloaded "string list"

text \<open>The switch offers the three themes.\<close>

definition themeOptions :: "(Theme \<times> string) list" where
  "themeOptions = [(LightTheme, ''theme_light''), (DarkTheme, ''theme_dark''), (SystemTheme, ''theme_system'')]"

fun theme_enabled :: "ThemeEvent \<Rightarrow> ThemePage \<Rightarrow> bool" where
  "theme_enabled (ThemeChosen theme) s \<longleftrightarrow> theme \<in> set (map fst themeOptions)"
| "theme_enabled (SystemPrefers dark) s \<longleftrightarrow> True"
| "theme_enabled (ThemePageReloaded cs) s \<longleftrightarrow> True"

fun theme_handle :: "ThemeEvent \<Rightarrow> ThemePage \<Rightarrow> ThemePage" where
  "theme_handle (ThemeChosen theme) s = setTheme theme s"
| "theme_handle (SystemPrefers dark) s =
     (let s' = s\<lparr>th_prefersDark := dark\<rparr> in if th_listening s then applyTheme SystemTheme s' else s')"
| "theme_handle (ThemePageReloaded cs) s = loadThemePage cs (th_prefersDark s) (th_stored s)"

text \<open>What is drawn is the theme chosen, for the system as it is now, and it is what the storage would bring back.\<close>

definition theme_ok :: "ThemePage \<Rightarrow> bool" where
  "theme_ok s \<longleftrightarrow>
     filter (\<lambda>c. c = ''light'' \<or> c = ''dark'') (th_classes s) = [themeText (appliedTheme (th_prefersDark s) (th_theme s))] \<and>
     th_colorScheme s = themeText (appliedTheme (th_prefersDark s) (th_theme s)) \<and>
     resolveTheme (th_stored s) = th_theme s \<and> (th_listening s \<longleftrightarrow> th_theme s = SystemTheme)"

lemma applied_text: "themeText (appliedTheme dark theme) = (if appliedTheme dark theme = DarkTheme then ''dark'' else ''light'')"
  by (cases theme) (simp_all add: appliedTheme_def themeText_def)

lemma applied_classes:
  "filter (\<lambda>c. c = ''light'' \<or> c = ''dark'') (th_classes (applyTheme theme s))
     = [themeText (appliedTheme (th_prefersDark s) theme)]"
  by (auto simp: applyTheme_def Let_def applied_text filter_empty_conv)

lemma theme_ok_effect: "resolveTheme (th_stored s) = th_theme s \<Longrightarrow> theme_ok (themeEffect s)"
  by (simp add: theme_ok_def themeEffect_def applied_classes) (simp add: applyTheme_def Let_def)

lemma theme_ok_load: "theme_ok (loadThemePage cs dark stored)"
  by (simp add: loadThemePage_def Let_def theme_ok_effect)

lemma theme_ok_handle: "theme_ok s \<Longrightarrow> theme_ok (theme_handle e s)"
proof (cases e)
  case (ThemeChosen theme)
  assume s: "theme_ok s"
  have "theme_ok (themeEffect (s\<lparr>th_stored := Some (themeText theme), th_theme := theme\<rparr>))"
    by (simp add: theme_ok_effect theme_survives_reload)
  moreover have "theme_ok (s\<lparr>th_stored := Some (themeText theme), th_theme := theme\<rparr>)" if "theme = th_theme s"
    using s that by (simp add: theme_ok_def theme_survives_reload)
  ultimately show ?thesis by (simp add: ThemeChosen setTheme_def Let_def)
next
  case (SystemPrefers dark)
  assume s: "theme_ok s"
  show ?thesis
  proof (cases "th_listening s")
    case True
    with s have "th_theme s = SystemTheme" by (simp add: theme_ok_def)
    with s True show ?thesis
      by (simp add: SystemPrefers theme_ok_def applied_classes) (simp add: applyTheme_def Let_def)
  next
    case False
    with s have "appliedTheme dark (th_theme s) = appliedTheme (th_prefersDark s) (th_theme s)"
      by (simp add: theme_ok_def appliedTheme_def)
    with s False show ?thesis by (simp add: SystemPrefers theme_ok_def)
  qed
qed (simp add: theme_ok_load)

interpretation theme: invariant "\<lambda>s. \<exists>cs dark stored. s = loadThemePage cs dark stored"
  "guarded_step theme_enabled theme_handle" theme_ok
  by unfold_locales (auto simp: theme_ok_load theme_ok_handle guarded_step_def)

text \<open>However the theme and the preference of the system change, the page is drawn in the chosen theme, a reload keeps
  it, and the confetti takes the colours of the theme on the page.\<close>

lemma page_is_themed:
  assumes "reach (guarded_step theme_enabled theme_handle) (loadThemePage cs dark stored) s"
  shows "th_colorScheme s = themeText (appliedTheme (th_prefersDark s) (th_theme s))"
    and "th_theme (theme_handle (ThemePageReloaded cs') s) = th_theme s"
    and "isDarkPage (th_classes s) p \<longleftrightarrow> appliedTheme (th_prefersDark s) (th_theme s) = DarkTheme"
proof -
  have ok: "theme_ok s" using theme.run_inv [OF _ assms] by blast
  then show "th_colorScheme s = themeText (appliedTheme (th_prefersDark s) (th_theme s))"
    and "th_theme (theme_handle (ThemePageReloaded cs') s) = th_theme s"
    by (simp_all add: theme_ok_def loadThemePage_def themeEffect_def applyTheme_def Let_def)
  have "set (filter (\<lambda>c. c = ''light'' \<or> c = ''dark'') (th_classes s)) = {themeText (appliedTheme (th_prefersDark s) (th_theme s))}"
    using ok by (simp add: theme_ok_def)
  then have "c \<in> set (th_classes s) \<longleftrightarrow> c = themeText (appliedTheme (th_prefersDark s) (th_theme s))"
    if "c = ''light'' \<or> c = ''dark''" for c using that by (auto simp: set_eq_iff)
  from this [of "''light''"] this [of "''dark''"]
  show "isDarkPage (th_classes s) p \<longleftrightarrow> appliedTheme (th_prefersDark s) (th_theme s) = DarkTheme"
    by (simp add: isDarkPage_def applied_text split: if_splits)
qed

definition toasterPosition :: "bool \<Rightarrow> string" where
  "toasterPosition isMobile = (if isMobile then ''top-center'' else ''bottom-right'')"

section \<open>Languages\<close>

definition localeLabels :: "string \<Rightarrow> string option" where
  "localeLabels locale = map_of [(''en'', ''language_english''), (''lv'', ''language_latvian'')] locale"

text \<open>The locales are those of the generated runtime.\<close>

definition LanguageOptions :: "string list \<Rightarrow> (string \<times> string option) list" where
  "LanguageOptions locales = map (\<lambda>locale. (locale, localeLabels locale)) locales"

section \<open>Signing in\<close>

text \<open>
  The button with its transition. The function given to \<open>startTransition\<close> starts the request and returns at once, so
  the transition ends with the next render, whether the request is settled or not.
\<close>

record SignInButton =
  sg_isPending :: bool
  sg_requests :: nat
  sg_addresses :: "string list"
  sg_toasts :: "string list"

datatype SignInEvent = SignInClicked | TransitionEnded | SignInSettled "AuthError + string"

fun signin_enabled :: "(AuthError + string) \<Rightarrow> SignInEvent \<Rightarrow> SignInButton \<Rightarrow> bool" where
  "signin_enabled outcome SignInClicked s \<longleftrightarrow> \<not> sg_isPending s"
| "signin_enabled outcome TransitionEnded s \<longleftrightarrow> sg_isPending s"
| "signin_enabled outcome (SignInSettled result) s \<longleftrightarrow> 0 < sg_requests s \<and> result = outcome"

fun signin_handle :: "SignInEvent \<Rightarrow> SignInButton \<Rightarrow> SignInButton" where
  "signin_handle SignInClicked s = s\<lparr>sg_isPending := True, sg_requests := sg_requests s + 1\<rparr>"
| "signin_handle TransitionEnded s = s\<lparr>sg_isPending := False\<rparr>"
| "signin_handle (SignInSettled result) s =
     (case result of
        Inl e \<Rightarrow> s\<lparr>sg_requests := sg_requests s - 1, sg_toasts := sg_toasts s @ [''error_sign_in_start'']\<rparr>
      | Inr url \<Rightarrow> s\<lparr>sg_requests := sg_requests s - 1, sg_addresses := sg_addresses s @ [url]\<rparr>)"

definition signInButton :: SignInButton where
  "signInButton = \<lparr>sg_isPending = False, sg_requests = 0, sg_addresses = [], sg_toasts = []\<rparr>"

text \<open>Every settled attempt led to the provider or to a toast; but the button is ready again, and takes a second click,
  while the first request is still under way.\<close>

lemma second_click_while_pending:
  "\<exists>s. run (signin_enabled outcome) signin_handle [SignInClicked, TransitionEnded, SignInClicked] signInButton = Some s \<and>
     sg_requests s = 2"
  by (simp add: signInButton_def)

lemma signin_one_outcome:
  assumes "reach (guarded_step (signin_enabled outcome) signin_handle) signInButton s"
  shows "(case outcome of Inl e \<Rightarrow> sg_addresses s = [] | Inr url \<Rightarrow> sg_toasts s = [] \<and> set (sg_addresses s) \<subseteq> {url})"
  using assms
proof (induction rule: reach.induct)
  case (reach_step s s')
  then obtain e where "signin_enabled outcome e s" "s' = signin_handle e s" by (auto simp: guarded_step_def)
  with reach_step.IH show ?case by (cases e) (auto split: sum.splits)
qed (simp add: signInButton_def split: sum.split)

text \<open>The identity for the connection to the game, from the session read past the cookie cache.\<close>

definition loadVerifiedSession :: "('h \<Rightarrow> bool \<Rightarrow> AuthSession option) \<Rightarrow> 'h \<Rightarrow> AuthSession option" where
  "loadVerifiedSession getSession headers = getSession headers True"

definition getGameConnectionAuth :: "('h \<Rightarrow> bool \<Rightarrow> AuthSession option) \<Rightarrow> 'h \<Rightarrow> (string \<times> string \<times> string) option" where
  "getGameConnectionAuth getSession headers = resolveGameConnectionAuth (loadVerifiedSession getSession headers)"

section \<open>The head of a document\<close>

definition pageTitle :: "(string \<Rightarrow> string) \<Rightarrow> string \<Rightarrow> string" where
  "pageTitle m title = title @ '' - '' @ m ''app_name''"

datatype SocialMeta = MetaName (meta_key: string) (meta_content: string) | MetaProperty (meta_key: string) (meta_content: string)

definition socialImage :: "string \<Rightarrow> string" where
  "socialImage origin = origin @ ''/social-card.png?v=2026-08-08''"

definition createSocialMeta ::
  "(string \<Rightarrow> string) \<Rightarrow> string \<Rightarrow> string \<Rightarrow> string \<Rightarrow> string \<Rightarrow> string option \<Rightarrow> SocialMeta list" where
  "createSocialMeta m title description origin type url =
     [MetaName ''description'' description, MetaProperty ''og:type'' type, MetaProperty ''og:site_name'' (m ''app_name''),
      MetaProperty ''og:title'' title, MetaProperty ''og:description'' description] @
     (case url of None \<Rightarrow> [] | Some u \<Rightarrow> if u = [] then [] else [MetaProperty ''og:url'' u]) @
     [MetaProperty ''og:image'' (socialImage origin), MetaProperty ''og:image:width'' ''1200'',
      MetaProperty ''og:image:height'' ''630'', MetaProperty ''og:image:alt'' (m ''social_image_alt''),
      MetaName ''twitter:card'' ''summary_large_image'', MetaName ''twitter:title'' title,
      MetaName ''twitter:description'' description, MetaName ''twitter:image'' (socialImage origin)]"

text \<open>The head of the page of a player: its title, its tags and its canonical address; \<open>localizeHref\<close> is of the generated
  runtime.\<close>

definition playerHead ::
  "(string \<Rightarrow> string) \<Rightarrow> (ProfileDescription \<Rightarrow> string) \<Rightarrow> (string \<Rightarrow> string) \<Rightarrow> string \<Rightarrow> PlayerProfile option \<Rightarrow>
     string \<times> SocialMeta list \<times> string" where
  "playerHead m describe localizeHref origin profile =
     (let title = pageTitle m (case profile of None \<Rightarrow> m ''profile_title'' | Some p \<Rightarrow> pr_name p);
          url = origin @ localizeHref (case profile of None \<Rightarrow> ''/'' | Some p \<Rightarrow> ''/players/'' @ pr_id p)
      in (title, createSocialMeta m title (describe (profileDescription profile)) origin ''profile'' (Some url), url))"

text \<open>No tag is given twice, the tags of both networks agree, and the shared address is the canonical one.\<close>

lemma social_tags:
  "distinct (map meta_key (createSocialMeta m title description origin type url))"
  "map_of (map (\<lambda>t. (meta_key t, meta_content t)) (createSocialMeta m title description origin type url)) ''og:title''
     = map_of (map (\<lambda>t. (meta_key t, meta_content t)) (createSocialMeta m title description origin type url)) ''twitter:title''"
  by (cases url; simp add: createSocialMeta_def)+

lemma player_address:
  "playerHead m describe localizeHref origin profile = (title, tags, url) \<Longrightarrow> url \<noteq> [] \<Longrightarrow>
     MetaProperty ''og:url'' url \<in> set tags \<and> MetaProperty ''og:title'' title \<in> set tags"
  unfolding playerHead_def Let_def createSocialMeta_def by clarsimp (simp split: option.splits if_splits)

section \<open>Pages for errors\<close>

record RouteStatus =
  st_eyebrow :: string
  st_title :: string
  st_description :: string
  st_buttons :: "string list"

definition GlobalRouteErrorBoundary :: "(string \<Rightarrow> string) \<Rightarrow> RouteStatus" where
  "GlobalRouteErrorBoundary m =
     \<lparr>st_eyebrow = m ''application_error'', st_title = m ''something_went_wrong'', st_description = m ''unexpected_page_error'',
      st_buttons = [m ''try_again'', m ''go_home'']\<rparr>"

definition GlobalNotFoundComponent :: "(string \<Rightarrow> string) \<Rightarrow> RouteStatus" where
  "GlobalNotFoundComponent m =
     \<lparr>st_eyebrow = ''404'', st_title = m ''page_not_found'', st_description = m ''page_not_found_description'',
      st_buttons = [m ''back_home'']\<rparr>"

text \<open>The effect that sends an error to the service: after a render with another error than the render before. The
  state is the error of the last run, and what was sent.\<close>

definition captureError :: "'e \<Rightarrow> 'e option \<times> 'e list \<Rightarrow> 'e option \<times> 'e list" where
  "captureError error = (\<lambda>(last', sent). if last' = Some error then (last', sent) else (Some error, sent @ [error]))"

lemma errors_sent_once:
  "snd (fold captureError errors (None, [])) = remdups_adj errors"
proof -
  have after: "fold captureError es (Some e, sent @ [e]) = (Some (last (e # es)), sent @ remdups_adj (e # es))" for es e sent
    by (induction es arbitrary: e sent) (simp_all add: captureError_def append_assoc [symmetric] del: append_assoc)
  show ?thesis
  proof (cases errors)
    case (Cons e es)
    then show ?thesis using after [of es e "[]"] by (simp add: captureError_def)
  qed simp
qed

section \<open>Labels of an activity\<close>

record ActivityLabel =
  al_label :: string
  al_icon :: string
  al_marker :: "(string option \<times> string) option"

text \<open>The picture of the player, or the initials.\<close>

definition PlayerMarker :: "(string \<Rightarrow> string) \<Rightarrow> PlayerSnapshot list \<Rightarrow> string option \<Rightarrow> (string option \<times> string) option" where
  "PlayerMarker toUpper players playerId =
     map_option (\<lambda>player. (case pl_imageUrl player of Some url \<Rightarrow> if url = [] then None else Some url | None \<Rightarrow> None,
       getUserInitials toUpper (pl_name player))) (playerById players playerId)"

definition activityLabel ::
  "(string \<Rightarrow> string) \<Rightarrow> PlayerSnapshot list \<Rightarrow> string option \<Rightarrow> string \<Rightarrow> string \<Rightarrow> ActivityLabel" where
  "activityLabel toUpper players playerId label icon =
     \<lparr>al_label = label, al_icon = icon,
      al_marker = (if playerId = None \<or> playerId = Some [] then None else PlayerMarker toUpper players playerId)\<rparr>"

definition NewActivityLabel :: "(string \<Rightarrow> string) \<Rightarrow> (string \<Rightarrow> string) \<Rightarrow> PlayerSnapshot list \<Rightarrow> string option \<Rightarrow> ActivityLabel" where
  "NewActivityLabel m toUpper players playerId = activityLabel toUpper players playerId (m ''activity_new'') ''Sparkles''"

definition AddActivityLabel :: "(string \<Rightarrow> string) \<Rightarrow> (string \<Rightarrow> string) \<Rightarrow> PlayerSnapshot list \<Rightarrow> string option \<Rightarrow> ActivityLabel" where
  "AddActivityLabel m toUpper players playerId = activityLabel toUpper players playerId (m ''activity_add'') ''Add01''"

definition ReclaimActivityLabel :: "(string \<Rightarrow> string) \<Rightarrow> (string \<Rightarrow> string) \<Rightarrow> PlayerSnapshot list \<Rightarrow> string option \<Rightarrow> ActivityLabel" where
  "ReclaimActivityLabel m toUpper players playerId = activityLabel toUpper players playerId (m ''activity_reclaim'') ''ChevronUp''"

text \<open>On the board no label of a new composition on the table carries a picture: the activity it is given has no player
  (\<open>no_submitted_highlight\<close>).\<close>

lemma new_label_without_player:
  assumes "p = tableCompositionProps (boardTurnActivity game) drafts canCompose viewer invalid composition"
    and "isNewComposition p"
  shows "al_marker (NewActivityLabel m toUpper players (Option.bind (rwp_activity p) act_playerId)) = None"
  using no_submitted_highlight(2) [of game drafts canCompose viewer invalid composition] assms
  by (simp add: NewActivityLabel_def activityLabel_def)

end
