(* ===== verification/HomeScreen.thy ===== *)
theory HomeScreen
  imports ResultsScreen Shell
begin

text \<open>
  The page of the game as drawn (\<open>protected-home.tsx\<close>) with the lobby (\<open>game-lobby-view.tsx\<close>): from the lobby state
  and the local states of the components to one of the loading screen, the results, the lobby and the board.
\<close>

section \<open>The lobby\<close>

record RoomPanel =
  rp_code :: string
  rp_mode :: "(GameMode \<times> bool \<times> string) option"
  rp_startDisabled :: "bool option"
  rp_leaveDisabled :: bool
  rp_deal :: "DealView option"
  rp_lastWinner :: "(string option \<times> int) option"

record LobbyScreen =
  ly_online :: "(nat \<times> nat) option"
  ly_room :: "RoomPanel option"
  ly_createDisabled :: "bool option"
  ly_join :: "(string \<times> bool) option"
  ly_players :: "(string \<times> bool \<times> StripRow list option) option"

record DealChoiceState =
  ds_pendingDealChoice :: "PendingDealChoiceSnapshot option"
  ds_dealChooserName :: "string option"
  ds_isDealChooser :: bool

record LobbyProps =
  lp_room :: "RoomSnapshot option"
  lp_game :: "GameSnapshot option"
  lp_completedGame :: "CompletedGameSnapshot option"
  lp_players :: "PlayerSnapshot list"
  lp_roomCode :: string
  lp_gameMode :: GameMode
  lp_actions :: RoomActions
  lp_dealChoice :: DealChoiceState
  lp_currentPlayerId :: "string option"

definition choicePanel :: "PlayerSnapshot list \<Rightarrow> DealChoiceState \<Rightarrow> bool \<Rightarrow> DealPanel \<Rightarrow> DealView option" where
  "choicePanel players d reducedMotion panel =
     map_option (\<lambda>pending. DealChoicePanelContent players pending (ds_dealChooserName d) (ds_isDealChooser d) reducedMotion panel)
       (ds_pendingDealChoice d)"

definition roomPanel :: "(string \<Rightarrow> string) \<Rightarrow> LobbyProps \<Rightarrow> bool \<Rightarrow> DealPanel \<Rightarrow> RoomSnapshot \<Rightarrow> RoomPanel" where
  "roomPanel m p reducedMotion panel room =
     (let isHost = isRoomHost (lp_room p) (lp_currentPlayerId p)
      in \<lparr>rp_code = room_code room,
          rp_mode = (if isHost then Some (lp_gameMode p, \<not> ra_canSelectGameMode (lp_actions p),
            m (if lp_gameMode p = QuickMode then ''quick_game_description'' else ''full_game_description'')) else None),
          rp_startDisabled = (if isHost then Some (\<not> ra_canStartGame (lp_actions p)) else None),
          rp_leaveDisabled = (\<not> ra_canLeaveRoom (lp_actions p)),
          rp_deal = choicePanel (lp_players p) (lp_dealChoice p) reducedMotion panel,
          rp_lastWinner = map_option (\<lambda>c. (map_option pl_name (victorOf (lp_completedGame p) (lp_players p)), game_round (done_game c)))
            (lp_completedGame p)\<rparr>)"

text \<open>Only a player of the room is drawn; outside of a room there are the two ways into one.\<close>

definition GameLobbyView :: "(string \<Rightarrow> string) \<Rightarrow> LobbyProps \<Rightarrow> bool \<Rightarrow> DealPanel \<Rightarrow> LobbyScreen" where
  "GameLobbyView m p reducedMotion panel =
     \<lparr>ly_online = (if lp_room p = None then None else Some (connectedCount (lp_players p), length (lp_players p))),
      ly_room = map_option (roomPanel m p reducedMotion panel) (lp_room p),
      ly_createDisabled = (if lp_room p = None then Some (\<not> ra_canCreateRoom (lp_actions p)) else None),
      ly_join = (if lp_room p = None then Some (lp_roomCode p, \<not> canSubmitRoomCode (lp_actions p) (lp_roomCode p)) else None),
      ly_players = (if lp_room p = None then None
        else Some (m (if lp_players p = [] then ''no_room_yet'' else ''seats''), lp_players p \<noteq> [],
          if lp_players p = [] then None else Some (playerStrip True True (lp_game p) (lp_players p))))\<rparr>"

text \<open>The controls on the screen, with what they can send.\<close>

definition lobbyOffers :: "LobbyScreen \<Rightarrow> LobbyUiEvent \<Rightarrow> bool" where
  "lobbyOffers screen e \<longleftrightarrow>
     (case e of
        CreateClick \<Rightarrow> ly_createDisabled screen = Some False
      | CodeSubmit \<Rightarrow> ly_join screen \<noteq> None
      | StartClick \<Rightarrow> Option.bind (ly_room screen) rp_startDisabled = Some False
      | LeaveClick \<Rightarrow> map_option rp_leaveDisabled (ly_room screen) = Some False
      | ModeToggle modes \<Rightarrow> (\<exists>mode text. Option.bind (ly_room screen) rp_mode = Some (mode, False, text)))"

text \<open>What the lobby offers is exactly what \<open>lobbyEventEnabled\<close> allows, so the facts about its calls hold of the screen.\<close>

lemma lobby_offers:
  "lobbyOffers (GameLobbyView m p reduced panel) e \<longleftrightarrow>
     lobbyEventEnabled (lp_actions p) (lp_room p) (lp_currentPlayerId p) e"
  by (cases "lp_room p"; cases e) (simp_all add: lobbyOffers_def lobbyEventEnabled_def GameLobbyView_def roomPanel_def Let_def)

section \<open>The page\<close>

definition roomShareUrl :: "(string \<Rightarrow> string \<Rightarrow> string) \<Rightarrow> string option \<Rightarrow> string \<Rightarrow> string" where
  "roomShareUrl withRoom href code = (case href of None \<Rightarrow> code | Some url \<Rightarrow> withRoom code url)"

text \<open>The text of a toast after copying: \<open>written\<close> says whether the clipboard took the text. The code and the link
  are copied only in a room.\<close>

definition copyText :: "bool \<Rightarrow> string \<Rightarrow> string" where
  "copyText written successMessage = (if written then successMessage else ''clipboard_copy_failed'')"

definition copyRoom :: "(string \<Rightarrow> string) \<Rightarrow> bool \<Rightarrow> string \<Rightarrow> LobbyState \<Rightarrow> (string \<times> string) option" where
  "copyRoom address written successMessage state =
     (case ls_room state of
        None \<Rightarrow> None
      | Some room \<Rightarrow> if room_code room = [] then None else Some (address (room_code room), copyText written successMessage))"

text \<open>The effect that shows an error: a toast, and the error is dismissed, so that it is shown once.\<close>

definition errorEffect :: "LobbyState \<Rightarrow> string option \<times> LobbyState" where
  "errorEffect state =
     (case ls_lastError state of
        None \<Rightarrow> (None, state)
      | Some e \<Rightarrow> if e = [] then (None, state) else (Some e, clearError state (\<lambda>c. c)))"

lemma error_shown_once: "errorEffect (snd (errorEffect state)) = (None, snd (errorEffect state))"
  by (auto simp: errorEffect_def clearError_def split: option.splits)

record HomeLocal =
  hl_input :: PageInput
  hl_gameMode :: GameMode
  hl_visible :: "RoundResultsSnapshot option"
  hl_reducedMotion :: bool
  hl_dismissedTakeover :: "string option"
  hl_reveal :: ScoreRevealState
  hl_panel :: DealPanel
  hl_board :: BoardState
  hl_stage :: "string option"

definition dealChoiceOf :: "LobbyState \<Rightarrow> DealChoiceState" where
  "dealChoiceOf state =
     \<lparr>ds_pendingDealChoice = pendingDealChoiceOf state, ds_dealChooserName = map_option pl_name (dealChooser state),
      ds_isDealChooser = isDealChooser state\<rparr>"

definition lobbyGameMode :: "LobbyState \<Rightarrow> GameMode \<Rightarrow> GameMode" where
  "lobbyGameMode state gameMode =
     (if pendingDealChoiceOf state \<noteq> None then or_else (Option.bind (ls_room state) room_gameMode) gameMode else gameMode)"

definition lobbyPropsOf :: "LobbyState \<Rightarrow> HomeLocal \<Rightarrow> LobbyProps" where
  "lobbyPropsOf state h =
     \<lparr>lp_room = ls_room state, lp_game = ls_game state, lp_completedGame = ls_completedGame state, lp_players = pagePlayers state,
      lp_roomCode = pg_roomCode (hl_input h), lp_gameMode = lobbyGameMode state (hl_gameMode h),
      lp_actions = lobbyActions (pg_roomCode (hl_input h)) (isHost state \<and> pendingDealChoiceOf state = None) state,
      lp_dealChoice = dealChoiceOf state, lp_currentPlayerId = Some (ls_playerId state)\<rparr>"

definition resultsPropsOf :: "LobbyState \<Rightarrow> RoundResultsSnapshot \<Rightarrow> ResultsProps" where
  "resultsPropsOf state results =
     \<lparr>gp_room = rr_room results, gp_game = rr_game results, gp_players = playersForResults (rr_room results) (ls_room state),
      gp_playerId = ls_playerId state, gp_pendingDealChoice = pendingDealChoiceOf state,
      gp_dealChooserName = map_option pl_name (dealChooser state), gp_isDealChooser = isDealChooser state\<rparr>"

definition boardPropsOf :: "BoardTexts \<Rightarrow> LobbyState \<Rightarrow> HomeLocal \<Rightarrow> BoardViewProps" where
  "boardPropsOf x state h =
     \<lparr>vp_board = pageBoardProps (bx_m x ''waiting'') state, vp_players = pagePlayers state,
      vp_spectatorCount = Some (or_else (Option.bind (ls_room state) room_spectatorCount) 0),
      vp_spectating = ls_isSpectating state, vp_stage = hl_stage h\<rparr>"

datatype HomeBody = ResultsBody ResultsView | LobbyBody LobbyScreen | BoardBody BoardView

datatype HomeScreen = LoadingHome string | Home string bool HomeBody

definition currentPageTitle :: "(string \<Rightarrow> string) \<Rightarrow> LobbyState \<Rightarrow> RoundResultsSnapshot option \<Rightarrow> string" where
  "currentPageTitle m state visibleRoundResults =
     m (if visibleRoundResults \<noteq> None then ''results''
        else if isLobbyPhase state then (if ls_room state \<noteq> None then ''lobby'' else ''start'') else ''board'')"

definition ProtectedHome :: "BoardTexts \<Rightarrow> LobbyState \<Rightarrow> HomeLocal \<Rightarrow> HomeScreen" where
  "ProtectedHome x state h =
     (if isGameRouteSnapshotResolving state then LoadingHome (pageTitle (bx_m x) (bx_m x ''loading''))
      else Home (pageTitle (bx_m x) (currentPageTitle (bx_m x) state (hl_visible h))) (ls_isSpectating state)
        (case hl_visible h of
           Some results \<Rightarrow> ResultsBody (GameResultsView x (resultsPropsOf state results) (hl_reducedMotion h)
             (hl_dismissedTakeover h) (hl_reveal h) (hl_panel h))
         | None \<Rightarrow>
             if isLobbyPhase state
             then LobbyBody (GameLobbyView (bx_m x) (lobbyPropsOf state h) (hl_reducedMotion h) (hl_panel h))
             else BoardBody (GameBoardView x (boardPropsOf x state h) (hl_board h))))"

text \<open>What is drawn is the view that \<open>pageView\<close> names, under its own title.\<close>

lemma screen_shows_view:
  "ProtectedHome x state h =
     (case pageView state (hl_visible h) of
        LoadingView \<Rightarrow> LoadingHome (pageTitle (bx_m x) (bx_m x ''loading''))
      | ResultsPageView results \<Rightarrow> Home (pageTitle (bx_m x) (bx_m x ''results'')) (ls_isSpectating state)
          (ResultsBody (GameResultsView x (resultsPropsOf state results) (hl_reducedMotion h) (hl_dismissedTakeover h)
            (hl_reveal h) (hl_panel h)))
      | LobbyView \<Rightarrow> Home (pageTitle (bx_m x) (bx_m x (if ls_room state = None then ''start'' else ''lobby''))) (ls_isSpectating state)
          (LobbyBody (GameLobbyView (bx_m x) (lobbyPropsOf state h) (hl_reducedMotion h) (hl_panel h)))
      | BoardView \<Rightarrow> Home (pageTitle (bx_m x) (bx_m x ''board'')) (ls_isSpectating state)
          (BoardBody (GameBoardView x (boardPropsOf x state h) (hl_board h))))"
  by (simp add: ProtectedHome_def pageView_def currentPageTitle_def split: option.split)

text \<open>The start button of the lobby is enabled only for the host of the room, flagged as such by the server, with two
  players, everyone still in the game online, and no deal to be chosen; then the choice of the deal is not drawn.\<close>

lemma lobby_start_allowed:
  assumes "ProtectedHome x state h = Home title notice (LobbyBody screen)" and "lobbyOffers screen StartClick"
  shows "isHost state \<and> isRoomHost (ls_room state) (Some (ls_playerId state)) \<and> 2 \<le> length (pagePlayers state) \<and>
    list_all pl_connected (activePlayers state) \<and> Option.bind (ly_room screen) rp_deal = None"
proof -
  have screen: "screen = GameLobbyView (bx_m x) (lobbyPropsOf state h) (hl_reducedMotion h) (hl_panel h)"
    using assms(1) by (auto simp: ProtectedHome_def split: if_splits option.splits)
  have "canStartGame state" and "isRoomHost (ls_room state) (Some (ls_playerId state))"
    using assms(2) by (simp_all add: screen lobby_offers lobbyEventEnabled_def lobbyPropsOf_def lobbyActions_def)
  moreover from this(1) have "Option.bind (ly_room screen) rp_deal = None"
    by (cases "ls_room state")
      (simp_all add: canStartGame_def screen GameLobbyView_def roomPanel_def Let_def choicePanel_def lobbyPropsOf_def dealChoiceOf_def)
  ultimately show ?thesis by (simp add: canStartGame_def allPlayersConnected_def)
qed

text \<open>A room is joined from the form only with a code of full length, from outside of a room and over an open connection.\<close>

lemma lobby_join_allowed:
  assumes "lobbyEventCall (lp_actions (lobbyPropsOf state h)) (lp_roomCode (lobbyPropsOf state h)) e = Some (JoinRoomCall code)"
  shows "ls_connectionStatus state = Connected \<and> ls_room state = None \<and> length code = ROOM_CODE_LENGTH"
  using assms lobby_joins_with_full_code by (fastforce simp: lobbyPropsOf_def)

text \<open>The piles of the board can be drawn from only in the own turn and before a card was drawn.\<close>

lemma piles_in_own_turn:
  assumes "ProtectedHome x state h = Home title notice (BoardBody board)"
    and "pile = fst (bv_piles board) \<or> pile = snd (bv_piles board)"
    and "pv_card pile = Some e" and "ce_drag e = Draggable i False"
  shows "isGameInProgress state \<and> isMyTurn state \<and> \<not> canDiscard state"
proof -
  have "board = GameBoardView x (boardPropsOf x state h) (hl_board h)"
    using assms(1) by (auto simp: ProtectedHome_def split: if_splits option.splits)
  then have piles: "bv_piles board = boardPiles x (pageBoardProps (bx_m x ''waiting'') state)"
    by (simp add: GameBoardView_def boardPropsOf_def Let_def)
  have "canDrawDeck state \<or> canDrawDiscard state"
    using assms(2-4) unfolding piles
    by (auto simp: boardPiles_def GameBoardPiles_def TableCardPile_def GameCard_def pageBoardProps_def split: if_splits)
  then have "canDraw state" by (auto simp: canDrawDeck_def canDrawDiscard_def)
  then show ?thesis by (auto simp: canDraw_def canDiscard_def)
qed

text \<open>A round that follows is started by the host of the results on the page, and only while no deal is to be chosen.\<close>

lemma next_round_allowed:
  assumes "ProtectedHome x state h = Home title notice (ResultsBody results)"
    and "gv_footer results = StartNextRound waiting False"
  shows "\<exists>r room. hl_visible h = Some r \<and> rr_room r = Some room \<and> room_hostPlayerId room = ls_playerId state \<and>
    pendingDealChoiceOf state = None \<and> gv_deal results = None"
proof -
  obtain r where r: "hl_visible h = Some r"
    and results: "results = GameResultsView x (resultsPropsOf state r) (hl_reducedMotion h) (hl_dismissedTakeover h) (hl_reveal h) (hl_panel h)"
    using assms(1) by (auto simp: ProtectedHome_def split: if_splits option.splits)
  have footer: "resultsFooter (resultsPropsOf state r) = StartNextRound waiting False"
    using assms(2) by (simp add: results GameResultsView_def Let_def)
  then have "pendingDealChoiceOf state = None \<and> map_option room_hostPlayerId (rr_room r) = Some (ls_playerId state)"
    by (auto simp: resultsFooter_def resultsPropsOf_def Let_def split: if_splits)
  then show ?thesis using r by (auto simp: results GameResultsView_def resultsPropsOf_def Let_def)
qed

end
