(* ===== verification/Spec2Isabelle.thy ===== *)
theory Spec2Isabelle
  imports CardUtils HandEntries DropIds DraftOps JokerReclaims TablePlay
    LobbyReducer Connection BoardPlay SoundEvents SpectatorPreview Results CardTransfer DealChoice Tutorial GamePage Calendar Social Leaderboard
    HandOrderStore Flights DateRange Profile Coach RevealHook LobbyPage Controls Frame BoardScreen TableScreen RankingPage DealScreen BoardView AdminScreen
    ResultsScreen Shell HomeScreen
begin

text \<open>
  The browser client of Compositions, a card game of the rummy family, as HOL definitions with the theorems that make
  it correct. The sources are below \<open>frontend/src\<close>; the game server (Go) decides the game and is not part of this
  development: what it sends is an arbitrary message, what it answers is an arbitrary answer.

  \<^bold>\<open>How the program works.\<close> A connection controller keeps one socket to the server, reduces the messages to
  one lobby state, and hands out actions as promises that the answers settle (\<open>game-websocket-provider.tsx\<close>). The
  game page picks what to show from that state (\<open>protected-home.tsx\<close>): the lobby, the choice of the deal, the board,
  or results. On the board (\<open>game-board-view.tsx\<close>) the player drags cards into drafts; only a submit sends them, as
  one request, and the drafts are shown to the others meanwhile. Around it stand the tutorial, which plays a scripted
  game on the same board, animations and sounds derived from consecutive snapshots, and the pages of a signed-in player.

  \<^bold>\<open>The foundation.\<close>
  \<^item> \<open>JsPrelude\<close>, \<open>JsText\<close>: what the sources use of JavaScript: indices out of range, \<open>slice\<close>, \<open>splice\<close>,
    \<open>??\<close>, truth of texts, insertion-ordered maps, \<open>String(n)\<close>, \<open>Number(s)\<close>, \<open>trim\<close>. Numbers of the
    data are integers, so a number is an \<open>int\<close>; the types of the sources become records and datatypes of the same names.
  \<^item> \<open>Machine\<close>: runs of a transition system and the locale \<open>invariant\<close>. A component with state is a record, a datatype
    of events, a condition of when an event can happen and one function that handles it; every invariant of the
    development is an interpretation of this locale on that function, and what holds in every run follows by \<open>run_inv\<close>.
  \<^item> \<open>GameTypes\<close>: snapshots, requests, social state and the lobby state.

  \<^bold>\<open>Cards and drafts.\<close>
  \<^item> \<open>CardUtils\<close> (\<open>game-card-utils.ts\<close>, \<open>card-equality.ts\<close>): values of sets and runs with jokers; the loops of
    the code decide exactly \<open>is_set\<close> and \<open>fits_run\<close>, for all lengths.
  \<^item> \<open>HandEntries\<close>, \<open>DropIds\<close>, \<open>DraftOps\<close>, \<open>JokerReclaims\<close>, \<open>TablePlay\<close> (\<open>game-board-view-state.ts\<close>):
    keys of the hand and its order, names of the drop zones and their parsers, the edits of drafts, which staged card
    replaces which joker, validation, and the request. Locales: \<open>array_move\<close> (what \<open>arrayMove\<close> of the drag and drop
    library does), \<open>draft_edit\<close> (an edit keeps the drafts well formed), \<open>reclaim_planner\<close>.
  \<^item> \<open>HandOrderStore\<close> (\<open>game-hand-order-store.ts\<close>): orders that survive a reload.

  \<^bold>\<open>The connection.\<close>
  \<^item> \<open>LobbyReducer\<close>: one function per message, error texts, and the invariant of the lobby.
  \<^item> \<open>Connection\<close>: sockets, authorisation, reconnect timers and pending actions as a machine over browser events. The
    server address and the parser of messages are parameters. A callback of a socket that was replaced may still come.

  \<^bold>\<open>The board.\<close>
  \<^item> \<open>BoardRender\<close>: the values of a render. \<open>BoardController\<close>: the handlers of the drag and drop library, the effects
    and the submits, with what they send recorded as effects; an asynchronous handler is split at its call.
  \<^item> \<open>BoardPlay\<close>: what the board promises: the hand order is a permutation of the hand, drafts are well formed, and
    whatever was dragged, a call spends only own cards, each once. Locale \<open>harmless_effects\<close> with the interpretations
    \<open>spending\<close>, \<open>calm\<close> and \<open>unspending\<close>.
  \<^item> \<open>BoardScreen\<close> (\<open>game-card.tsx\<close>, \<open>game-board-hand.tsx\<close>, \<open>game-board-piles.tsx\<close>, the drop zones): faces of cards,
    piles, the hand, the card in the air and its place in the window.
  \<^item> \<open>SpectatorPreview\<close> (\<open>game-board-table-state.ts\<close>, \<open>game-board-table.tsx\<close>): the rows others build from a sent
    draft, refined by the own row of \<open>TablePlay\<close>. \<open>TableScreen\<close>: the cards of a row with their handles, highlights
    and drop targets, and the table around the rows.
  \<^item> \<open>BoardView\<close> (\<open>game-board-view.tsx\<close>, \<open>game-board-players.tsx\<close>, \<open>player-emotes.tsx\<close>): the players beside the board,
    emotes, the activity the table is given, the announcement of the own turn, and the board composed of table, piles,
    hand and the card in the air. A card on it has one handle.
  \<^item> \<open>CardTransfer\<close>, \<open>Flights\<close> (\<open>card-transfer-state.ts\<close>, \<open>card-transfer-animation.tsx\<close>,
    \<open>completed-composition-animation.tsx\<close>): which movement to play between two snapshots and how it is played.
  \<^item> \<open>SoundEvents\<close> (\<open>game-sound-events.ts\<close>): which sounds follow from two lobby states.

  \<^bold>\<open>The game around the board.\<close>
  \<^item> \<open>GamePage\<close> (\<open>protected-home.tsx\<close>, \<open>room-code.ts\<close>): the view, the board it feeds, and the results held back for
    at most 920 ms, the length of the last two animations. \<open>Results\<close>, \<open>RevealHook\<close>: scores,
    ranking and their reveal over any renders. \<open>ResultsScreen\<close>: the numbers of a row in each phase, the table and the page
    of the results. \<open>DealChoice\<close>: the cut,
    at most the deck left after dealing (108 less 12 cards a player), and the order of tapping. \<open>DealScreen\<close>
    (\<open>deal-choice-panel.tsx\<close>): the drawing of the deck, the controls and what they offer, and the panel as it is mounted
    anew by its key while snapshots arrive (interpretation \<open>mounted\<close>).
  \<^item> \<open>Tutorial\<close>, \<open>Coach\<close> (\<open>game-onboarding.tsx\<close>): the practice game on the board of \<open>BoardController\<close>, the provider,
    the spotlights and the card of instructions.
  \<^item> \<open>LobbyPage\<close>, \<open>Controls\<close>: the lobby, players, emotes, the menu of a game and the vote on its end.
  \<^item> \<open>HomeScreen\<close> (\<open>game-lobby-view.tsx\<close>, \<open>protected-home.tsx\<close>): the page as drawn, from the lobby state and the states of
    its components to the loading screen, the results, the lobby or the board, and what its controls offer.

  \<^bold>\<open>The other pages.\<close>
  \<^item> \<open>Social\<close> (friends, notifications), \<open>Leaderboard\<close> and \<open>RankingPage\<close>, \<open>Pages\<close> (bug reports of the administration), \<open>Profile\<close>,
    \<open>Calendar\<close> and \<open>DateRange\<close> (dashboard of the analytics). The locale \<open>paging\<close> is the contract of a list in pages,
    interpreted as \<open>reports\<close> and \<open>history\<close>. Dates are proved for the years 1000 to 9997, where \<open>Date\<close> prints four
    digits (1002 to 9995 for the range around the picked period).
  \<^item> \<open>Browser\<close>: clipboard, stored preferences, themes, confetti, calls of the session. \<open>Routes\<close>: guards, redirects and
    loaders, with the router library as a parameter that \<open>router_ok\<close> describes; a chain of redirects is a
    \<open>partial_function\<close>, so that it ends is a theorem. \<open>Frame\<close>: sidebar, automatic connection, signing out.
  \<^item> \<open>AdminScreen\<close> (\<open>admin-bug-reports-page.tsx\<close>, \<open>admin-analytics-dashboard.tsx\<close>): the table of the reports, the sheet
    of one report with its completion, the figures and charts of the dashboard. \<open>Shell\<close>: the theme as it is chosen, drawn
    and reloaded, the sign-in button, the head of a document, the pages for errors, and labels of an activity.

  \<^bold>\<open>What the theorems show.\<close> C1 to C9 and their neighbours follow a card from the hand through drafts, reclaims and
  validation into one request: it is neither lost nor doubled, a cancelled drag restores everything, and what the others
  see is what will be played. The theorems on the connection say that there is one live socket, that a request is settled
  once and only once, and that nothing is left after a disconnect. The rest states the invariants of the pages (results,
  tutorial, friends, paging, dates), what ends and when (counting, flights, invitations, redirects), and round trips of
  zones, orders and dates. No definition uses fuel: the loops of the sources are structural
  recursion or folds over lists.

  \<^bold>\<open>What the code must be given.\<close> Hypotheses name what a theorem relies on from outside: the laws of \<open>arrayMove\<close>,
  that a comparison of names is an order, that the callback of a finished animation comes at most 20 ms late, what the router does with addresses, that the server
  sends hands and numbers of the ranges the rules give, that ids of players hold neither a colon nor a comma
  (\<open>plain_ids\<close>, for the key of the deal choice). Each is met by a concrete instance in the witness of its theorem.

  \<^bold>\<open>Not modelled.\<close> Styles, motion and the translated texts, and what only wraps a library: the drawing of charts, the kit
  of components in \<open>components/ui\<close> (but for the state of the sidebar), the rules guide, the keyframes for cards that others
  stage, sounds and confetti as such, the configuration of the router and the server, and the development pages with their
  sample data. Of the ranking, the profile, the friends, the notifications, the tutorial and the menus the states and what
  is derived from them are modelled, not all of their markup. Formats of numbers and dates that follow the locale of the
  host are left out; requests are modelled from their answers on.
\<close>

end
